(* ===== verification/Prelude.thy ===== *)
theory Prelude
  imports Main "HOL-Library.Word"
begin

text \<open>
  Shared vocabulary of the development: identifiers and instants, the result
  type of fallible Rust code (\<open>Result<T, E>\<close> is \<open>'e + 'a\<close>, \<open>Inl\<close> the error),
  state passing for the asynchronous services, the scanning functions of
  Rust's \<open>str\<close> that the sources call, saturating \<open>u64\<close> arithmetic, and lemmas
  on tables (lists of rows) that every repository proof uses.
\<close>

named_theorems st_simps \<open>evaluation rules of the state-passing combinators\<close>
named_theorems st_invert \<open>what a successful or failed run of a combinator implies\<close>

section \<open>Identifiers and instants\<close>

text \<open>
  A UUID is an opaque value that is only compared; freshly drawn ones are
  arguments of the operations that draw them. An instant or a
  \<open>chrono::Duration\<close> is a number of nanoseconds, the resolution of the library.
\<close>

type_synonym uuid = nat
type_synonym instant = int
type_synonym duration = int
type_synonym byte = "8 word"
type_synonym u8 = "8 word"
type_synonym u32 = "32 word"
type_synonym u64 = "64 word"

definition seconds :: "int \<Rightarrow> duration" where
  "seconds n = n * 1000000000"

definition minutes :: "int \<Rightarrow> duration" where
  "minutes n = seconds (60 * n)"

definition hours :: "int \<Rightarrow> duration" where
  "hours n = minutes (60 * n)"

definition days :: "int \<Rightarrow> duration" where
  "days n = hours (24 * n)"

text \<open>\<open>Duration::num_seconds\<close> truncates towards zero.\<close>

definition num_seconds :: "duration \<Rightarrow> int" where
  "num_seconds d = (if d < 0 then - ((- d) div 1000000000) else d div 1000000000)"

text \<open>\<open>DateTime::timestamp\<close> counts whole seconds since the epoch, rounding down.\<close>

definition timestamp :: "instant \<Rightarrow> int" where
  "timestamp t = t div 1000000000"

lemma num_seconds_le_iff: "0 \<le> n \<Longrightarrow> num_seconds d \<le> n \<longleftrightarrow> d < seconds (n + 1)"
  unfolding num_seconds_def seconds_def by auto

section \<open>Results\<close>

definition rbind :: "'e + 'a \<Rightarrow> ('a \<Rightarrow> 'e + 'b) \<Rightarrow> 'e + 'b" where
  "rbind m f = (case m of Inl e \<Rightarrow> Inl e | Inr x \<Rightarrow> f x)"

definition map_err :: "('e \<Rightarrow> 'f) \<Rightarrow> 'e + 'a \<Rightarrow> 'f + 'a" where
  "map_err g m = (case m of Inl e \<Rightarrow> Inl (g e) | Inr x \<Rightarrow> Inr x)"

definition ok_or :: "'e \<Rightarrow> 'a option \<Rightarrow> 'e + 'a" where
  "ok_or e m = (case m of None \<Rightarrow> Inl e | Some x \<Rightarrow> Inr x)"

definition guard :: "'e \<Rightarrow> bool \<Rightarrow> 'e + unit" where
  "guard e ok = (if ok then Inr () else Inl e)"

lemma rbind_simps [simp]: "rbind (Inl e) f = Inl e" "rbind (Inr x) f = f x"
  by (simp_all add: rbind_def)

lemma rbind_Inr [simp]: "rbind m f = Inr y \<longleftrightarrow> (\<exists>x. m = Inr x \<and> f x = Inr y)"
  by (cases m) simp_all

lemma map_err_simps [simp]: "map_err g (Inl e) = Inl (g e)" "map_err g (Inr x) = Inr x"
  by (simp_all add: map_err_def)

lemma map_err_Inr [simp]: "map_err g m = Inr y \<longleftrightarrow> m = Inr y"
  by (cases m) simp_all

lemma ok_or_simps [simp]: "ok_or e None = Inl e" "ok_or e (Some x) = Inr x"
  by (simp_all add: ok_or_def)

lemma ok_or_Inr [simp]: "ok_or e m = Inr y \<longleftrightarrow> m = Some y"
  by (cases m) simp_all

lemma guard_simps [simp]: "guard e True = Inr ()" "guard e False = Inl e"
  by (simp_all add: guard_def)

lemma guard_Inr [simp]: "guard e b = Inr u \<longleftrightarrow> b"
  by (simp add: guard_def)

text \<open>
  \<open>Option::transpose\<close> and \<open>collect::<Result<Vec<_>, _>>\<close>: an absent value is no
  error, and the first failing element decides the whole collection.
\<close>

definition transpose_opt :: "('e + 'a) option \<Rightarrow> 'e + 'a option" where
  "transpose_opt m = (case m of None \<Rightarrow> Inr None | Some (Inl e) \<Rightarrow> Inl e | Some (Inr x) \<Rightarrow> Inr (Some x))"

fun collect_results :: "('a \<Rightarrow> 'e + 'b) \<Rightarrow> 'a list \<Rightarrow> 'e + 'b list" where
  "collect_results f [] = Inr []"
| "collect_results f (x # xs) =
     rbind (f x) (\<lambda>y. rbind (collect_results f xs) (\<lambda>ys. Inr (y # ys)))"

lemma transpose_opt_simps [simp]:
  "transpose_opt None = Inr None"
  "transpose_opt (Some (Inl e)) = Inl e"
  "transpose_opt (Some (Inr x)) = Inr (Some x)"
  by (simp_all add: transpose_opt_def)

lemma transpose_opt_Inr_Some [simp]:
  "transpose_opt m = Inr (Some x) \<longleftrightarrow> m = Some (Inr x)"
  by (auto simp: transpose_opt_def split: option.splits sum.splits)

lemma transpose_opt_Inr_None [simp]: "transpose_opt m = Inr None \<longleftrightarrow> m = None"
  by (auto simp: transpose_opt_def split: option.splits sum.splits)

lemma collect_results_Inr:
  "collect_results f xs = Inr ys \<longleftrightarrow> list_all2 (\<lambda>x y. f x = Inr y) xs ys"
  by (induction xs arbitrary: ys) (auto simp: list_all2_Cons1)

lemma collect_results_from:
  "collect_results f xs = Inr ys \<Longrightarrow> y \<in> set ys \<Longrightarrow> \<exists>x \<in> set xs. f x = Inr y"
  by (induction xs arbitrary: ys) auto

lemma collect_results_to:
  "collect_results f xs = Inr ys \<Longrightarrow> x \<in> set xs \<Longrightarrow> \<exists>y \<in> set ys. f x = Inr y"
  by (induction xs arbitrary: ys) auto

lemma collect_results_map:
  "(\<And>x. x \<in> set xs \<Longrightarrow> f x = Inr (g x)) \<Longrightarrow> collect_results f xs = Inr (map g xs)"
  by (induction xs) auto

section \<open>State passing\<close>

text \<open>
  A service call takes the stored state and gives its result together with the
  state it leaves. The state survives an error: statements that ran before the
  failing one keep their effect, as they do in a program without a surrounding
  transaction.
\<close>

type_synonym ('s, 'e, 'a) st = "'s \<Rightarrow> ('e + 'a) \<times> 's"

definition sret :: "'a \<Rightarrow> ('s, 'e, 'a) st" where
  "sret x s = (Inr x, s)"

definition sfail :: "'e \<Rightarrow> ('s, 'e, 'a) st" where
  "sfail e s = (Inl e, s)"

definition slift :: "'e + 'a \<Rightarrow> ('s, 'e, 'a) st" where
  "slift r s = (r, s)"

definition sbind :: "('s, 'e, 'a) st \<Rightarrow> ('a \<Rightarrow> ('s, 'e, 'b) st) \<Rightarrow> ('s, 'e, 'b) st" where
  "sbind m f s = (case m s of (Inl e, s') \<Rightarrow> (Inl e, s') | (Inr x, s') \<Rightarrow> f x s')"

definition smap_err :: "('e \<Rightarrow> 'f) \<Rightarrow> ('s, 'e, 'a) st \<Rightarrow> ('s, 'f, 'a) st" where
  "smap_err g m s = (case m s of (r, s') \<Rightarrow> (map_err g r, s'))"

text \<open>\<open>let _ = call.await\<close> and \<open>call.await.ok()\<close>: the outcome is dropped or made an option.\<close>

definition signore :: "('s, 'd, 'a) st \<Rightarrow> ('s, 'e, unit) st" where
  "signore m s = (Inr (), snd (m s))"

definition sok :: "('s, 'd, 'a) st \<Rightarrow> ('s, 'e, 'a option) st" where
  "sok m s = (case m s of (Inl e, s') \<Rightarrow> (Inr None, s') | (Inr x, s') \<Rightarrow> (Inr (Some x), s'))"

lemma st_eval [simp, st_simps]:
  "sret x s = (Inr x, s)"
  "sfail e s = (Inl e, s)"
  "slift r s = (r, s)"
  "signore m s = (Inr (), snd (m s))"
  by (simp_all add: sret_def sfail_def slift_def signore_def)

lemma sbind_Inr [st_invert]:
  "sbind m f s = (Inr y, t) \<longleftrightarrow> (\<exists>x s'. m s = (Inr x, s') \<and> f x s' = (Inr y, t))"
  by (auto simp: sbind_def split: prod.splits sum.splits)

lemma sbind_Inl [st_invert]:
  "sbind m f s = (Inl e, t) \<longleftrightarrow>
     m s = (Inl e, t) \<or> (\<exists>x s'. m s = (Inr x, s') \<and> f x s' = (Inl e, t))"
  by (auto simp: sbind_def split: prod.splits sum.splits)

lemma smap_err_Inr [st_invert]: "smap_err g m s = (Inr y, t) \<longleftrightarrow> m s = (Inr y, t)"
  by (auto simp: smap_err_def split: prod.splits)

lemma smap_err_Inl [st_invert]:
  "smap_err g m s = (Inl e, t) \<longleftrightarrow> (\<exists>d. m s = (Inl d, t) \<and> e = g d)"
  by (auto simp: smap_err_def map_err_def split: prod.splits sum.splits)

lemma sok_Inr [st_invert]:
  "sok m s = (Inr y, t) \<longleftrightarrow>
     (\<exists>x. m s = (Inr x, t) \<and> y = Some x) \<or> (\<exists>e. m s = (Inl e, t) \<and> y = None)"
  by (auto simp: sok_def split: prod.splits sum.splits)

lemma sok_Inl [st_invert]: "sok m s \<noteq> (Inl e, t)"
  by (auto simp: sok_def split: prod.splits sum.splits)

text \<open>A choice between calls, seen from its outcome.\<close>

lemma case_outcome [st_invert]:
  "(if b then m else n) s = (r, t) \<longleftrightarrow> b \<and> m s = (r, t) \<or> \<not> b \<and> n s = (r, t)"
  "(case x of Inl e \<Rightarrow> g e | Inr y \<Rightarrow> f y) s = (r, t) \<longleftrightarrow>
     (\<exists>e. x = Inl e \<and> g e s = (r, t)) \<or> (\<exists>y. x = Inr y \<and> f y s = (r, t))"
  "(case o1 of None \<Rightarrow> m | Some z \<Rightarrow> h z) s = (r, t) \<longleftrightarrow>
     o1 = None \<and> m s = (r, t) \<or> (\<exists>z. o1 = Some z \<and> h z s = (r, t))"
  "(case p of (a, c) \<Rightarrow> k a c) s = (r, t) \<longleftrightarrow> (\<exists>a c. p = (a, c) \<and> k a c s = (r, t))"
  by (cases x; cases o1; cases p; auto)+

lemma sbind_eval [st_simps]:
  "m s = (Inr x, s') \<Longrightarrow> sbind m f s = f x s'"
  "m s = (Inl e, s') \<Longrightarrow> sbind m f s = (Inl e, s')"
  by (simp_all add: sbind_def)

lemma smap_err_eval [st_simps]:
  "m s = (Inr x, s') \<Longrightarrow> smap_err g m s = (Inr x, s')"
  "m s = (Inl d, s') \<Longrightarrow> smap_err g m s = (Inl (g d), s')"
  by (simp_all add: smap_err_def)

lemma sok_eval [st_simps]:
  "m s = (Inr x, s') \<Longrightarrow> sok m s = (Inr (Some x), s')"
  "m s = (Inl d, s') \<Longrightarrow> sok m s = (Inr None, s')"
  by (simp_all add: sok_def)

text \<open>
  An invariant of the state that every part of a call keeps is kept by the call,
  whatever its outcome. \<open>keeps P m\<close> is that statement for one call.
\<close>

definition keeps :: "('s \<Rightarrow> bool) \<Rightarrow> ('s, 'e, 'a) st \<Rightarrow> bool" where
  "keeps P m \<longleftrightarrow> (\<forall>s. P s \<longrightarrow> P (snd (m s)))"

named_theorems keeps_intros \<open>operations that keep an invariant of the state\<close>

lemma keepsI: "(\<And>s. P s \<Longrightarrow> P (snd (m s))) \<Longrightarrow> keeps P m"
  by (simp add: keeps_def)

lemma keepsD: "keeps P m \<Longrightarrow> P s \<Longrightarrow> P (snd (m s))"
  by (simp add: keeps_def)

lemma keeps_run: "keeps P m \<Longrightarrow> P s \<Longrightarrow> m s = (r, t) \<Longrightarrow> P t"
  by (metis keeps_def snd_conv)

lemma keeps_combinators [keeps_intros]:
  "keeps P (sret x)" "keeps P (sfail e)" "keeps P (slift r)" "keeps P (Pair r)"
  by (simp_all add: keeps_def)

lemma keeps_sbind [keeps_intros]:
  "keeps P m \<Longrightarrow> (\<And>x. keeps P (f x)) \<Longrightarrow> keeps P (sbind m f)"
  unfolding keeps_def sbind_def
  by (auto split: prod.splits sum.splits)

text \<open>The same with what a lifted result, or a call on a state with the invariant, is known to return.\<close>

lemma keeps_slift_bind:
  "(\<And>x. r = Inr x \<Longrightarrow> keeps P (f x)) \<Longrightarrow> keeps P (sbind (slift r) f)"
  unfolding keeps_def sbind_def by (auto split: sum.splits)

lemma keeps_sbind_result:
  assumes "keeps P m" and "\<And>s x t. P s \<Longrightarrow> m s = (Inr x, t) \<Longrightarrow> P t \<Longrightarrow> P (snd (f x t))"
  shows "keeps P (sbind m f)"
  using assms unfolding keeps_def sbind_def
  by (auto split: prod.splits sum.splits)

text \<open>
  \<open>leads Q P m\<close>: from a state with \<open>Q\<close> the call ends in one with \<open>P\<close>, for a guard that an
  earlier step has established and later steps rely on.
\<close>

definition leads :: "('s \<Rightarrow> bool) \<Rightarrow> ('s \<Rightarrow> bool) \<Rightarrow> ('s, 'e, 'a) st \<Rightarrow> bool" where
  "leads Q P m \<longleftrightarrow> (\<forall>s. Q s \<longrightarrow> P (snd (m s)))"

lemma leadsD: "leads Q P m \<Longrightarrow> Q s \<Longrightarrow> P (snd (m s))"
  by (simp add: leads_def)

lemma leads_sbind_before:
  "keeps Q m \<Longrightarrow> (\<And>s. Q s \<Longrightarrow> P s) \<Longrightarrow> (\<And>x. leads Q P (f x)) \<Longrightarrow> leads Q P (sbind m f)"
  unfolding keeps_def leads_def sbind_def by (auto split: prod.splits sum.splits)

lemma leads_sbind_after:
  "leads Q P m \<Longrightarrow> (\<And>x. keeps P (f x)) \<Longrightarrow> leads Q P (sbind m f)"
  unfolding keeps_def leads_def sbind_def by (auto split: prod.splits sum.splits)

lemma leads_combinators:
  "(\<And>s. Q s \<Longrightarrow> P s) \<Longrightarrow> leads Q P (sfail e)" "(\<And>s. Q s \<Longrightarrow> P s) \<Longrightarrow> leads Q P (slift r)"
  "leads Q P m \<Longrightarrow> leads Q P n \<Longrightarrow> leads Q P (if b then m else n)"
  "leads Q P m \<Longrightarrow> leads Q P (smap_err g m)"
  by (auto simp: leads_def smap_err_def split: prod.splits)

lemma leads_sbind:
  assumes "\<And>s e t. Q s \<Longrightarrow> m s = (Inl e, t) \<Longrightarrow> P t" and "\<And>s x t. Q s \<Longrightarrow> m s = (Inr x, t) \<Longrightarrow> R x t"
    and "\<And>x. leads (R x) P (f x)"
  shows "leads Q P (sbind m f)"
  using assms unfolding leads_def sbind_def by (fastforce split: prod.splits sum.splits)

lemma leads_slift_bind:
  "(\<And>s. Q s \<Longrightarrow> P s) \<Longrightarrow> (\<And>x. r = Inr x \<Longrightarrow> leads Q P (f x)) \<Longrightarrow> leads Q P (sbind (slift r) f)"
  unfolding leads_def sbind_def by (auto split: sum.splits)

lemma keeps_leads: "leads P P m \<Longrightarrow> keeps P m"
  by (simp add: leads_def keeps_def)

lemma keeps_wrappers [keeps_intros]:
  "keeps P m \<Longrightarrow> keeps P (smap_err g m)"
  "keeps P m \<Longrightarrow> keeps P (signore m)"
  "keeps P m \<Longrightarrow> keeps P (sok m)"
  by (auto simp: keeps_def smap_err_def sok_def split: prod.splits sum.splits)

lemma keeps_if [keeps_intros]:
  "(b \<Longrightarrow> keeps P m) \<Longrightarrow> (\<not> b \<Longrightarrow> keeps P n) \<Longrightarrow> keeps P (if b then m else n)"
  by simp

lemma keeps_option [keeps_intros]:
  "(x = None \<Longrightarrow> keeps P m) \<Longrightarrow> (\<And>y. x = Some y \<Longrightarrow> keeps P (f y)) \<Longrightarrow>
     keeps P (case x of None \<Rightarrow> m | Some y \<Rightarrow> f y)"
  by (cases x) simp_all

lemma keeps_sum [keeps_intros]:
  "(\<And>e. x = Inl e \<Longrightarrow> keeps P (g e)) \<Longrightarrow> (\<And>y. x = Inr y \<Longrightarrow> keeps P (f y)) \<Longrightarrow>
     keeps P (case x of Inl e \<Rightarrow> g e | Inr y \<Rightarrow> f y)"
  by (cases x) simp_all

lemma keeps_prod [keeps_intros]:
  "(\<And>a b. x = (a, b) \<Longrightarrow> keeps P (f a b)) \<Longrightarrow> keeps P (case x of (a, b) \<Rightarrow> f a b)"
  by (cases x) simp

lemma keeps_let [keeps_intros]: "(\<And>y. y = x \<Longrightarrow> keeps P (f y)) \<Longrightarrow> keeps P (let y = x in f y)"
  by simp

lemma keeps_found:
  assumes "keeps P m" and "\<And>s x t. P s \<Longrightarrow> m s = (Inr (Some x), t) \<Longrightarrow> R x" and "keeps P n" and "\<And>x. R x \<Longrightarrow> keeps P (f x)"
  shows "keeps P (sbind m (\<lambda>y. case y of None \<Rightarrow> n | Some x \<Rightarrow> f x))"
proof (rule keeps_sbind_result [OF assms(1)])
  fix s y t assume "P s" "m s = (Inr y, t)" "P t"
  then show "P (snd ((case y of None \<Rightarrow> n | Some x \<Rightarrow> f x) t))"
    by (cases y) (simp_all add: keepsD [OF assms(3)], metis assms(2,4) keepsD)
qed

section \<open>Saturating arithmetic\<close>

text \<open>\<open>u64::saturating_add\<close> and \<open>u8::saturating_sub\<close> stay at the bound instead of wrapping.\<close>

definition saturating_add :: "'n::len word \<Rightarrow> 'n word \<Rightarrow> 'n word" where
  "saturating_add a b = (if unat a + unat b < 2 ^ LENGTH('n) then a + b else - 1)"

definition saturating_sub :: "'n::len word \<Rightarrow> 'n word \<Rightarrow> 'n word" where
  "saturating_sub a b = (if a < b then 0 else a - b)"

lemma unat_max_word: "unat (- 1 :: 'n::len word) = 2 ^ LENGTH('n) - 1"
  by (simp add: unsigned_minus_1_eq_mask mask_eq_exp_minus_1)

lemma unat_saturating_add:
  "unat (saturating_add a b :: 'n::len word) = min (unat a + unat b) (2 ^ LENGTH('n) - 1)"
proof (cases "unat a + unat b < 2 ^ LENGTH('n)")
  case True
  then show ?thesis
    by (simp add: saturating_add_def unat_word_ariths)
next
  case False
  then show ?thesis
    by (simp add: saturating_add_def unat_max_word min_absorb2)
qed

lemma unat_saturating_sub: "unat (saturating_sub a b) = unat a - unat b"
proof (cases "a < b")
  case True
  then show ?thesis
    by (simp add: saturating_sub_def word_less_nat_alt)
next
  case False
  then have "b \<le> a" by simp
  then show ?thesis
    using False by (simp add: saturating_sub_def unat_sub)
qed

section \<open>Bytes of a string\<close>

text \<open>
  A Rust \<open>str\<close> is its UTF-8 bytes, one \<open>char\<close> each, so \<open>len()\<close> is \<open>length\<close>. The
  character classes below accept ASCII only; a multi-byte character has bytes of
  128 and more and is refused by each of them, as it is by the source.
\<close>

definition is_ascii_digit :: "char \<Rightarrow> bool" where
  "is_ascii_digit c \<longleftrightarrow> of_char c \<in> {48..57::nat}"

definition is_ascii_uppercase :: "char \<Rightarrow> bool" where
  "is_ascii_uppercase c \<longleftrightarrow> of_char c \<in> {65..90::nat}"

definition is_ascii_lowercase :: "char \<Rightarrow> bool" where
  "is_ascii_lowercase c \<longleftrightarrow> of_char c \<in> {97..122::nat}"

definition is_ascii_alphanumeric :: "char \<Rightarrow> bool" where
  "is_ascii_alphanumeric c \<longleftrightarrow> is_ascii_digit c \<or> is_ascii_uppercase c \<or> is_ascii_lowercase c"

definition is_ascii_graphic :: "char \<Rightarrow> bool" where
  "is_ascii_graphic c \<longleftrightarrow> of_char c \<in> {33..126::nat}"

lemmas ascii_defs = is_ascii_digit_def is_ascii_uppercase_def is_ascii_lowercase_def
  is_ascii_alphanumeric_def is_ascii_graphic_def

text \<open>\<open>str::find(char)\<close> and \<open>str::split_once(char)\<close> for an ASCII character.\<close>

fun find_char :: "char \<Rightarrow> string \<Rightarrow> nat option" where
  "find_char c [] = None"
| "find_char c (x # xs) = (if x = c then Some 0 else map_option Suc (find_char c xs))"

definition split_once :: "char \<Rightarrow> string \<Rightarrow> (string \<times> string) option" where
  "split_once c s = map_option (\<lambda>i. (take i s, drop (Suc i) s)) (find_char c s)"

lemma find_char_None: "find_char c s = None \<longleftrightarrow> c \<notin> set s"
  by (induction s) auto

lemma find_char_SomeD:
  "find_char c s = Some i \<Longrightarrow> i < length s \<and> s ! i = c \<and> c \<notin> set (take i s)"
  by (induction s arbitrary: i) (auto split: if_splits)

lemma find_char_append: "c \<notin> set xs \<Longrightarrow> find_char c (xs @ c # ys) = Some (length xs)"
  by (induction xs) auto

lemma split_once_append: "c \<notin> set xs \<Longrightarrow> split_once c (xs @ c # ys) = Some (xs, ys)"
  by (simp add: split_once_def find_char_append)

lemma split_once_Some:
  "split_once c s = Some (xs, ys) \<longleftrightarrow> s = xs @ c # ys \<and> c \<notin> set xs"
proof
  assume "split_once c s = Some (xs, ys)"
  then obtain i where i: "find_char c s = Some i" "xs = take i s" "ys = drop (Suc i) s"
    by (auto simp: split_once_def)
  then show "s = xs @ c # ys \<and> c \<notin> set xs"
    using find_char_SomeD [OF i(1)] id_take_nth_drop [of i s] by simp
next
  assume "s = xs @ c # ys \<and> c \<notin> set xs"
  then show "split_once c s = Some (xs, ys)"
    by (simp add: split_once_append)
qed

text \<open>\<open>str::trim\<close> removes Unicode white space, here as its UTF-8 bytes.\<close>

definition ws1 :: "char \<Rightarrow> bool" where
  "ws1 c \<longleftrightarrow> of_char c \<in> {9..13::nat} \<union> {32}"

definition ws2 :: "char \<Rightarrow> char \<Rightarrow> bool" where
  "ws2 c d \<longleftrightarrow> of_char c = (194::nat) \<and> of_char d \<in> {133, 160::nat}"

definition ws3 :: "char \<Rightarrow> char \<Rightarrow> char \<Rightarrow> bool" where
  "ws3 c d e \<longleftrightarrow> (of_char c, of_char d, of_char e) \<in> {(225::nat, 154::nat, 128::nat), (226, 129, 159), (227, 128, 128)} \<or>
     of_char c = (226::nat) \<and> of_char d = (128::nat) \<and> of_char e \<in> {128..138} \<union> {168, 169, 175::nat}"

text \<open>Code equations that compare characters as binary integers.\<close>

lemma of_char_int: "(of_char c :: int) = int (of_char c)"
  by (metis of_nat_of_char)

lemma ascii_code [code]:
  "is_ascii_digit c \<longleftrightarrow> (let n = of_char c :: int in 48 \<le> n \<and> n \<le> 57)"
  "is_ascii_uppercase c \<longleftrightarrow> (let n = of_char c :: int in 65 \<le> n \<and> n \<le> 90)"
  "is_ascii_lowercase c \<longleftrightarrow> (let n = of_char c :: int in 97 \<le> n \<and> n \<le> 122)"
  "is_ascii_graphic c \<longleftrightarrow> (let n = of_char c :: int in 33 \<le> n \<and> n \<le> 126)"
  "ws1 c \<longleftrightarrow> (let n = of_char c :: int in 9 \<le> n \<and> n \<le> 13 \<or> n = 32)"
  unfolding ascii_defs ws1_def Let_def of_char_int by (auto simp del: of_nat_of_char)

lemma ws2_code [code]:
  "ws2 c d \<longleftrightarrow> (of_char c :: int) = 194 \<and> (let n = of_char d :: int in n = 133 \<or> n = 160)"
  unfolding ws2_def Let_def of_char_int by (auto simp del: of_nat_of_char)

lemma ws3_code [code]:
  "ws3 c d e \<longleftrightarrow> (let x = of_char c :: int in x \<ge> 225 \<and> (let y = of_char d :: int; z = of_char e :: int in
     x = 225 \<and> y = 154 \<and> z = 128 \<or> x = 226 \<and> y = 129 \<and> z = 159 \<or> x = 227 \<and> y = 128 \<and> z = 128 \<or>
     x = 226 \<and> y = 128 \<and> (128 \<le> z \<and> z \<le> 138 \<or> z = 168 \<or> z = 169 \<or> z = 175)))"
proof -
  define x y z where xyz: "x = (of_char c :: nat)" "y = (of_char d :: nat)" "z = (of_char e :: nat)"
  show ?thesis unfolding ws3_def Let_def of_char_int xyz [symmetric]
    by (cases "x = 225"; cases "x = 226"; cases "x = 227"; (simp; fail | simp, blast))
qed

fun trim_start :: "string \<Rightarrow> string" where
  "trim_start (c # d # e # s) =
     (if ws1 c then trim_start (d # e # s)
      else if ws2 c d then trim_start (e # s)
      else if ws3 c d e then trim_start s
      else c # d # e # s)"
| "trim_start [c, d] = (if ws1 c then trim_start [d] else if ws2 c d then [] else [c, d])"
| "trim_start [c] = (if ws1 c then [] else [c])"
| "trim_start [] = []"

fun trim_start_rev :: "string \<Rightarrow> string" where
  "trim_start_rev (c # d # e # s) =
     (if ws1 c then trim_start_rev (d # e # s)
      else if ws2 d c then trim_start_rev (e # s)
      else if ws3 e d c then trim_start_rev s
      else c # d # e # s)"
| "trim_start_rev [c, d] =
     (if ws1 c then trim_start_rev [d] else if ws2 d c then [] else [c, d])"
| "trim_start_rev [c] = (if ws1 c then [] else [c])"
| "trim_start_rev [] = []"

definition trim :: "string \<Rightarrow> string" where
  "trim s = rev (trim_start_rev (rev (trim_start s)))"

text \<open>Trimming twice is trimming once: a text without leading white space keeps none in its prefixes.\<close>

fun no_leading_ws :: "(char \<Rightarrow> char \<Rightarrow> bool) \<Rightarrow> (char \<Rightarrow> char \<Rightarrow> char \<Rightarrow> bool) \<Rightarrow> string \<Rightarrow> bool" where
  "no_leading_ws p q (c # d # e # s) \<longleftrightarrow> \<not> ws1 c \<and> \<not> p c d \<and> \<not> q c d e"
| "no_leading_ws p q [c, d] \<longleftrightarrow> \<not> ws1 c \<and> \<not> p c d"
| "no_leading_ws p q [c] \<longleftrightarrow> \<not> ws1 c"
| "no_leading_ws p q [] \<longleftrightarrow> True"

lemma no_leading_ws_prefix: "no_leading_ws p q (xs @ ys) \<Longrightarrow> no_leading_ws p q xs"
  by (cases xs rule: trim_start.cases; cases ys rule: trim_start.cases) auto

lemma trim_start_stuck: "no_leading_ws ws2 ws3 s \<Longrightarrow> trim_start s = s"
  by (cases s rule: trim_start.cases) auto

lemma trim_start_result: "no_leading_ws ws2 ws3 (trim_start s)"
  by (induction s rule: trim_start.induct) auto

lemma trim_rev_suffix: "\<exists>xs. s = xs @ trim_start_rev s"
  by (induction s rule: trim_start_rev.induct) (auto, (metis append_Cons)+)

lemma trim_start_rev_idem: "trim_start_rev (trim_start_rev s) = trim_start_rev s"
  by (induction s rule: trim_start_rev.induct) auto

lemma trim_idem: "trim (trim s) = trim s"
proof -
  obtain xs where "rev (trim_start s) = xs @ trim_start_rev (rev (trim_start s))" using trim_rev_suffix by blast
  then have "trim_start s = trim s @ rev xs" unfolding trim_def by (metis rev_append rev_rev_ident)
  then have "no_leading_ws ws2 ws3 (trim s)"
    using trim_start_result [of s] no_leading_ws_prefix by metis
  then have "trim_start (trim s) = trim s" by (simp add: trim_start_stuck)
  then show ?thesis by (simp add: trim_def [of "trim s"]) (simp add: trim_def trim_start_rev_idem)
qed

lemma length_trim: "length (trim s) \<le> length s"
proof -
  have "length (trim_start t) \<le> length t" for t by (induction t rule: trim_start.induct) auto
  moreover have "length (trim_start_rev t) \<le> length t" for t by (induction t rule: trim_start_rev.induct) auto
  ultimately show ?thesis unfolding trim_def by (metis le_trans length_rev)
qed

definition as_bytes :: "string \<Rightarrow> byte list" where
  "as_bytes s = map (\<lambda>c. word_of_nat (of_char c)) s"

lemma as_bytes_inject: "as_bytes a = as_bytes b \<longleftrightarrow> a = b"
proof -
  have "inj (\<lambda>c. word_of_nat (of_char c) :: byte)"
  proof (rule injI)
    fix c d :: char
    assume "word_of_nat (of_char c) = (word_of_nat (of_char d) :: byte)"
    then have "unat (word_of_nat (of_char c) :: byte) = unat (word_of_nat (of_char d) :: byte)"
      by simp
    then have "(of_char c :: nat) = of_char d"
      by (simp add: unat_of_nat of_char_mod_256)
    then show "c = d" by simp
  qed
  then show ?thesis by (simp add: as_bytes_def inj_map_eq_map)
qed

text \<open>The decimal rendering of an unsigned integer in \<open>format!\<close>.\<close>

fun nat_str :: "nat \<Rightarrow> string" where
  "nat_str n = (if n < 10 then [char_of (48 + n)] else nat_str (n div 10) @ [char_of (48 + n mod 10)])"

declare nat_str.simps [simp del]

lemma as_bytes_code [code]: "as_bytes s = map of_char s"
  by (simp add: as_bytes_def) (metis of_nat_of_char)

lemma digit_char: "k < 10 \<Longrightarrow> char_of (48 + k) = ''0123456789'' ! k" for k :: nat
proof -
  assume "k < 10"
  moreover have "list_all (\<lambda>k. char_of (48 + k :: nat) = ''0123456789'' ! k) [0..<10]" by code_simp
  ultimately show ?thesis by (simp add: list_all_iff)
qed

lemma nat_str_code [code]:
  "nat_str n = (if n < 10 then [''0123456789'' ! n] else nat_str (n div 10) @ [''0123456789'' ! (n mod 10)])"
  by (subst nat_str.simps) (simp add: digit_char)

section \<open>Tables\<close>

text \<open>
  A table is the list of its rows in insertion order. \<open>find\<close> is
  \<open>fetch_optional\<close>, \<open>filter\<close> a \<open>WHERE\<close> clause and \<open>update_where\<close> an
  \<open>UPDATE ... SET ... WHERE\<close>.
\<close>

definition update_where :: "('r \<Rightarrow> bool) \<Rightarrow> ('r \<Rightarrow> 'r) \<Rightarrow> 'r list \<Rightarrow> 'r list" where
  "update_where p f rows = map (\<lambda>r. if p r then f r else r) rows"

definition delete_where :: "('r \<Rightarrow> bool) \<Rightarrow> 'r list \<Rightarrow> 'r list" where
  "delete_where p rows = filter (\<lambda>r. \<not> p r) rows"

text \<open>\<open>ORDER BY key\<close>: a stable sort; \<open>ORDER BY key DESC LIMIT 1\<close>: a row with the greatest key.\<close>

fun latest_by :: "('r \<Rightarrow> 'k::linorder) \<Rightarrow> 'r list \<Rightarrow> 'r option" where
  "latest_by k [] = None"
| "latest_by k (r # rs) =
     (case latest_by k rs of None \<Rightarrow> Some r | Some m \<Rightarrow> Some (if k m \<le> k r then r else m))"

lemma update_where_simps [simp]:
  "update_where p f [] = []"
  "update_where p f (r # rs) = (if p r then f r else r) # update_where p f rs"
  by (simp_all add: update_where_def)

lemma length_update_where [simp]: "length (update_where p f rows) = length rows"
  by (simp add: update_where_def)

lemma set_update_where: "set (update_where p f rows) = (\<lambda>r. if p r then f r else r) ` set rows"
  by (simp add: update_where_def)

lemma update_where_cases:
  assumes "x \<in> set (update_where p f rows)"
  obtains r where "r \<in> set rows" and "p r" and "x = f r"
  | "x \<in> set rows" and "\<not> p x"
  using assms by (auto simp: set_update_where split: if_splits)

lemma map_update_where:
  "(\<And>r. p r \<Longrightarrow> k (f r) = k r) \<Longrightarrow> map k (update_where p f rows) = map k rows"
  by (simp add: update_where_def)

lemma keys_update_where: "(\<And>r. p r \<Longrightarrow> k (f r) = k r) \<Longrightarrow> k ` set (update_where p f rows) = k ` set rows"
  by (metis list.set_map map_update_where)

lemma filter_length_mono: "(\<And>x. x \<in> set xs \<Longrightarrow> p x \<Longrightarrow> q x) \<Longrightarrow> length (filter p xs) \<le> length (filter q xs)"
  by (induction xs) (auto simp: le_SucI)

lemma update_where_none: "(\<And>r. r \<in> set rows \<Longrightarrow> \<not> p r) \<Longrightarrow> update_where p f rows = rows"
  by (simp add: update_where_def map_idI)

lemma set_delete_where [simp]: "set (delete_where p rows) = {r \<in> set rows. \<not> p r}"
  by (simp add: delete_where_def)

lemma delete_where_simps [simp]:
  "delete_where p [] = []"
  "delete_where p (r # rs) = (if p r then delete_where p rs else r # delete_where p rs)"
  by (simp_all add: delete_where_def)

lemma distinct_map_delete_where:
  "distinct (map k rows) \<Longrightarrow> distinct (map k (delete_where p rows))"
  by (simp add: delete_where_def distinct_map_filter)

lemma find_SomeD: "find p rows = Some r \<Longrightarrow> r \<in> set rows \<and> p r"
  by (auto simp: find_Some_iff)

lemma find_append: "find p (xs @ ys) = (case find p xs of None \<Rightarrow> find p ys | Some x \<Rightarrow> Some x)"
  by (induction xs) auto

lemma find_distinct:
  "distinct (map k rows) \<Longrightarrow> r \<in> set rows \<Longrightarrow> find (\<lambda>x. k x = k r) rows = Some r"
  by (induction rows) (auto simp: image_iff)

lemma find_update_where_key:
  assumes "\<And>r. k (f r) = k r"
  shows "find (\<lambda>r. k r = i) (update_where p f rows) =
    map_option (\<lambda>r. if p r then f r else r) (find (\<lambda>r. k r = i) rows)"
  by (induction rows) (auto simp: assms)

lemma find_update_where_unique:
  assumes "find p rows = Some r" and "distinct (map k rows)" and "p (f r)"
  shows "find p (update_where (\<lambda>x. k x = k r) f rows) = Some (f r)"
  using assms
proof (induction rows)
  case (Cons x xs)
  show ?case
  proof (cases "p x")
    case False
    moreover have "k x \<noteq> k r"
      using Cons.prems False by (auto dest: find_SomeD)
    ultimately show ?thesis using Cons by simp
  qed (use Cons in auto)
qed simp

lemma filter_update_unique:
  assumes "distinct (map k rows)" and "r \<in> set rows" and "p r" and "\<And>x. \<not> p (f x)"
  shows "length (filter p rows) = Suc (length (filter p (update_where (\<lambda>x. k x = k r) f rows)))"
  using assms
proof (induction rows)
  case (Cons x xs)
  show ?case
  proof (cases "x = r")
    case True
    then have "update_where (\<lambda>y. k y = k r) f xs = xs"
      using Cons.prems
      by (intro update_where_none) (metis distinct.simps(2) image_eqI list.set_map list.simps(9))
    then show ?thesis using True Cons.prems by simp
  next
    case False
    then have "k x \<noteq> k r" using Cons.prems by (auto simp: rev_image_eqI)
    then show ?thesis using False Cons by auto
  qed
qed simp

lemma latest_by_None [simp]: "latest_by k rows = None \<longleftrightarrow> rows = []"
  by (cases rows) (auto split: option.splits)

lemma latest_by_SomeD: "latest_by k rows = Some r \<Longrightarrow> r \<in> set rows"
  by (induction rows arbitrary: r) (auto split: option.splits if_splits)

lemma latest_by_max: "latest_by k rows = Some r \<Longrightarrow> x \<in> set rows \<Longrightarrow> k x \<le> k r"
  by (induction rows arbitrary: r) (fastforce split: option.splits if_splits)+

end
