(* ===== verification/Common_Values.thy ===== *)
theory Common_Values
  imports Prelude
begin

text \<open>
  The value objects of \<open>openpanel-domain/src/common\<close> and the roles of
  \<open>identity/role.rs\<close>: validated e-mail addresses and user names, hashed
  passwords, and the string forms in which enumerations are stored. The library
  code behind them (argon2 and the other cryptography) is the record \<open>crypto\<close>
  of functions, an argument of every operation that calls it.
\<close>

section \<open>Interfaces\<close>

text \<open>
  A validated value: the constructor accepts a string exactly when the wrapped
  value is valid, and keeps the string. Reading a value back from its string
  then always succeeds, which is what the repositories rely on when they rebuild
  aggregates from rows.
\<close>

locale value_object =
  fixes new :: "string \<Rightarrow> 'e + 'v"
    and as_str :: "'v \<Rightarrow> string"
    and valid :: "'v \<Rightarrow> bool"
  assumes new_iff: "new s = Inr v \<longleftrightarrow> valid v \<and> as_str v = s"
begin

lemma new_as_str: "valid v \<Longrightarrow> new (as_str v) = Inr v"
  by (simp add: new_iff)

lemma new_valid: "new s = Inr v \<Longrightarrow> valid v"
  by (simp add: new_iff)

lemma new_keeps: "new s = Inr v \<Longrightarrow> as_str v = s"
  by (simp add: new_iff)

lemma as_str_inject: "valid v \<Longrightarrow> valid w \<Longrightarrow> as_str v = as_str w \<longleftrightarrow> v = w"
  by (metis new_as_str sum.inject(2))

end

text \<open>An enumeration with a stable string form is the case where every value is valid.\<close>

locale string_codec =
  fixes enc :: "'v \<Rightarrow> string"
    and dec :: "string \<Rightarrow> 'e + 'v"
  assumes dec_enc: "dec (enc v) = Inr v"
    and enc_dec: "dec s = Inr v \<Longrightarrow> enc v = s"

sublocale string_codec \<subseteq> vo: value_object dec enc "\<lambda>_. True"
  by unfold_locales (auto simp: dec_enc dest: enc_dec)

context string_codec
begin

lemma enc_inject: "enc v = enc w \<longleftrightarrow> v = w"
  using vo.as_str_inject by simp

lemma dec_iff: "dec s = Inr v \<longleftrightarrow> s = enc v"
  using dec_enc enc_dec by blast

end

section \<open>E-mail addresses\<close>

datatype domain_error =
    Validation string
  | DomainPersistence string
  | NotFound string
  | Conflict string

fun domain_error_display :: "domain_error \<Rightarrow> string" where
  "domain_error_display (Validation m) = ''validation error: '' @ m"
| "domain_error_display (DomainPersistence m) = ''persistence error: '' @ m"
| "domain_error_display (NotFound m) = ''not found: '' @ m"
| "domain_error_display (Conflict m) = ''conflict: '' @ m"

datatype email = Email string

primrec email_as_str :: "email \<Rightarrow> string" where
  "email_as_str (Email s) = s"

definition email_validate :: "string \<Rightarrow> domain_error + unit" where
  "email_validate s =
     (if s = [] \<or> length s > 254 then Inl (Validation ''email length out of range'')
      else case find_char CHR ''@'' s of
        None \<Rightarrow> Inl (Validation (''email missing '' @ [CHR 39, CHR ''@'', CHR 39]))
      | Some at \<Rightarrow>
         (if at = 0 \<or> at = length s - 1
          then Inl (Validation ''email has empty local/domain part'')
          else let domain = drop (at + 1) s in
            if CHR ''.'' \<notin> set domain
            then Inl (Validation ''email domain must contain a dot'')
            else if hd domain = CHR ''.'' \<or> last domain = CHR ''.''
            then Inl (Validation ''email domain cannot start or end with a dot'')
            else if \<not> list_all (\<lambda>c. is_ascii_graphic c \<or> c = CHR '' '') s
            then Inl (Validation ''email contains invalid characters'')
            else Inr ()))"

definition email_new :: "string \<Rightarrow> domain_error + email" where
  "email_new s = rbind (email_validate s) (\<lambda>_. Inr (Email s))"

text \<open>
  What the validator accepts: a non-empty local part, an \<open>@\<close>, and a dotted domain
  that does not begin or end with the dot, all in printable ASCII, within 254 bytes.
\<close>

definition email_wf :: "email \<Rightarrow> bool" where
  "email_wf e \<longleftrightarrow> length (email_as_str e) \<le> 254 \<and>
     list_all (\<lambda>c. is_ascii_graphic c \<or> c = CHR '' '') (email_as_str e) \<and>
     (case split_once CHR ''@'' (email_as_str e) of
        None \<Rightarrow> False
      | Some (local_part, domain) \<Rightarrow> local_part \<noteq> [] \<and> CHR ''.'' \<in> set domain \<and>
          hd domain \<noteq> CHR ''.'' \<and> last domain \<noteq> CHR ''.'')"

lemma email_validate_iff: "email_validate s = Inr () \<longleftrightarrow> email_wf (Email s)"
proof (cases "find_char CHR ''@'' s")
  case None
  then show ?thesis
    by (simp add: email_validate_def email_wf_def split_once_def)
next
  case (Some i)
  then have "i < length s" and "s \<noteq> []"
    using find_char_SomeD [OF Some] by auto
  moreover have "i = length s - 1 \<Longrightarrow> drop (Suc i) s = []"
    by simp
  moreover have "i = 0 \<longleftrightarrow> take i s = []"
    using \<open>s \<noteq> []\<close> by simp
  ultimately show ?thesis
    using Some by (auto simp: email_validate_def email_wf_def split_once_def Let_def)
qed

interpretation email_vo: value_object email_new email_as_str email_wf
proof
  fix s v
  show "email_new s = Inr v \<longleftrightarrow> email_wf v \<and> email_as_str v = s"
    by (cases v) (auto simp: email_new_def email_validate_iff)
qed

section \<open>User names\<close>

datatype username_error = UsernameLength | UsernameInvalidChar char

fun username_error_display :: "username_error \<Rightarrow> string" where
  "username_error_display UsernameLength = ''username must be 3-32 chars long''"
| "username_error_display (UsernameInvalidChar c) =
     ''username contains invalid character `'' @ [c] @ ''`''"

datatype username = Username string

primrec username_as_str :: "username \<Rightarrow> string" where
  "username_as_str (Username s) = s"

definition username_char_ok :: "char \<Rightarrow> bool" where
  "username_char_ok c \<longleftrightarrow>
     is_ascii_alphanumeric c \<or> c = CHR ''-'' \<or> c = CHR ''_'' \<or> c = CHR ''.''"

text \<open>
  The loop stops at the first refused character. For a multi-byte character the
  source reports the character and the model its first byte; both refuse it.
\<close>

fun username_scan :: "string \<Rightarrow> username_error + unit" where
  "username_scan [] = Inr ()"
| "username_scan (c # cs) =
     (if \<not> username_char_ok c then Inl (UsernameInvalidChar c) else username_scan cs)"

definition username_validate :: "string \<Rightarrow> username_error + unit" where
  "username_validate s =
     (if length s < 3 \<or> length s > 32 then Inl UsernameLength else username_scan s)"

definition username_new :: "string \<Rightarrow> username_error + username" where
  "username_new s = rbind (username_validate s) (\<lambda>_. Inr (Username s))"

definition username_wf :: "username \<Rightarrow> bool" where
  "username_wf u \<longleftrightarrow> length (username_as_str u) \<in> {3..32} \<and>
     list_all username_char_ok (username_as_str u)"

lemma username_scan_Inr: "username_scan s = Inr () \<longleftrightarrow> list_all username_char_ok s"
  by (induction s) auto

interpretation username_vo: value_object username_new username_as_str username_wf
proof
  fix s v
  show "username_new s = Inr v \<longleftrightarrow> username_wf v \<and> username_as_str v = s"
    by (cases v)
       (auto simp: username_new_def username_validate_def username_wf_def username_scan_Inr)
qed

section \<open>Library cryptography\<close>

text \<open>
  The functions of the argon2, bcrypt, totp-rs, aes-gcm, sha2, hmac, base64, hex
  and serde crates that the sources call, and the parser of
  \<open>std::net::IpAddr\<close>. Random salts and nonces are explicit arguments.
  \<^item> \<open>argon2_hash\<close>: salt and plaintext to a PHC string, or an error message;
  \<^item> \<open>argon2_default_hash\<close>: the same with the default parameters, where the sources
    take the library at its word that it cannot fail (\<open>expect\<close>, \<open>unwrap_or_default\<close>);
  \<^item> \<open>phc_error\<close>: the error of \<open>PasswordHash::new\<close>, if the string is no PHC string;
  \<^item> \<open>argon2_verify\<close>: a PHC string and a candidate;
  \<^item> \<open>bcrypt_hash\<close>, \<open>bcrypt_verify\<close>: \<open>None\<close> is a library error;
  \<^item> \<open>totp_generate\<close>: the code of a SHA-1, six digit, 30 second TOTP for a secret
    and the \<open>u64\<close> passed to \<open>TOTP::generate\<close>;
  \<^item> \<open>aead_encrypt\<close>, \<open>aead_decrypt\<close>: AES-256-GCM under a key and a nonce;
  \<^item> \<open>hex_enc\<close>, \<open>hex_dec\<close>, \<open>b64_enc\<close>, \<open>b64_dec\<close>: hexadecimal and unpadded URL-safe
    base64; \<open>b64_std_dec\<close> the decoder of padded base64;
  \<^item> \<open>utf8_error\<close>, \<open>hex_error\<close>: the messages of the respective decoding errors;
  \<^item> \<open>sha256_hex\<close>, \<open>hmac_sha256\<close>: digest and tag;
  \<^item> \<open>parse_ip\<close>: octets of an IPv4 or segments of an IPv6 address.
\<close>

record crypto =
  argon2_hash :: "string \<Rightarrow> string \<Rightarrow> string + string"
  argon2_default_hash :: "string \<Rightarrow> string \<Rightarrow> string"
  phc_error :: "string \<Rightarrow> string option"
  argon2_verify :: "string \<Rightarrow> string \<Rightarrow> bool"
  bcrypt_hash :: "string \<Rightarrow> string \<Rightarrow> string option"
  bcrypt_verify :: "string \<Rightarrow> string \<Rightarrow> bool option"
  totp_generate :: "byte list \<Rightarrow> nat \<Rightarrow> string"
  aead_encrypt :: "byte list \<Rightarrow> byte list \<Rightarrow> byte list \<Rightarrow> string + byte list"
  aead_decrypt :: "byte list \<Rightarrow> byte list \<Rightarrow> byte list \<Rightarrow> string + byte list"
  utf8_error :: "byte list \<Rightarrow> string"
  hex_enc :: "byte list \<Rightarrow> string"
  hex_dec :: "string \<Rightarrow> byte list option"
  hex_error :: "string \<Rightarrow> string"
  b64_enc :: "byte list \<Rightarrow> string"
  b64_dec :: "string \<Rightarrow> byte list option"
  b64_std_dec :: "string \<Rightarrow> string + byte list"
  sha256_hex :: "string \<Rightarrow> string"
  hmac_sha256 :: "byte list \<Rightarrow> byte list \<Rightarrow> byte list"
  parse_ip :: "string \<Rightarrow> (byte list + nat list) option"

section \<open>Passwords\<close>

datatype password_error = TooShort nat | TooLong | HashError string | VerifyError string

fun password_error_display :: "password_error \<Rightarrow> string" where
  "password_error_display (TooShort n) =
     ''password must be at least '' @ nat_str n @ '' characters''"
| "password_error_display TooLong = ''password exceeds maximum length''"
| "password_error_display (HashError m) = ''argon2 hash error: '' @ m"
| "password_error_display (VerifyError m) = ''argon2 verify error: '' @ m"

definition MIN_PASSWORD_LEN :: nat where
  "MIN_PASSWORD_LEN = 12"

datatype password = Password string

primrec password_hash_str :: "password \<Rightarrow> string" where
  "password_hash_str (Password h) = h"

definition password_hash :: "crypto \<Rightarrow> string \<Rightarrow> string \<Rightarrow> password_error + password" where
  "password_hash cr salt plaintext =
     (if length plaintext < MIN_PASSWORD_LEN then Inl (TooShort MIN_PASSWORD_LEN)
      else if length plaintext > 1024 then Inl TooLong
      else rbind (map_err HashError (argon2_hash cr salt plaintext)) (\<lambda>h. Inr (Password h)))"

definition password_verify :: "crypto \<Rightarrow> password \<Rightarrow> string \<Rightarrow> password_error + bool" where
  "password_verify cr p plaintext =
     (case phc_error cr (password_hash_str p) of
        Some e \<Rightarrow> Inl (VerifyError e)
      | None \<Rightarrow> Inr (argon2_verify cr (password_hash_str p) plaintext))"

lemma password_hash_length:
  "password_hash cr salt p = Inr h \<Longrightarrow> 12 \<le> length p \<and> length p \<le> 1024"
  by (auto simp: password_hash_def MIN_PASSWORD_LEN_def split: if_splits)

section \<open>Roles\<close>

datatype role = Owner | Admin | RoleUser

definition role_as_str :: "role \<Rightarrow> string" where
  "role_as_str r = (case r of Owner \<Rightarrow> ''owner'' | Admin \<Rightarrow> ''admin'' | RoleUser \<Rightarrow> ''user'')"

text \<open>The error carries the unknown string.\<close>

definition role_from_str :: "string \<Rightarrow> string + role" where
  "role_from_str s =
     (if s = ''owner'' then Inr Owner
      else if s = ''admin'' then Inr Admin
      else if s = ''user'' then Inr RoleUser
      else Inl s)"

definition role_parse_error_display :: "string \<Rightarrow> string" where
  "role_parse_error_display s = ''unknown role `'' @ s @ ''`''"

definition can_manage_users :: "role \<Rightarrow> bool" where
  "can_manage_users r \<longleftrightarrow> r = Owner"

definition can_change_roles :: "role \<Rightarrow> bool" where
  "can_change_roles r \<longleftrightarrow> r = Owner"

definition can_manage_sites :: "role \<Rightarrow> bool" where
  "can_manage_sites r \<longleftrightarrow> r \<in> {Owner, Admin}"

definition can_manage_databases :: "role \<Rightarrow> bool" where
  "can_manage_databases r \<longleftrightarrow> r \<in> {Owner, Admin}"

definition can_manage_files :: "role \<Rightarrow> bool" where
  "can_manage_files r \<longleftrightarrow> r \<in> {Owner, Admin}"

interpretation role_codec: string_codec role_as_str role_from_str
proof
  fix v s
  show "role_from_str (role_as_str v) = Inr v"
    by (cases v) (simp_all add: role_from_str_def role_as_str_def)
  show "role_from_str s = Inr v \<Longrightarrow> role_as_str v = s"
    by (auto simp: role_from_str_def role_as_str_def split: if_splits)
qed

end
