(* ===== verification/Identity_Domain.thy ===== *)
theory Identity_Domain
  imports Common_Values
begin

text \<open>
  The aggregates of \<open>openpanel-domain/src/identity\<close>: \<open>User\<close> (user.rs) and
  \<open>Session\<close> (session.rs), with their errors (error.rs). Clock readings, fresh
  identifiers, salts and random bytes are arguments.
\<close>

section \<open>Errors\<close>

datatype identity_error =
    InvalidCredentials
  | AccountDisabled
  | PasswordTooShort
  | UsernameTaken
  | EmailTaken
  | UserNotFound
  | SessionExpired
  | Forbidden
  | LastOwner
  | InvalidToken
  | ParentAccountCycle
  | IdentityPersistence string

fun identity_error_display :: "identity_error \<Rightarrow> string" where
  "identity_error_display InvalidCredentials = ''invalid credentials''"
| "identity_error_display AccountDisabled = ''account disabled''"
| "identity_error_display PasswordTooShort = ''password too short (minimum 12 chars)''"
| "identity_error_display UsernameTaken = ''username already taken''"
| "identity_error_display EmailTaken = ''email already taken''"
| "identity_error_display UserNotFound = ''user not found''"
| "identity_error_display SessionExpired = ''session expired''"
| "identity_error_display Forbidden = ''permission denied''"
| "identity_error_display LastOwner = ''cannot demote the last owner''"
| "identity_error_display InvalidToken = ''session token invalid''"
| "identity_error_display ParentAccountCycle = ''account hierarchy cycle detected''"
| "identity_error_display (IdentityPersistence m) = ''identity persistence error: '' @ m"

section \<open>Users\<close>

record user =
  u_id :: uuid
  u_username :: username
  u_email :: email
  u_password :: password
  u_role :: role
  u_parent_account_id :: "uuid option"
  u_hosting_plan_id :: "uuid option"
  u_created_at :: instant
  u_disabled_at :: "instant option"
  u_last_login_at :: "instant option"

definition user_new :: "uuid \<Rightarrow> username \<Rightarrow> email \<Rightarrow> password \<Rightarrow> role \<Rightarrow> instant \<Rightarrow> user" where
  "user_new i un em pw r now =
     \<lparr>u_id = i, u_username = un, u_email = em, u_password = pw, u_role = r,
      u_parent_account_id = None, u_hosting_plan_id = None, u_created_at = now,
      u_disabled_at = None, u_last_login_at = None\<rparr>"

definition user_new_with_parents ::
    "uuid \<Rightarrow> username \<Rightarrow> email \<Rightarrow> password \<Rightarrow> role \<Rightarrow> uuid option \<Rightarrow> uuid option \<Rightarrow> instant \<Rightarrow>
     identity_error + user" where
  "user_new_with_parents i un em pw r parent plan now =
     (if parent = Some i then Inl ParentAccountCycle
      else Inr \<lparr>u_id = i, u_username = un, u_email = em, u_password = pw, u_role = r,
        u_parent_account_id = parent, u_hosting_plan_id = plan, u_created_at = now,
        u_disabled_at = None, u_last_login_at = None\<rparr>)"

definition user_disable :: "instant \<Rightarrow> user \<Rightarrow> user" where
  "user_disable now u = u\<lparr>u_disabled_at := Some now\<rparr>"

definition user_enable :: "user \<Rightarrow> user" where
  "user_enable u = u\<lparr>u_disabled_at := None\<rparr>"

definition user_record_login :: "instant \<Rightarrow> user \<Rightarrow> user" where
  "user_record_login now u = u\<lparr>u_last_login_at := Some now\<rparr>"

definition user_change_role :: "role \<Rightarrow> user \<Rightarrow> identity_error + user" where
  "user_change_role r u =
     (if u_role u = Owner \<and> r \<noteq> Owner then Inl LastOwner else Inr (u\<lparr>u_role := r\<rparr>))"

definition user_change_password ::
    "crypto \<Rightarrow> string \<Rightarrow> string \<Rightarrow> user \<Rightarrow> identity_error + user" where
  "user_change_password cr salt plaintext u =
     rbind (map_err (\<lambda>_. PasswordTooShort) (password_hash cr salt plaintext))
       (\<lambda>h. Inr (u\<lparr>u_password := h\<rparr>))"

definition user_set_parent_account_id :: "uuid option \<Rightarrow> user \<Rightarrow> identity_error + user" where
  "user_set_parent_account_id parent u =
     (if parent = Some (u_id u) then Inl ParentAccountCycle
      else Inr (u\<lparr>u_parent_account_id := parent\<rparr>))"

definition user_set_hosting_plan_id :: "uuid option \<Rightarrow> user \<Rightarrow> user" where
  "user_set_hosting_plan_id plan u = u\<lparr>u_hosting_plan_id := plan\<rparr>"

definition user_is_disabled :: "user \<Rightarrow> bool" where
  "user_is_disabled u \<longleftrightarrow> u_disabled_at u \<noteq> None"

definition user_restore ::
    "uuid \<Rightarrow> username \<Rightarrow> email \<Rightarrow> string \<Rightarrow> role \<Rightarrow> uuid option \<Rightarrow> uuid option \<Rightarrow> instant \<Rightarrow>
     instant option \<Rightarrow> instant option \<Rightarrow> user" where
  "user_restore i un em h r parent plan created disabled last_login =
     \<lparr>u_id = i, u_username = un, u_email = em, u_password = Password h, u_role = r,
      u_parent_account_id = parent, u_hosting_plan_id = plan, u_created_at = created,
      u_disabled_at = disabled, u_last_login_at = last_login\<rparr>"

text \<open>
  The aggregate's invariant: its name and address are valid and it is not its own
  parent, the largest part of acyclicity the aggregate can see.
\<close>

definition user_wf :: "user \<Rightarrow> bool" where
  "user_wf u \<longleftrightarrow> username_wf (u_username u) \<and> email_wf (u_email u) \<and>
     u_parent_account_id u \<noteq> Some (u_id u)"

lemma user_new_with_parents_wf:
  "user_new_with_parents i un em pw r parent plan now = Inr u \<Longrightarrow>
     username_wf un \<Longrightarrow> email_wf em \<Longrightarrow> user_wf u"
  by (auto simp: user_new_with_parents_def user_wf_def split: if_splits)

lemma user_ops_wf:
  "user_wf u \<Longrightarrow> user_wf (user_disable now u)"
  "user_wf u \<Longrightarrow> user_wf (user_enable u)"
  "user_wf u \<Longrightarrow> user_wf (user_record_login now u)"
  "user_wf u \<Longrightarrow> user_change_role r u = Inr v \<Longrightarrow> user_wf v"
  "user_wf u \<Longrightarrow> user_change_password cr salt p u = Inr v \<Longrightarrow> user_wf v"
  "user_wf u \<Longrightarrow> user_set_parent_account_id q u = Inr v \<Longrightarrow> user_wf v"
  "user_wf u \<Longrightarrow> user_wf (user_set_hosting_plan_id plan u)"
  by (auto simp: user_wf_def user_disable_def user_enable_def user_record_login_def
        user_change_role_def user_change_password_def user_set_parent_account_id_def
        user_set_hosting_plan_id_def split: if_splits)

text \<open>No sequence of role changes takes the owner role away.\<close>

fun user_change_roles :: "role list \<Rightarrow> user \<Rightarrow> user" where
  "user_change_roles [] u = u"
| "user_change_roles (r # rs) u =
     user_change_roles rs (case user_change_role r u of Inl _ \<Rightarrow> u | Inr v \<Rightarrow> v)"

lemma user_change_roles_owner: "u_role u = Owner \<Longrightarrow> u_role (user_change_roles rs u) = Owner"
  by (induction rs arbitrary: u) (auto simp: user_change_role_def)

section \<open>Session tokens\<close>

definition SESSION_TOKEN_BYTES :: nat where
  "SESSION_TOKEN_BYTES = 32"

definition SESSION_INACTIVITY :: duration where
  "SESSION_INACTIVITY = hours 24"

definition SESSION_ABSOLUTE :: duration where
  "SESSION_ABSOLUTE = days 7"

datatype session_token_error = SessionTokenLength | SessionTokenEncoding

datatype session_token = SessionToken string

primrec session_token_expose :: "session_token \<Rightarrow> string" where
  "session_token_expose (SessionToken s) = s"

text \<open>\<open>generate\<close> draws 32 bytes from the system generator: the argument \<open>buf\<close>.\<close>

definition session_token_generate :: "crypto \<Rightarrow> byte list \<Rightarrow> session_token" where
  "session_token_generate cr buf = SessionToken (b64_enc cr buf)"

definition session_token_from_string ::
    "crypto \<Rightarrow> string \<Rightarrow> session_token_error + session_token" where
  "session_token_from_string cr s =
     (case b64_dec cr s of
        None \<Rightarrow> Inl SessionTokenEncoding
      | Some bytes \<Rightarrow>
          if length bytes \<noteq> SESSION_TOKEN_BYTES then Inl SessionTokenLength
          else Inr (SessionToken s))"

lemma session_token_roundtrip:
  assumes "b64_dec cr (b64_enc cr buf) = Some buf" and "length buf = SESSION_TOKEN_BYTES"
  shows "session_token_from_string cr (session_token_expose (session_token_generate cr buf)) =
    Inr (session_token_generate cr buf)"
  using assms by (simp add: session_token_from_string_def session_token_generate_def)

section \<open>Sessions\<close>

record session =
  s_id :: uuid
  s_user_id :: uuid
  s_token_hash :: string
  s_role :: role
  s_created_at :: instant
  s_last_seen_at :: instant
  s_absolute_expires_at :: instant
  s_source_ip :: "string option"
  s_user_agent :: "string option"

definition session_new ::
    "crypto \<Rightarrow> string \<Rightarrow> uuid \<Rightarrow> instant \<Rightarrow> uuid \<Rightarrow> role \<Rightarrow> session_token \<Rightarrow> string option \<Rightarrow>
     string option \<Rightarrow> session \<times> session_token" where
  "session_new cr salt i now uid r tok ip ua =
     (\<lparr>s_id = i, s_user_id = uid, s_token_hash = argon2_default_hash cr salt (session_token_expose tok),
       s_role = r, s_created_at = now, s_last_seen_at = now,
       s_absolute_expires_at = now + SESSION_ABSOLUTE, s_source_ip = ip, s_user_agent = ua\<rparr>, tok)"

definition session_touch :: "instant \<Rightarrow> session \<Rightarrow> session" where
  "session_touch now s = s\<lparr>s_last_seen_at := now\<rparr>"

definition session_is_expired :: "session \<Rightarrow> instant \<Rightarrow> bool" where
  "session_is_expired s now \<longleftrightarrow>
     now > s_absolute_expires_at s \<or> now - s_last_seen_at s > SESSION_INACTIVITY"

definition session_verify_token :: "crypto \<Rightarrow> session \<Rightarrow> session_token \<Rightarrow> bool" where
  "session_verify_token cr s tok =
     (case phc_error cr (s_token_hash s) of
        Some _ \<Rightarrow> False
      | None \<Rightarrow> argon2_verify cr (s_token_hash s) (session_token_expose tok))"

text \<open>\<open>SessionBuilder::build\<close>, through which \<open>Session::restore\<close> rebuilds a stored session.\<close>

definition session_restore ::
    "uuid \<Rightarrow> uuid \<Rightarrow> string \<Rightarrow> role \<Rightarrow> instant \<Rightarrow> instant \<Rightarrow> instant \<Rightarrow> string option \<Rightarrow>
     string option \<Rightarrow> session" where
  "session_restore i uid h r created last_seen absolute ip ua =
     \<lparr>s_id = i, s_user_id = uid, s_token_hash = h, s_role = r, s_created_at = created,
      s_last_seen_at = last_seen, s_absolute_expires_at = absolute, s_source_ip = ip,
      s_user_agent = ua\<rparr>"

lemmas duration_defs = seconds_def minutes_def hours_def days_def

text \<open>
  Expiry is monotone in the clock, a touch within the window postpones only the
  inactivity limit, and nothing postpones the absolute one.
\<close>

lemma session_is_expired_mono: "session_is_expired s t \<Longrightarrow> t \<le> t' \<Longrightarrow> session_is_expired s t'"
  by (auto simp: session_is_expired_def)

fun session_touches :: "instant list \<Rightarrow> session \<Rightarrow> session" where
  "session_touches [] s = s"
| "session_touches (t # ts) s = session_touches ts (session_touch t s)"

lemma session_touches_absolute [simp]:
  "s_absolute_expires_at (session_touches ts s) = s_absolute_expires_at s"
  by (induction ts arbitrary: s) (simp_all add: session_touch_def)

lemma session_new_live:
  "now \<le> t \<Longrightarrow> t \<le> now + hours 24 \<Longrightarrow>
     \<not> session_is_expired (fst (session_new cr salt i now uid r tok ip ua)) t"
  by (simp add: session_new_def session_is_expired_def SESSION_ABSOLUTE_def SESSION_INACTIVITY_def
      duration_defs)

lemma session_absolute_limit:
  "now + days 7 < t \<Longrightarrow>
     session_is_expired (session_touches ts (fst (session_new cr salt i now uid r tok ip ua))) t"
  by (simp add: session_is_expired_def session_new_def SESSION_ABSOLUTE_def)

end
