(* ===== verification/Factor_Domain.thy ===== *)
theory Factor_Domain
  imports Identity_Domain
begin

text \<open>
  Second factors, \<open>openpanel-domain/src/identity/factor.rs\<close>: TOTP factors with
  replay protection, pending enrolments, TOTP secrets and their verification,
  recovery codes, pending-login challenges, and WebAuthn credentials and
  ceremonies. Bit-level code (the base-32 encoders, the constant-time
  comparison) is kept at the machine widths of the source.
\<close>

unbundle bit_operations_syntax

datatype factor_error =
    FactorRevoked
  | NotVerified
  | InvalidCodeFormat
  | CodeMismatch
  | FactorCodeReplayed
  | RecoveryMismatch
  | RecoveryConsumed
  | WebAuthnCounterRegression
  | InvalidSecret

fun factor_error_display :: "factor_error \<Rightarrow> string" where
  "factor_error_display FactorRevoked = ''factor has been revoked''"
| "factor_error_display NotVerified = ''factor is not yet verified''"
| "factor_error_display InvalidCodeFormat = ''invalid TOTP code format''"
| "factor_error_display CodeMismatch = ''TOTP code did not match''"
| "factor_error_display FactorCodeReplayed = ''TOTP code has already been used''"
| "factor_error_display RecoveryMismatch = ''recovery code did not match''"
| "factor_error_display RecoveryConsumed = ''recovery code has already been consumed''"
| "factor_error_display WebAuthnCounterRegression = ''WebAuthn signature counter did not advance''"
| "factor_error_display InvalidSecret = ''TOTP secret is malformed''"

section \<open>Factors and replay protection\<close>

datatype factor_kind = Totp | WebAuthn

definition factor_kind_as_str :: "factor_kind \<Rightarrow> string" where
  "factor_kind_as_str k = (case k of Totp \<Rightarrow> ''totp'' | WebAuthn \<Rightarrow> ''webauthn'')"

definition factor_kind_parse :: "string \<Rightarrow> factor_kind option" where
  "factor_kind_parse s =
     (if s = ''totp'' then Some Totp else if s = ''webauthn'' then Some WebAuthn else None)"

interpretation factor_kind_codec: string_codec factor_kind_as_str "\<lambda>s. ok_or s (factor_kind_parse s)"
proof
  fix v s
  show "ok_or (factor_kind_as_str v) (factor_kind_parse (factor_kind_as_str v)) = Inr v"
    by (cases v) (simp_all add: factor_kind_as_str_def factor_kind_parse_def)
  show "ok_or s (factor_kind_parse s) = Inr v \<Longrightarrow> factor_kind_as_str v = s"
    by (auto simp: factor_kind_as_str_def factor_kind_parse_def split: if_splits)
qed

record factor =
  f_id :: uuid
  f_user_id :: uuid
  f_kind :: factor_kind
  f_created_at :: instant
  f_verified_at :: instant
  f_last_used_at :: "instant option"
  f_revoked_at :: "instant option"
  f_last_used_step :: "int option"

definition factor_new_verified :: "uuid \<Rightarrow> uuid \<Rightarrow> factor_kind \<Rightarrow> instant \<Rightarrow> factor" where
  "factor_new_verified i uid k now =
     \<lparr>f_id = i, f_user_id = uid, f_kind = k, f_created_at = now, f_verified_at = now,
      f_last_used_at = None, f_revoked_at = None, f_last_used_step = None\<rparr>"

definition factor_is_usable :: "factor \<Rightarrow> bool" where
  "factor_is_usable f \<longleftrightarrow> f_revoked_at f = None"

definition factor_record_used_step :: "instant \<Rightarrow> int \<Rightarrow> factor \<Rightarrow> factor_error + factor" where
  "factor_record_used_step now step f =
     (if \<not> factor_is_usable f then Inl FactorRevoked
      else if (case f_last_used_step f of None \<Rightarrow> False | Some prev \<Rightarrow> step \<le> prev)
      then Inl FactorCodeReplayed
      else Inr (f\<lparr>f_last_used_step := Some step, f_last_used_at := Some now\<rparr>))"

definition factor_revoke :: "instant \<Rightarrow> factor \<Rightarrow> factor" where
  "factor_revoke now f = f\<lparr>f_revoked_at := Some now\<rparr>"

text \<open>
  A run of presented steps: the accepted ones are strictly increasing, so no step
  is accepted twice, and none is accepted after a revocation.
\<close>

fun factor_accepted :: "instant \<Rightarrow> int list \<Rightarrow> factor \<Rightarrow> int list" where
  "factor_accepted now [] f = []"
| "factor_accepted now (s # ss) f =
     (case factor_record_used_step now s f of
        Inl _ \<Rightarrow> factor_accepted now ss f
      | Inr g \<Rightarrow> s # factor_accepted now ss g)"

lemma factor_record_used_step_Inr:
  "factor_record_used_step now step f = Inr g \<longleftrightarrow>
     factor_is_usable f \<and> (\<forall>prev. f_last_used_step f = Some prev \<longrightarrow> prev < step) \<and>
     g = f\<lparr>f_last_used_step := Some step, f_last_used_at := Some now\<rparr>"
  by (auto simp: factor_record_used_step_def split: if_splits option.splits)

lemma factor_accepted_above:
  "f_last_used_step f = Some p \<Longrightarrow> s \<in> set (factor_accepted now ss f) \<Longrightarrow> p < s"
proof (induction ss arbitrary: f p)
  case Nil
  then show ?case by simp
next
  case (Cons x ss)
  show ?case
  proof (cases "factor_record_used_step now x f")
    case (Inl e)
    with Cons show ?thesis by auto
  next
    case (Inr g)
    then have "f_last_used_step g = Some x" and "p < x"
      using Cons.prems by (auto simp: factor_record_used_step_Inr)
    with Inr Cons.IH [of g x] Cons.prems show ?thesis by fastforce
  qed
qed

lemma factor_accepted_sorted: "sorted_wrt (<) (factor_accepted now ss f)"
proof (induction ss arbitrary: f)
  case Nil
  then show ?case by simp
next
  case (Cons x ss)
  show ?case
  proof (cases "factor_record_used_step now x f")
    case (Inl e)
    with Cons show ?thesis by simp
  next
    case (Inr g)
    then have "f_last_used_step g = Some x"
      by (auto simp: factor_record_used_step_Inr)
    with Inr Cons show ?thesis by (auto dest: factor_accepted_above)
  qed
qed

lemma factor_accepted_revoked: "\<not> factor_is_usable f \<Longrightarrow> factor_accepted now ss f = []"
  by (induction ss) (auto simp: factor_record_used_step_def)

section \<open>Pending TOTP enrolments\<close>

record totp_enrollment_challenge =
  te_id :: uuid
  te_user_id :: uuid
  te_encrypted_secret :: string
  te_created_at :: instant
  te_expires_at :: instant

definition TOTP_ENROLLMENT_LIFETIME :: duration where
  "TOTP_ENROLLMENT_LIFETIME = minutes 10"

definition totp_enrollment_new ::
    "uuid \<Rightarrow> uuid \<Rightarrow> string \<Rightarrow> instant \<Rightarrow> totp_enrollment_challenge" where
  "totp_enrollment_new i uid enc now =
     \<lparr>te_id = i, te_user_id = uid, te_encrypted_secret = enc, te_created_at = now,
      te_expires_at = now + TOTP_ENROLLMENT_LIFETIME\<rparr>"

definition totp_enrollment_is_usable :: "totp_enrollment_challenge \<Rightarrow> instant \<Rightarrow> bool" where
  "totp_enrollment_is_usable e now \<longleftrightarrow> now < te_expires_at e"

section \<open>Constant-time comparison\<close>

fun ct_diff :: "byte list \<Rightarrow> byte list \<Rightarrow> byte \<Rightarrow> byte" where
  "ct_diff (x # xs) (y # ys) diff = ct_diff xs ys (diff OR (x XOR y))"
| "ct_diff _ _ diff = diff"

definition constant_time_eq :: "byte list \<Rightarrow> byte list \<Rightarrow> bool" where
  "constant_time_eq a b = (if length a \<noteq> length b then False else ct_diff a b 0 = 0)"

lemma word_or_zero_iff: "(x OR y = (0 :: 'n::len word)) \<longleftrightarrow> x = 0 \<and> y = 0"
  by (auto simp: bit_eq_iff bit_simps)

lemma word_xor_zero_iff: "(x XOR y = (0 :: 'n::len word)) \<longleftrightarrow> x = y"
  by (auto simp: bit_eq_iff bit_simps)

lemma ct_diff_zero:
  "length a = length b \<Longrightarrow> ct_diff a b d = 0 \<longleftrightarrow> d = 0 \<and> a = b"
  by (induction a b d rule: ct_diff.induct) (auto simp: word_or_zero_iff word_xor_zero_iff)

lemma constant_time_eq_iff: "constant_time_eq a b \<longleftrightarrow> a = b"
  by (auto simp: constant_time_eq_def ct_diff_zero)

section \<open>TOTP secrets\<close>

record totp_secret =
  ts_bytes :: "byte list"
  ts_digits :: nat
  ts_period :: int

definition totp_secret_generate :: "byte list \<Rightarrow> totp_secret" where
  "totp_secret_generate bytes = \<lparr>ts_bytes = bytes, ts_digits = 6, ts_period = 30\<rparr>"

definition totp_secret_from_bytes :: "byte list \<Rightarrow> factor_error + totp_secret" where
  "totp_secret_from_bytes bytes =
     (if bytes = [] then Inl InvalidSecret
      else Inr \<lparr>ts_bytes = bytes, ts_digits = 6, ts_period = 30\<rparr>)"

text \<open>\<open>i64\<close> division truncates towards zero.\<close>

definition i64_div :: "int \<Rightarrow> int \<Rightarrow> int" where
  "i64_div a b = sgn a * sgn b * (\<bar>a\<bar> div \<bar>b\<bar>)"

definition totp_current_step :: "totp_secret \<Rightarrow> instant \<Rightarrow> int" where
  "totp_current_step sec now = i64_div (timestamp now) (ts_period sec)"

text \<open>
  The window of three steps is tried in the order current, previous, next. The
  library's \<open>TOTP::generate\<close> is called with the step number.
\<close>

fun totp_try :: "crypto \<Rightarrow> totp_secret \<Rightarrow> string \<Rightarrow> int \<Rightarrow> int list \<Rightarrow> factor_error + int" where
  "totp_try cr sec normalized current [] = Inl CodeMismatch"
| "totp_try cr sec normalized current (offset # offsets) =
     (let step = current + offset in
      if step < 0 then Inl InvalidSecret
      else if constant_time_eq (as_bytes (totp_generate cr (ts_bytes sec) (nat step)))
                (as_bytes normalized)
      then Inr step
      else totp_try cr sec normalized current offsets)"

definition totp_verify :: "crypto \<Rightarrow> totp_secret \<Rightarrow> string \<Rightarrow> instant \<Rightarrow> factor_error + int" where
  "totp_verify cr sec code now =
     (let normalized = filter (\<lambda>c. c \<noteq> CHR '' '') (trim code) in
      if length normalized \<noteq> ts_digits sec \<or> \<not> list_all is_ascii_digit normalized
      then Inl InvalidCodeFormat
      else totp_try cr sec normalized (totp_current_step sec now) [0, -1, 1])"

lemma totp_try_Inr:
  "totp_try cr sec n cur offs = Inr step \<Longrightarrow>
     step - cur \<in> set offs \<and> 0 \<le> step \<and> totp_generate cr (ts_bytes sec) (nat step) = n"
  by (induction offs)
     (auto simp: Let_def constant_time_eq_iff as_bytes_inject split: if_splits)

lemma totp_verify_Inr:
  assumes "totp_verify cr sec code now = Inr step"
  shows "\<bar>step - totp_current_step sec now\<bar> \<le> 1"
    and "totp_generate cr (ts_bytes sec) (nat step) = filter (\<lambda>c. c \<noteq> CHR '' '') (trim code)"
    and "length (filter (\<lambda>c. c \<noteq> CHR '' '') (trim code)) = ts_digits sec"
    and "list_all is_ascii_digit (filter (\<lambda>c. c \<noteq> CHR '' '') (trim code))"
proof -
  let ?n = "filter (\<lambda>c. c \<noteq> CHR '' '') (trim code)"
  from assms have "totp_try cr sec ?n (totp_current_step sec now) [0, -1, 1] = Inr step"
    and len: "length ?n = ts_digits sec" and dig: "list_all is_ascii_digit ?n"
    by (auto simp: totp_verify_def Let_def split: if_splits)
  then have "step - totp_current_step sec now \<in> set [0, -1, 1]"
    and "totp_generate cr (ts_bytes sec) (nat step) = ?n"
    using totp_try_Inr by blast+
  then show "\<bar>step - totp_current_step sec now\<bar> \<le> 1"
    and "totp_generate cr (ts_bytes sec) (nat step) = ?n" and "length ?n = ts_digits sec"
    and "list_all is_ascii_digit ?n"
    using len dig by auto
qed

text \<open>
  Completeness: a well-formed code of the current step is accepted, after the
  first comparison.
\<close>

lemma totp_verify_current:
  assumes "totp_generate cr (ts_bytes sec) (nat (totp_current_step sec now)) = code"
    and "0 \<le> totp_current_step sec now"
    and "filter (\<lambda>c. c \<noteq> CHR '' '') (trim code) = code"
    and "length code = ts_digits sec" and "list_all is_ascii_digit code"
  shows "totp_verify cr sec code now = Inr (totp_current_step sec now)"
  using assms by (simp add: totp_verify_def Let_def constant_time_eq_iff)

section \<open>Base-32 encoders\<close>

text \<open>
  Both encoders share the loop and differ in the alphabet: a 64 bit buffer takes
  eight bits per input byte and gives five per output character; the inner loop
  ends because \<open>bits\<close> shrinks.
\<close>

definition ALPHABET_RFC4648 :: string where
  "ALPHABET_RFC4648 = ''ABCDEFGHIJKLMNOPQRSTUVWXYZ234567''"

definition ALPHABET_CROCKFORD :: string where
  "ALPHABET_CROCKFORD = ''0123456789ABCDEFGHJKMNPQRSTVWXYZ''"

fun b32_drain :: "string \<Rightarrow> u64 \<Rightarrow> nat \<Rightarrow> string \<Rightarrow> nat \<times> string" where
  "b32_drain alphabet buffer bits out =
     (if bits < 5 then (bits, out)
      else b32_drain alphabet buffer (bits - 5)
             (out @ [alphabet ! unat (drop_bit (bits - 5) buffer AND 0x1F)]))"

declare b32_drain.simps [simp del]

fun b32_loop :: "string \<Rightarrow> byte list \<Rightarrow> u64 \<Rightarrow> nat \<Rightarrow> string \<Rightarrow> u64 \<times> nat \<times> string" where
  "b32_loop alphabet [] buffer bits out = (buffer, bits, out)"
| "b32_loop alphabet (b # bs) buffer bits out =
     (let buffer' = push_bit 8 buffer OR ucast b;
          (bits', out') = b32_drain alphabet buffer' (bits + 8) out
      in b32_loop alphabet bs buffer' bits' out')"

definition b32_encode :: "string \<Rightarrow> byte list \<Rightarrow> string" where
  "b32_encode alphabet bytes =
     (case b32_loop alphabet bytes 0 0 [] of
        (buffer, bits, out) \<Rightarrow>
          if bits > 0 then out @ [alphabet ! unat (push_bit (5 - bits) buffer AND 0x1F)] else out)"

definition encode_base32 :: "byte list \<Rightarrow> string" where
  "encode_base32 bytes = b32_encode ALPHABET_RFC4648 bytes"

definition base32_crockford :: "byte list \<Rightarrow> string" where
  "base32_crockford bytes = b32_encode ALPHABET_CROCKFORD bytes"

lemma five_bits_index: "unat (w AND 0x1F :: u64) < 32"
proof -
  have "w AND 0x1F \<le> (0x1F :: u64)" by (rule word_and_le1)
  then have "unat (w AND 0x1F) \<le> unat (0x1F :: u64)" by (simp add: word_le_nat_alt)
  then show ?thesis by simp
qed

lemma b32_drain_result:
  assumes "length alphabet = 32"
  shows "fst (b32_drain alphabet buffer bits out) = bits mod 5"
    and "length (snd (b32_drain alphabet buffer bits out)) = length out + bits div 5"
    and "set (snd (b32_drain alphabet buffer bits out)) \<subseteq> set out \<union> set alphabet"
  using assms
proof (induction alphabet buffer bits out rule: b32_drain.induct)
  case (1 alphabet buffer bits out)
  note unfold = b32_drain.simps [of alphabet buffer bits out]
  { case 1
    then show ?case using "1.IH"(1)
      by (cases "bits < 5") (auto simp: unfold mod_if) }
  { case 2
    then show ?case using "1.IH"(2)
      by (cases "bits < 5") (auto simp: unfold div_if) }
  { case 3
    then have "alphabet ! unat (drop_bit (bits - 5) buffer AND 0x1F) \<in> set alphabet"
      using five_bits_index by simp
    then show ?case using "1.IH"(3) 3
      by (cases "bits < 5") (auto simp: unfold) }
qed

lemma b32_loop_result:
  assumes "length alphabet = 32" and "b32_loop alphabet bytes buffer bits out = (buffer', bits', out')"
  shows "bits' = (if bytes = [] then bits else (bits + 8 * length bytes) mod 5) \<and>
    (bits < 5 \<longrightarrow> length out' = length out + (bits + 8 * length bytes) div 5) \<and>
    set out' \<subseteq> set out \<union> set alphabet"
  using assms
proof (induction alphabet bytes buffer bits out rule: b32_loop.induct)
  case (1 alphabet buffer bits out)
  then show ?case by auto
next
  case (2 alphabet b bs buffer bits out)
  let ?buf = "push_bit 8 buffer OR ucast b :: u64"
  obtain k o1 where d: "b32_drain alphabet ?buf (bits + 8) out = (k, o1)"
    by (cases "b32_drain alphabet ?buf (bits + 8) out")
  note r = b32_drain_result [OF 2(2), of ?buf "bits + 8" out]
  have k: "k = (bits + 8) mod 5" and l: "length o1 = length out + (bits + 8) div 5"
    and o1: "set o1 \<subseteq> set out \<union> set alphabet"
    using r d by auto
  from 2(3) d have rest: "b32_loop alphabet bs ?buf k o1 = (buffer', bits', out')"
    by (simp add: Let_def)
  note ih = 2(1) [OF refl d [symmetric] refl 2(2) rest]
  have "(k + 8 * length bs) mod 5 = (bits + 8 * Suc (length bs)) mod 5"
    using k by (simp add: mod_simps algebra_simps)
  moreover have "(bits + 8) div 5 + (k + 8 * length bs) div 5 = (bits + 8 * Suc (length bs)) div 5"
    using k by presburger
  ultimately show ?case
    using ih k l o1 by auto
qed

lemma b32_encode_result:
  assumes "length alphabet = 32"
  shows "length (b32_encode alphabet bytes) = (8 * length bytes + 4) div 5"
    and "set (b32_encode alphabet bytes) \<subseteq> set alphabet"
proof -
  obtain buffer bits out where e: "b32_loop alphabet bytes 0 0 [] = (buffer, bits, out)"
    by (cases "b32_loop alphabet bytes 0 0 []")
  note r = b32_loop_result [OF assms e]
  have bits: "bits = (8 * length bytes) mod 5" and len: "length out = (8 * length bytes) div 5"
    and sub: "set out \<subseteq> set alphabet"
    using r by (auto split: if_splits)
  have idx: "alphabet ! unat (push_bit (5 - bits) buffer AND 0x1F) \<in> set alphabet"
    using five_bits_index assms by simp
  have ceil: "(8 * length bytes + 4) div 5 =
      (8 * length bytes) div 5 + (if 0 < (8 * length bytes) mod 5 then 1 else 0)"
    by presburger
  show "length (b32_encode alphabet bytes) = (8 * length bytes + 4) div 5"
    using e bits len ceil by (simp add: b32_encode_def)
  show "set (b32_encode alphabet bytes) \<subseteq> set alphabet"
    using e sub idx by (auto simp: b32_encode_def)
qed

section \<open>Recovery codes\<close>

text \<open>
  \<open>generate_recovery_code\<close> draws eight bytes, takes twelve characters and writes
  them in groups of four. The slices \<open>&s[0..4]\<close>, \<open>&s[4..8]\<close>, \<open>&s[8..12]\<close> would
  panic on a shorter string; \<open>str_slice\<close> makes that a \<open>None\<close>.
\<close>

definition str_slice :: "nat \<Rightarrow> nat \<Rightarrow> string \<Rightarrow> string option" where
  "str_slice i j s = (if i \<le> j \<and> j \<le> length s then Some (take (j - i) (drop i s)) else None)"

definition generate_recovery_code :: "byte list \<Rightarrow> string option" where
  "generate_recovery_code bytes =
     (let s = take 12 (base32_crockford bytes) in
      case (str_slice 0 4 s, str_slice 4 8 s, str_slice 8 12 s) of
        (Some a, Some b, Some c) \<Rightarrow> Some (a @ ''-'' @ b @ ''-'' @ c)
      | _ \<Rightarrow> None)"

lemma length_base32_crockford: "length (base32_crockford bytes) = (8 * length bytes + 4) div 5"
  by (simp add: base32_crockford_def b32_encode_result ALPHABET_CROCKFORD_def)

lemma set_base32_crockford: "set (base32_crockford bytes) \<subseteq> set ALPHABET_CROCKFORD"
  using b32_encode_result(2) [of ALPHABET_CROCKFORD bytes]
  by (simp add: base32_crockford_def ALPHABET_CROCKFORD_def)

definition recovery_hash :: "crypto \<Rightarrow> string \<Rightarrow> string \<Rightarrow> factor_error + string" where
  "recovery_hash cr salt plaintext = ok_or InvalidSecret (bcrypt_hash cr salt plaintext)"

definition recovery_verify :: "crypto \<Rightarrow> string \<Rightarrow> string \<Rightarrow> factor_error + unit" where
  "recovery_verify cr plaintext h =
     (case bcrypt_verify cr plaintext h of Some True \<Rightarrow> Inr () | _ \<Rightarrow> Inl RecoveryMismatch)"

record recovery_code_entry =
  rc_hash :: string
  rc_consumed_at :: "instant option"

record recovery_code_set =
  rs_user_id :: uuid
  rs_created_at :: instant
  rs_remaining :: u8
  rs_entries :: "recovery_code_entry list"

text \<open>
  The plaintext codes drawn and the salts of their hashes are the argument
  \<open>draws\<close>, one pair per code; \<open>count\<close> is their number.
\<close>

definition recovery_set_generate ::
    "crypto \<Rightarrow> uuid \<Rightarrow> (string \<times> string) list \<Rightarrow> instant \<Rightarrow> recovery_code_set \<times> string list" where
  "recovery_set_generate cr uid draws now =
     (\<lparr>rs_user_id = uid, rs_created_at = now, rs_remaining = word_of_nat (length draws),
       rs_entries = map (\<lambda>(code, salt).
          \<lparr>rc_hash = (case recovery_hash cr salt code of Inl _ \<Rightarrow> [] | Inr h \<Rightarrow> h),
           rc_consumed_at = None\<rparr>) draws\<rparr>,
      map fst draws)"

definition unconsumed :: "recovery_code_entry list \<Rightarrow> nat" where
  "unconsumed es = length (filter (\<lambda>e. rc_consumed_at e = None) es)"

definition recovery_set_restore ::
    "uuid \<Rightarrow> instant \<Rightarrow> (string \<times> instant option) list \<Rightarrow> recovery_code_set" where
  "recovery_set_restore uid created entries =
     \<lparr>rs_user_id = uid, rs_created_at = created,
      rs_remaining = word_of_nat (length (filter (\<lambda>(_, consumed). consumed = None) entries)),
      rs_entries = map (\<lambda>(h, c). \<lparr>rc_hash = h, rc_consumed_at = c\<rparr>) entries\<rparr>"

fun recovery_scan ::
    "crypto \<Rightarrow> string \<Rightarrow> instant \<Rightarrow> recovery_code_entry list \<Rightarrow> recovery_code_entry list option" where
  "recovery_scan cr plaintext now [] = None"
| "recovery_scan cr plaintext now (e # es) =
     (if rc_consumed_at e = None \<and> recovery_verify cr plaintext (rc_hash e) = Inr ()
      then Some (e\<lparr>rc_consumed_at := Some now\<rparr> # es)
      else map_option ((#) e) (recovery_scan cr plaintext now es))"

definition recovery_set_consume ::
    "crypto \<Rightarrow> string \<Rightarrow> instant \<Rightarrow> recovery_code_set \<Rightarrow> (factor_error + u8) \<times> recovery_code_set" where
  "recovery_set_consume cr plaintext now s =
     (case recovery_scan cr plaintext now (rs_entries s) of
        None \<Rightarrow> (Inl RecoveryMismatch, s)
      | Some es \<Rightarrow>
          (let left = saturating_sub (rs_remaining s) 1
           in (Inr left, s\<lparr>rs_entries := es, rs_remaining := left\<rparr>)))"

text \<open>
  The counter agrees with the entries as long as a set has at most 255 codes, the
  most \<open>count: u8\<close> can ask for.
\<close>

definition recovery_set_wf :: "recovery_code_set \<Rightarrow> bool" where
  "recovery_set_wf s \<longleftrightarrow> length (rs_entries s) < 256 \<and> unat (rs_remaining s) = unconsumed (rs_entries s)"

lemma recovery_scan_Some:
  "recovery_scan cr p now es = Some es' \<Longrightarrow>
     length es' = length es \<and> unconsumed es = Suc (unconsumed es')"
  by (induction es arbitrary: es') (auto simp: unconsumed_def split: if_splits)

lemma recovery_scan_matching:
  "recovery_scan cr p now es = Some es' \<Longrightarrow>
     length (filter (\<lambda>e. rc_consumed_at e = None \<and> recovery_verify cr p (rc_hash e) = Inr ()) es) =
     Suc (length (filter (\<lambda>e. rc_consumed_at e = None \<and> recovery_verify cr p (rc_hash e) = Inr ()) es'))"
  by (induction es arbitrary: es') (auto split: if_splits)

lemma recovery_scan_None:
  "recovery_scan cr p now es = None \<longleftrightarrow>
     filter (\<lambda>e. rc_consumed_at e = None \<and> recovery_verify cr p (rc_hash e) = Inr ()) es = []"
  by (induction es) auto

lemma recovery_set_generate_wf:
  "length draws < 256 \<Longrightarrow> recovery_set_wf (fst (recovery_set_generate cr uid draws now))"
  by (simp add: recovery_set_wf_def recovery_set_generate_def unconsumed_def case_prod_unfold
      filter_map comp_def unat_of_nat)

lemma recovery_set_consume_wf:
  assumes "recovery_set_wf s"
  shows "recovery_set_wf (snd (recovery_set_consume cr p now s))"
proof (cases "recovery_scan cr p now (rs_entries s)")
  case None
  then show ?thesis using assms by (simp add: recovery_set_consume_def)
next
  case (Some es)
  then show ?thesis
    using assms recovery_scan_Some [OF Some]
    by (simp add: recovery_set_consume_def recovery_set_wf_def Let_def unat_saturating_sub)
qed

section \<open>Pending-login challenges\<close>

record two_factor_challenge =
  tc_id :: uuid
  tc_user_id :: uuid
  tc_token_hash :: string
  tc_created_at :: instant
  tc_expires_at :: instant
  tc_consumed_at :: "instant option"
  tc_source_ip :: "string option"
  tc_user_agent :: "string option"

definition CHALLENGE_LIFETIME :: duration where
  "CHALLENGE_LIFETIME = minutes 5"

text \<open>The plaintext token is the base64 form of 32 random bytes, \<open>buf\<close>.\<close>

definition challenge_create_with_lifetime ::
    "crypto \<Rightarrow> string \<Rightarrow> uuid \<Rightarrow> byte list \<Rightarrow> uuid \<Rightarrow> string option \<Rightarrow> string option \<Rightarrow> instant \<Rightarrow>
     duration \<Rightarrow> two_factor_challenge \<times> string" where
  "challenge_create_with_lifetime cr salt i buf uid ip ua now lifetime =
     (let token = b64_enc cr buf in
      (\<lparr>tc_id = i, tc_user_id = uid, tc_token_hash = argon2_default_hash cr salt token,
        tc_created_at = now, tc_expires_at = now + lifetime, tc_consumed_at = None,
        tc_source_ip = ip, tc_user_agent = ua\<rparr>, token))"

definition challenge_create ::
    "crypto \<Rightarrow> string \<Rightarrow> uuid \<Rightarrow> byte list \<Rightarrow> uuid \<Rightarrow> string option \<Rightarrow> string option \<Rightarrow> instant \<Rightarrow>
     two_factor_challenge \<times> string" where
  "challenge_create cr salt i buf uid ip ua now =
     challenge_create_with_lifetime cr salt i buf uid ip ua now CHALLENGE_LIFETIME"

definition challenge_is_usable :: "two_factor_challenge \<Rightarrow> instant \<Rightarrow> bool" where
  "challenge_is_usable c now \<longleftrightarrow> tc_consumed_at c = None \<and> now < tc_expires_at c"

definition challenge_consume ::
    "instant \<Rightarrow> two_factor_challenge \<Rightarrow> factor_error + uuid \<times> two_factor_challenge" where
  "challenge_consume now c =
     (if \<not> challenge_is_usable c now then Inl FactorCodeReplayed
      else Inr (tc_user_id c, c\<lparr>tc_consumed_at := Some now\<rparr>))"

definition challenge_verify_token :: "crypto \<Rightarrow> two_factor_challenge \<Rightarrow> string \<Rightarrow> bool" where
  "challenge_verify_token cr c plaintext =
     (case phc_error cr (tc_token_hash c) of
        Some _ \<Rightarrow> False
      | None \<Rightarrow> argon2_verify cr (tc_token_hash c) plaintext)"

lemma challenge_consume_once:
  "challenge_consume t c = Inr (u, c') \<Longrightarrow> challenge_consume t' c' = Inl FactorCodeReplayed"
  by (auto simp: challenge_consume_def challenge_is_usable_def split: if_splits)

section \<open>WebAuthn\<close>

datatype user_verification_policy = UvRequired | UvPreferred | UvDiscouraged

definition uv_policy_as_str :: "user_verification_policy \<Rightarrow> string" where
  "uv_policy_as_str p =
     (case p of UvRequired \<Rightarrow> ''required'' | UvPreferred \<Rightarrow> ''preferred'' | UvDiscouraged \<Rightarrow> ''discouraged'')"

definition uv_policy_parse :: "string \<Rightarrow> user_verification_policy option" where
  "uv_policy_parse s =
     (if s = ''required'' then Some UvRequired
      else if s = ''preferred'' then Some UvPreferred
      else if s = ''discouraged'' then Some UvDiscouraged
      else None)"

interpretation uv_policy_codec: string_codec uv_policy_as_str "\<lambda>s. ok_or s (uv_policy_parse s)"
proof
  fix v s
  show "ok_or (uv_policy_as_str v) (uv_policy_parse (uv_policy_as_str v)) = Inr v"
    by (cases v) (simp_all add: uv_policy_as_str_def uv_policy_parse_def)
  show "ok_or s (uv_policy_parse s) = Inr v \<Longrightarrow> uv_policy_as_str v = s"
    by (auto simp: uv_policy_as_str_def uv_policy_parse_def split: if_splits)
qed

record webauthn_credential =
  wc_id :: uuid
  wc_user_id :: uuid
  wc_factor_id :: uuid
  wc_credential_id :: string
  wc_public_key_spki :: string
  wc_sign_count :: int
  wc_transports :: string
  wc_uv_policy :: user_verification_policy
  wc_passkey_json :: string
  wc_created_at :: instant
  wc_last_used_at :: "instant option"
  wc_revoked_at :: "instant option"

definition webauthn_is_usable :: "webauthn_credential \<Rightarrow> bool" where
  "webauthn_is_usable c \<longleftrightarrow> wc_revoked_at c = None"

definition webauthn_record_assertion ::
    "int \<Rightarrow> instant \<Rightarrow> webauthn_credential \<Rightarrow> factor_error + webauthn_credential" where
  "webauthn_record_assertion presented now c =
     (if \<not> webauthn_is_usable c then Inl FactorRevoked
      else if presented \<le> wc_sign_count c then Inl WebAuthnCounterRegression
      else Inr (c\<lparr>wc_sign_count := presented, wc_last_used_at := Some now\<rparr>))"

lemma webauthn_record_assertion_Inr:
  "webauthn_record_assertion n now c = Inr c' \<longleftrightarrow>
     webauthn_is_usable c \<and> wc_sign_count c < n \<and>
     c' = c\<lparr>wc_sign_count := n, wc_last_used_at := Some now\<rparr>"
  by (auto simp: webauthn_record_assertion_def)

record webauthn_challenge =
  wch_id :: uuid
  wch_user_id :: uuid
  wch_kind :: string
  wch_state_json :: string
  wch_created_at :: instant
  wch_expires_at :: instant
  wch_consumed_at :: "instant option"

definition KIND_ASSERT :: string where
  "KIND_ASSERT = ''assert''"

definition KIND_REGISTER :: string where
  "KIND_REGISTER = ''register''"

definition webauthn_challenge_new ::
    "uuid \<Rightarrow> uuid \<Rightarrow> string \<Rightarrow> string \<Rightarrow> instant \<Rightarrow> instant \<Rightarrow> webauthn_challenge" where
  "webauthn_challenge_new i uid kind state created expires =
     \<lparr>wch_id = i, wch_user_id = uid, wch_kind = kind, wch_state_json = state,
      wch_created_at = created, wch_expires_at = expires, wch_consumed_at = None\<rparr>"

definition webauthn_challenge_is_usable :: "webauthn_challenge \<Rightarrow> instant \<Rightarrow> bool" where
  "webauthn_challenge_is_usable c now \<longleftrightarrow> wch_consumed_at c = None \<and> now < wch_expires_at c"

end
