(* ===== verification/Hierarchy_Domain.thy ===== *)
theory Hierarchy_Domain
  imports Prelude "HOL-Library.Multiset"
begin

text \<open>
  \<open>openpanel-domain/src/account_hierarchy/mod.rs\<close>: parent-child relationships,
  pooled quotas and the claims against them, the tree snapshot, the cycle search
  \<open>would_cycle\<close> and the admission test \<open>check_pool_claim\<close>. Byte counts are
  \<open>u64\<close> words.
\<close>

datatype hierarchy_error =
    Cycle
  | AlreadyAttached
  | HUserNotFound
  | InvalidPoolTotal
  | InvalidClaim
  | PoolExhausted
  | PoolNotFound
  | HForbidden
  | HPersistence string

section \<open>Relationships\<close>

datatype hierarchy_status = RelActive | RelDetached

record account_relationship =
  ar_parent_id :: uuid
  ar_child_id :: uuid
  ar_created_at :: instant
  ar_created_by :: uuid
  ar_status :: hierarchy_status

definition relationship_new :: "uuid \<Rightarrow> uuid \<Rightarrow> uuid \<Rightarrow> instant \<Rightarrow> account_relationship" where
  "relationship_new p c by_id now =
     \<lparr>ar_parent_id = p, ar_child_id = c, ar_created_at = now, ar_created_by = by_id,
      ar_status = RelActive\<rparr>"

definition relationship_detach :: "account_relationship \<Rightarrow> account_relationship" where
  "relationship_detach r = r\<lparr>ar_status := RelDetached\<rparr>"

definition relationship_is_active :: "account_relationship \<Rightarrow> bool" where
  "relationship_is_active r \<longleftrightarrow> ar_status r = RelActive"

section \<open>Quota pools and claims\<close>

datatype pool_axis = DiskBytes | BandwidthBytesPerMonth | MaxChildAccounts

record quota_pool =
  qp_parent_id :: uuid
  qp_axis :: pool_axis
  qp_total_bytes :: u64
  qp_updated_at :: instant

definition quota_pool_new :: "uuid \<Rightarrow> pool_axis \<Rightarrow> u64 \<Rightarrow> instant \<Rightarrow> hierarchy_error + quota_pool" where
  "quota_pool_new p axis tot now =
     (if tot = 0 then Inl InvalidPoolTotal
      else Inr \<lparr>qp_parent_id = p, qp_axis = axis, qp_total_bytes = tot, qp_updated_at = now\<rparr>)"

definition quota_pool_set_total_bytes ::
    "u64 \<Rightarrow> instant \<Rightarrow> quota_pool \<Rightarrow> hierarchy_error + quota_pool" where
  "quota_pool_set_total_bytes tot now p =
     (if tot = 0 then Inl InvalidPoolTotal
      else Inr (p\<lparr>qp_total_bytes := tot, qp_updated_at := now\<rparr>))"

record pool_claim =
  pc_parent_id :: uuid
  pc_child_id :: uuid
  pc_axis :: pool_axis
  pc_share_bytes :: u64
  pc_claimed_at :: instant

definition pool_claim_new ::
    "uuid \<Rightarrow> uuid \<Rightarrow> pool_axis \<Rightarrow> u64 \<Rightarrow> instant \<Rightarrow> hierarchy_error + pool_claim" where
  "pool_claim_new p c axis share now =
     (if share = 0 then Inl InvalidClaim
      else Inr \<lparr>pc_parent_id = p, pc_child_id = c, pc_axis = axis, pc_share_bytes = share,
        pc_claimed_at = now\<rparr>)"

definition check_pool_claim :: "u64 \<Rightarrow> u64 \<Rightarrow> u64 \<Rightarrow> hierarchy_error + unit" where
  "check_pool_claim pool_total current_claimed requested =
     (let new_total = saturating_add current_claimed requested in
      if new_total > pool_total then Inl PoolExhausted else Inr ())"

text \<open>
  The saturating sum makes the test exact for every total below the maximum of
  \<open>u64\<close>; at the maximum itself the sum can no longer exceed it.
\<close>

lemma check_pool_claim_Inr:
  "check_pool_claim tot claimed requested = Inr () \<longleftrightarrow>
     min (unat claimed + unat requested) (2 ^ 64 - 1) \<le> unat tot"
  by (auto simp: check_pool_claim_def Let_def word_less_nat_alt unat_saturating_add not_less)

lemma unat_u64_less: "unat (w :: u64) < 2 ^ 64"
  using unsigned_less [of w] by simp

section \<open>The tree snapshot\<close>

datatype hierarchy_node =
  HierarchyNode (hn_user_id: uuid) (hn_parent_id: "uuid option") (hn_depth: nat)
    (hn_children: "hierarchy_node list")

definition node_new :: "uuid \<Rightarrow> uuid option \<Rightarrow> nat \<Rightarrow> hierarchy_node" where
  "node_new u p d = HierarchyNode u p d []"

definition node_push_child :: "hierarchy_node \<Rightarrow> hierarchy_node \<Rightarrow> hierarchy_node" where
  "node_push_child c n =
     HierarchyNode (hn_user_id n) (hn_parent_id n) (hn_depth n) (hn_children n @ [c])"

section \<open>The cycle search\<close>

text \<open>
  The search keeps a stack and no record of visited accounts, so it need not end;
  \<open>None\<close> is a search that runs forever. The head of the list is the top of the
  stack: children are pushed in order, so the last child is popped first.
\<close>

type_synonym children_map = "uuid \<Rightarrow> uuid list option"

partial_function (option) would_cycle_loop ::
    "uuid \<Rightarrow> children_map \<Rightarrow> uuid list \<Rightarrow> bool option" where
  "would_cycle_loop child kids stack =
     (case stack of
        [] \<Rightarrow> Some False
      | current # rest \<Rightarrow>
          if current = child then Some True
          else would_cycle_loop child kids
                 (case kids current of None \<Rightarrow> rest | Some ks \<Rightarrow> rev ks @ rest))"

definition would_cycle :: "uuid \<Rightarrow> uuid \<Rightarrow> children_map \<Rightarrow> bool option" where
  "would_cycle proposed_parent child kids =
     (if proposed_parent = child then Some True else would_cycle_loop child kids [proposed_parent])"

definition child_edge :: "children_map \<Rightarrow> uuid rel" where
  "child_edge kids = {(p, c). \<exists>ks. kids p = Some ks \<and> c \<in> set ks}"

lemma would_cycle_loop_simps [simp]:
  "would_cycle_loop child kids [] = Some False"
  "would_cycle_loop child kids (current # rest) =
     (if current = child then Some True
      else would_cycle_loop child kids
             (case kids current of None \<Rightarrow> rest | Some ks \<Rightarrow> rev ks @ rest))"
  by (simp_all add: would_cycle_loop.simps)

text \<open>
  One iteration replaces the popped account by its children, which are below it in
  an acyclic map: the multiset of the stack decreases.
\<close>

lemma stack_decreases:
  "(mset (case kids x of None \<Rightarrow> rest | Some ks \<Rightarrow> rev ks @ rest), mset (x # rest))
     \<in> mult1 ((child_edge kids)\<inverse>)"
proof (cases "kids x")
  case None
  then show ?thesis
    by (intro mult1I [of _ x "mset rest" _ "{#}"]) auto
next
  case (Some ks)
  then have "\<forall>b. b \<in># mset ks \<longrightarrow> (b, x) \<in> (child_edge kids)\<inverse>"
    by (auto simp: child_edge_def)
  then show ?thesis using Some
    by (intro mult1I [of _ x "mset rest" _ "mset ks"]) auto
qed

lemma would_cycle_loop_total:
  assumes "wf ((child_edge kids)\<inverse>)"
  shows "would_cycle_loop child kids stack =
    Some (\<exists>x \<in> set stack. (x, child) \<in> (child_edge kids)\<^sup>*)"
proof -
  have "wf (inv_image (mult1 ((child_edge kids)\<inverse>)) mset)"
    using assms by (simp add: wf_mult1)
  then show ?thesis
  proof (induction stack rule: wf_induct_rule)
    case (less stack)
    show ?case
    proof (cases stack)
      case Nil
      then show ?thesis by simp
    next
      case (Cons x rest)
      let ?next = "case kids x of None \<Rightarrow> rest | Some ks \<Rightarrow> rev ks @ rest"
      have below: "(x, child) \<in> (child_edge kids)\<^sup>* \<longleftrightarrow>
          x = child \<or> (\<exists>k. (x, k) \<in> child_edge kids \<and> (k, child) \<in> (child_edge kids)\<^sup>*)"
        by (meson converse_rtrancl_into_rtrancl converse_rtranclE rtrancl.rtrancl_refl)
      have "(?next, x # rest) \<in> inv_image (mult1 ((child_edge kids)\<inverse>)) mset"
        using stack_decreases by simp
      then have "would_cycle_loop child kids ?next =
          Some (\<exists>y \<in> set ?next. (y, child) \<in> (child_edge kids)\<^sup>*)"
        using less Cons by blast
      then show ?thesis
        using Cons below by (cases "kids x") (auto simp: child_edge_def)
    qed
  qed
qed

end
