(* ===== verification/Plans_Domain.thy ===== *)
theory Plans_Domain
  imports Common_Values
begin

text \<open>
  \<open>openpanel-domain/src/hosting_plans/mod.rs\<close>: plan definitions with their quota
  caps, feature toggles and price list, and the rows of the assignment table.
  \<open>BrandingScope\<close> is from \<open>themeable_ui/mod.rs\<close>. The JSON columns are written and
  read by serde\_json, which is the record \<open>plan_json\<close> of functions.
\<close>

datatype hosting_plans_error =
    DuplicateName
  | PlanDisabledErr
  | PlanInUse
  | PlanNotFound
  | InvalidName string
  | InvalidPrice string
  | InvalidPhpRuntime string
  | PUserNotFound
  | WouldShrinkBelowUsage
  | PPersistence string

section \<open>Value objects\<close>

datatype php_runtime_ref = HostedPhpRuntimeRef string

primrec php_runtime_as_str :: "php_runtime_ref \<Rightarrow> string" where
  "php_runtime_as_str (HostedPhpRuntimeRef s) = s"

definition php_runtime_char_ok :: "char \<Rightarrow> bool" where
  "php_runtime_char_ok c \<longleftrightarrow> is_ascii_alphanumeric c \<or> c = CHR ''.'' \<or> c = CHR ''-''"

definition php_runtime_parse :: "string \<Rightarrow> hosting_plans_error + php_runtime_ref" where
  "php_runtime_parse s =
     (if s = [] then Inl (InvalidPhpRuntime ''runtime must not be empty'')
      else if length s > 64 then Inl (InvalidPhpRuntime ''runtime exceeds 64 chars'')
      else if \<not> list_all php_runtime_char_ok s
      then Inl (InvalidPhpRuntime ''runtime contains invalid characters'')
      else Inr (HostedPhpRuntimeRef s))"

definition php_runtime_wf :: "php_runtime_ref \<Rightarrow> bool" where
  "php_runtime_wf r \<longleftrightarrow> php_runtime_as_str r \<noteq> [] \<and> length (php_runtime_as_str r) \<le> 64 \<and>
     list_all php_runtime_char_ok (php_runtime_as_str r)"

interpretation php_runtime_vo: value_object php_runtime_parse php_runtime_as_str php_runtime_wf
proof
  fix s v
  show "php_runtime_parse s = Inr v \<longleftrightarrow> php_runtime_wf v \<and> php_runtime_as_str v = s"
    by (cases v) (auto simp: php_runtime_parse_def php_runtime_wf_def)
qed

datatype plan_status = PlanActive | PlanDisabled

datatype plan_feature_state = FeatDisabled | FeatOptional | FeatRequired

datatype plan_feature =
    Smtp | Cron | Sftp | Docker | ApiTokens | Mail | Databases | Backups | WebApps | MalwareScanner

datatype branding_scope = ScopeReseller | ScopeDisabled | ScopeSystem

definition branding_default :: branding_scope where
  "branding_default = ScopeDisabled"

definition grants_branding :: "branding_scope \<Rightarrow> bool" where
  "grants_branding s \<longleftrightarrow> s = ScopeReseller"

record plan_price =
  pp_amount_minor :: u64
  pp_currency :: string
  pp_period :: string

definition currency_ok :: "string \<Rightarrow> bool" where
  "currency_ok c \<longleftrightarrow> length c = 3 \<and> list_all is_ascii_uppercase c"

definition currency_error :: "string \<Rightarrow> hosting_plans_error" where
  "currency_error c =
     InvalidPrice (''currency must be 3 uppercase ASCII letters, got `'' @ c @ ''`'')"

definition plan_price_new :: "u64 \<Rightarrow> string \<Rightarrow> string \<Rightarrow> hosting_plans_error + plan_price" where
  "plan_price_new amount currency period =
     (if \<not> currency_ok currency then Inl (currency_error currency)
      else if period = [] \<or> length period > 32
      then Inl (InvalidPrice (''period must be 1..=32 chars, got `'' @ nat_str (length period) @ ''`''))
      else Inr \<lparr>pp_amount_minor = amount, pp_currency = currency, pp_period = period\<rparr>)"

section \<open>Quota caps\<close>

record plan_quotas =
  disk_bytes :: u64
  bandwidth_bytes_per_month :: u64
  max_sites :: u32
  max_databases :: u32
  max_mail_domains :: u32
  max_mailboxes :: u32
  max_cron_jobs :: u32
  max_api_tokens :: u32
  max_fleet_agents :: u32

definition plan_quotas_zero :: plan_quotas where
  "plan_quotas_zero =
     \<lparr>disk_bytes = 0, bandwidth_bytes_per_month = 0, max_sites = 0, max_databases = 0,
      max_mail_domains = 0, max_mailboxes = 0, max_cron_jobs = 0, max_api_tokens = 0,
      max_fleet_agents = 0\<rparr>"

definition plan_quotas_min :: "plan_quotas \<Rightarrow> plan_quotas \<Rightarrow> plan_quotas" where
  "plan_quotas_min a b =
     \<lparr>disk_bytes = min (disk_bytes a) (disk_bytes b),
      bandwidth_bytes_per_month =
        min (bandwidth_bytes_per_month a) (bandwidth_bytes_per_month b),
      max_sites = min (max_sites a) (max_sites b),
      max_databases = min (max_databases a) (max_databases b),
      max_mail_domains = min (max_mail_domains a) (max_mail_domains b),
      max_mailboxes = min (max_mailboxes a) (max_mailboxes b),
      max_cron_jobs = min (max_cron_jobs a) (max_cron_jobs b),
      max_api_tokens = min (max_api_tokens a) (max_api_tokens b),
      max_fleet_agents = min (max_fleet_agents a) (max_fleet_agents b)\<rparr>"

text \<open>Axis by axis, the order in which \<open>min\<close> is the greatest lower bound.\<close>

definition quotas_le :: "plan_quotas \<Rightarrow> plan_quotas \<Rightarrow> bool" where
  "quotas_le a b \<longleftrightarrow> disk_bytes a \<le> disk_bytes b \<and>
     bandwidth_bytes_per_month a \<le> bandwidth_bytes_per_month b \<and>
     max_sites a \<le> max_sites b \<and> max_databases a \<le> max_databases b \<and>
     max_mail_domains a \<le> max_mail_domains b \<and> max_mailboxes a \<le> max_mailboxes b \<and>
     max_cron_jobs a \<le> max_cron_jobs b \<and> max_api_tokens a \<le> max_api_tokens b \<and>
     max_fleet_agents a \<le> max_fleet_agents b"

lemma quotas_le_refl [simp]: "quotas_le a a"
  by (simp add: quotas_le_def)

lemma quotas_le_antisym: "quotas_le a b \<Longrightarrow> quotas_le b a \<Longrightarrow> a = (b :: plan_quotas)"
  by (auto simp: quotas_le_def intro: plan_quotas.equality)

lemma quotas_le_min_iff: "quotas_le c (plan_quotas_min a b) \<longleftrightarrow> quotas_le c a \<and> quotas_le c b"
  by (auto simp: quotas_le_def plan_quotas_min_def)

lemma plan_quotas_zero_least: "quotas_le plan_quotas_zero a"
  by (simp add: quotas_le_def plan_quotas_zero_def)

section \<open>Plans\<close>

record hosting_plan =
  hp_id :: uuid
  hp_name :: string
  hp_description :: string
  hp_prices :: "plan_price list"
  hp_features :: "plan_feature \<Rightarrow> plan_feature_state option"
  hp_quota_caps :: plan_quotas
  hp_allowed_apps :: "uuid list"
  hp_allowed_php_runtimes :: "php_runtime_ref list"
  hp_status :: plan_status
  hp_branding_scope :: branding_scope
  hp_created_at :: instant
  hp_updated_at :: instant

definition plan_name_ok :: "string \<Rightarrow> bool" where
  "plan_name_ok name \<longleftrightarrow> 3 \<le> length name \<and> length name \<le> 64"

definition hosting_plan_new ::
    "uuid \<Rightarrow> string \<Rightarrow> string \<Rightarrow> plan_quotas \<Rightarrow> instant \<Rightarrow> hosting_plans_error + hosting_plan" where
  "hosting_plan_new i name description caps now =
     (if length name < 3 \<or> length name > 64
      then Inl (InvalidName (''name must be 3..=64 chars, got '' @ nat_str (length name)))
      else Inr \<lparr>hp_id = i, hp_name = name, hp_description = description, hp_prices = [],
        hp_features = Map.empty, hp_quota_caps = caps, hp_allowed_apps = [],
        hp_allowed_php_runtimes = [], hp_status = PlanActive,
        hp_branding_scope = branding_default, hp_created_at = now, hp_updated_at = now\<rparr>)"

definition plan_touch :: "instant \<Rightarrow> hosting_plan \<Rightarrow> hosting_plan" where
  "plan_touch now p = p\<lparr>hp_updated_at := now\<rparr>"

definition plan_set_branding_scope :: "branding_scope \<Rightarrow> instant \<Rightarrow> hosting_plan \<Rightarrow> hosting_plan" where
  "plan_set_branding_scope s now p = p\<lparr>hp_branding_scope := s, hp_updated_at := now\<rparr>"

text \<open>\<open>set_prices\<close> checks the currency of each entry and not its period.\<close>

fun check_prices :: "plan_price list \<Rightarrow> hosting_plans_error + unit" where
  "check_prices [] = Inr ()"
| "check_prices (p # ps) =
     (if \<not> currency_ok (pp_currency p) then Inl (currency_error (pp_currency p))
      else check_prices ps)"

definition plan_set_prices ::
    "plan_price list \<Rightarrow> instant \<Rightarrow> hosting_plan \<Rightarrow> hosting_plans_error + hosting_plan" where
  "plan_set_prices prices now p =
     rbind (check_prices prices) (\<lambda>_. Inr (plan_touch now (p\<lparr>hp_prices := prices\<rparr>)))"

definition plan_set_feature ::
    "plan_feature \<Rightarrow> plan_feature_state \<Rightarrow> instant \<Rightarrow> hosting_plan \<Rightarrow> hosting_plan" where
  "plan_set_feature f s now p = plan_touch now (p\<lparr>hp_features := (hp_features p)(f \<mapsto> s)\<rparr>)"

definition plan_set_quota_caps :: "plan_quotas \<Rightarrow> instant \<Rightarrow> hosting_plan \<Rightarrow> hosting_plan" where
  "plan_set_quota_caps caps now p = plan_touch now (p\<lparr>hp_quota_caps := caps\<rparr>)"

definition plan_set_description :: "string \<Rightarrow> instant \<Rightarrow> hosting_plan \<Rightarrow> hosting_plan" where
  "plan_set_description d now p = plan_touch now (p\<lparr>hp_description := d\<rparr>)"

definition plan_set_allowed_apps :: "uuid list \<Rightarrow> instant \<Rightarrow> hosting_plan \<Rightarrow> hosting_plan" where
  "plan_set_allowed_apps apps now p = plan_touch now (p\<lparr>hp_allowed_apps := apps\<rparr>)"

definition plan_set_allowed_php_runtimes ::
    "string list \<Rightarrow> instant \<Rightarrow> hosting_plan \<Rightarrow> hosting_plans_error + hosting_plan" where
  "plan_set_allowed_php_runtimes runtimes now p =
     rbind (collect_results php_runtime_parse runtimes)
       (\<lambda>parsed. Inr (plan_touch now (p\<lparr>hp_allowed_php_runtimes := parsed\<rparr>)))"

definition plan_disable :: "instant \<Rightarrow> hosting_plan \<Rightarrow> hosting_plan" where
  "plan_disable now p = plan_touch now (p\<lparr>hp_status := PlanDisabled\<rparr>)"

definition plan_enable :: "instant \<Rightarrow> hosting_plan \<Rightarrow> hosting_plan" where
  "plan_enable now p = plan_touch now (p\<lparr>hp_status := PlanActive\<rparr>)"

definition accepts_assignments :: "hosting_plan \<Rightarrow> bool" where
  "accepts_assignments p \<longleftrightarrow> hp_status p = PlanActive"

definition clone_with_name ::
    "uuid \<Rightarrow> string \<Rightarrow> instant \<Rightarrow> hosting_plan \<Rightarrow> hosting_plans_error + hosting_plan" where
  "clone_with_name new_id new_name now p =
     rbind (hosting_plan_new new_id new_name (hp_description p) (hp_quota_caps p) now)
       (\<lambda>c. Inr (c\<lparr>hp_prices := hp_prices p, hp_features := hp_features p,
          hp_allowed_apps := hp_allowed_apps p,
          hp_allowed_php_runtimes := hp_allowed_php_runtimes p\<rparr>))"

section \<open>The stored form\<close>

record plan_json =
  prices_to_json :: "plan_price list \<Rightarrow> string option"
  prices_from_json :: "string \<Rightarrow> string + plan_price list"
  features_to_json :: "(plan_feature \<Rightarrow> plan_feature_state option) \<Rightarrow> string option"
  features_from_json :: "string \<Rightarrow> string + (plan_feature \<Rightarrow> plan_feature_state option)"
  uuids_to_json :: "uuid list \<Rightarrow> string option"
  uuids_from_json :: "string \<Rightarrow> string + uuid list"
  strings_to_json :: "string list \<Rightarrow> string option"
  strings_from_json :: "string \<Rightarrow> string + string list"
  caps_to_json :: "plan_quotas \<Rightarrow> string + string"
  caps_from_json :: "string \<Rightarrow> string + plan_quotas"

definition unwrap_or :: "'a \<Rightarrow> 'a option \<Rightarrow> 'a" where
  "unwrap_or d x = (case x of None \<Rightarrow> d | Some y \<Rightarrow> y)"

definition prices_json :: "plan_json \<Rightarrow> hosting_plan \<Rightarrow> string" where
  "prices_json js p = unwrap_or ''[]'' (prices_to_json js (hp_prices p))"

definition features_json :: "plan_json \<Rightarrow> hosting_plan \<Rightarrow> string" where
  "features_json js p = unwrap_or [CHR 123, CHR 125] (features_to_json js (hp_features p))"

definition allowed_apps_json :: "plan_json \<Rightarrow> hosting_plan \<Rightarrow> string" where
  "allowed_apps_json js p = unwrap_or ''[]'' (uuids_to_json js (hp_allowed_apps p))"

definition allowed_php_runtimes_json :: "plan_json \<Rightarrow> hosting_plan \<Rightarrow> string" where
  "allowed_php_runtimes_json js p =
     unwrap_or ''[]'' (strings_to_json js (map php_runtime_as_str (hp_allowed_php_runtimes p)))"

definition hosting_plan_restore ::
    "plan_json \<Rightarrow> uuid \<Rightarrow> string \<Rightarrow> string \<Rightarrow> string \<Rightarrow> string \<Rightarrow> plan_quotas \<Rightarrow> string \<Rightarrow> string \<Rightarrow>
     plan_status \<Rightarrow> instant \<Rightarrow> instant \<Rightarrow> hosting_plans_error + hosting_plan" where
  "hosting_plan_restore js i name description prices_j features_j caps apps_j runtimes_j
       status created updated =
     rbind (map_err PPersistence (prices_from_json js prices_j)) (\<lambda>prices.
     rbind (map_err PPersistence (features_from_json js features_j)) (\<lambda>features.
     rbind (map_err PPersistence (uuids_from_json js apps_j)) (\<lambda>apps.
     rbind (map_err PPersistence (strings_from_json js runtimes_j)) (\<lambda>runtimes.
     rbind (collect_results php_runtime_parse runtimes) (\<lambda>parsed.
       Inr \<lparr>hp_id = i, hp_name = name, hp_description = description, hp_prices = prices,
         hp_features = features, hp_quota_caps = caps, hp_allowed_apps = apps,
         hp_allowed_php_runtimes = parsed, hp_status = status,
         hp_branding_scope = branding_default, hp_created_at = created,
         hp_updated_at = updated\<rparr>)))))"

text \<open>The documented contract of serde\_json for these types: what it writes, it reads back.\<close>

definition json_roundtrips :: "plan_json \<Rightarrow> bool" where
  "json_roundtrips js \<longleftrightarrow>
     (\<forall>x. \<exists>s. prices_to_json js x = Some s \<and> prices_from_json js s = Inr x) \<and>
     (\<forall>x. \<exists>s. features_to_json js x = Some s \<and> features_from_json js s = Inr x) \<and>
     (\<forall>x. \<exists>s. uuids_to_json js x = Some s \<and> uuids_from_json js s = Inr x) \<and>
     (\<forall>x. \<exists>s. strings_to_json js x = Some s \<and> strings_from_json js s = Inr x) \<and>
     (\<forall>x. \<exists>s. caps_to_json js x = Inr s \<and> caps_from_json js s = Inr x)"

lemma json_roundtripsD:
  assumes "json_roundtrips js"
  shows "prices_from_json js (prices_json js p) = Inr (hp_prices p)"
    and "features_from_json js (features_json js p) = Inr (hp_features p)"
    and "uuids_from_json js (allowed_apps_json js p) = Inr (hp_allowed_apps p)"
    and "strings_from_json js (allowed_php_runtimes_json js p) =
      Inr (map php_runtime_as_str (hp_allowed_php_runtimes p))"
  using assms unfolding json_roundtrips_def prices_json_def features_json_def
    allowed_apps_json_def allowed_php_runtimes_json_def unwrap_or_def
  by (metis option.simps(5))+

section \<open>The aggregate's invariant\<close>

definition plan_wf :: "hosting_plan \<Rightarrow> bool" where
  "plan_wf p \<longleftrightarrow> plan_name_ok (hp_name p) \<and>
     list_all (\<lambda>q. currency_ok (pp_currency q)) (hp_prices p) \<and>
     list_all php_runtime_wf (hp_allowed_php_runtimes p)"

lemmas plan_op_defs = plan_touch_def plan_set_branding_scope_def plan_set_prices_def
  plan_set_feature_def plan_set_quota_caps_def plan_set_description_def plan_set_allowed_apps_def
  plan_set_allowed_php_runtimes_def plan_disable_def plan_enable_def

lemma check_prices_Inr:
  "check_prices ps = Inr () \<longleftrightarrow> list_all (\<lambda>q. currency_ok (pp_currency q)) ps"
  by (induction ps) auto

lemma collect_runtimes_wf:
  "collect_results php_runtime_parse ss = Inr rs \<Longrightarrow> list_all php_runtime_wf rs"
  by (induction ss arbitrary: rs) (auto dest: php_runtime_vo.new_valid)

lemma collect_runtimes_as_str:
  "list_all php_runtime_wf rs \<Longrightarrow>
     collect_results php_runtime_parse (map php_runtime_as_str rs) = Inr rs"
  by (induction rs) (auto simp: php_runtime_vo.new_as_str)

lemma hosting_plan_new_wf:
  "hosting_plan_new i name d caps now = Inr p \<Longrightarrow> plan_wf p \<and> accepts_assignments p"
  by (auto simp: hosting_plan_new_def plan_wf_def plan_name_ok_def accepts_assignments_def
      split: if_splits)

lemma plan_ops_wf:
  "plan_wf p \<Longrightarrow> plan_wf (plan_set_branding_scope sc now p)"
  "plan_wf p \<Longrightarrow> plan_set_prices ps now p = Inr q \<Longrightarrow> plan_wf q"
  "plan_wf p \<Longrightarrow> plan_wf (plan_set_feature f st now p)"
  "plan_wf p \<Longrightarrow> plan_wf (plan_set_quota_caps caps now p)"
  "plan_wf p \<Longrightarrow> plan_wf (plan_set_description d now p)"
  "plan_wf p \<Longrightarrow> plan_wf (plan_set_allowed_apps apps now p)"
  "plan_wf p \<Longrightarrow> plan_set_allowed_php_runtimes rs now p = Inr q \<Longrightarrow> plan_wf q"
  "plan_wf p \<Longrightarrow> plan_wf (plan_disable now p)"
  "plan_wf p \<Longrightarrow> plan_wf (plan_enable now p)"
  by (auto simp: plan_wf_def plan_op_defs check_prices_Inr dest: collect_runtimes_wf)

lemma clone_with_name_wf: "plan_wf p \<Longrightarrow> clone_with_name i n now p = Inr q \<Longrightarrow> plan_wf q"
  by (auto simp: clone_with_name_def hosting_plan_new_def plan_wf_def plan_name_ok_def
      split: if_splits)

text \<open>A plan read back from its columns is the plan stored, up to its branding scope.\<close>

lemma hosting_plan_restore_roundtrip:
  assumes "json_roundtrips js" and "plan_wf p"
  shows "hosting_plan_restore js (hp_id p) (hp_name p) (hp_description p) (prices_json js p)
      (features_json js p) (hp_quota_caps p) (allowed_apps_json js p)
      (allowed_php_runtimes_json js p) (hp_status p) (hp_created_at p) (hp_updated_at p) =
    Inr (p\<lparr>hp_branding_scope := branding_default\<rparr>)"
  using assms(2)
  by (simp add: hosting_plan_restore_def json_roundtripsD [OF assms(1)] plan_wf_def
      collect_runtimes_as_str)

section \<open>Assignments and effective caps\<close>

record plan_assignment =
  pa_user_id :: uuid
  pa_plan_id :: uuid
  pa_assigned_at :: instant
  pa_assigned_by :: uuid
  pa_replaced_at :: "instant option"

definition plan_assignment_new :: "uuid \<Rightarrow> uuid \<Rightarrow> uuid \<Rightarrow> instant \<Rightarrow> plan_assignment" where
  "plan_assignment_new uid plan by_id at =
     \<lparr>pa_user_id = uid, pa_plan_id = plan, pa_assigned_at = at, pa_assigned_by = by_id,
      pa_replaced_at = None\<rparr>"

definition plan_assignment_restore ::
    "uuid \<Rightarrow> uuid \<Rightarrow> instant \<Rightarrow> uuid \<Rightarrow> instant option \<Rightarrow> plan_assignment" where
  "plan_assignment_restore uid plan at by_id replaced =
     \<lparr>pa_user_id = uid, pa_plan_id = plan, pa_assigned_at = at, pa_assigned_by = by_id,
      pa_replaced_at = replaced\<rparr>"

definition assignment_is_current :: "plan_assignment \<Rightarrow> bool" where
  "assignment_is_current a \<longleftrightarrow> pa_replaced_at a = None"

record effective_quotas =
  eff_disk_bytes :: u64
  eff_bandwidth_bytes_per_month :: u64
  eff_max_sites :: u32
  eff_max_databases :: u32
  eff_max_mail_domains :: u32
  eff_max_mailboxes :: u32
  eff_max_cron_jobs :: u32
  eff_max_api_tokens :: u32
  eff_max_fleet_agents :: u32

definition effective_from_caps :: "plan_quotas \<Rightarrow> effective_quotas" where
  "effective_from_caps caps =
     \<lparr>eff_disk_bytes = disk_bytes caps,
      eff_bandwidth_bytes_per_month = bandwidth_bytes_per_month caps,
      eff_max_sites = max_sites caps, eff_max_databases = max_databases caps,
      eff_max_mail_domains = max_mail_domains caps, eff_max_mailboxes = max_mailboxes caps,
      eff_max_cron_jobs = max_cron_jobs caps, eff_max_api_tokens = max_api_tokens caps,
      eff_max_fleet_agents = max_fleet_agents caps\<rparr>"

end
