(* ===== verification/Quota_Domain.thy ===== *)
theory Quota_Domain
  imports Prelude
begin

text \<open>
  \<open>openpanel-domain/src/quotas/mod.rs\<close>: soft and hard limits, the policy aggregate
  and sampled usage.
\<close>

datatype quota_error =
    InvalidLimit
  | PolicyNotFound
  | SubjectNotFound
  | EnforcerUnavailable string
  | QuotaExceeded
  | QPersistence string

datatype quota_subject = SubjUser | SubjSite

datatype quota_dimension = DimDisk | DimBandwidth | DimInodes

record quota_limit =
  soft_bytes :: u64
  hard_bytes :: u64
  grace_days :: u32

definition limit_validate :: "quota_limit \<Rightarrow> quota_error + unit" where
  "limit_validate l =
     (if hard_bytes l = 0 then Inl InvalidLimit
      else if soft_bytes l > hard_bytes l then Inl InvalidLimit
      else Inr ())"

definition is_over_soft :: "quota_limit \<Rightarrow> u64 \<Rightarrow> bool" where
  "is_over_soft l usage \<longleftrightarrow> usage > soft_bytes l"

definition is_over_hard :: "quota_limit \<Rightarrow> u64 \<Rightarrow> bool" where
  "is_over_hard l usage \<longleftrightarrow> usage > hard_bytes l"

lemma limit_validate_Inr:
  "limit_validate l = Inr () \<longleftrightarrow> 0 < hard_bytes l \<and> soft_bytes l \<le> hard_bytes l"
  by (auto simp: limit_validate_def word_gt_0 not_less)

record quota_policy =
  qpol_id :: uuid
  qpol_subject_kind :: quota_subject
  qpol_subject_id :: uuid
  qpol_disk :: quota_limit
  qpol_bandwidth :: quota_limit
  qpol_inodes :: quota_limit
  qpol_max_file_size_bytes :: "u64 option"
  qpol_cpu_shares :: "u32 option"
  qpol_created_at :: instant
  qpol_updated_at :: instant

definition quota_policy_new ::
    "uuid \<Rightarrow> quota_subject \<Rightarrow> uuid \<Rightarrow> quota_limit \<Rightarrow> quota_limit \<Rightarrow> quota_limit \<Rightarrow> instant \<Rightarrow>
     quota_error + quota_policy" where
  "quota_policy_new i kind subj disk bandwidth inodes now =
     rbind (limit_validate disk) (\<lambda>_.
     rbind (limit_validate bandwidth) (\<lambda>_.
     rbind (limit_validate inodes) (\<lambda>_.
       Inr \<lparr>qpol_id = i, qpol_subject_kind = kind, qpol_subject_id = subj, qpol_disk = disk,
         qpol_bandwidth = bandwidth, qpol_inodes = inodes, qpol_max_file_size_bytes = None,
         qpol_cpu_shares = None, qpol_created_at = now, qpol_updated_at = now\<rparr>)))"

definition quota_policy_restore ::
    "uuid \<Rightarrow> quota_subject \<Rightarrow> uuid \<Rightarrow> quota_limit \<Rightarrow> quota_limit \<Rightarrow> quota_limit \<Rightarrow> u64 option \<Rightarrow>
     u32 option \<Rightarrow> instant \<Rightarrow> instant \<Rightarrow> quota_error + quota_policy" where
  "quota_policy_restore i kind subj disk bandwidth inodes max_file cpu created updated =
     Inr \<lparr>qpol_id = i, qpol_subject_kind = kind, qpol_subject_id = subj, qpol_disk = disk,
       qpol_bandwidth = bandwidth, qpol_inodes = inodes, qpol_max_file_size_bytes = max_file,
       qpol_cpu_shares = cpu, qpol_created_at = created, qpol_updated_at = updated\<rparr>"

definition policy_touch :: "instant \<Rightarrow> quota_policy \<Rightarrow> quota_policy" where
  "policy_touch now p = p\<lparr>qpol_updated_at := now\<rparr>"

definition policy_set_disk :: "quota_limit \<Rightarrow> instant \<Rightarrow> quota_policy \<Rightarrow> quota_error + quota_policy" where
  "policy_set_disk l now p =
     rbind (limit_validate l) (\<lambda>_. Inr (policy_touch now (p\<lparr>qpol_disk := l\<rparr>)))"

definition policy_set_bandwidth ::
    "quota_limit \<Rightarrow> instant \<Rightarrow> quota_policy \<Rightarrow> quota_error + quota_policy" where
  "policy_set_bandwidth l now p =
     rbind (limit_validate l) (\<lambda>_. Inr (policy_touch now (p\<lparr>qpol_bandwidth := l\<rparr>)))"

definition policy_set_inodes ::
    "quota_limit \<Rightarrow> instant \<Rightarrow> quota_policy \<Rightarrow> quota_error + quota_policy" where
  "policy_set_inodes l now p =
     rbind (limit_validate l) (\<lambda>_. Inr (policy_touch now (p\<lparr>qpol_inodes := l\<rparr>)))"

definition policy_set_max_file_size_bytes ::
    "u64 option \<Rightarrow> instant \<Rightarrow> quota_policy \<Rightarrow> quota_policy" where
  "policy_set_max_file_size_bytes v now p = policy_touch now (p\<lparr>qpol_max_file_size_bytes := v\<rparr>)"

definition policy_set_cpu_shares :: "u32 option \<Rightarrow> instant \<Rightarrow> quota_policy \<Rightarrow> quota_policy" where
  "policy_set_cpu_shares v now p = policy_touch now (p\<lparr>qpol_cpu_shares := v\<rparr>)"

definition limit_wf :: "quota_limit \<Rightarrow> bool" where
  "limit_wf l \<longleftrightarrow> 0 < hard_bytes l \<and> soft_bytes l \<le> hard_bytes l"

definition policy_wf :: "quota_policy \<Rightarrow> bool" where
  "policy_wf p \<longleftrightarrow> limit_wf (qpol_disk p) \<and> limit_wf (qpol_bandwidth p) \<and> limit_wf (qpol_inodes p)"

lemma quota_policy_new_wf: "quota_policy_new i k subj d b n now = Inr p \<Longrightarrow> policy_wf p"
  by (auto simp: quota_policy_new_def policy_wf_def limit_wf_def limit_validate_Inr)

lemma policy_ops_wf:
  "policy_wf p \<Longrightarrow> policy_set_disk l now p = Inr q \<Longrightarrow> policy_wf q"
  "policy_wf p \<Longrightarrow> policy_set_bandwidth l now p = Inr q \<Longrightarrow> policy_wf q"
  "policy_wf p \<Longrightarrow> policy_set_inodes l now p = Inr q \<Longrightarrow> policy_wf q"
  "policy_wf p \<Longrightarrow> policy_wf (policy_set_max_file_size_bytes v now p)"
  "policy_wf p \<Longrightarrow> policy_wf (policy_set_cpu_shares w now p)"
  by (auto simp: policy_set_disk_def policy_set_bandwidth_def policy_set_inodes_def
      policy_set_max_file_size_bytes_def policy_set_cpu_shares_def policy_touch_def policy_wf_def
      limit_wf_def limit_validate_Inr)

section \<open>Usage samples\<close>

record quota_usage =
  qu_subject_id :: uuid
  qu_sampled_at :: instant
  qu_disk_used_bytes :: u64
  qu_disk_inodes_used :: u64
  qu_bandwidth_used_bytes_this_month :: u64
  qu_over_soft :: "quota_dimension set"
  qu_over_hard :: "quota_dimension set"

definition quota_usage_sample ::
    "uuid \<Rightarrow> quota_policy \<Rightarrow> u64 \<Rightarrow> u64 \<Rightarrow> u64 \<Rightarrow> instant \<Rightarrow> quota_usage" where
  "quota_usage_sample subj p disk_used inodes_used bandwidth_used now =
     (let over_soft =
        (if is_over_soft (qpol_disk p) disk_used then {DimDisk} else {}) \<union>
        (if is_over_soft (qpol_bandwidth p) bandwidth_used then {DimBandwidth} else {}) \<union>
        (if is_over_soft (qpol_inodes p) inodes_used then {DimInodes} else {});
          over_hard =
        (if is_over_hard (qpol_disk p) disk_used then {DimDisk} else {}) \<union>
        (if is_over_hard (qpol_bandwidth p) bandwidth_used then {DimBandwidth} else {}) \<union>
        (if is_over_hard (qpol_inodes p) inodes_used then {DimInodes} else {})
      in \<lparr>qu_subject_id = subj, qu_sampled_at = now, qu_disk_used_bytes = disk_used,
          qu_disk_inodes_used = inodes_used, qu_bandwidth_used_bytes_this_month = bandwidth_used,
          qu_over_soft = over_soft, qu_over_hard = over_hard\<rparr>)"

lemma sample_over_hard_soft:
  assumes "policy_wf p"
  shows "qu_over_hard (quota_usage_sample subj p d i b now) \<subseteq>
    qu_over_soft (quota_usage_sample subj p d i b now)"
  using assms
  by (auto simp: quota_usage_sample_def Let_def policy_wf_def limit_wf_def is_over_soft_def
      is_over_hard_def)

end
