(* ===== verification/Audit_Codec.thy ===== *)
theory Audit_Codec
  imports Prelude
begin

text \<open>
  The pure helpers of the audit log (\<open>openpanel-core/src/audit\<close>): the hand-written
  base64 encoder and decoder and the pagination cursor of cursor.rs, and the
  metadata redaction of redaction.rs.
\<close>

unbundle bit_operations_syntax

section \<open>Base64\<close>

definition B64 :: string where
  "B64 = ''ABCDEFGHIJKLMNOPQRSTUVWXYZabcdefghijklmnopqrstuvwxyz0123456789+/''"

text \<open>\<open>slice::chunks\<close>, which panics for size 0; the sources pass 3 and 4.\<close>

fun chunks :: "nat \<Rightarrow> 'a list \<Rightarrow> 'a list list" where
  "chunks n xs = (if xs = [] \<or> n = 0 then [] else take n xs # chunks n (drop n xs))"

declare chunks.simps [simp del]

definition get_or :: "'a \<Rightarrow> 'a list \<Rightarrow> nat \<Rightarrow> 'a" where
  "get_or d xs i = (if i < length xs then xs ! i else d)"

text \<open>The 24 bit group of three bytes, and of four six-bit values.\<close>

definition b64_group3 :: "byte \<Rightarrow> byte \<Rightarrow> byte \<Rightarrow> u32" where
  "b64_group3 a b c = push_bit 16 (ucast a) OR push_bit 8 (ucast b) OR ucast c"

definition b64_group4 :: "byte \<Rightarrow> byte \<Rightarrow> byte \<Rightarrow> byte \<Rightarrow> u32" where
  "b64_group4 a b c d =
     push_bit 18 (ucast a) OR push_bit 12 (ucast b) OR push_bit 6 (ucast c) OR ucast d"

definition encode_chunk :: "byte list \<Rightarrow> string" where
  "encode_chunk chunk =
     (let n = b64_group3 (get_or 0 chunk 0) (get_or 0 chunk 1) (get_or 0 chunk 2)
      in [B64 ! unat (drop_bit 18 n AND 63), B64 ! unat (drop_bit 12 n AND 63),
          if length chunk > 1 then B64 ! unat (drop_bit 6 n AND 63) else CHR ''='',
          if length chunk > 2 then B64 ! unat (n AND 63) else CHR ''=''])"

definition encode_base64 :: "byte list \<Rightarrow> string" where
  "encode_base64 input = concat (map encode_chunk (chunks 3 input))"

text \<open>
  \<open>str::chars\<close>: the code points of UTF-8 text. \<open>c as u8\<close> keeps the low byte of a
  code point.
\<close>

fun chars :: "nat list \<Rightarrow> nat list" where
  "chars [] = []"
| "chars (a # s) =
     (if a < 128 then a # chars s
      else if a < 224 then
        (case s of b # t \<Rightarrow> ((a - 192) * 64 + (b - 128)) # chars t | _ \<Rightarrow> [])
      else if a < 240 then
        (case s of b # c # t \<Rightarrow> ((a - 224) * 4096 + (b - 128) * 64 + (c - 128)) # chars t | _ \<Rightarrow> [])
      else
        (case s of
           b # c # d # t \<Rightarrow>
             ((a - 240) * 262144 + (b - 128) * 4096 + (c - 128) * 64 + (d - 128)) # chars t
         | _ \<Rightarrow> []))"

fun position :: "'a \<Rightarrow> 'a list \<Rightarrow> nat option" where
  "position x [] = None"
| "position x (y # ys) = (if y = x then Some 0 else map_option Suc (position x ys))"

fun b64_groups :: "nat list \<Rightarrow> byte list option" where
  "b64_groups [] = Some []"
| "b64_groups (c # cs) =
     (if c = 61 then b64_groups cs
      else case position (char_of (c mod 256)) B64 of
        None \<Rightarrow> None
      | Some v \<Rightarrow> map_option ((#) (word_of_nat v)) (b64_groups cs))"

definition decode_chunk :: "byte list \<Rightarrow> byte list" where
  "decode_chunk chunk =
     (let n = b64_group4 (get_or 0 chunk 0) (get_or 0 chunk 1) (get_or 0 chunk 2) (get_or 0 chunk 3)
      in [ucast (drop_bit 16 n)] @
         (if length chunk > 2 then [ucast (drop_bit 8 n)] else []) @
         (if length chunk > 3 then [ucast n] else []))"

fun decode_chunks :: "byte list list \<Rightarrow> byte list" where
  "decode_chunks [] = []"
| "decode_chunks (c # cs) = (if length c < 2 then [] else decode_chunk c @ decode_chunks cs)"

definition decode_base64 :: "string \<Rightarrow> byte list option" where
  "decode_base64 input =
     map_option (\<lambda>groups. decode_chunks (chunks 4 groups))
       (b64_groups (chars (map of_char (trim input))))"

lemma chunks_simps [simp]:
  "chunks n [] = []"
  "chunks 3 (a # b # c # xs) = [a, b, c] # chunks 3 xs"
  "chunks 4 (a # b # c # d # xs) = [a, b, c, d] # chunks 4 xs"
  by (subst chunks.simps, simp)+

lemma chunks_last: "xs \<noteq> [] \<Longrightarrow> length xs \<le> n \<Longrightarrow> chunks n xs = [xs]"
  by (cases n) (simp_all add: chunks.simps [of _ xs])

lemma length_B64 [simp]: "length B64 = 64"
  by (simp add: B64_def)

lemma position_nth: "distinct xs \<Longrightarrow> i < length xs \<Longrightarrow> position (xs ! i) xs = Some i"
  by (induction xs arbitrary: i) (auto simp: nth_Cons split: nat.splits)

lemma distinct_B64: "distinct B64"
  by (simp add: B64_def)

lemma bit_byte: "bit (w :: byte) i \<Longrightarrow> i < 8"
  using bit_imp_le_length [of w i] by simp

lemma b64_group3_small: "bit (b64_group3 a b c) i \<Longrightarrow> i < 24"
  unfolding b64_group3_def by (auto simp: bit_simps dest: bit_byte)

lemma and_63: "x AND 63 = take_bit 6 (x :: u32)"
  by (simp add: take_bit_eq_mask mask_eq_exp_minus_1)

lemma sextet_u32: "unat (x AND 63 :: u32) < 64"
  using word_and_le1 [of x 63] by (simp add: word_le_nat_alt)

definition sextet :: "u32 \<Rightarrow> byte" where
  "sextet x = word_of_nat (unat (x AND 63))"

lemma sextet_cast: "ucast (sextet x) = x AND 63"
proof -
  have "unat (x AND 63) < 256" using sextet_u32 [of x] by simp
  then show ?thesis
    by (simp add: sextet_def word_unat_eq_iff unsigned_ucast_eq unat_of_nat take_bit_nat_eq_self and_63)
qed

lemma b64_recombine:
  assumes "\<And>i. bit (n :: u32) i \<Longrightarrow> i < 24"
  shows "push_bit 18 (drop_bit 18 n AND 63) OR push_bit 12 (drop_bit 12 n AND 63) OR
    push_bit 6 (drop_bit 6 n AND 63) OR (n AND 63) = n"
proof (rule bit_word_eqI)
  fix i assume "i < LENGTH(32)"
  consider "i < 6" | "6 \<le> i" "i < 12" | "12 \<le> i" "i < 18" | "18 \<le> i" "i < 24" | "24 \<le> i" by linarith
  then show "bit (push_bit 18 (drop_bit 18 n AND 63) OR push_bit 12 (drop_bit 12 n AND 63) OR
    push_bit 6 (drop_bit 6 n AND 63) OR (n AND 63)) i = bit n i"
    unfolding and_63
    by cases (use assms [of i] \<open>i < LENGTH(32)\<close> in \<open>auto simp: bit_simps\<close>)
qed

lemma b64_group3_bytes:
  "ucast (drop_bit 16 (b64_group3 a b c)) = a"
  "ucast (drop_bit 8 (b64_group3 a b c)) = b"
  "ucast (b64_group3 a b c) = c"
  unfolding b64_group3_def
  by (rule bit_word_eqI; auto simp: bit_simps dest: bit_byte)+

lemma b64_group3_zero:
  "b64_group3 a b 0 AND 63 = 0"
  "drop_bit 6 (b64_group3 a 0 0) AND 63 = 0"
  unfolding b64_group3_def and_63 by (rule bit_word_eqI; auto simp: bit_simps)+


lemma B64_code: "i < 64 \<Longrightarrow> of_char (B64 ! i) < (128 :: nat) \<and> of_char (B64 ! i) \<noteq> (61 :: nat) \<and> \<not> ws1 (B64 ! i)"
proof -
  have "\<forall>c \<in> set B64. of_char c < (128 :: nat) \<and> of_char c \<noteq> (61 :: nat) \<and> \<not> ws1 c"
    by (simp add: B64_def ws1_def)
  then show "i < 64 \<Longrightarrow> ?thesis" by simp
qed

lemma b64_char:
  assumes "i < 64"
  shows "b64_groups (of_char (B64 ! i) # cs) = map_option ((#) (word_of_nat i)) (b64_groups cs)"
  using assms B64_code [of i] position_nth [OF distinct_B64, of i] by simp

lemma b64_equals: "b64_groups (61 # cs) = b64_groups cs"
  by simp

lemma b64_char_sextet:
  "b64_groups (of_char (B64 ! unat (x AND 63)) # cs) = map_option ((#) (sextet x)) (b64_groups cs)"
  unfolding sextet_def using sextet_u32 by (rule b64_char)

lemma b64_groups_quad:
  "b64_groups (map of_char (encode_chunk [a, b, c]) @ cs) =
     map_option (\<lambda>gs. map sextet
        [drop_bit 18 (b64_group3 a b c), drop_bit 12 (b64_group3 a b c), drop_bit 6 (b64_group3 a b c), b64_group3 a b c] @ gs)
     (b64_groups cs)"
  by (simp add: encode_chunk_def Let_def get_or_def b64_char_sextet option.map_comp comp_def
      del: b64_groups.simps)


lemma b64_group4_sextets:
  "b64_group4 (sextet (drop_bit 18 (b64_group3 a b c))) (sextet (drop_bit 12 (b64_group3 a b c)))
     (sextet (drop_bit 6 (b64_group3 a b c))) (sextet (b64_group3 a b c)) = b64_group3 a b c"
  unfolding b64_group4_def sextet_cast by (rule b64_recombine) (rule b64_group3_small)

lemma sextet_zero: "sextet (b64_group3 a b 0) = 0" "sextet (drop_bit 6 (b64_group3 a 0 0)) = 0"
  by (simp_all add: sextet_def b64_group3_zero)

lemma decode_chunk_sextets:
  "decode_chunk [sextet (drop_bit 18 (b64_group3 a b c)), sextet (drop_bit 12 (b64_group3 a b c)),
     sextet (drop_bit 6 (b64_group3 a b c)), sextet (b64_group3 a b c)] = [a, b, c]"
  "decode_chunk [sextet (drop_bit 18 (b64_group3 a b 0)), sextet (drop_bit 12 (b64_group3 a b 0)),
     sextet (drop_bit 6 (b64_group3 a b 0))] = [a, b]"
  "decode_chunk [sextet (drop_bit 18 (b64_group3 a 0 0)), sextet (drop_bit 12 (b64_group3 a 0 0))] = [a]"
  using b64_group4_sextets [of a b c] b64_group4_sextets [of a b 0] b64_group4_sextets [of a 0 0]
  by (simp_all add: decode_chunk_def get_or_def Let_def b64_group3_bytes sextet_zero)

lemma encode_base64_step:
  "encode_base64 (a # b # c # xs) = encode_chunk [a, b, c] @ encode_base64 xs"
  by (simp add: encode_base64_def)

lemma base64_groups_roundtrip:
  "\<exists>gs. b64_groups (map of_char (encode_base64 xs)) = Some gs \<and> decode_chunks (chunks 4 gs) = xs"
proof (induction xs rule: length_induct)
  case (1 xs)
  consider "xs = []" | a where "xs = [a]" | a b where "xs = [a, b]"
    | a b c rest where "xs = a # b # c # rest"
    by (metis list.exhaust)
  then show ?case
  proof cases
    case 1
    then show ?thesis by (simp add: encode_base64_def)
  next
    case 2
    then show ?thesis
      using decode_chunk_sextets(3) [of a]
      by (simp add: encode_base64_def encode_chunk_def Let_def get_or_def
          b64_char_sextet b64_equals chunks_last del: b64_groups.simps(2))
  next
    case 3
    then show ?thesis
      using decode_chunk_sextets(2) [of a b]
      by (simp add: encode_base64_def encode_chunk_def Let_def get_or_def
          b64_char_sextet b64_equals chunks_last del: b64_groups.simps(2))
  next
    case (4 a b c rest)
    then obtain gs where gs: "b64_groups (map of_char (encode_base64 rest)) = Some gs"
      "decode_chunks (chunks 4 gs) = rest"
      using 1 by force
    then show ?thesis
      using 4 decode_chunk_sextets(1) [of a b c]
      by (simp add: encode_base64_step b64_groups_quad)
  qed
qed

lemma set_encode_base64:
  "set (encode_base64 xs) \<subseteq> set B64 \<union> {CHR ''=''}"
proof -
  have "set (encode_chunk ch) \<subseteq> set B64 \<union> {CHR ''=''}" for ch
    using sextet_u32 by (auto simp: encode_chunk_def Let_def)
  then show ?thesis by (auto simp: encode_base64_def)
qed

lemma trim_ascii:
  assumes "\<forall>c \<in> set s. of_char c < (128 :: nat) \<and> \<not> ws1 c"
  shows "trim s = s"
proof -
  have "trim_start t = t" "trim_start_rev t = t"
    if "\<forall>c \<in> set t. of_char c < (128 :: nat) \<and> \<not> ws1 c" for t
    using that by (cases t rule: trim_start.cases; force simp: ws2_def ws3_def)+
  with assms show ?thesis by (simp add: trim_def)
qed

lemma chars_ascii: "\<forall>c \<in> set s. c < 128 \<Longrightarrow> chars s = s"
  by (induction s rule: chars.induct) auto

lemma encode_base64_ascii: "\<forall>c \<in> set (encode_base64 xs). of_char c < (128 :: nat) \<and> \<not> ws1 c"
proof -
  have "\<forall>c \<in> set B64 \<union> {CHR ''=''}. of_char c < (128 :: nat) \<and> \<not> ws1 c"
    by (simp add: B64_def ws1_def)
  then show ?thesis using set_encode_base64 by blast
qed

lemma decode_encode_base64: "decode_base64 (encode_base64 xs) = Some xs"
proof -
  have "chars (map of_char (encode_base64 xs)) = map of_char (encode_base64 xs)"
    using encode_base64_ascii by (intro chars_ascii) auto
  then show ?thesis
    using base64_groups_roundtrip [of xs] trim_ascii [OF encode_base64_ascii [of xs]]
    by (auto simp: decode_base64_def)
qed


section \<open>Pagination cursors\<close>

text \<open>
  The text form of instants is chrono's and is the record \<open>chrono\<close>: rendering and
  parsing of RFC 3339. Rendering and parsing of \<open>i64\<close> are Rust's.
\<close>

record chrono =
  to_rfc3339 :: "instant \<Rightarrow> string"
  parse_rfc3339 :: "string \<Rightarrow> instant option"

definition int_str :: "int \<Rightarrow> string" where
  "int_str n = (if n < 0 then CHR ''-'' # nat_str (nat (- n)) else nat_str (nat n))"

fun parse_digits :: "string \<Rightarrow> nat \<Rightarrow> nat option" where
  "parse_digits [] acc = Some acc"
| "parse_digits (c # cs) acc =
     (if is_ascii_digit c then parse_digits cs (acc * 10 + (of_char c - 48)) else None)"

definition parse_i64 :: "string \<Rightarrow> int option" where
  "parse_i64 s =
     (let (neg, digits) = (case s of
            [] \<Rightarrow> (False, [])
          | c # ds \<Rightarrow> if c = CHR ''-'' then (True, ds) else if c = CHR ''+'' then (False, ds) else (False, s))
      in if digits = [] then None
         else case parse_digits digits 0 of
           None \<Rightarrow> None
         | Some n \<Rightarrow>
            (let v = (if neg then - int n else int n)
             in if - (2 ^ 63) \<le> v \<and> v < 2 ^ 63 then Some v else None))"

definition cont_byte :: "nat \<Rightarrow> bool" where
  "cont_byte b \<longleftrightarrow> 128 \<le> b \<and> b < 192"

text \<open>\<open>String::from_utf8\<close> accepts exactly the well-formed byte sequences of the Unicode standard.\<close>

fun utf8_valid :: "nat list \<Rightarrow> bool" where
  "utf8_valid [] = True"
| "utf8_valid (a # s) =
     (if a < 128 then utf8_valid s
      else if 194 \<le> a \<and> a < 224 then
        (case s of b # t \<Rightarrow> cont_byte b \<and> utf8_valid t | _ \<Rightarrow> False)
      else if 224 \<le> a \<and> a < 240 then
        (case s of
           b # c # t \<Rightarrow>
             cont_byte b \<and> cont_byte c \<and> (a = 224 \<longrightarrow> 160 \<le> b) \<and> (a = 237 \<longrightarrow> b < 160) \<and> utf8_valid t
         | _ \<Rightarrow> False)
      else if 240 \<le> a \<and> a < 245 then
        (case s of
           b # c # d # t \<Rightarrow>
             cont_byte b \<and> cont_byte c \<and> cont_byte d \<and> (a = 240 \<longrightarrow> 144 \<le> b) \<and> (a = 244 \<longrightarrow> b < 144) \<and>
             utf8_valid t
         | _ \<Rightarrow> False)
      else False)"

definition from_utf8 :: "byte list \<Rightarrow> string option" where
  "from_utf8 bs = (if utf8_valid (map unat bs) then Some (map (char_of \<circ> unat) bs) else None)"

record audit_cursor =
  ac_ts :: instant
  ac_id :: int

definition cursor_encode :: "chrono \<Rightarrow> audit_cursor \<Rightarrow> string" where
  "cursor_encode ch c =
     encode_base64 (as_bytes (to_rfc3339 ch (ac_ts c) @ ''|'' @ int_str (ac_id c)))"

definition cursor_decode :: "chrono \<Rightarrow> string \<Rightarrow> audit_cursor option" where
  "cursor_decode ch s =
     (case decode_base64 s of
        None \<Rightarrow> None
      | Some raw \<Rightarrow>
         (case from_utf8 raw of
            None \<Rightarrow> None
          | Some txt \<Rightarrow>
             (case split_once CHR ''|'' txt of
                None \<Rightarrow> None
              | Some (ts_part, id_part) \<Rightarrow>
                 (case (parse_rfc3339 ch ts_part, parse_i64 id_part) of
                    (Some ts, Some i) \<Rightarrow> Some \<lparr>ac_ts = ts, ac_id = i\<rparr>
                  | _ \<Rightarrow> None))))"

lemma of_char_digit: "n < 10 \<Longrightarrow> of_char (char_of (48 + n)) = 48 + (n :: nat)"
  by simp

lemma parse_digits_nat_str:
  "parse_digits (nat_str n @ cs) acc = parse_digits cs (acc * 10 ^ length (nat_str n) + n)"
proof (induction n arbitrary: cs acc rule: nat_str.induct)
  case (1 n)
  show ?case
  proof (cases "n < 10")
    case True
    then show ?thesis by (simp add: nat_str.simps [of n] is_ascii_digit_def)
  next
    case False
    have "n = n div 10 * 10 + n mod 10" by simp
    moreover have "is_ascii_digit (char_of (48 + n mod 10))"
      by (simp add: is_ascii_digit_def)
    ultimately show ?thesis
      using 1 False
      by (simp add: nat_str.simps [of n] algebra_simps)
  qed
qed

lemma nat_str_nonempty: "nat_str n \<noteq> []"
  by (simp add: nat_str.simps [of n])

lemma set_nat_str: "c \<in> set (nat_str n) \<Longrightarrow> is_ascii_digit c"
  by (induction n rule: nat_str.induct)
     (subst (asm) (2) nat_str.simps, auto simp: is_ascii_digit_def split: if_splits)


lemma nat_str_Cons: "\<exists>c cs. nat_str n = c # cs \<and> c \<noteq> CHR ''-'' \<and> c \<noteq> CHR ''+''"
  using set_nat_str [of "hd (nat_str n)" n] nat_str_nonempty [of n]
  by (cases "nat_str n") (auto simp: is_ascii_digit_def)

lemma parse_i64_int_str:
  assumes "- (2 ^ 63) \<le> n" and "n < 2 ^ 63"
  shows "parse_i64 (int_str n) = Some n"
proof -
  obtain c cs where c: "nat_str (nat \<bar>n\<bar>) = c # cs" "c \<noteq> CHR ''-''" "c \<noteq> CHR ''+''"
    using nat_str_Cons by blast
  have d: "parse_digits (c # cs) 0 = Some (nat \<bar>n\<bar>)"
    using parse_digits_nat_str [of "nat \<bar>n\<bar>" "[]" 0] c(1) by simp
  show ?thesis
  proof (cases "n < 0")
    case True
    then have "int_str n = CHR ''-'' # c # cs" using c(1) by (simp add: int_str_def)
    then show ?thesis using d True assms
      by (simp add: parse_i64_def Let_def del: parse_digits.simps)
  next
    case False
    then have "int_str n = c # cs" using c(1) by (simp add: int_str_def)
    then show ?thesis using d False assms c(2,3)
      by (simp add: parse_i64_def Let_def del: parse_digits.simps)
  qed
qed

lemma utf8_valid_ascii: "\<forall>c \<in> set s. c < 128 \<Longrightarrow> utf8_valid s"
  by (induction s rule: utf8_valid.induct) auto

lemma unat_as_byte: "unat (word_of_nat (of_char c) :: byte) = of_char c"
  by (simp add: unat_of_nat of_char_mod_256)

lemma from_utf8_ascii:
  assumes "\<forall>c \<in> set s. of_char c < (128 :: nat)"
  shows "from_utf8 (as_bytes s) = Some s"
proof -
  have "map unat (as_bytes s) = map of_char s" by (simp add: as_bytes_def unat_as_byte)
  moreover have "map (char_of \<circ> unat) (as_bytes s) = s"
    by (simp add: as_bytes_def unat_as_byte comp_def)
  ultimately show ?thesis
    using assms by (simp add: from_utf8_def utf8_valid_ascii)
qed

lemma set_int_str: "c \<in> set (int_str n) \<Longrightarrow> of_char c < (128 :: nat)"
  by (auto simp: int_str_def is_ascii_digit_def dest!: set_nat_str split: if_splits)

lemma cursor_roundtrip:
  assumes "parse_rfc3339 ch (to_rfc3339 ch (ac_ts c)) = Some (ac_ts c)"
    and "\<forall>x \<in> set (to_rfc3339 ch (ac_ts c)). of_char x < (128 :: nat) \<and> x \<noteq> CHR ''|''"
    and "- (2 ^ 63) \<le> ac_id c" and "ac_id c < 2 ^ 63"
  shows "cursor_decode ch (cursor_encode ch c) = Some c"
proof -
  have "\<forall>x \<in> set (to_rfc3339 ch (ac_ts c) @ ''|'' @ int_str (ac_id c)). of_char x < (128 :: nat)"
    using assms(2) set_int_str by auto
  moreover have "split_once CHR ''|'' (to_rfc3339 ch (ac_ts c) @ ''|'' @ int_str (ac_id c)) =
      Some (to_rfc3339 ch (ac_ts c), int_str (ac_id c))"
    using assms(2) by (auto simp: split_once_Some)
  ultimately show ?thesis
    using assms by (simp add: cursor_decode_def cursor_encode_def decode_encode_base64
        from_utf8_ascii parse_i64_int_str del: append.simps)
qed

section \<open>Redaction of metadata\<close>

datatype json =
    JNull
  | JBool bool
  | JNumber int
  | JString string
  | JArray "json list"
  | JObject "(string \<times> json) list"

definition SECRET_KEYS :: "string list" where
  "SECRET_KEYS =
     [''password'', ''passwd'', ''pwd'', ''token'', ''secret'', ''key'', ''api_key'', ''apikey'',
      ''private'', ''pem'', ''cert'', ''certificate'', ''csr'', ''credential'', ''credentials'',
      ''body'', ''passphrase'', ''auth'', ''authorization'', ''session'', ''cookie'', ''bearer'',
      ''otp'', ''signature'', ''salt'', ''webhook'', ''hook'', ''ssh'', ''private_key'']"

definition starts_with :: "string \<Rightarrow> string \<Rightarrow> bool" where
  "starts_with p s \<longleftrightarrow> take (length p) s = p"

fun contains :: "string \<Rightarrow> string \<Rightarrow> bool" where
  "contains p [] = (p = [])"
| "contains p (c # s) = (starts_with p (c # s) \<or> contains p s)"

definition to_ascii_lower :: "char \<Rightarrow> char" where
  "to_ascii_lower c = (if is_ascii_uppercase c then char_of (of_char c + 32 :: nat) else c)"

text \<open>
  \<open>str::to_lowercase\<close> as far as it yields ASCII characters: the ASCII letters, the
  Kelvin sign and the dotted capital I. Every other character keeps its bytes
  here; its lower-case form has no ASCII byte, so no entry of \<open>SECRET_KEYS\<close>
  can match in it.
\<close>

fun to_lowercase :: "string \<Rightarrow> string" where
  "to_lowercase (c # d # e # s) =
     (if (of_char c, of_char d, of_char e) = (226 :: nat, 132 :: nat, 170 :: nat)
      then CHR ''k'' # to_lowercase s
      else if (of_char c, of_char d) = (196 :: nat, 176 :: nat)
      then CHR ''i'' # char_of (204 :: nat) # char_of (135 :: nat) # to_lowercase (e # s)
      else to_ascii_lower c # to_lowercase (d # e # s))"
| "to_lowercase [c, d] =
     (if (of_char c, of_char d) = (196 :: nat, 176 :: nat)
      then [CHR ''i'', char_of (204 :: nat), char_of (135 :: nat)]
      else [to_ascii_lower c, to_ascii_lower d])"
| "to_lowercase [c] = [to_ascii_lower c]"
| "to_lowercase [] = []"

definition is_secret_key :: "string \<Rightarrow> bool" where
  "is_secret_key k = list_ex (\<lambda>p. contains p (to_lowercase k)) SECRET_KEYS"

definition is_ascii_hexdigit :: "char \<Rightarrow> bool" where
  "is_ascii_hexdigit c \<longleftrightarrow>
     is_ascii_digit c \<or> of_char c \<in> {65..70::nat} \<or> of_char c \<in> {97..102::nat}"

text \<open>\<open>v.split('.').count()\<close> is one more than the number of dots.\<close>

definition looks_like_secret :: "string \<Rightarrow> bool" where
  "looks_like_secret value_str =
     (let v = trim value_str in
      if starts_with ''-----BEGIN'' v then True
      else if starts_with ''eyJ'' v \<and> Suc (count_list v CHR ''.'') = 3 then True
      else if length v \<ge> 40 \<and> list_all (\<lambda>c. is_ascii_alphanumeric c \<or> c \<in> set ''+/=-_'') v then True
      else if length v \<ge> 64 \<and> (v \<noteq> [] \<and> list_all is_ascii_hexdigit v) then True
      else False)"

definition REDACTED :: string where
  "REDACTED = ''***redacted***''"

fun redact_metadata :: "json \<Rightarrow> json"
  and redact_fields :: "(string \<times> json) list \<Rightarrow> (string \<times> json) list"
  and redact_items :: "json list \<Rightarrow> json list" where
  "redact_metadata (JObject m) = JObject (redact_fields m)"
| "redact_metadata (JArray arr) = JArray (redact_items arr)"
| "redact_metadata (JString s) = (if looks_like_secret s then JString REDACTED else JString s)"
| "redact_metadata JNull = JNull"
| "redact_metadata (JBool b) = JBool b"
| "redact_metadata (JNumber n) = JNumber n"
| "redact_fields [] = []"
| "redact_fields ((k, v) # m) =
     (if is_secret_key k then redact_fields m else (k, redact_metadata v) # redact_fields m)"
| "redact_items [] = []"
| "redact_items (v # vs) = redact_metadata v # redact_items vs"

text \<open>What a rendered document may contain: no secret key and no secret-looking text, at any depth.\<close>

fun secret_free :: "json \<Rightarrow> bool"
  and secret_free_fields :: "(string \<times> json) list \<Rightarrow> bool"
  and secret_free_items :: "json list \<Rightarrow> bool" where
  "secret_free (JObject m) = secret_free_fields m"
| "secret_free (JArray arr) = secret_free_items arr"
| "secret_free (JString s) = (\<not> looks_like_secret s)"
| "secret_free JNull = True"
| "secret_free (JBool b) = True"
| "secret_free (JNumber n) = True"
| "secret_free_fields [] = True"
| "secret_free_fields ((k, v) # m) = (\<not> is_secret_key k \<and> secret_free v \<and> secret_free_fields m)"
| "secret_free_items [] = True"
| "secret_free_items (v # vs) = (secret_free v \<and> secret_free_items vs)"

lemma redacted_marker: "\<not> looks_like_secret REDACTED"
  by code_simp

lemma redact_secret_free:
  "secret_free (redact_metadata v)"
  "secret_free_fields (redact_fields m)"
  "secret_free_items (redact_items vs)"
  by (induction v and m and vs rule: redact_metadata_redact_fields_redact_items.induct)
     (auto simp: redacted_marker)

lemma redact_fixed:
  "secret_free v \<Longrightarrow> redact_metadata v = v"
  "secret_free_fields m \<Longrightarrow> redact_fields m = m"
  "secret_free_items vs \<Longrightarrow> redact_items vs = vs"
  by (induction v and m and vs rule: redact_metadata_redact_fields_redact_items.induct) auto

end
