(* ===== verification/Audit_Log.thy ===== *)
theory Audit_Log
  imports Audit_Codec Common_Values "HOL-Library.Product_Lexorder"
begin

text \<open>
  The append-only audit log of \<open>openpanel-core/src/audit\<close>: actions and outcomes with
  their stored forms (action.rs, mod.rs), events and rendered views, and the
  SQLite service (sqlite.rs) as functions on the rows of the table. Timestamps
  are compared as RFC 3339 text in the source; for instants in UTC that order is
  the order of the instants. SQLite's \<open>LIKE\<close> is the parameter \<open>like\<close>.
\<close>

section \<open>Actions and outcomes\<close>

text \<open>
  \<open>AuditAction\<close> has 240 variants without data. The ones the modelled services record
  are constructors of their own; \<open>OtherAction s\<close> is the variant with the stored
  string \<open>s\<close>, one of \<open>OTHER_READ_ACTIONS\<close> (the other arms of \<open>parse_action\<close>) or
  \<open>UNREAD_ACTIONS\<close> (the variants for which \<open>parse_action\<close> has no arm).
\<close>

datatype audit_action =
    ActLogin
  | ActLogout
  | ActUserCreated
  | ActUserUpdated
  | ActUserDisabled
  | ActUserEnabled
  | ActUserDeleted
  | ActRoleChanged
  | ActPasswordChanged
  | ActTwoFactorEnrolled
  | ActTwoFactorVerified
  | ActTwoFactorFailed
  | ActTwoFactorRevoked
  | ActDeviceRemembered
  | ActPlanCreated
  | ActPlanUpdated
  | ActPlanDisabled
  | ActPlanEnabled
  | ActPlanCloned
  | ActPlanDeleted
  | ActPlanDeleteBlocked
  | ActPlanAssigned
  | ActPlanReassigned
  | ActPlanUnassigned
  | ActAccountHierarchyChildCreated
  | ActAccountHierarchyAttached
  | ActAccountHierarchyDetached
  | ActAccountHierarchyPoolSet
  | ActAccountHierarchyPoolClaimed
  | ActAccountHierarchyPoolReleased
  | ActQuotaPolicyChanged
  | ActQuotaPolicyDeleted
  | ActQuotaSoftLimitReached
  | ActQuotaHardLimitReached
  | OtherAction string

definition OTHER_READ_ACTIONS :: "string list" where
  "OTHER_READ_ACTIONS =
     [''permission_denied'', ''site_created'', ''site_deleted'', ''site_enabled'',
      ''site_disabled'', ''site_owner_changed'', ''ssl_issued'', ''ssl_manual_uploaded'',
      ''ssl_self_signed_generated'', ''ssl_revoked'', ''ssl_deleted'',
      ''ssl_force_https_changed'', ''database_created'', ''database_deleted'',
      ''database_password_changed'', ''file_uploaded'', ''file_updated'', ''file_renamed'',
      ''file_mode_changed'', ''file_deleted'', ''alert_fired'', ''settings_changed'',
      ''cron_changed'', ''cron_run'', ''backup_changed'', ''backup_run'', ''backup_restore'',
      ''log_downloaded'', ''firewall_changed'', ''security_block_changed'', ''service_changed'',
      ''dns_changed'', ''mail_changed'', ''software_changed'', ''software_artifact_installed'',
      ''recovery_code_consumed'', ''waf_changed'', ''site_http_controls_changed'',
      ''site_transport_changed'', ''db_remote_access_changed'', ''db_privilege_granted'',
      ''db_privilege_revoked'', ''db_admin_tool_launched'', ''runtime_changed'',
      ''logs_policy_changed'', ''ssh_key_changed'', ''deliverability_checked'',
      ''terminal_opened'', ''terminal_closed'', ''sso_login'', ''snapshot_created'',
      ''snapshot_restored'', ''snapshot_pruned'', ''session_revoked'', ''docker_image_pulled'',
      ''docker_spec_rejected'', ''docker_capability_denied'', ''docker_oom_killed'',
      ''docker_changed'', ''docker_egress_denied'', ''ftp_changed'', ''ftp_login'',
      ''ftp_login_denied'', ''ftp_chroot_escape'', ''ftp_tls_required'',
      ''ftp_concurrent_limit'', ''ftp_transfer_limit'', ''ftp_bind_failed'',
      ''ftp_listener_restart'', ''webdav_changed'', ''mail_capture_stored'',
      ''mail_capture_purged'', ''mail_capture_toggled'', ''webdav_login'',
      ''webdav_login_denied'', ''token_created'', ''token_rotated'', ''token_revoked'',
      ''token_request'', ''token_expired'', ''token_scope_rejected'', ''token_cidr_rejected'',
      ''token_rate_limited'', ''notification_changed'', ''delivery_rejected'',
      ''delivery_succeeded'', ''delivery_failed'', ''pitr_stream_enabled'',
      ''pitr_stream_paused'', ''pitr_stream_resumed'', ''pitr_stream_broken'',
      ''pitr_restore_requested'', ''pitr_restore_promoted'', ''pitr_restore_failed'',
      ''pitr_incremental_captured'', ''staging_slot_created'', ''staging_slot_deleted'',
      ''staging_snapshot_taken'', ''staging_promoted'', ''staging_promotion_rolled_back'',
      ''preview_created'', ''preview_ready'', ''preview_destroyed'',
      ''container_start_quota_blocked'', ''container_quota_plan_override'',
      ''container_image_pulled'', ''container_egress_limit_raised'',
      ''bandwidth_threshold_crossed'', ''agent_registered'', ''agent_revoked'',
      ''fleet_token_issued'', ''fleet_token_revoked'', ''recipe_manifest_stored'',
      ''cluster_node_declared'', ''cluster_node_role_changed'', ''cluster_storage_declared'',
      ''cluster_replicated_database_declared'', ''migration_previewed'',
      ''migration_run_committed'', ''migration_run_rolled_back'',
      ''migration_rollback_completed'', ''migration_already_imported_rejected'',
      ''backup_credential_created'', ''backup_credential_deleted'',
      ''backup_credential_in_use_rejected'', ''backup_remote_target_attached'',
      ''backup_remote_tested'', ''site_cache_policy_updated'', ''site_cache_policy_applied'',
      ''site_cache_policy_rolled_back'', ''cdn_integration_created'',
      ''cdn_integration_deleted'', ''cdn_purged'', ''cdn_purge_partial'',
      ''cdn_credential_decrypt_failed'', ''site_cloned'', ''site_cloned_from_template'',
      ''clone_pii_anonymised'', ''clone_kept_pii'', ''site_template_exported'',
      ''template_signature_failed'', ''theme_override_updated'', ''theme_override_cleared'',
      ''web_app_install_planned'', ''web_app_installed'', ''install_artifact_rejected'',
      ''web_app_uninstalled'', ''web_app_uninstalled_dropped_db'', ''scan_profile_created'',
      ''scan_completed'', ''quarantine_record_created'', ''quarantine_record_restored'',
      ''site_blocked_quarantined'', ''site_block_expired'', ''webmail_session_created'',
      ''webmail_csrf_rejected'', ''forge_provider_request_accepted'',
      ''forge_provider_mutation_succeeded'', ''forge_provider_mutation_denied'',
      ''forge_provider_mutation_failed'', ''forge_provider_idempotency_replay'']"

definition UNREAD_ACTIONS :: "string list" where
  "UNREAD_ACTIONS =
     [''status_page_policy_changed'', ''plugin_installed'', ''plugin_enabled'',
      ''plugin_disabled'', ''plugin_uninstalled'', ''plugin_manifest_rejected'',
      ''plugin_installed_from_marketplace'', ''collaborator_invited'', ''collaborator_updated'',
      ''collaborator_revoked'', ''registry_image_pushed'', ''registry_image_pruned'',
      ''ai_asked'', ''ai_tool_called'', ''ai_action_executed'', ''ai_action_denied'',
      ''hardening_applied'', ''hardening_reverted'', ''audit_retention_changed'',
      ''audit_purged'', ''gdpr_export_requested'', ''ip_pool_changed'', ''ip_allocated'',
      ''ip_released'', ''ip_vhost_rebound'', ''billing_chargeback_computed'',
      ''billing_webhook_accepted'', ''billing_webhook_rejected'', ''lb_member_changed'',
      ''wp_scanned'', ''wp_updated'', ''wp_update_rolled_back'', ''wp_cache_changed'',
      ''wildcard_cert_issued'', ''wildcard_cert_failed'', ''isolation_applied'',
      ''isolation_enforce_failed'', ''dnssec_enabled'', ''dnssec_disabled'',
      ''dnssec_ds_published'', ''antispam_changed'', ''sieve_applied'', ''git_deployed'',
      ''maintenance_window_created'', ''os_update_applied'']"

definition action_as_str :: "audit_action \<Rightarrow> string" where
  "action_as_str a =
     (case a of
        ActLogin \<Rightarrow> ''login''
      | ActLogout \<Rightarrow> ''logout''
      | ActUserCreated \<Rightarrow> ''user_created''
      | ActUserUpdated \<Rightarrow> ''user_updated''
      | ActUserDisabled \<Rightarrow> ''user_disabled''
      | ActUserEnabled \<Rightarrow> ''user_enabled''
      | ActUserDeleted \<Rightarrow> ''user_deleted''
      | ActRoleChanged \<Rightarrow> ''role_changed''
      | ActPasswordChanged \<Rightarrow> ''password_changed''
      | ActTwoFactorEnrolled \<Rightarrow> ''two_factor_enrolled''
      | ActTwoFactorVerified \<Rightarrow> ''two_factor_verified''
      | ActTwoFactorFailed \<Rightarrow> ''two_factor_failed''
      | ActTwoFactorRevoked \<Rightarrow> ''two_factor_revoked''
      | ActDeviceRemembered \<Rightarrow> ''device_remembered''
      | ActPlanCreated \<Rightarrow> ''plan_created''
      | ActPlanUpdated \<Rightarrow> ''plan_updated''
      | ActPlanDisabled \<Rightarrow> ''plan_disabled''
      | ActPlanEnabled \<Rightarrow> ''plan_enabled''
      | ActPlanCloned \<Rightarrow> ''plan_cloned''
      | ActPlanDeleted \<Rightarrow> ''plan_deleted''
      | ActPlanDeleteBlocked \<Rightarrow> ''plan_delete_blocked''
      | ActPlanAssigned \<Rightarrow> ''plan_assigned''
      | ActPlanReassigned \<Rightarrow> ''plan_reassigned''
      | ActPlanUnassigned \<Rightarrow> ''plan_unassigned''
      | ActAccountHierarchyChildCreated \<Rightarrow> ''account_hierarchy_child_created''
      | ActAccountHierarchyAttached \<Rightarrow> ''account_hierarchy_attached''
      | ActAccountHierarchyDetached \<Rightarrow> ''account_hierarchy_detached''
      | ActAccountHierarchyPoolSet \<Rightarrow> ''account_hierarchy_pool_set''
      | ActAccountHierarchyPoolClaimed \<Rightarrow> ''account_hierarchy_pool_claimed''
      | ActAccountHierarchyPoolReleased \<Rightarrow> ''account_hierarchy_pool_released''
      | ActQuotaPolicyChanged \<Rightarrow> ''quota_policy_changed''
      | ActQuotaPolicyDeleted \<Rightarrow> ''quota_policy_deleted''
      | ActQuotaSoftLimitReached \<Rightarrow> ''quota_soft_limit_reached''
      | ActQuotaHardLimitReached \<Rightarrow> ''quota_hard_limit_reached''
      | OtherAction s \<Rightarrow> s)"

definition parse_action :: "string \<Rightarrow> audit_action option" where
  "parse_action s =
     (if s = ''login'' then Some ActLogin
      else if s = ''logout'' then Some ActLogout
      else if s = ''user_created'' then Some ActUserCreated
      else if s = ''user_updated'' then Some ActUserUpdated
      else if s = ''user_disabled'' then Some ActUserDisabled
      else if s = ''user_enabled'' then Some ActUserEnabled
      else if s = ''user_deleted'' then Some ActUserDeleted
      else if s = ''role_changed'' then Some ActRoleChanged
      else if s = ''password_changed'' then Some ActPasswordChanged
      else if s = ''two_factor_enrolled'' then Some ActTwoFactorEnrolled
      else if s = ''two_factor_verified'' then Some ActTwoFactorVerified
      else if s = ''two_factor_failed'' then Some ActTwoFactorFailed
      else if s = ''two_factor_revoked'' then Some ActTwoFactorRevoked
      else if s = ''device_remembered'' then Some ActDeviceRemembered
      else if s = ''plan_created'' then Some ActPlanCreated
      else if s = ''plan_updated'' then Some ActPlanUpdated
      else if s = ''plan_disabled'' then Some ActPlanDisabled
      else if s = ''plan_enabled'' then Some ActPlanEnabled
      else if s = ''plan_cloned'' then Some ActPlanCloned
      else if s = ''plan_deleted'' then Some ActPlanDeleted
      else if s = ''plan_delete_blocked'' then Some ActPlanDeleteBlocked
      else if s = ''plan_assigned'' then Some ActPlanAssigned
      else if s = ''plan_reassigned'' then Some ActPlanReassigned
      else if s = ''plan_unassigned'' then Some ActPlanUnassigned
      else if s = ''account_hierarchy_child_created'' then Some ActAccountHierarchyChildCreated
      else if s = ''account_hierarchy_attached'' then Some ActAccountHierarchyAttached
      else if s = ''account_hierarchy_detached'' then Some ActAccountHierarchyDetached
      else if s = ''account_hierarchy_pool_set'' then Some ActAccountHierarchyPoolSet
      else if s = ''account_hierarchy_pool_claimed'' then Some ActAccountHierarchyPoolClaimed
      else if s = ''account_hierarchy_pool_released'' then Some ActAccountHierarchyPoolReleased
      else if s = ''quota_policy_changed'' then Some ActQuotaPolicyChanged
      else if s = ''quota_policy_deleted'' then Some ActQuotaPolicyDeleted
      else if s = ''quota_soft_limit_reached'' then Some ActQuotaSoftLimitReached
      else if s = ''quota_hard_limit_reached'' then Some ActQuotaHardLimitReached
      else if s \<in> set OTHER_READ_ACTIONS then Some (OtherAction s)
      else None)"

lemma parse_action_as_str [simp]:
  "\<forall>s. a \<noteq> OtherAction s \<Longrightarrow> parse_action (action_as_str a) = Some a"
  by (cases a) (simp_all add: parse_action_def action_as_str_def)

lemma parse_action_Some: "parse_action s = Some a \<Longrightarrow> action_as_str a = s"
  by (simp add: parse_action_def split: if_splits) (auto simp: action_as_str_def)

lemma parse_action_collaborator: "parse_action ''collaborator_invited'' = None"
  by (simp add: parse_action_def OTHER_READ_ACTIONS_def)

datatype audit_outcome = Success | Failure | Denied

definition outcome_as_str :: "audit_outcome \<Rightarrow> string" where
  "outcome_as_str r = (case r of Success \<Rightarrow> ''success'' | Failure \<Rightarrow> ''failure'' | Denied \<Rightarrow> ''denied'')"

definition parse_outcome :: "string \<Rightarrow> audit_outcome" where
  "parse_outcome s =
     (if s = ''success'' then Success
      else if s = ''failure'' then Failure
      else if s = ''denied'' then Denied
      else Failure)"

lemma parse_outcome_as_str [simp]: "parse_outcome (outcome_as_str r) = r"
  by (cases r) (simp_all add: parse_outcome_def outcome_as_str_def)

section \<open>Events, rows and views\<close>

record audit_event =
  ae_ts :: instant
  ae_actor :: string
  ae_action :: audit_action
  ae_target :: "string option"
  ae_source_ip :: "string option"
  ae_outcome :: audit_outcome
  ae_metadata :: json

definition audit_event_new :: "instant \<Rightarrow> string \<Rightarrow> audit_action \<Rightarrow> audit_outcome \<Rightarrow> audit_event" where
  "audit_event_new now actor action outcome =
     \<lparr>ae_ts = now, ae_actor = actor, ae_action = action, ae_target = None, ae_source_ip = None,
      ae_outcome = outcome, ae_metadata = JNull\<rparr>"

definition with_target :: "string \<Rightarrow> audit_event \<Rightarrow> audit_event" where
  "with_target t e = e\<lparr>ae_target := Some t\<rparr>"

definition with_source_ip :: "string \<Rightarrow> audit_event \<Rightarrow> audit_event" where
  "with_source_ip ip e = e\<lparr>ae_source_ip := Some ip\<rparr>"

definition with_metadata :: "json \<Rightarrow> audit_event \<Rightarrow> audit_event" where
  "with_metadata m e = e\<lparr>ae_metadata := m\<rparr>"

record audit_row =
  al_id :: int
  al_ts :: instant
  al_actor :: string
  al_action :: string
  al_target :: "string option"
  al_source_ip :: "string option"
  al_outcome :: string
  al_metadata :: "json option"

text \<open>The table with its \<open>AUTOINCREMENT\<close> counter.\<close>

record audit_log =
  log_rows :: "audit_row list"
  log_seq :: int

record audit_view =
  av_ts :: instant
  av_actor :: string
  av_action :: string
  av_target :: "string option"
  av_source_ip :: "string option"
  av_outcome :: string
  av_metadata :: json

definition view_from_event :: "audit_event \<Rightarrow> audit_view" where
  "view_from_event e =
     \<lparr>av_ts = ae_ts e, av_actor = ae_actor e, av_action = action_as_str (ae_action e),
      av_target = ae_target e, av_source_ip = ae_source_ip e,
      av_outcome = outcome_as_str (ae_outcome e), av_metadata = redact_metadata (ae_metadata e)\<rparr>"

definition audit_append :: "audit_event \<Rightarrow> audit_log \<Rightarrow> audit_log" where
  "audit_append e l =
     (let i = log_seq l + 1 in
      \<lparr>log_rows = log_rows l @
         [\<lparr>al_id = i, al_ts = ae_ts e, al_actor = ae_actor e, al_action = action_as_str (ae_action e),
           al_target = ae_target e, al_source_ip = ae_source_ip e,
           al_outcome = outcome_as_str (ae_outcome e), al_metadata = Some (ae_metadata e)\<rparr>],
       log_seq = i\<rparr>)"

definition parse_audit_row :: "audit_row \<Rightarrow> audit_event option" where
  "parse_audit_row r =
     (case parse_action (al_action r) of
        None \<Rightarrow> None
      | Some action \<Rightarrow>
          Some \<lparr>ae_ts = al_ts r, ae_actor = al_actor r, ae_action = action, ae_target = al_target r,
            ae_source_ip = al_source_ip r, ae_outcome = parse_outcome (al_outcome r),
            ae_metadata = (case al_metadata r of None \<Rightarrow> JNull | Some m \<Rightarrow> m)\<rparr>)"

section \<open>Reading the log\<close>

text \<open>A negative \<open>LIMIT\<close> is no limit in SQLite.\<close>

definition sql_limit :: "int \<Rightarrow> 'a list \<Rightarrow> 'a list" where
  "sql_limit n xs = (if n < 0 then xs else take (nat n) xs)"

definition audit_recent :: "int \<Rightarrow> audit_log \<Rightarrow> audit_event list" where
  "audit_recent limit l =
     List.map_filter parse_audit_row
       (sql_limit limit (sort_key (\<lambda>r. - al_ts r) (log_rows l)))"

record audit_query =
  aq_actor :: "string option"
  aq_action :: "string option"
  aq_target :: "string option"
  aq_outcome :: "string option"
  aq_from :: "instant option"
  aq_to :: "instant option"
  aq_cursor :: "audit_cursor option"
  aq_limit :: nat

definition audit_query_new :: audit_query where
  "audit_query_new =
     \<lparr>aq_actor = None, aq_action = None, aq_target = None, aq_outcome = None, aq_from = None,
      aq_to = None, aq_cursor = None, aq_limit = 50\<rparr>"

definition with_cursor :: "chrono \<Rightarrow> string option \<Rightarrow> audit_query \<Rightarrow> audit_query" where
  "with_cursor ch c q = q\<lparr>aq_cursor := Option.bind c (cursor_decode ch)\<rparr>"

definition effective_limit :: "audit_query \<Rightarrow> nat" where
  "effective_limit q = min 200 (max 1 (aq_limit q)) + 1"

definition opt_cond :: "('a \<Rightarrow> bool) \<Rightarrow> 'a option \<Rightarrow> bool" where
  "opt_cond p x = (case x of None \<Rightarrow> True | Some v \<Rightarrow> p v)"

text \<open>The pattern bound to \<open>LIKE\<close>: back-slashes are doubled, \<open>%\<close> and \<open>_\<close> are not escaped.\<close>

definition like_pattern :: "string \<Rightarrow> string" where
  "like_pattern v = ''%'' @ concat (map (\<lambda>c. if c = CHR 92 then [CHR 92, CHR 92] else [c]) v) @ ''%''"

definition before_cursor :: "audit_row \<Rightarrow> audit_cursor \<Rightarrow> bool" where
  "before_cursor r c \<longleftrightarrow> al_ts r < ac_ts c \<or> al_ts r = ac_ts c \<and> al_id r < ac_id c"

definition query_filters :: "(string \<Rightarrow> string \<Rightarrow> bool) \<Rightarrow> audit_query \<Rightarrow> audit_row \<Rightarrow> bool" where
  "query_filters like q r \<longleftrightarrow>
     opt_cond (\<lambda>v. al_actor r = v) (aq_actor q) \<and>
     opt_cond (\<lambda>v. al_action r = v) (aq_action q) \<and>
     opt_cond (\<lambda>v. case al_target r of None \<Rightarrow> False | Some t \<Rightarrow> like (like_pattern v) t) (aq_target q) \<and>
     opt_cond (\<lambda>v. al_outcome r = v) (aq_outcome q) \<and>
     opt_cond (\<lambda>v. v \<le> al_ts r) (aq_from q) \<and>
     opt_cond (\<lambda>v. al_ts r \<le> v) (aq_to q)"

definition query_selects :: "(string \<Rightarrow> string \<Rightarrow> bool) \<Rightarrow> audit_query \<Rightarrow> audit_row \<Rightarrow> bool" where
  "query_selects like q r \<longleftrightarrow> query_filters like q r \<and> opt_cond (before_cursor r) (aq_cursor q)"

text \<open>The rows in the order \<open>ts DESC, id DESC\<close>.\<close>

definition newest_first :: "audit_row list \<Rightarrow> audit_row list" where
  "newest_first rows = rev (sort_key (\<lambda>r. (al_ts r, al_id r)) rows)"

definition fetch_page ::
    "(string \<Rightarrow> string \<Rightarrow> bool) \<Rightarrow> audit_query \<Rightarrow> audit_log \<Rightarrow> audit_row list" where
  "fetch_page like q l =
     take (effective_limit q) (newest_first (filter (query_selects like q) (log_rows l)))"

definition page_rows ::
    "(string \<Rightarrow> string \<Rightarrow> bool) \<Rightarrow> audit_query \<Rightarrow> audit_log \<Rightarrow> audit_row list" where
  "page_rows like q l =
     (let rows = fetch_page like q l in
      if length rows = effective_limit q then butlast rows else rows)"

record audit_page =
  ap_events :: "audit_view list"
  ap_next_cursor :: "audit_cursor option"

definition audit_query_page ::
    "(string \<Rightarrow> string \<Rightarrow> bool) \<Rightarrow> audit_query \<Rightarrow> audit_log \<Rightarrow> audit_page" where
  "audit_query_page like q l =
     (let rows = fetch_page like q l;
          has_more = (length rows = effective_limit q)
      in \<lparr>ap_events = List.map_filter (\<lambda>r. map_option view_from_event (parse_audit_row r))
            (if has_more then butlast rows else rows),
          ap_next_cursor =
            (if has_more then Some \<lparr>ac_ts = al_ts (last rows), ac_id = al_id (last rows)\<rparr>
             else None)\<rparr>)"

text \<open>Ids are the row numbers: the counter bounds them and they are distinct.\<close>

definition log_wf :: "audit_log \<Rightarrow> bool" where
  "log_wf l \<longleftrightarrow> distinct (map al_id (log_rows l)) \<and> (\<forall>r \<in> set (log_rows l). al_id r \<le> log_seq l)"

lemma audit_append_wf: "log_wf l \<Longrightarrow> log_wf (audit_append e l)"
  by (force simp: log_wf_def audit_append_def Let_def)

lemma parse_audit_row_append:
  assumes "\<forall>s. ae_action e \<noteq> OtherAction s"
  shows "\<exists>r. log_rows (audit_append e l) = log_rows l @ [r] \<and> parse_audit_row r = Some e"
  using assms by (simp add: audit_append_def Let_def parse_audit_row_def)

lemma set_newest_first [simp]: "set (newest_first rows) = set rows"
  by (simp add: newest_first_def)

lemma newest_first_sorted:
  "sorted_wrt (\<lambda>r s. (al_ts s, al_id s) \<le> (al_ts r, al_id r)) (newest_first rows)"
proof -
  have "sorted (map (\<lambda>r. (al_ts r, al_id r)) (sort_key (\<lambda>r. (al_ts r, al_id r)) rows))"
    by simp
  then show ?thesis
    by (simp add: newest_first_def sorted_wrt_rev sorted_map)
qed

lemma distinct_newest_first: "distinct rows \<Longrightarrow> distinct (newest_first rows)"
  by (simp add: newest_first_def)

lemma log_wf_distinct: "log_wf l \<Longrightarrow> distinct (filter p (log_rows l))"
  by (auto simp: log_wf_def distinct_map)

lemma fetch_page_subset: "r \<in> set (fetch_page like q l) \<Longrightarrow> r \<in> set (log_rows l) \<and> query_selects like q r"
  by (auto simp: fetch_page_def dest: in_set_takeD)

lemma page_rows_length: "length (page_rows like q l) \<le> min 200 (max 1 (aq_limit q))"
  by (auto simp: page_rows_def Let_def fetch_page_def effective_limit_def)

text \<open>
  The row that the cursor names is the first one after the page; the next page
  starts strictly after it.
\<close>

lemma page_cursor:
  assumes "ap_next_cursor (audit_query_page like q l) = Some c" and "log_wf l"
  obtains r where "r \<in> set (log_rows l)" and "query_selects like q r"
    and "c = \<lparr>ac_ts = al_ts r, ac_id = al_id r\<rparr>" and "r \<notin> set (page_rows like q l)"
proof -
  let ?rows = "fetch_page like q l"
  from assms(1) have len: "length ?rows = effective_limit q"
    and c: "c = \<lparr>ac_ts = al_ts (last ?rows), ac_id = al_id (last ?rows)\<rparr>"
    by (auto simp: audit_query_page_def Let_def split: if_splits)
  have ne: "?rows \<noteq> []" using len by (auto simp: effective_limit_def)
  have "distinct ?rows"
    using log_wf_distinct [OF assms(2)] by (simp add: fetch_page_def distinct_newest_first)
  then have "distinct (butlast ?rows @ [last ?rows])" using ne by simp
  then have "last ?rows \<notin> set (page_rows like q l)"
    using len by (simp add: page_rows_def Let_def)
  moreover have "last ?rows \<in> set (log_rows l) \<and> query_selects like q (last ?rows)"
    using ne fetch_page_subset last_in_set by blast
  ultimately show ?thesis using that c by blast
qed

lemma next_page_before:
  "r \<in> set (page_rows like (q\<lparr>aq_cursor := Some c\<rparr>) l) \<Longrightarrow> before_cursor r c"
  by (auto simp: page_rows_def Let_def query_selects_def opt_cond_def
      dest!: fetch_page_subset in_set_butlastD split: if_splits)

end
