(* ===== verification/Store.thy ===== *)
theory Store
  imports Complex_Main Factor_Domain Hierarchy_Domain Plans_Domain Quota_Domain Audit_Log
begin

text \<open>
  The stored state behind the repositories: one table per \<open>CREATE TABLE\<close> of
  \<open>openpanel-app/src/migrations\<close> (identity, account\_hierarchy, hosting\_plans,
  quotas, api\_tokens, collaborators, cron, notifications) and the audit log, with the primary keys, unique columns and foreign keys
  of the schema (\<open>foreign_keys\<close> is on, core/src/database.rs). Enumerations and
  validated names are stored as the strings the sources bind; identifiers and
  instants keep their type, their text forms being library conversions.

  SQLite itself is the parameter \<open>env\<close>. Every statement takes one tick of the
  statement counter, and \<open>env_fault\<close> decides for each tick whether the statement
  fails and with which message; \<open>env_constraint\<close> is the message of a violated
  constraint, \<open>env_sum_overflow\<close> that of a \<open>SUM\<close> outside 64 bits, and \<open>env_uuid_str\<close> the text
  form of an identifier.
\<close>

section \<open>Rows\<close>

record user_row =
  ur_id :: uuid
  ur_username :: string
  ur_email :: string
  ur_password_hash :: string
  ur_role :: string
  ur_parent_account_id :: "uuid option"
  ur_hosting_plan_id :: "uuid option"
  ur_created_at :: instant
  ur_disabled_at :: "instant option"
  ur_last_login_at :: "instant option"

record session_row =
  sr_id :: uuid
  sr_user_id :: uuid
  sr_token_hash :: string
  sr_role :: string
  sr_created_at :: instant
  sr_last_seen_at :: instant
  sr_absolute_expires_at :: instant
  sr_source_ip :: "string option"
  sr_user_agent :: "string option"

record factor_row =
  fr_id :: uuid
  fr_user_id :: uuid
  fr_kind :: string
  fr_created_at :: instant
  fr_verified_at :: instant
  fr_last_used_at :: "instant option"
  fr_revoked_at :: "instant option"
  fr_last_used_step :: "int option"
  fr_totp_secret_encrypted :: "string option"

record enrollment_row =
  er_enrollment :: totp_enrollment_challenge
  er_consumed_at :: "instant option"

record recovery_row =
  rr_id :: nat
  rr_user_id :: uuid
  rr_code_hash :: string
  rr_created_at :: instant
  rr_consumed_at :: "instant option"

record credential_row =
  cr_id :: uuid
  cr_user_id :: uuid
  cr_factor_id :: uuid
  cr_credential_id :: string
  cr_public_key_spki :: string
  cr_sign_count :: int
  cr_transports :: "string option"
  cr_uv_policy :: string
  cr_passkey_json :: string
  cr_created_at :: instant
  cr_last_used_at :: "instant option"
  cr_revoked_at :: "instant option"

record relationship_row =
  rel_parent_id :: uuid
  rel_child_id :: uuid
  rel_created_at :: instant
  rel_created_by :: uuid
  rel_status :: string

text \<open>A column of 64 bit integers holds the bits of the \<open>u64\<close> that \<open>as i64\<close> reinterprets.\<close>

record pool_row =
  pr_parent_id :: uuid
  pr_axis :: string
  pr_total_bytes :: u64
  pr_updated_at :: instant

record claim_row =
  clr_parent_id :: uuid
  clr_child_id :: uuid
  clr_axis :: string
  clr_share_bytes :: u64
  clr_claimed_at :: instant

record plan_row =
  plr_id :: uuid
  plr_name :: string
  plr_description :: string
  plr_prices_json :: string
  plr_features_json :: string
  plr_quota_caps_json :: string
  plr_allowed_apps_json :: string
  plr_allowed_php_runtimes_json :: string
  plr_status :: string
  plr_created_at :: instant
  plr_updated_at :: instant

record policy_row =
  por_id :: uuid
  por_subject_kind :: string
  por_subject_id :: uuid
  por_disk :: "u64 \<times> u64 \<times> u64"
  por_bandwidth :: "u64 \<times> u64 \<times> u64"
  por_inodes :: "u64 \<times> u64 \<times> u64"
  por_max_file_size_bytes :: "u64 option"
  por_cpu_shares :: "u64 option"
  por_created_at :: instant
  por_updated_at :: instant

record usage_row =
  usr_subject_id :: uuid
  usr_sampled_at :: instant
  usr_disk_used_bytes :: u64
  usr_disk_inodes_used :: u64
  usr_bandwidth_used_bytes :: u64
  usr_over_soft_json :: string
  usr_over_hard_json :: string

record token_row =
  tkr_id :: uuid
  tkr_user_id :: uuid
  tkr_label :: string
  tkr_hash :: "byte list"
  tkr_scopes :: string
  tkr_cidr_allowlist :: "string option"
  tkr_created_at :: instant
  tkr_expires_at :: instant
  tkr_last_used_at :: "instant option"
  tkr_revoked_at :: "instant option"

record collaborator_row =
  cor_collaborator_id :: uuid
  cor_account_id :: uuid
  cor_email :: string
  cor_status :: string
  cor_invited_at :: instant
  cor_accepted_at :: "instant option"
  cor_revoked_at :: "instant option"

record site_grant_row =
  sgr_collaborator_id :: uuid
  sgr_site_id :: uuid
  sgr_permissions :: int
  sgr_granted_at :: instant

record cron_job_row =
  cjr_id :: uuid
  cjr_owner_id :: uuid
  cjr_payload :: string

record cron_run_row =
  crr_id :: uuid
  crr_job_id :: uuid
  crr_owner_id :: uuid
  crr_payload :: string
  crr_active :: bool
  crr_created_at :: instant

record channel_row =
  chr_id :: uuid
  chr_name :: string
  chr_kind :: string
  chr_endpoint :: string
  chr_port :: "int option"
  chr_username :: "string option"
  chr_credential_enc :: string
  chr_from_addr :: "string option"
  chr_tls_mode :: "string option"
  chr_allowlist_json :: string
  chr_created_at :: instant
  chr_disabled_at :: "instant option"

record subscription_row =
  sbr_id :: uuid
  sbr_user_id :: uuid
  sbr_channel_id :: uuid
  sbr_destination :: string
  sbr_kind :: string
  sbr_filter_json :: string
  sbr_enabled :: bool
  sbr_failure_count :: int
  sbr_created_at :: instant

record event_row =
  evr_id :: uuid
  evr_kind :: string
  evr_subject :: string
  evr_severity :: string
  evr_details_json :: string
  evr_occurred_at :: instant

record delivery_row =
  dlr_id :: uuid
  dlr_event_id :: uuid
  dlr_channel_id :: uuid
  dlr_subscription_id :: uuid
  dlr_payload_digest :: string
  dlr_status :: string
  dlr_attempt_n :: int
  dlr_next_retry_at :: "instant option"
  dlr_lease_until :: "instant option"
  dlr_last_error_redacted :: "string option"
  dlr_created_at :: instant
  dlr_completed_at :: "instant option"

section \<open>The state\<close>

text \<open>
  \<open>db_plan_cache\<close>, the cache of \<open>HostingPlansService\<close>, \<open>db_buckets\<close>, the rate limiter of
  \<open>ApiTokenService\<close>, and \<open>db_channel_calls\<close>, the recent calls of \<open>NotificationService\<close>, are service
  memory; everything else is a table. A bucket holds the
  value of its \<open>f64\<close> and the instant of its last refill on the monotonic clock, in nanoseconds.
\<close>

record bucket =
  bk_tokens :: rat
  bk_last_refill :: nat

record db =
  db_tick :: nat
  db_users :: "user_row list"
  db_sessions :: "session_row list"
  db_factors :: "factor_row list"
  db_enrollments :: "enrollment_row list"
  db_recovery :: "recovery_row list"
  db_recovery_seq :: nat
  db_challenges :: "two_factor_challenge list"
  db_credentials :: "credential_row list"
  db_ceremonies :: "webauthn_challenge list"
  db_relationships :: "relationship_row list"
  db_pools :: "pool_row list"
  db_claims :: "claim_row list"
  db_plans :: "plan_row list"
  db_assignments :: "plan_assignment list"
  db_policies :: "policy_row list"
  db_usages :: "usage_row list"
  db_api_tokens :: "token_row list"
  db_collaborators :: "collaborator_row list"
  db_grants :: "site_grant_row list"
  db_cron_jobs :: "cron_job_row list"
  db_cron_runs :: "cron_run_row list"
  db_channels :: "channel_row list"
  db_subscriptions :: "subscription_row list"
  db_events :: "event_row list"
  db_deliveries :: "delivery_row list"
  db_audit :: audit_log
  db_plan_cache :: "uuid \<Rightarrow> (effective_quotas \<times> instant) option"
  db_buckets :: "uuid \<Rightarrow> bucket option"
  db_channel_calls :: "uuid \<Rightarrow> instant list"

definition db_empty :: db where
  "db_empty =
     \<lparr>db_tick = 0, db_users = [], db_sessions = [], db_factors = [], db_enrollments = [],
      db_recovery = [], db_recovery_seq = 0, db_challenges = [], db_credentials = [],
      db_ceremonies = [], db_relationships = [], db_pools = [], db_claims = [], db_plans = [],
      db_assignments = [], db_policies = [], db_usages = [], db_api_tokens = [],
      db_collaborators = [], db_grants = [], db_cron_jobs = [], db_cron_runs = [],
      db_channels = [], db_subscriptions = [], db_events = [], db_deliveries = [],
      db_audit = \<lparr>log_rows = [], log_seq = 0\<rparr>, db_plan_cache = Map.empty, db_buckets = Map.empty,
      db_channel_calls = (\<lambda>_. [])\<rparr>"

section \<open>Statements\<close>

record env =
  env_fault :: "nat \<Rightarrow> string option"
  env_constraint :: "nat \<Rightarrow> string"
  env_uuid_str :: "uuid \<Rightarrow> string"
  env_sum_overflow :: string

type_synonym ('e, 'a) call = "(db, 'e, 'a) st"

definition tick :: "db \<Rightarrow> db" where
  "tick s = s\<lparr>db_tick := Suc (db_tick s)\<rparr>"

definition sql_read :: "env \<Rightarrow> (db \<Rightarrow> 'a) \<Rightarrow> (string, 'a) call" where
  "sql_read env q s =
     (case env_fault env (db_tick s) of
        Some e \<Rightarrow> (Inl e, tick s)
      | None \<Rightarrow> (Inr (q s), tick s))"

text \<open>A writing statement that violates a constraint fails and changes nothing.\<close>

definition sql_write :: "env \<Rightarrow> (db \<Rightarrow> bool) \<Rightarrow> (db \<Rightarrow> db) \<Rightarrow> (string, unit) call" where
  "sql_write env ok f s =
     (case env_fault env (db_tick s) of
        Some e \<Rightarrow> (Inl e, tick s)
      | None \<Rightarrow>
          if ok s then (Inr (), tick (f s)) else (Inl (env_constraint env (db_tick s)), tick s))"

text \<open>An \<open>UPDATE\<close> or \<open>DELETE\<close> with its \<open>rows_affected\<close>.\<close>

definition sql_count :: "env \<Rightarrow> (db \<Rightarrow> nat) \<Rightarrow> (db \<Rightarrow> db) \<Rightarrow> (string, nat) call" where
  "sql_count env n f s =
     (case env_fault env (db_tick s) of
        Some e \<Rightarrow> (Inl e, tick s)
      | None \<Rightarrow> (Inr (n s), tick (f s)))"

text \<open>
  An \<open>UPDATE\<close> with a constraint and its \<open>rows_affected\<close>. The constraint is checked for the rows
  that change: with no such row the statement succeeds and affects none.
\<close>

definition sql_update :: "env \<Rightarrow> (db \<Rightarrow> bool) \<Rightarrow> (db \<Rightarrow> nat) \<Rightarrow> (db \<Rightarrow> db) \<Rightarrow> (string, nat) call" where
  "sql_update env ok n f s =
     (case env_fault env (db_tick s) of
        Some e \<Rightarrow> (Inl e, tick s)
      | None \<Rightarrow>
          if ok s then (Inr (n s), tick (f s)) else (Inl (env_constraint env (db_tick s)), tick s))"

text \<open>
  A transaction: \<open>begin\<close> and \<open>commit\<close> are statements of their own, and an error before
  the commit undoes the changes made inside.
\<close>

definition sql_transaction ::
    "env \<Rightarrow> (string \<Rightarrow> string) \<Rightarrow> (string \<Rightarrow> string) \<Rightarrow> (string, 'a) call \<Rightarrow> (string, 'a) call" where
  "sql_transaction env begin_err commit_err body s =
     (case sbind (smap_err begin_err (sql_read env (\<lambda>_. ())))
         (\<lambda>_. sbind body (\<lambda>x. sbind (smap_err commit_err (sql_read env (\<lambda>_. ()))) (\<lambda>_. sret x))) s of
        (Inl e, t) \<Rightarrow> (Inl e, s\<lparr>db_tick := db_tick t\<rparr>)
      | (Inr x, t) \<Rightarrow> (Inr x, t))"

lemma tick_fields [simp]:
  "db_users (tick s) = db_users s" "db_sessions (tick s) = db_sessions s"
  "db_factors (tick s) = db_factors s" "db_enrollments (tick s) = db_enrollments s"
  "db_recovery (tick s) = db_recovery s" "db_recovery_seq (tick s) = db_recovery_seq s"
  "db_challenges (tick s) = db_challenges s" "db_credentials (tick s) = db_credentials s"
  "db_ceremonies (tick s) = db_ceremonies s" "db_relationships (tick s) = db_relationships s"
  "db_pools (tick s) = db_pools s" "db_claims (tick s) = db_claims s"
  "db_plans (tick s) = db_plans s" "db_assignments (tick s) = db_assignments s"
  "db_policies (tick s) = db_policies s" "db_usages (tick s) = db_usages s"
  "db_api_tokens (tick s) = db_api_tokens s" "db_collaborators (tick s) = db_collaborators s"
  "db_grants (tick s) = db_grants s" "db_cron_jobs (tick s) = db_cron_jobs s"
  "db_cron_runs (tick s) = db_cron_runs s" "db_buckets (tick s) = db_buckets s"
  "db_channels (tick s) = db_channels s" "db_subscriptions (tick s) = db_subscriptions s"
  "db_events (tick s) = db_events s" "db_deliveries (tick s) = db_deliveries s"
  "db_channel_calls (tick s) = db_channel_calls s"
  "db_audit (tick s) = db_audit s" "db_plan_cache (tick s) = db_plan_cache s"
  by (simp_all add: tick_def)

lemma sql_read_Inr [st_invert]:
  "sql_read env q s = (Inr x, t) \<longleftrightarrow> env_fault env (db_tick s) = None \<and> x = q s \<and> t = tick s"
  by (auto simp: sql_read_def split: option.splits)

lemma sql_read_Inl [st_invert]:
  "sql_read env q s = (Inl e, t) \<longleftrightarrow> env_fault env (db_tick s) = Some e \<and> t = tick s"
  by (auto simp: sql_read_def split: option.splits)

lemma sql_write_Inr [st_invert]:
  "sql_write env ok f s = (Inr u, t) \<longleftrightarrow>
     env_fault env (db_tick s) = None \<and> ok s \<and> t = tick (f s)"
  by (auto simp: sql_write_def split: option.splits)

lemma sql_write_Inl [st_invert]:
  "sql_write env ok f s = (Inl e, t) \<longleftrightarrow>
     (env_fault env (db_tick s) = Some e \<or>
      env_fault env (db_tick s) = None \<and> \<not> ok s \<and> e = env_constraint env (db_tick s)) \<and> t = tick s"
  by (auto simp: sql_write_def split: option.splits)

lemma sql_count_Inr [st_invert]:
  "sql_count env n f s = (Inr k, t) \<longleftrightarrow>
     env_fault env (db_tick s) = None \<and> k = n s \<and> t = tick (f s)"
  by (auto simp: sql_count_def split: option.splits)

lemma sql_count_Inl [st_invert]:
  "sql_count env n f s = (Inl e, t) \<longleftrightarrow> env_fault env (db_tick s) = Some e \<and> t = tick s"
  by (auto simp: sql_count_def split: option.splits)

lemma sql_update_Inr [st_invert]:
  "sql_update env ok n f s = (Inr k, t) \<longleftrightarrow>
     env_fault env (db_tick s) = None \<and> ok s \<and> k = n s \<and> t = tick (f s)"
  by (auto simp: sql_update_def split: option.splits)

text \<open>With no fault, a statement computes.\<close>

lemma sql_eval:
  assumes "env_fault env = (\<lambda>_. None)"
  shows "sql_read env q s = (Inr (q s), tick s)"
    and "sql_count env n f s = (Inr (n s), tick (f s))"
    and "ok s \<Longrightarrow> sql_write env ok f s = (Inr (), tick (f s))"
    and "\<not> ok s \<Longrightarrow> sql_write env ok f s = (Inl (env_constraint env (db_tick s)), tick s)"
  by (simp_all add: assms sql_read_def sql_write_def sql_count_def)

text \<open>
  Invariants that do not look at the statement counter are kept by every read, and by
  a write whose effect keeps them.
\<close>

definition tickless :: "(db \<Rightarrow> bool) \<Rightarrow> bool" where
  "tickless P \<longleftrightarrow> (\<forall>s n. P (s\<lparr>db_tick := n\<rparr>) = P s)"

lemma tickless_tick: "tickless P \<Longrightarrow> P (tick s) = P s"
  by (simp add: tickless_def tick_def)

lemma keeps_sql_read [keeps_intros]: "tickless P \<Longrightarrow> keeps P (sql_read env q)"
  by (auto simp: keeps_def sql_read_def tickless_tick split: option.splits)

lemma keeps_sql_write:
  "tickless P \<Longrightarrow> (\<And>s. P s \<Longrightarrow> ok s \<Longrightarrow> P (f s)) \<Longrightarrow> keeps P (sql_write env ok f)"
  by (auto simp: keeps_def sql_write_def tickless_tick split: option.splits)

lemma keeps_sql_count:
  "tickless P \<Longrightarrow> (\<And>s. P s \<Longrightarrow> P (f s)) \<Longrightarrow> keeps P (sql_count env n f)"
  by (auto simp: keeps_def sql_count_def tickless_tick split: option.splits)

lemma keeps_sql_update:
  "tickless P \<Longrightarrow> (\<And>s. P s \<Longrightarrow> ok s \<Longrightarrow> P (f s)) \<Longrightarrow> keeps P (sql_update env ok n f)"
  by (auto simp: keeps_def sql_update_def tickless_tick split: option.splits)

lemma keeps_sql_transaction:
  assumes "tickless P" and "keeps P body"
  shows "keeps P (sql_transaction env b c body)"
proof (rule keepsI)
  fix s assume "P s"
  let ?m = "sbind (smap_err b (sql_read env (\<lambda>_. ())))
    (\<lambda>_. sbind body (\<lambda>x. sbind (smap_err c (sql_read env (\<lambda>_. ()))) (\<lambda>_. sret x)))"
  have "keeps P ?m"
    using assms by (intro keeps_intros)
  then have "P (snd (?m s))" using \<open>P s\<close> by (simp add: keeps_def)
  then show "P (snd (sql_transaction env b c body s))"
    using assms(1) \<open>P s\<close>
    by (auto simp: sql_transaction_def tickless_def split: prod.splits sum.splits)
qed

lemma sql_transaction_Inr [st_invert]:
  "sql_transaction env b c body s = (Inr u, t) \<longleftrightarrow>
     (\<exists>s1. env_fault env (db_tick s) = None \<and> body (tick s) = (Inr u, s1) \<and>
        env_fault env (db_tick s1) = None \<and> t = tick s1)"
proof -
  have "sql_transaction env b c body s = (Inr u, t) \<longleftrightarrow>
      sbind (smap_err b (sql_read env (\<lambda>_. ()))) (\<lambda>_. sbind body (\<lambda>x. sbind (smap_err c (sql_read env (\<lambda>_. ()))) (\<lambda>_. sret x))) s = (Inr u, t)"
    by (auto simp: sql_transaction_def split: prod.splits sum.splits)
  then show ?thesis by (auto simp: st_invert)
qed

lemma leads_sql_transaction:
  assumes "tickless P" and "tickless Q" and "\<And>s. Q s \<Longrightarrow> P s" and "leads Q P body"
  shows "leads Q P (sql_transaction env b c body)"
  unfolding leads_def
proof (intro allI impI)
  fix s assume "Q s"
  have "leads Q P (sbind (smap_err b (sql_read env (\<lambda>_. ())))
      (\<lambda>_. sbind body (\<lambda>x. sbind (smap_err c (sql_read env (\<lambda>_. ()))) (\<lambda>_. sret x))))"
    using assms by (intro leads_sbind_before leads_sbind_after keeps_intros)
  from leadsD [OF this \<open>Q s\<close>] show "P (snd (sql_transaction env b c body s))"
    using assms(1,3) \<open>Q s\<close>
    by (auto simp: sql_transaction_def tickless_def split: prod.splits sum.splits)
qed

section \<open>The audit sink\<close>

definition audit_record :: "env \<Rightarrow> audit_event \<Rightarrow> (string, unit) call" where
  "audit_record env e =
     sql_write env (\<lambda>_. True) (\<lambda>s. s\<lparr>db_audit := audit_append e (db_audit s)\<rparr>)"

text \<open>
  Predicates on the state that look neither at the statement counter nor at the log:
  the reads and the audit entries of every service keep them.
\<close>

locale store_invariant =
  fixes P :: "db \<Rightarrow> bool"
  assumes tickless_P: "tickless P"
    and audit_free: "P (s\<lparr>db_audit := l\<rparr>) = P s"
begin

lemma keeps_audit_record: "keeps P (audit_record env e)"
  unfolding audit_record_def using tickless_P
  by (intro keeps_sql_write) (simp_all add: audit_free)

lemma keeps_read: "keeps P (sql_read env q)"
  using tickless_P by (rule keeps_sql_read)

lemma keeps_write: "(\<And>s. P s \<Longrightarrow> ok s \<Longrightarrow> P (f s)) \<Longrightarrow> keeps P (sql_write env ok f)"
  using tickless_P by (rule keeps_sql_write)

lemma keeps_count: "(\<And>s. P s \<Longrightarrow> P (f s)) \<Longrightarrow> keeps P (sql_count env n f)"
  using tickless_P by (rule keeps_sql_count)

lemma keeps_transaction: "keeps P body \<Longrightarrow> keeps P (sql_transaction env b c body)"
  using tickless_P by (rule keeps_sql_transaction)

end

text \<open>Recording an event changes the log and nothing else, whether it succeeds or not.\<close>

lemma audit_record_frame:
  assumes "audit_record env e s = (r, t)"
  shows "\<exists>l. t = tick (s\<lparr>db_audit := l\<rparr>)"
proof (cases "env_fault env (db_tick s)")
  case None
  then show ?thesis using assms by (auto simp: audit_record_def sql_write_def)
next
  case (Some m)
  then have "t = tick (s\<lparr>db_audit := db_audit s\<rparr>)"
    using assms by (simp add: audit_record_def sql_write_def)
  then show ?thesis by blast
qed

definition opt_str_json :: "string option \<Rightarrow> json" where
  "opt_str_json v = (case v of None \<Rightarrow> JNull | Some x \<Rightarrow> JString x)"

section \<open>Referential actions\<close>

text \<open>\<open>ON DELETE CASCADE\<close> from \<open>users\<close> to the tables that reference it.\<close>

definition cascade_user :: "uuid \<Rightarrow> db \<Rightarrow> db" where
  "cascade_user u s = s\<lparr>
     db_users := delete_where (\<lambda>r. ur_id r = u) (db_users s),
     db_sessions := delete_where (\<lambda>r. sr_user_id r = u) (db_sessions s),
     db_factors := delete_where (\<lambda>r. fr_user_id r = u) (db_factors s),
     db_enrollments := delete_where (\<lambda>r. te_user_id (er_enrollment r) = u) (db_enrollments s),
     db_recovery := delete_where (\<lambda>r. rr_user_id r = u) (db_recovery s),
     db_challenges := delete_where (\<lambda>c. tc_user_id c = u) (db_challenges s),
     db_credentials := delete_where (\<lambda>c. cr_user_id c = u) (db_credentials s),
     db_ceremonies := delete_where (\<lambda>c. wch_user_id c = u) (db_ceremonies s),
     db_relationships :=
       delete_where (\<lambda>r. rel_parent_id r = u \<or> rel_child_id r = u) (db_relationships s),
     db_pools := delete_where (\<lambda>r. pr_parent_id r = u) (db_pools s),
     db_claims := delete_where (\<lambda>r. clr_parent_id r = u \<or> clr_child_id r = u) (db_claims s),
     db_api_tokens := delete_where (\<lambda>r. tkr_user_id r = u) (db_api_tokens s)\<rparr>"

definition user_exists :: "uuid \<Rightarrow> db \<Rightarrow> bool" where
  "user_exists u s = list_ex (\<lambda>r. ur_id r = u) (db_users s)"

end
