(* ===== verification/Identity_Repo.thy ===== *)
theory Identity_Repo
  imports Store
begin

text \<open>
  The SQLite adapters of \<open>openpanel-app/src/identity/repo.rs\<close>: users and sessions.
  A repository call is a statement of the store followed by the conversion of the
  rows it returns; \<open>RepoError\<close> is its message.
\<close>

type_synonym 'a repo = "(string, 'a) call"

section \<open>Encoded rows\<close>

text \<open>
  What a repository relies on: a row written for a well-formed value is read back as
  that value.
\<close>

locale row_codec =
  fixes to_row :: "'v \<Rightarrow> 'r"
    and from_row :: "'r \<Rightarrow> 'e + 'v"
    and wf :: "'v \<Rightarrow> bool"
  assumes roundtrip: "wf v \<Longrightarrow> from_row (to_row v) = Inr v"
begin

lemma collect_rows: "list_all wf vs \<Longrightarrow> collect_results from_row (map to_row vs) = Inr vs"
  by (induction vs) (auto simp: roundtrip)

lemma optional_row:
  "pred_option wf x \<Longrightarrow> transpose_opt (map_option from_row (map_option to_row x)) = Inr x"
  by (cases x) (auto simp: roundtrip)

lemma to_row_inject: "wf v \<Longrightarrow> wf w \<Longrightarrow> to_row v = to_row w \<Longrightarrow> v = w"
  by (metis roundtrip sum.inject(2))

end

section \<open>Users\<close>

definition user_to_row :: "user \<Rightarrow> user_row" where
  "user_to_row u =
     \<lparr>ur_id = u_id u, ur_username = username_as_str (u_username u),
      ur_email = email_as_str (u_email u), ur_password_hash = password_hash_str (u_password u),
      ur_role = role_as_str (u_role u), ur_parent_account_id = u_parent_account_id u,
      ur_hosting_plan_id = u_hosting_plan_id u, ur_created_at = u_created_at u,
      ur_disabled_at = u_disabled_at u, ur_last_login_at = u_last_login_at u\<rparr>"

definition into_user :: "user_row \<Rightarrow> string + user" where
  "into_user r =
     rbind (map_err username_error_display (username_new (ur_username r))) (\<lambda>un.
     rbind (map_err domain_error_display (email_new (ur_email r))) (\<lambda>em.
     rbind (map_err role_parse_error_display (role_from_str (ur_role r))) (\<lambda>role.
       Inr (user_restore (ur_id r) un em (ur_password_hash r) role (ur_parent_account_id r)
         (ur_hosting_plan_id r) (ur_created_at r) (ur_disabled_at r) (ur_last_login_at r)))))"

interpretation user_codec: row_codec user_to_row into_user user_wf
proof
  fix u assume "user_wf u"
  moreover obtain h where "u_password u = Password h" by (cases "u_password u")
  ultimately show "into_user (user_to_row u) = Inr u"
    by (simp add: into_user_def user_to_row_def user_wf_def username_vo.new_as_str
        email_vo.new_as_str role_codec.dec_enc user_restore_def)
qed

lemma into_user_fields:
  assumes "into_user r = Inr u"
  shows "u_id u = ur_id r" and "username_as_str (u_username u) = ur_username r"
    and "email_as_str (u_email u) = ur_email r" and "u_password u = Password (ur_password_hash r)"
    and "role_as_str (u_role u) = ur_role r" and "u_disabled_at u = ur_disabled_at r"
    and "u_parent_account_id u = ur_parent_account_id r"
    and "u_hosting_plan_id u = ur_hosting_plan_id r"
  using assms
  by (auto simp: into_user_def user_restore_def role_codec.dec_iff
      dest: username_vo.new_keeps email_vo.new_keeps)

lemma into_user_inverse: "into_user r = Inr u \<Longrightarrow> user_to_row u = r"
  by (auto simp: into_user_def user_to_row_def user_restore_def role_codec.dec_iff
      dest!: username_vo.new_keeps email_vo.new_keeps)

definition users_insert :: "env \<Rightarrow> user \<Rightarrow> unit repo" where
  "users_insert env u =
     sql_write env
       (\<lambda>s. \<not> list_ex (\<lambda>r. ur_id r = u_id u \<or> ur_username r = username_as_str (u_username u) \<or>
            ur_email r = email_as_str (u_email u)) (db_users s))
       (\<lambda>s. s\<lparr>db_users := db_users s @ [user_to_row u]\<rparr>)"

definition users_find :: "env \<Rightarrow> (user_row \<Rightarrow> bool) \<Rightarrow> user option repo" where
  "users_find env p =
     sbind (sql_read env (\<lambda>s. find p (db_users s)))
       (\<lambda>row. slift (transpose_opt (map_option into_user row)))"

definition users_find_by_id :: "env \<Rightarrow> uuid \<Rightarrow> user option repo" where
  "users_find_by_id env i = users_find env (\<lambda>r. ur_id r = i)"

definition users_find_by_username :: "env \<Rightarrow> string \<Rightarrow> user option repo" where
  "users_find_by_username env n = users_find env (\<lambda>r. ur_username r = n)"

definition users_find_by_email :: "env \<Rightarrow> string \<Rightarrow> user option repo" where
  "users_find_by_email env e = users_find env (\<lambda>r. ur_email r = e)"

definition users_list :: "env \<Rightarrow> user list repo" where
  "users_list env =
     sbind (sql_read env (\<lambda>s. sort_key ur_created_at (db_users s)))
       (\<lambda>rows. slift (collect_results into_user rows))"

definition users_update :: "env \<Rightarrow> uuid \<Rightarrow> (user_row \<Rightarrow> user_row) \<Rightarrow> unit repo" where
  "users_update env i f =
     sql_write env (\<lambda>_. True) (\<lambda>s. s\<lparr>db_users := update_where (\<lambda>r. ur_id r = i) f (db_users s)\<rparr>)"

definition users_update_role :: "env \<Rightarrow> uuid \<Rightarrow> role \<Rightarrow> unit repo" where
  "users_update_role env i role = users_update env i (\<lambda>r. r\<lparr>ur_role := role_as_str role\<rparr>)"

definition users_disable :: "env \<Rightarrow> uuid \<Rightarrow> instant \<Rightarrow> unit repo" where
  "users_disable env i now = users_update env i (\<lambda>r. r\<lparr>ur_disabled_at := Some now\<rparr>)"

definition users_enable :: "env \<Rightarrow> uuid \<Rightarrow> unit repo" where
  "users_enable env i = users_update env i (\<lambda>r. r\<lparr>ur_disabled_at := None\<rparr>)"

definition users_update_last_login :: "env \<Rightarrow> uuid \<Rightarrow> instant \<Rightarrow> unit repo" where
  "users_update_last_login env i now = users_update env i (\<lambda>r. r\<lparr>ur_last_login_at := Some now\<rparr>)"

definition users_update_password :: "env \<Rightarrow> uuid \<Rightarrow> string \<Rightarrow> unit repo" where
  "users_update_password env i h = users_update env i (\<lambda>r. r\<lparr>ur_password_hash := h\<rparr>)"

definition users_update_parent_account_id :: "env \<Rightarrow> uuid \<Rightarrow> uuid option \<Rightarrow> unit repo" where
  "users_update_parent_account_id env i p = users_update env i (\<lambda>r. r\<lparr>ur_parent_account_id := p\<rparr>)"

definition users_update_hosting_plan_id :: "env \<Rightarrow> uuid \<Rightarrow> uuid option \<Rightarrow> unit repo" where
  "users_update_hosting_plan_id env i p = users_update env i (\<lambda>r. r\<lparr>ur_hosting_plan_id := p\<rparr>)"

definition users_delete :: "env \<Rightarrow> uuid \<Rightarrow> unit repo" where
  "users_delete env i = sql_write env (\<lambda>_. True) (cascade_user i)"

definition users_count :: "env \<Rightarrow> nat repo" where
  "users_count env = sql_read env (\<lambda>s. length (db_users s))"

text \<open>The trait's default methods, which the SQLite adapter does not override.\<close>

definition users_find_children :: "env \<Rightarrow> uuid \<Rightarrow> user list repo" where
  "users_find_children env p = sret []"

definition users_find_by_plan :: "env \<Rightarrow> uuid \<Rightarrow> user list repo" where
  "users_find_by_plan env p = sret []"

section \<open>Sessions\<close>

definition session_to_row :: "session \<Rightarrow> session_row" where
  "session_to_row x =
     \<lparr>sr_id = s_id x, sr_user_id = s_user_id x, sr_token_hash = s_token_hash x,
      sr_role = role_as_str (s_role x), sr_created_at = s_created_at x,
      sr_last_seen_at = s_last_seen_at x, sr_absolute_expires_at = s_absolute_expires_at x,
      sr_source_ip = s_source_ip x, sr_user_agent = s_user_agent x\<rparr>"

definition into_session :: "session_row \<Rightarrow> string + session" where
  "into_session r =
     rbind (map_err role_parse_error_display (role_from_str (sr_role r))) (\<lambda>role.
       Inr (session_restore (sr_id r) (sr_user_id r) (sr_token_hash r) role (sr_created_at r)
         (sr_last_seen_at r) (sr_absolute_expires_at r) (sr_source_ip r) (sr_user_agent r)))"

interpretation session_codec: row_codec session_to_row into_session "\<lambda>_. True"
  by unfold_locales
     (simp add: into_session_def session_to_row_def role_codec.dec_enc session_restore_def)

lemma into_session_inverse: "into_session r = Inr x \<Longrightarrow> session_to_row x = r"
  by (auto simp: into_session_def session_to_row_def session_restore_def role_codec.dec_iff)

definition sessions_insert :: "env \<Rightarrow> session \<Rightarrow> unit repo" where
  "sessions_insert env x =
     sql_write env
       (\<lambda>s. \<not> list_ex (\<lambda>r. sr_id r = s_id x \<or> sr_token_hash r = s_token_hash x) (db_sessions s) \<and>
            user_exists (s_user_id x) s)
       (\<lambda>s. s\<lparr>db_sessions := db_sessions s @ [session_to_row x]\<rparr>)"

text \<open>The scan skips rows that do not convert and stops at the first matching hash.\<close>

fun session_scan :: "crypto \<Rightarrow> session_token \<Rightarrow> session_row list \<Rightarrow> session option" where
  "session_scan cr tok [] = None"
| "session_scan cr tok (r # rs) =
     (case into_session r of
        Inl _ \<Rightarrow> session_scan cr tok rs
      | Inr x \<Rightarrow> if session_verify_token cr x tok then Some x else session_scan cr tok rs)"

definition sessions_find_by_token_hash_match ::
    "env \<Rightarrow> crypto \<Rightarrow> session_token \<Rightarrow> session option repo" where
  "sessions_find_by_token_hash_match env cr tok =
     sbind (sql_read env db_sessions) (\<lambda>rows. sret (session_scan cr tok rows))"

definition sessions_find_by_id :: "env \<Rightarrow> uuid \<Rightarrow> session option repo" where
  "sessions_find_by_id env i =
     sbind (sql_read env (\<lambda>s. find (\<lambda>r. sr_id r = i) (db_sessions s)))
       (\<lambda>row. slift (transpose_opt (map_option into_session row)))"

definition sessions_touch :: "env \<Rightarrow> uuid \<Rightarrow> instant \<Rightarrow> unit repo" where
  "sessions_touch env i now =
     sql_write env (\<lambda>_. True)
       (\<lambda>s. s\<lparr>db_sessions := update_where (\<lambda>r. sr_id r = i) (\<lambda>r. r\<lparr>sr_last_seen_at := now\<rparr>) (db_sessions s)\<rparr>)"

definition sessions_delete :: "env \<Rightarrow> uuid \<Rightarrow> unit repo" where
  "sessions_delete env i =
     sql_write env (\<lambda>_. True)
       (\<lambda>s. s\<lparr>db_sessions := delete_where (\<lambda>r. sr_id r = i) (db_sessions s)\<rparr>)"

definition sessions_delete_for_user :: "env \<Rightarrow> uuid \<Rightarrow> unit repo" where
  "sessions_delete_for_user env u =
     sql_write env (\<lambda>_. True)
       (\<lambda>s. s\<lparr>db_sessions := delete_where (\<lambda>r. sr_user_id r = u) (db_sessions s)\<rparr>)"

definition sessions_list_for_user :: "env \<Rightarrow> uuid \<Rightarrow> session list repo" where
  "sessions_list_for_user env u =
     sbind (sql_read env (\<lambda>s. sort_key (\<lambda>r. - sr_last_seen_at r)
         (filter (\<lambda>r. sr_user_id r = u) (db_sessions s))))
       (\<lambda>rows. slift (collect_results into_session rows))"

definition sessions_purge_expired :: "env \<Rightarrow> instant \<Rightarrow> nat repo" where
  "sessions_purge_expired env now =
     sql_count env
       (\<lambda>s. length (filter (\<lambda>r. sr_absolute_expires_at r < now) (db_sessions s)))
       (\<lambda>s. s\<lparr>db_sessions := delete_where (\<lambda>r. sr_absolute_expires_at r < now) (db_sessions s)\<rparr>)"

lemma session_scan_Some:
  "session_scan cr tok rows = Some x \<Longrightarrow>
     session_verify_token cr x tok \<and> session_to_row x \<in> set rows"
  by (induction rows) (auto split: sum.splits if_splits dest: into_session_inverse)

lemma session_scan_None:
  "session_scan cr tok rows = None \<longleftrightarrow>
     (\<forall>r \<in> set rows. \<forall>x. into_session r = Inr x \<longrightarrow> \<not> session_verify_token cr x tok)"
  by (induction rows) (auto split: sum.splits)

lemma users_find_Inr:
  "users_find env p s = (Inr (Some u), t) \<Longrightarrow>
     \<exists>r. r \<in> set (db_users s) \<and> p r \<and> find p (db_users s) = Some r \<and> into_user r = Inr u \<and> t = tick s"
  by (auto simp: users_find_def st_invert dest: find_SomeD)

end
