(* ===== verification/Quota_Repo.thy ===== *)
theory Quota_Repo
  imports Identity_Repo
begin

text \<open>
  The SQLite adapter of \<open>openpanel-app/src/quotas/repo.rs\<close>. Byte counts are \<open>u64\<close> values
  that \<open>as i64\<close> and \<open>as u64\<close> carry through signed columns unchanged; the grace days are
  widened from \<open>u32\<close> and truncated back. The sets of exceeded dimensions are stored as JSON
  lists of names, written and read by serde\_json, which is \<open>usage_json\<close>.
\<close>

type_synonym 'a qcall = "(quota_error, 'a) call"

definition q_sql :: "'a repo \<Rightarrow> 'a qcall" where
  "q_sql m = smap_err QPersistence m"

record usage_json =
  names_to_json :: "string list \<Rightarrow> string option"
  names_from_json :: "string \<Rightarrow> string + string list"

definition usage_json_contract :: "usage_json \<Rightarrow> bool" where
  "usage_json_contract js \<longleftrightarrow> (\<forall>x. \<exists>s. names_to_json js x = Some s \<and> names_from_json js s = Inr x)"

section \<open>Stored names\<close>

definition subject_kind_str :: "quota_subject \<Rightarrow> string" where
  "subject_kind_str k = (case k of SubjUser \<Rightarrow> ''user'' | SubjSite \<Rightarrow> ''site'')"

definition parse_subject_kind :: "string \<Rightarrow> quota_error + quota_subject" where
  "parse_subject_kind s =
     (if s = ''user'' then Inr SubjUser
      else if s = ''site'' then Inr SubjSite
      else Inl (QPersistence (''unknown subject kind `'' @ s @ ''`'')))"

interpretation subject_codec: string_codec subject_kind_str parse_subject_kind
proof
  fix v s
  show "parse_subject_kind (subject_kind_str v) = Inr v"
    by (cases v) (simp_all add: parse_subject_kind_def subject_kind_str_def)
  show "parse_subject_kind s = Inr v \<Longrightarrow> subject_kind_str v = s"
    by (auto simp: parse_subject_kind_def subject_kind_str_def split: if_splits)
qed

definition dimension_str :: "quota_dimension \<Rightarrow> string" where
  "dimension_str d =
     (case d of DimDisk \<Rightarrow> ''disk'' | DimBandwidth \<Rightarrow> ''bandwidth'' | DimInodes \<Rightarrow> ''inodes'')"

definition parse_dimension :: "string \<Rightarrow> quota_error + quota_dimension" where
  "parse_dimension s =
     (if s = ''disk'' then Inr DimDisk
      else if s = ''bandwidth'' then Inr DimBandwidth
      else if s = ''inodes'' then Inr DimInodes
      else Inl (QPersistence (''unknown dimension `'' @ s @ ''`'')))"

interpretation dimension_codec: string_codec dimension_str parse_dimension
proof
  fix v s
  show "parse_dimension (dimension_str v) = Inr v"
    by (cases v) (simp_all add: parse_dimension_def dimension_str_def)
  show "parse_dimension s = Inr v \<Longrightarrow> dimension_str v = s"
    by (auto simp: parse_dimension_def dimension_str_def split: if_splits)
qed

section \<open>Policies\<close>

definition limit_columns :: "quota_limit \<Rightarrow> u64 \<times> u64 \<times> u64" where
  "limit_columns l = (soft_bytes l, hard_bytes l, ucast (grace_days l))"

definition limit_of_columns :: "u64 \<times> u64 \<times> u64 \<Rightarrow> quota_limit" where
  "limit_of_columns c =
     (case c of (soft, hard, grace) \<Rightarrow>
        \<lparr>soft_bytes = soft, hard_bytes = hard, grace_days = ucast grace\<rparr>)"

definition policy_to_row :: "quota_policy \<Rightarrow> policy_row" where
  "policy_to_row p =
     \<lparr>por_id = qpol_id p, por_subject_kind = subject_kind_str (qpol_subject_kind p),
      por_subject_id = qpol_subject_id p, por_disk = limit_columns (qpol_disk p),
      por_bandwidth = limit_columns (qpol_bandwidth p), por_inodes = limit_columns (qpol_inodes p),
      por_max_file_size_bytes = qpol_max_file_size_bytes p,
      por_cpu_shares = map_option ucast (qpol_cpu_shares p),
      por_created_at = qpol_created_at p, por_updated_at = qpol_updated_at p\<rparr>"

definition into_policy :: "policy_row \<Rightarrow> quota_error + quota_policy" where
  "into_policy r =
     rbind (parse_subject_kind (por_subject_kind r)) (\<lambda>kind.
       quota_policy_restore (por_id r) kind (por_subject_id r) (limit_of_columns (por_disk r))
         (limit_of_columns (por_bandwidth r)) (limit_of_columns (por_inodes r))
         (por_max_file_size_bytes r) (map_option ucast (por_cpu_shares r))
         (por_created_at r) (por_updated_at r))"

definition policies_insert :: "env \<Rightarrow> quota_policy \<Rightarrow> unit qcall" where
  "policies_insert env p =
     q_sql (sql_write env
       (\<lambda>s. \<not> list_ex (\<lambda>r. por_id r = qpol_id p \<or>
              por_subject_kind r = subject_kind_str (qpol_subject_kind p) \<and>
              por_subject_id r = qpol_subject_id p) (db_policies s))
       (\<lambda>s. s\<lparr>db_policies := db_policies s @ [policy_to_row p]\<rparr>))"

definition policies_find :: "env \<Rightarrow> (policy_row \<Rightarrow> bool) \<Rightarrow> quota_policy option qcall" where
  "policies_find env q =
     sbind (q_sql (sql_read env (\<lambda>s. find q (db_policies s))))
       (\<lambda>row. slift (transpose_opt (map_option into_policy row)))"

definition policies_find_by_id :: "env \<Rightarrow> uuid \<Rightarrow> quota_policy option qcall" where
  "policies_find_by_id env i = policies_find env (\<lambda>r. por_id r = i)"

definition policies_find_by_subject ::
    "env \<Rightarrow> quota_subject \<Rightarrow> uuid \<Rightarrow> quota_policy option qcall" where
  "policies_find_by_subject env kind subj =
     policies_find env (\<lambda>r. por_subject_kind r = subject_kind_str kind \<and> por_subject_id r = subj)"

text \<open>The statement names every column but the identifier, the subject and the creation time.\<close>

definition policy_row_set :: "policy_row \<Rightarrow> policy_row \<Rightarrow> policy_row" where
  "policy_row_set row r =
     r\<lparr>por_disk := por_disk row, por_bandwidth := por_bandwidth row, por_inodes := por_inodes row,
       por_max_file_size_bytes := por_max_file_size_bytes row, por_cpu_shares := por_cpu_shares row,
       por_updated_at := por_updated_at row\<rparr>"

definition policies_update :: "env \<Rightarrow> quota_policy \<Rightarrow> unit qcall" where
  "policies_update env p =
     q_sql (sql_write env (\<lambda>_. True)
       (\<lambda>s. s\<lparr>db_policies := update_where (\<lambda>r. por_id r = qpol_id p)
          (policy_row_set (policy_to_row p)) (db_policies s)\<rparr>))"

definition policies_delete :: "env \<Rightarrow> uuid \<Rightarrow> unit qcall" where
  "policies_delete env i =
     q_sql (sql_write env (\<lambda>_. True)
       (\<lambda>s. s\<lparr>db_policies := delete_where (\<lambda>r. por_id r = i) (db_policies s)\<rparr>))"

definition policies_list :: "env \<Rightarrow> quota_policy list qcall" where
  "policies_list env =
     sbind (q_sql (sql_read env (\<lambda>s. sort_key por_created_at (db_policies s))))
       (\<lambda>rows. slift (collect_results into_policy rows))"

section \<open>Usage samples\<close>

text \<open>A \<open>BTreeSet\<close> of dimensions is iterated in the order of the enumeration.\<close>

definition dimension_names :: "quota_dimension set \<Rightarrow> string list" where
  "dimension_names ds = map dimension_str (filter (\<lambda>d. d \<in> ds) [DimDisk, DimBandwidth, DimInodes])"

definition usage_to_row :: "usage_json \<Rightarrow> quota_usage \<Rightarrow> usage_row" where
  "usage_to_row js u =
     \<lparr>usr_subject_id = qu_subject_id u, usr_sampled_at = qu_sampled_at u,
      usr_disk_used_bytes = qu_disk_used_bytes u, usr_disk_inodes_used = qu_disk_inodes_used u,
      usr_bandwidth_used_bytes = qu_bandwidth_used_bytes_this_month u,
      usr_over_soft_json = unwrap_or ''[]'' (names_to_json js (dimension_names (qu_over_soft u))),
      usr_over_hard_json = unwrap_or ''[]'' (names_to_json js (dimension_names (qu_over_hard u)))\<rparr>"

definition insert_usage :: "env \<Rightarrow> usage_json \<Rightarrow> quota_usage \<Rightarrow> unit qcall" where
  "insert_usage env js u =
     q_sql (sql_write env (\<lambda>_. True) (\<lambda>s. s\<lparr>db_usages := db_usages s @ [usage_to_row js u]\<rparr>))"

definition into_usage :: "usage_json \<Rightarrow> usage_row \<Rightarrow> quota_error + quota_usage" where
  "into_usage js r =
     rbind (map_err QPersistence (names_from_json js (usr_over_soft_json r))) (\<lambda>soft.
     rbind (map_err QPersistence (names_from_json js (usr_over_hard_json r))) (\<lambda>hard.
     rbind (collect_results parse_dimension soft) (\<lambda>over_soft.
     rbind (collect_results parse_dimension hard) (\<lambda>over_hard.
       Inr \<lparr>qu_subject_id = usr_subject_id r, qu_sampled_at = usr_sampled_at r,
         qu_disk_used_bytes = usr_disk_used_bytes r, qu_disk_inodes_used = usr_disk_inodes_used r,
         qu_bandwidth_used_bytes_this_month = usr_bandwidth_used_bytes r,
         qu_over_soft = set over_soft, qu_over_hard = set over_hard\<rparr>))))"

definition repo_latest_usage :: "env \<Rightarrow> usage_json \<Rightarrow> uuid \<Rightarrow> quota_usage option qcall" where
  "repo_latest_usage env js subj =
     sbind (q_sql (sql_read env (\<lambda>s. latest_by usr_sampled_at
         (filter (\<lambda>r. usr_subject_id r = subj) (db_usages s)))))
       (\<lambda>row. slift (transpose_opt (map_option (into_usage js) row)))"

section \<open>Round trips\<close>

lemma ucast_down_up: "(ucast (ucast (x :: u32) :: u64) :: u32) = x"
  by (rule bit_word_eqI) (auto simp: bit_simps)

lemma limit_roundtrip [simp]: "limit_of_columns (limit_columns l) = l"
  by (simp add: limit_of_columns_def limit_columns_def ucast_down_up)

interpretation policy_codec: row_codec policy_to_row into_policy "\<lambda>_. True"
  by unfold_locales
     (simp add: into_policy_def policy_to_row_def quota_policy_restore_def subject_codec.dec_enc
        option.map_comp comp_def ucast_down_up option.map_ident)

lemma dimension_names_roundtrip:
  "\<exists>ds'. collect_results parse_dimension (dimension_names ds) = Inr ds' \<and> set ds' = ds"
proof -
  have "collect_results parse_dimension (map dimension_str xs) = Inr xs" for xs
    by (induction xs) (simp_all add: dimension_codec.dec_enc)
  moreover have "set (filter (\<lambda>d. d \<in> ds) [DimDisk, DimBandwidth, DimInodes]) = ds"
    by (auto intro: quota_dimension.exhaust) (metis quota_dimension.exhaust)+
  ultimately show ?thesis unfolding dimension_names_def by blast
qed

interpretation usage_codec: row_codec "usage_to_row js" "into_usage js" "\<lambda>_. usage_json_contract js" for js
proof
  fix u assume js: "usage_json_contract js"
  have "names_from_json js (unwrap_or ''[]'' (names_to_json js x)) = Inr x" for x
    using js unfolding usage_json_contract_def unwrap_or_def by (metis option.simps(5))
  then show "into_usage js (usage_to_row js u) = Inr u"
    using dimension_names_roundtrip [of "qu_over_soft u"] dimension_names_roundtrip [of "qu_over_hard u"]
    by (auto simp: into_usage_def usage_to_row_def)
qed

lemma q_sql_Inr [st_invert]: "q_sql m s = (Inr x, t) \<longleftrightarrow> m s = (Inr x, t)"
  by (simp add: q_sql_def st_invert)

lemma q_sql_Inl [st_invert]: "q_sql m s = (Inl e, t) \<longleftrightarrow> (\<exists>d. m s = (Inl d, t) \<and> e = QPersistence d)"
  by (simp add: q_sql_def st_invert)

end
