(* ===== verification/Plans_Repo.thy ===== *)
theory Plans_Repo
  imports Identity_Repo
begin

text \<open>
  The SQLite adapter of \<open>openpanel-app/src/hosting_plans/repo.rs\<close>. The assignment table is
  append-only: an assignment that ends keeps its row with \<open>replaced_at\<close> set, and that row
  still references its plan (\<open>ON DELETE RESTRICT\<close>).
\<close>

type_synonym 'a pcall = "(hosting_plans_error, 'a) call"

definition p_sql :: "'a repo \<Rightarrow> 'a pcall" where
  "p_sql m = smap_err PPersistence m"

section \<open>Stored plans\<close>

definition plan_status_str :: "plan_status \<Rightarrow> string" where
  "plan_status_str st = (case st of PlanActive \<Rightarrow> ''active'' | PlanDisabled \<Rightarrow> ''disabled'')"

definition parse_plan_status :: "string \<Rightarrow> hosting_plans_error + plan_status" where
  "parse_plan_status raw =
     (if raw = ''active'' then Inr PlanActive
      else if raw = ''disabled'' then Inr PlanDisabled
      else Inl (PPersistence (''unknown plan status `'' @ raw @ ''`'')))"

interpretation plan_status_codec: string_codec plan_status_str parse_plan_status
proof
  fix v s
  show "parse_plan_status (plan_status_str v) = Inr v"
    by (cases v) (simp_all add: parse_plan_status_def plan_status_str_def)
  show "parse_plan_status s = Inr v \<Longrightarrow> plan_status_str v = s"
    by (auto simp: parse_plan_status_def plan_status_str_def split: if_splits)
qed

text \<open>The columns of a plan; serialising the caps is the one conversion that is not defaulted.\<close>

definition plan_to_row :: "plan_json \<Rightarrow> hosting_plan \<Rightarrow> hosting_plans_error + plan_row" where
  "plan_to_row js p =
     rbind (map_err PPersistence (caps_to_json js (hp_quota_caps p))) (\<lambda>caps_json.
       Inr \<lparr>plr_id = hp_id p, plr_name = hp_name p, plr_description = hp_description p,
         plr_prices_json = prices_json js p, plr_features_json = features_json js p,
         plr_quota_caps_json = caps_json, plr_allowed_apps_json = allowed_apps_json js p,
         plr_allowed_php_runtimes_json = allowed_php_runtimes_json js p,
         plr_status = plan_status_str (hp_status p), plr_created_at = hp_created_at p,
         plr_updated_at = hp_updated_at p\<rparr>)"

definition into_plan :: "plan_json \<Rightarrow> plan_row \<Rightarrow> hosting_plans_error + hosting_plan" where
  "into_plan js r =
     rbind (map_err PPersistence (caps_from_json js (plr_quota_caps_json r))) (\<lambda>caps.
     rbind (parse_plan_status (plr_status r)) (\<lambda>status.
       hosting_plan_restore js (plr_id r) (plr_name r) (plr_description r) (plr_prices_json r)
         (plr_features_json r) caps (plr_allowed_apps_json r) (plr_allowed_php_runtimes_json r)
         status (plr_created_at r) (plr_updated_at r)))"

text \<open>
  The result code 2067 is \<open>SQLITE_CONSTRAINT_UNIQUE\<close>, whose message contains the word as
  that of a primary key does; a statement's error is its message.
\<close>

definition is_unique_violation :: "string \<Rightarrow> bool" where
  "is_unique_violation e = contains ''UNIQUE'' e"

definition plan_write_error :: "string \<Rightarrow> hosting_plans_error" where
  "plan_write_error e = (if is_unique_violation e then DuplicateName else PPersistence e)"

definition plans_insert :: "env \<Rightarrow> plan_json \<Rightarrow> hosting_plan \<Rightarrow> unit pcall" where
  "plans_insert env js p =
     sbind (slift (plan_to_row js p)) (\<lambda>row.
       smap_err plan_write_error (sql_write env
         (\<lambda>s. \<not> list_ex (\<lambda>r. plr_id r = plr_id row \<or> plr_name r = plr_name row) (db_plans s))
         (\<lambda>s. s\<lparr>db_plans := db_plans s @ [row]\<rparr>)))"

definition plans_find :: "env \<Rightarrow> plan_json \<Rightarrow> (plan_row \<Rightarrow> bool) \<Rightarrow> hosting_plan option pcall" where
  "plans_find env js q =
     sbind (p_sql (sql_read env (\<lambda>s. find q (db_plans s))))
       (\<lambda>row. slift (transpose_opt (map_option (into_plan js) row)))"

definition plans_find_by_id :: "env \<Rightarrow> plan_json \<Rightarrow> uuid \<Rightarrow> hosting_plan option pcall" where
  "plans_find_by_id env js i = plans_find env js (\<lambda>r. plr_id r = i)"

definition plans_find_by_name :: "env \<Rightarrow> plan_json \<Rightarrow> string \<Rightarrow> hosting_plan option pcall" where
  "plans_find_by_name env js n = plans_find env js (\<lambda>r. plr_name r = n)"

definition plans_list :: "env \<Rightarrow> plan_json \<Rightarrow> hosting_plan list pcall" where
  "plans_list env js =
     sbind (p_sql (sql_read env (\<lambda>s. sort_key plr_created_at (db_plans s))))
       (\<lambda>rows. slift (collect_results (into_plan js) rows))"

text \<open>Every column but the identifier and the creation time; the name is unique among the others.\<close>

definition plan_row_set :: "plan_row \<Rightarrow> plan_row \<Rightarrow> plan_row" where
  "plan_row_set row r = row\<lparr>plr_id := plr_id r, plr_created_at := plr_created_at r\<rparr>"

definition plans_update :: "env \<Rightarrow> plan_json \<Rightarrow> hosting_plan \<Rightarrow> unit pcall" where
  "plans_update env js p =
     sbind (slift (plan_to_row js p)) (\<lambda>row.
       smap_err plan_write_error (sql_write env
         (\<lambda>s. list_ex (\<lambda>r. plr_id r = plr_id row) (db_plans s) \<longrightarrow>
              \<not> list_ex (\<lambda>r. plr_id r \<noteq> plr_id row \<and> plr_name r = plr_name row) (db_plans s))
         (\<lambda>s. s\<lparr>db_plans := update_where (\<lambda>r. plr_id r = plr_id row) (plan_row_set row) (db_plans s)\<rparr>)))"

section \<open>Assignments\<close>

definition current_for :: "uuid \<Rightarrow> plan_assignment \<Rightarrow> bool" where
  "current_for u a \<longleftrightarrow> pa_user_id a = u \<and> assignment_is_current a"

definition count_assignments :: "env \<Rightarrow> uuid \<Rightarrow> nat pcall" where
  "count_assignments env plan =
     p_sql (sql_read env (\<lambda>s. length (filter (\<lambda>a. pa_plan_id a = plan \<and> assignment_is_current a)
       (db_assignments s))))"

definition plans_delete :: "env \<Rightarrow> uuid \<Rightarrow> unit pcall" where
  "plans_delete env plan =
     sbind (count_assignments env plan) (\<lambda>count.
       if count > 0 then sfail PlanInUse
       else p_sql (sql_write env
         (\<lambda>s. \<not> list_ex (\<lambda>a. pa_plan_id a = plan) (db_assignments s) \<or>
              \<not> list_ex (\<lambda>r. plr_id r = plan) (db_plans s))
         (\<lambda>s. s\<lparr>db_plans := delete_where (\<lambda>r. plr_id r = plan) (db_plans s)\<rparr>)))"

text \<open>The assignment's columns; \<open>replaced_at\<close> is written as \<open>NULL\<close> whatever it was.\<close>

definition insert_assignment :: "env \<Rightarrow> plan_assignment \<Rightarrow> unit pcall" where
  "insert_assignment env a =
     p_sql (sql_transaction env id id (sql_write env
       (\<lambda>s. \<not> list_ex (\<lambda>x. pa_user_id x = pa_user_id a \<and> pa_assigned_at x = pa_assigned_at a)
              (db_assignments s) \<and>
            list_ex (\<lambda>r. plr_id r = pa_plan_id a) (db_plans s))
       (\<lambda>s. s\<lparr>db_assignments := db_assignments s @ [a\<lparr>pa_replaced_at := None\<rparr>]\<rparr>)))"

definition end_assignment :: "uuid \<Rightarrow> instant \<Rightarrow> plan_assignment list \<Rightarrow> plan_assignment list" where
  "end_assignment u now rows = update_where (current_for u) (\<lambda>a. a\<lparr>pa_replaced_at := Some now\<rparr>) rows"

definition replace_current_assignment :: "env \<Rightarrow> uuid \<Rightarrow> instant \<Rightarrow> uuid option pcall" where
  "replace_current_assignment env u now =
     sbind (p_sql (sql_read env (\<lambda>s. map_option pa_plan_id
         (latest_by pa_assigned_at (filter (current_for u) (db_assignments s)))))) (\<lambda>prev.
     sbind (p_sql (sql_write env (\<lambda>_. True)
         (\<lambda>s. s\<lparr>db_assignments := end_assignment u now (db_assignments s)\<rparr>))) (\<lambda>_.
       sret prev))"

definition remove_current_assignment :: "env \<Rightarrow> uuid \<Rightarrow> instant \<Rightarrow> uuid option pcall" where
  "remove_current_assignment env u now =
     sbind (p_sql (sql_read env (\<lambda>s. map_option pa_plan_id
         (latest_by pa_assigned_at (filter (current_for u) (db_assignments s)))))) (\<lambda>prev.
     sbind (p_sql (sql_write env (\<lambda>_. True)
         (\<lambda>s. s\<lparr>db_assignments := end_assignment u now (db_assignments s)\<rparr>))) (\<lambda>_.
       sret prev))"

definition into_assignment :: "plan_assignment \<Rightarrow> hosting_plans_error + plan_assignment" where
  "into_assignment r =
     Inr (plan_assignment_restore (pa_user_id r) (pa_plan_id r) (pa_assigned_at r) (pa_assigned_by r)
       (pa_replaced_at r))"

definition current_assignment :: "env \<Rightarrow> uuid \<Rightarrow> plan_assignment option pcall" where
  "current_assignment env u =
     sbind (p_sql (sql_read env (\<lambda>s. latest_by pa_assigned_at (filter (current_for u) (db_assignments s)))))
       (\<lambda>row. slift (transpose_opt (map_option into_assignment row)))"

definition plan_exists :: "env \<Rightarrow> uuid \<Rightarrow> bool repo" where
  "plan_exists env i = sql_read env (\<lambda>s. length (filter (\<lambda>r. plr_id r = i) (db_plans s)) > 0)"

section \<open>What the repository calls return\<close>

lemma p_sql_Inr [st_invert]: "p_sql m s = (Inr x, t) \<longleftrightarrow> m s = (Inr x, t)"
  by (simp add: p_sql_def st_invert)

lemma p_sql_Inl [st_invert]: "p_sql m s = (Inl e, t) \<longleftrightarrow> (\<exists>d. m s = (Inl d, t) \<and> e = PPersistence d)"
  by (simp add: p_sql_def st_invert)

lemma json_roundtrips_caps:
  assumes "json_roundtrips js"
  obtains c where "caps_to_json js x = Inr c" and "caps_from_json js c = Inr x"
  using assms unfolding json_roundtrips_def by metis

lemma plan_row_roundtrip:
  assumes "json_roundtrips js" and "plan_wf p"
  obtains row where "plan_to_row js p = Inr row"
    and "into_plan js row = Inr (p\<lparr>hp_branding_scope := branding_default\<rparr>)"
proof -
  obtain c where "caps_to_json js (hp_quota_caps p) = Inr c" "caps_from_json js c = Inr (hp_quota_caps p)"
    using json_roundtrips_caps [OF assms(1)] by metis
  then show thesis
    using that hosting_plan_restore_roundtrip [OF assms]
    by (simp add: plan_to_row_def into_plan_def plan_status_codec.dec_enc)
qed

lemma plan_to_row_fields:
  assumes "plan_to_row js p = Inr row"
  shows "plr_id row = hp_id p" and "plr_name row = hp_name p" and "plr_status row = plan_status_str (hp_status p)"
    and "plr_created_at row = hp_created_at p"
  using assms by (auto simp: plan_to_row_def)

lemma into_plan_fields:
  assumes "into_plan js r = Inr p"
  shows "hp_id p = plr_id r" and "hp_name p = plr_name r" and "plan_status_str (hp_status p) = plr_status r"
    and "hp_created_at p = plr_created_at r"
    and "caps_from_json js (plr_quota_caps_json r) = Inr (hp_quota_caps p)"
  using assms by (auto simp: into_plan_def hosting_plan_restore_def plan_status_codec.dec_iff)

lemma plans_find_Inr:
  "plans_find env js q s = (Inr x, t) \<longleftrightarrow> env_fault env (db_tick s) = None \<and> t = tick s \<and>
     (case find q (db_plans s) of None \<Rightarrow> x = None | Some r \<Rightarrow> \<exists>p. into_plan js r = Inr p \<and> x = Some p)"
  by (cases "find q (db_plans s)"; cases x)
     (auto simp: plans_find_def st_invert)

lemma plans_insert_Inr:
  "plans_insert env js p s = (Inr u, t) \<longleftrightarrow> (\<exists>row. plan_to_row js p = Inr row \<and>
     env_fault env (db_tick s) = None \<and>
     (\<forall>r \<in> set (db_plans s). plr_id r \<noteq> hp_id p \<and> plr_name r \<noteq> hp_name p) \<and>
     t = tick (s\<lparr>db_plans := db_plans s @ [row]\<rparr>))"
  by (auto simp: plans_insert_def st_invert list_ex_iff plan_to_row_fields)

lemma plans_update_Inr:
  "plans_update env js p s = (Inr u, t) \<longleftrightarrow> (\<exists>row. plan_to_row js p = Inr row \<and>
     env_fault env (db_tick s) = None \<and>
     ((\<exists>r \<in> set (db_plans s). plr_id r = hp_id p) \<longrightarrow>
        (\<forall>r \<in> set (db_plans s). plr_id r \<noteq> hp_id p \<longrightarrow> plr_name r \<noteq> hp_name p)) \<and>
     t = tick (s\<lparr>db_plans := update_where (\<lambda>r. plr_id r = hp_id p) (plan_row_set row) (db_plans s)\<rparr>))"
  by (auto simp: plans_update_def st_invert list_ex_iff plan_to_row_fields)

lemma end_assignment_none: "filter (current_for u) (end_assignment u now rows) = []"
  by (induction rows) (auto simp: end_assignment_def current_for_def assignment_is_current_def)

lemma filter_end_assignment_other:
  "filter (\<lambda>a. pa_user_id a \<noteq> u \<and> q a) (end_assignment u now rows) = filter (\<lambda>a. pa_user_id a \<noteq> u \<and> q a) rows"
  by (induction rows) (auto simp: end_assignment_def current_for_def)

lemma replace_current_assignment_Inr:
  "replace_current_assignment env u now s = (Inr prev, t) \<longleftrightarrow>
     env_fault env (db_tick s) = None \<and> env_fault env (Suc (db_tick s)) = None \<and>
     prev = map_option pa_plan_id (latest_by pa_assigned_at (filter (current_for u) (db_assignments s))) \<and>
     t = tick ((tick s)\<lparr>db_assignments := end_assignment u now (db_assignments s)\<rparr>)"
  by (auto simp: replace_current_assignment_def st_invert tick_def)

lemma remove_is_replace: "remove_current_assignment = replace_current_assignment"
  by (simp add: fun_eq_iff remove_current_assignment_def replace_current_assignment_def)

lemma current_assignment_Inr:
  "current_assignment env u s = (Inr x, t) \<longleftrightarrow> env_fault env (db_tick s) = None \<and> t = tick s \<and>
     x = latest_by pa_assigned_at (filter (current_for u) (db_assignments s))"
proof -
  have "transpose_opt (map_option into_assignment row) = Inr row" for row
    by (cases row) (simp_all add: into_assignment_def plan_assignment_restore_def)
  then show ?thesis by (auto simp: current_assignment_def st_invert)
qed

end
