(* ===== verification/Hierarchy_Repo.thy ===== *)
theory Hierarchy_Repo
  imports Identity_Repo Hierarchy_Domain "HOL-Library.List_Lexorder" "HOL-Library.Char_ord"
begin

text \<open>
  The SQLite adapter of \<open>openpanel-app/src/account_hierarchy/repo.rs\<close>: relationships,
  pools and claims, the upward walk \<open>path_exists\<close> and the aggregate of \<open>pool_usage\<close>.
\<close>

type_synonym 'a hcall = "(hierarchy_error, 'a) call"

definition h_sql :: "'a repo \<Rightarrow> 'a hcall" where
  "h_sql m = smap_err HPersistence m"

section \<open>Stored names\<close>

definition relationship_status_str :: "hierarchy_status \<Rightarrow> string" where
  "relationship_status_str st = (case st of RelActive \<Rightarrow> ''active'' | RelDetached \<Rightarrow> ''detached'')"

definition parse_relationship_status :: "string \<Rightarrow> hierarchy_error + hierarchy_status" where
  "parse_relationship_status s =
     (if s = ''active'' then Inr RelActive
      else if s = ''detached'' then Inr RelDetached
      else Inl (HPersistence (''unknown hierarchy status `'' @ s @ ''`'')))"

interpretation status_codec: string_codec relationship_status_str parse_relationship_status
proof
  fix v s
  show "parse_relationship_status (relationship_status_str v) = Inr v"
    by (cases v) (simp_all add: parse_relationship_status_def relationship_status_str_def)
  show "parse_relationship_status s = Inr v \<Longrightarrow> relationship_status_str v = s"
    by (auto simp: parse_relationship_status_def relationship_status_str_def split: if_splits)
qed

definition pool_axis_str :: "pool_axis \<Rightarrow> string" where
  "pool_axis_str a =
     (case a of
        DiskBytes \<Rightarrow> ''disk_bytes''
      | BandwidthBytesPerMonth \<Rightarrow> ''bandwidth_bytes_per_month''
      | MaxChildAccounts \<Rightarrow> ''max_child_accounts'')"

definition parse_pool_axis :: "string \<Rightarrow> hierarchy_error + pool_axis" where
  "parse_pool_axis s =
     (if s = ''disk_bytes'' then Inr DiskBytes
      else if s = ''bandwidth_bytes_per_month'' then Inr BandwidthBytesPerMonth
      else if s = ''max_child_accounts'' then Inr MaxChildAccounts
      else Inl (HPersistence (''unknown pool axis `'' @ s @ ''`'')))"

interpretation axis_codec: string_codec pool_axis_str parse_pool_axis
proof
  fix v s
  show "parse_pool_axis (pool_axis_str v) = Inr v"
    by (cases v) (simp_all add: parse_pool_axis_def pool_axis_str_def)
  show "parse_pool_axis s = Inr v \<Longrightarrow> pool_axis_str v = s"
    by (auto simp: parse_pool_axis_def pool_axis_str_def split: if_splits)
qed

section \<open>Relationships\<close>

definition relationship_to_row :: "account_relationship \<Rightarrow> relationship_row" where
  "relationship_to_row r =
     \<lparr>rel_parent_id = ar_parent_id r, rel_child_id = ar_child_id r, rel_created_at = ar_created_at r,
      rel_created_by = ar_created_by r, rel_status = relationship_status_str (ar_status r)\<rparr>"

text \<open>The stored status is parsed and dropped: \<open>AccountRelationship::new\<close> makes an active one.\<close>

definition into_relationship :: "relationship_row \<Rightarrow> hierarchy_error + account_relationship" where
  "into_relationship r =
     rbind (parse_relationship_status (rel_status r)) (\<lambda>_.
       Inr (relationship_new (rel_parent_id r) (rel_child_id r) (rel_created_by r) (rel_created_at r)))"

interpretation relationship_codec:
  row_codec relationship_to_row into_relationship relationship_is_active
  by unfold_locales
     (simp add: into_relationship_def relationship_to_row_def relationship_new_def
        relationship_is_active_def status_codec.dec_enc)

definition rel_active :: "relationship_row \<Rightarrow> bool" where
  "rel_active r \<longleftrightarrow> rel_status r = ''active''"

definition insert_relationship :: "env \<Rightarrow> account_relationship \<Rightarrow> unit hcall" where
  "insert_relationship env r =
     h_sql (sql_write env
       (\<lambda>s. \<not> list_ex (\<lambda>x. rel_parent_id x = ar_parent_id r \<and> rel_child_id x = ar_child_id r)
              (db_relationships s) \<and>
            user_exists (ar_parent_id r) s \<and> user_exists (ar_child_id r) s)
       (\<lambda>s. s\<lparr>db_relationships := db_relationships s @ [relationship_to_row r]\<rparr>))"

definition children_of :: "env \<Rightarrow> uuid \<Rightarrow> account_relationship list hcall" where
  "children_of env p =
     sbind (h_sql (sql_read env (\<lambda>s. sort_key rel_created_at
         (filter (\<lambda>r. rel_parent_id r = p \<and> rel_active r) (db_relationships s)))))
       (\<lambda>rows. slift (collect_results into_relationship rows))"

definition parent_of :: "env \<Rightarrow> uuid \<Rightarrow> account_relationship option hcall" where
  "parent_of env c =
     sbind (h_sql (sql_read env (\<lambda>s. latest_by rel_created_at
         (filter (\<lambda>r. rel_child_id r = c \<and> rel_active r) (db_relationships s)))))
       (\<lambda>row. slift (transpose_opt (map_option into_relationship row)))"

definition detach :: "env \<Rightarrow> uuid \<Rightarrow> uuid \<Rightarrow> unit hcall" where
  "detach env p c =
     h_sql (sql_write env (\<lambda>_. True)
       (\<lambda>s. s\<lparr>db_relationships :=
          update_where (\<lambda>r. rel_parent_id r = p \<and> rel_child_id r = c)
            (\<lambda>r. r\<lparr>rel_status := ''detached''\<rparr>) (db_relationships s)\<rparr>))"

definition active_parent :: "db \<Rightarrow> uuid \<Rightarrow> uuid option" where
  "active_parent s c =
     map_option rel_parent_id (find (\<lambda>r. rel_child_id r = c \<and> rel_active r) (db_relationships s))"

text \<open>
  The walk of \<open>path_exists\<close>. The loop's \<open>guard\<close> counts the queries made; the last
  argument is how many remain, 1025 at the start, so that it is zero exactly when
  \<open>guard > 1024\<close>.
\<close>

fun path_walk :: "env \<Rightarrow> uuid \<Rightarrow> uuid \<Rightarrow> nat \<Rightarrow> bool hcall" where
  "path_walk env ancestor current 0 = sret (current = ancestor)"
| "path_walk env ancestor current (Suc n) =
     (if current = ancestor then sret True
      else
        sbind (h_sql (sql_read env (\<lambda>s. active_parent s current))) (\<lambda>next_parent.
          case next_parent of
            None \<Rightarrow> sret False
          | Some p \<Rightarrow> path_walk env ancestor p n))"

definition path_exists :: "env \<Rightarrow> uuid \<Rightarrow> uuid \<Rightarrow> bool hcall" where
  "path_exists env ancestor descendant = path_walk env ancestor descendant 1025"

definition hierarchy_exists :: "env \<Rightarrow> uuid \<Rightarrow> bool repo" where
  "hierarchy_exists env i = sql_read env (user_exists i)"

section \<open>Pools and claims\<close>

definition pool_to_row :: "quota_pool \<Rightarrow> pool_row" where
  "pool_to_row p =
     \<lparr>pr_parent_id = qp_parent_id p, pr_axis = pool_axis_str (qp_axis p),
      pr_total_bytes = qp_total_bytes p, pr_updated_at = qp_updated_at p\<rparr>"

definition into_pool :: "pool_row \<Rightarrow> hierarchy_error + quota_pool" where
  "into_pool r =
     rbind (parse_pool_axis (pr_axis r)) (\<lambda>axis.
       quota_pool_new (pr_parent_id r) axis (pr_total_bytes r) (pr_updated_at r))"

interpretation pool_codec: row_codec pool_to_row into_pool "\<lambda>p. qp_total_bytes p \<noteq> 0"
  by unfold_locales
     (simp add: into_pool_def pool_to_row_def quota_pool_new_def axis_codec.dec_enc)

definition claim_to_row :: "pool_claim \<Rightarrow> claim_row" where
  "claim_to_row c =
     \<lparr>clr_parent_id = pc_parent_id c, clr_child_id = pc_child_id c, clr_axis = pool_axis_str (pc_axis c),
      clr_share_bytes = pc_share_bytes c, clr_claimed_at = pc_claimed_at c\<rparr>"

definition into_claim :: "claim_row \<Rightarrow> hierarchy_error + pool_claim" where
  "into_claim r =
     rbind (parse_pool_axis (clr_axis r)) (\<lambda>axis.
       pool_claim_new (clr_parent_id r) (clr_child_id r) axis (clr_share_bytes r) (clr_claimed_at r))"

interpretation claim_codec: row_codec claim_to_row into_claim "\<lambda>c. pc_share_bytes c \<noteq> 0"
  by unfold_locales
     (simp add: into_claim_def claim_to_row_def pool_claim_new_def axis_codec.dec_enc)

definition upsert_pool_row :: "pool_row \<Rightarrow> pool_row list \<Rightarrow> pool_row list" where
  "upsert_pool_row r rows =
     (if list_ex (\<lambda>x. pr_parent_id x = pr_parent_id r \<and> pr_axis x = pr_axis r) rows
      then update_where (\<lambda>x. pr_parent_id x = pr_parent_id r \<and> pr_axis x = pr_axis r)
             (\<lambda>x. x\<lparr>pr_total_bytes := pr_total_bytes r, pr_updated_at := pr_updated_at r\<rparr>) rows
      else rows @ [r])"

definition upsert_pool :: "env \<Rightarrow> quota_pool \<Rightarrow> unit hcall" where
  "upsert_pool env p =
     h_sql (sql_write env (\<lambda>s. user_exists (qp_parent_id p) s)
       (\<lambda>s. s\<lparr>db_pools := upsert_pool_row (pool_to_row p) (db_pools s)\<rparr>))"

definition pools_of :: "env \<Rightarrow> uuid \<Rightarrow> quota_pool list hcall" where
  "pools_of env p =
     sbind (h_sql (sql_read env (\<lambda>s. sort_key pr_axis (filter (\<lambda>r. pr_parent_id r = p) (db_pools s)))))
       (\<lambda>rows. slift (collect_results into_pool rows))"

definition insert_claim :: "env \<Rightarrow> pool_claim \<Rightarrow> unit hcall" where
  "insert_claim env c =
     h_sql (sql_write env
       (\<lambda>s. \<not> list_ex (\<lambda>x. clr_parent_id x = pc_parent_id c \<and> clr_child_id x = pc_child_id c \<and>
               clr_axis x = pool_axis_str (pc_axis c)) (db_claims s) \<and>
            user_exists (pc_parent_id c) s \<and> user_exists (pc_child_id c) s)
       (\<lambda>s. s\<lparr>db_claims := db_claims s @ [claim_to_row c]\<rparr>))"

definition claims_of :: "env \<Rightarrow> uuid \<Rightarrow> pool_claim list hcall" where
  "claims_of env p =
     sbind (h_sql (sql_read env (\<lambda>s. sort_key (\<lambda>r. (clr_axis r, clr_claimed_at r))
         (filter (\<lambda>r. clr_parent_id r = p) (db_claims s)))))
       (\<lambda>rows. slift (collect_results into_claim rows))"

definition remove_claim :: "env \<Rightarrow> uuid \<Rightarrow> uuid \<Rightarrow> pool_axis \<Rightarrow> unit hcall" where
  "remove_claim env p c axis =
     h_sql (sql_write env (\<lambda>_. True)
       (\<lambda>s. s\<lparr>db_claims := delete_where (\<lambda>r. clr_parent_id r = p \<and> clr_child_id r = c \<and>
          clr_axis r = pool_axis_str axis) (db_claims s)\<rparr>))"

text \<open>
  \<open>SUM\<close> adds the 64 bit signed values of the column and fails as soon as a partial sum
  leaves their range.
\<close>

definition i64_ok :: "int \<Rightarrow> bool" where
  "i64_ok n \<longleftrightarrow> - (2 ^ 63) \<le> n \<and> n < 2 ^ 63"

fun sql_sum :: "int \<Rightarrow> u64 list \<Rightarrow> int option" where
  "sql_sum acc [] = Some acc"
| "sql_sum acc (x # xs) = (if i64_ok (acc + sint x) then sql_sum (acc + sint x) xs else None)"

definition claim_shares :: "uuid \<Rightarrow> pool_axis \<Rightarrow> db \<Rightarrow> u64 list" where
  "claim_shares p axis s =
     map clr_share_bytes (filter (\<lambda>r. clr_parent_id r = p \<and> clr_axis r = pool_axis_str axis) (db_claims s))"

definition repo_pool_usage :: "env \<Rightarrow> uuid \<Rightarrow> pool_axis \<Rightarrow> u64 hcall" where
  "repo_pool_usage env p axis =
     h_sql (sbind (sql_read env (\<lambda>s. sql_sum 0 (claim_shares p axis s))) (\<lambda>tot.
       slift (map_err id (ok_or (env_sum_overflow env) (map_option word_of_int tot)))))"

section \<open>What the queries compute\<close>

lemma h_sql_Inr [st_invert]: "h_sql m s = (Inr x, t) \<longleftrightarrow> m s = (Inr x, t)"
  by (simp add: h_sql_def st_invert)

lemma h_sql_Inl [st_invert]: "h_sql m s = (Inl e, t) \<longleftrightarrow> (\<exists>d. m s = (Inl d, t) \<and> e = HPersistence d)"
  by (simp add: h_sql_def st_invert)

text \<open>
  The reference for the upward walk: the chain of parents, and the walk finds the
  accounts on its first \<open>n + 1\<close> places.
\<close>

fun parent_chain :: "db \<Rightarrow> uuid \<Rightarrow> nat \<Rightarrow> uuid list" where
  "parent_chain s i 0 = [i]"
| "parent_chain s i (Suc n) =
     i # (case active_parent s i of None \<Rightarrow> [] | Some p \<Rightarrow> parent_chain s p n)"

lemma active_parent_tick [simp]: "active_parent (tick s) = active_parent s"
  by (rule ext) (simp add: active_parent_def)

lemma parent_chain_tick [simp]: "parent_chain (tick s) i n = parent_chain s i n"
  by (induction n arbitrary: i) (simp_all split: option.split)

lemma path_walk_chain:
  assumes "env_fault env = (\<lambda>_. None)"
  shows "fst (path_walk env a i n s) = Inr (a \<in> set (parent_chain s i n))"
proof (induction n arbitrary: i s)
  case (Suc n)
  show ?case
  proof (cases "i = a \<or> active_parent s i = None")
    case False
    then obtain p where "active_parent s i = Some p" by auto
    then show ?thesis
      using False Suc [of p "tick s"]
      by (simp add: sbind_def h_sql_def smap_err_def sql_eval [OF assms])
  qed (auto simp: sbind_def h_sql_def smap_err_def sql_eval [OF assms])
qed auto

lemma sint_u64_small: "uint x < 2 ^ 63 \<Longrightarrow> sint (x :: u64) = uint x"
proof -
  assume x: "uint x < 2 ^ 63"
  have "- (2 ^ 63) \<le> uint x" by (rule order_trans [OF _ uint_ge_0]) simp
  then have "signed_take_bit 63 (uint x) = uint x"
    using x by (rule signed_take_bit_int_eq_self)
  then show ?thesis by (simp add: sint_uint)
qed

text \<open>Below \<open>2 ^ 63\<close> the signed sum of the column is the sum of the shares.\<close>

lemma sql_sum_small:
  assumes "0 \<le> acc" and "acc + int (sum_list (map unat xs)) < 2 ^ 63"
  shows "sql_sum acc xs = Some (acc + int (sum_list (map unat xs)))"
  using assms
proof (induction xs arbitrary: acc)
  case (Cons x xs)
  have rest: "0 \<le> int (sum_list (map unat xs))" by simp
  have x: "0 \<le> uint x" "acc + (uint x + int (sum_list (map unat xs))) < 2 ^ 63"
    using Cons.prems by simp_all
  then have "sint x = uint x"
    using rest Cons.prems(1) by (intro sint_u64_small) linarith
  moreover have "i64_ok (acc + uint x)"
    using x rest Cons.prems(1) unfolding i64_ok_def by linarith
  moreover have "sql_sum (acc + uint x) xs = Some (acc + uint x + int (sum_list (map unat xs)))"
    using x Cons.prems(1) by (intro Cons.IH) linarith+
  ultimately show ?case by (simp add: algebra_simps)
qed simp

definition claimed :: "uuid \<Rightarrow> pool_axis \<Rightarrow> db \<Rightarrow> nat" where
  "claimed p axis s = sum_list (map unat (claim_shares p axis s))"

lemma repo_pool_usage_Inr:
  assumes "repo_pool_usage env p axis s = (Inr used, t)" and "claimed p axis s < 2 ^ 63"
  shows "unat used = claimed p axis s" and "t = tick s"
proof -
  have "sql_sum 0 (claim_shares p axis s) = Some (int (claimed p axis s))"
    using assms(2) sql_sum_small [of 0] by (simp add: claimed_def)
  then have "used = word_of_int (int (claimed p axis s))" and t: "t = tick s"
    using assms(1) by (auto simp: repo_pool_usage_def st_invert)
  then show "unat used = claimed p axis s"
    using assms(2) by (simp add: unat_of_nat take_bit_nat_eq_self)
  show "t = tick s" by (rule t)
qed

end
