(* ===== verification/Factor_Repo.thy ===== *)
theory Factor_Repo
  imports Identity_Repo
begin

text \<open>
  The SQLite adapter of \<open>openpanel-app/src/identity/factor_repo.rs\<close>: factors with
  their encrypted TOTP secrets, pending enrolments, recovery codes, login
  challenges, WebAuthn credentials and ceremonies.
\<close>

definition label :: "string \<Rightarrow> string \<Rightarrow> string" where
  "label l e = l @ '': '' @ e"

section \<open>Rows\<close>

definition factor_to_row :: "factor \<Rightarrow> string option \<Rightarrow> factor_row" where
  "factor_to_row f secret =
     \<lparr>fr_id = f_id f, fr_user_id = f_user_id f, fr_kind = factor_kind_as_str (f_kind f),
      fr_created_at = f_created_at f, fr_verified_at = f_verified_at f,
      fr_last_used_at = f_last_used_at f, fr_revoked_at = f_revoked_at f,
      fr_last_used_step = f_last_used_step f, fr_totp_secret_encrypted = secret\<rparr>"

definition row_to_factor :: "factor_row \<Rightarrow> string + factor" where
  "row_to_factor r =
     rbind (ok_or (''factor kind: '' @ fr_kind r) (factor_kind_parse (fr_kind r))) (\<lambda>k.
       Inr \<lparr>f_id = fr_id r, f_user_id = fr_user_id r, f_kind = k, f_created_at = fr_created_at r,
         f_verified_at = fr_verified_at r, f_last_used_at = fr_last_used_at r,
         f_revoked_at = fr_revoked_at r, f_last_used_step = fr_last_used_step r\<rparr>)"

lemma factor_kind_parse_iff: "factor_kind_parse s = Some k \<longleftrightarrow> s = factor_kind_as_str k"
  using factor_kind_codec.dec_iff [of s k] by simp

lemma uv_policy_parse_iff: "uv_policy_parse s = Some k \<longleftrightarrow> s = uv_policy_as_str k"
  using uv_policy_codec.dec_iff [of s k] by simp

lemma factor_kind_parse_as_str [simp]: "factor_kind_parse (factor_kind_as_str k) = Some k"
  by (simp add: factor_kind_parse_iff)

interpretation factor_codec: row_codec "\<lambda>f. factor_to_row f secret" row_to_factor "\<lambda>_. True" for secret
  by unfold_locales (simp add: row_to_factor_def factor_to_row_def)

lemma row_to_factor_Inr:
  "row_to_factor r = Inr f \<longleftrightarrow> r = factor_to_row f (fr_totp_secret_encrypted r)"
  by (cases f, cases r)
     (auto simp: row_to_factor_def factor_to_row_def factor_kind_parse_iff)

definition row_to_webauthn_credential :: "credential_row \<Rightarrow> string + webauthn_credential" where
  "row_to_webauthn_credential r =
     rbind (ok_or (''webauthn uv_policy: '' @ cr_uv_policy r) (uv_policy_parse (cr_uv_policy r))) (\<lambda>uv.
       Inr \<lparr>wc_id = cr_id r, wc_user_id = cr_user_id r, wc_factor_id = cr_factor_id r,
         wc_credential_id = cr_credential_id r, wc_public_key_spki = cr_public_key_spki r,
         wc_sign_count = cr_sign_count r,
         wc_transports = (case cr_transports r of None \<Rightarrow> [] | Some t \<Rightarrow> t),
         wc_uv_policy = uv, wc_passkey_json = cr_passkey_json r, wc_created_at = cr_created_at r,
         wc_last_used_at = cr_last_used_at r, wc_revoked_at = cr_revoked_at r\<rparr>)"

section \<open>Factors and secrets\<close>

definition factors_insert :: "env \<Rightarrow> factor \<Rightarrow> string \<Rightarrow> unit repo" where
  "factors_insert env f secret =
     smap_err (label ''insert_factor'')
       (sql_write env
          (\<lambda>s. \<not> list_ex (\<lambda>r. fr_id r = f_id f) (db_factors s) \<and> user_exists (f_user_id f) s)
          (\<lambda>s. s\<lparr>db_factors := db_factors s @ [factor_to_row f (Some secret)]\<rparr>))"

definition factors_find :: "env \<Rightarrow> uuid \<Rightarrow> factor option repo" where
  "factors_find env i =
     sbind (smap_err (label ''find_factor'')
         (sql_read env (\<lambda>s. find (\<lambda>r. fr_id r = i) (db_factors s))))
       (\<lambda>row. slift (transpose_opt (map_option row_to_factor row)))"

definition factors_update :: "env \<Rightarrow> factor \<Rightarrow> unit repo" where
  "factors_update env f =
     smap_err (label ''update_factor'')
       (sql_write env (\<lambda>_. True)
          (\<lambda>s. s\<lparr>db_factors := update_where (\<lambda>r. fr_id r = f_id f)
             (\<lambda>r. r\<lparr>fr_last_used_at := f_last_used_at f, fr_revoked_at := f_revoked_at f,
                fr_last_used_step := f_last_used_step f\<rparr>) (db_factors s)\<rparr>))"

definition factors_list_for_user :: "env \<Rightarrow> uuid \<Rightarrow> factor list repo" where
  "factors_list_for_user env u =
     sbind (smap_err (label ''list_factors_for_user'')
         (sql_read env (\<lambda>s. filter (\<lambda>r. fr_user_id r = u) (db_factors s))))
       (\<lambda>rows. slift (collect_results row_to_factor rows))"

definition factors_find_active_totp :: "env \<Rightarrow> uuid \<Rightarrow> factor option repo" where
  "factors_find_active_totp env u =
     sbind (smap_err (label ''find_active_totp_factor'')
         (sql_read env (\<lambda>s. find (\<lambda>r. fr_user_id r = u \<and> fr_kind r = ''totp'' \<and> fr_revoked_at r = None)
            (db_factors s))))
       (\<lambda>row. slift (transpose_opt (map_option row_to_factor row)))"

definition factors_find_totp_secret_encrypted :: "env \<Rightarrow> uuid \<Rightarrow> string option repo" where
  "factors_find_totp_secret_encrypted env i =
     sbind (smap_err (label ''find_totp_secret_encrypted'')
         (sql_read env (\<lambda>s. find (\<lambda>r. fr_id r = i) (db_factors s))))
       (\<lambda>row. sret (Option.bind row fr_totp_secret_encrypted))"

section \<open>Pending enrolments\<close>

definition factors_insert_totp_enrollment :: "env \<Rightarrow> totp_enrollment_challenge \<Rightarrow> unit repo" where
  "factors_insert_totp_enrollment env e =
     smap_err (label ''insert_totp_enrollment'')
       (sql_write env
          (\<lambda>s. \<not> list_ex (\<lambda>r. te_id (er_enrollment r) = te_id e) (db_enrollments s) \<and>
               user_exists (te_user_id e) s)
          (\<lambda>s. s\<lparr>db_enrollments := db_enrollments s @ [\<lparr>er_enrollment = e, er_consumed_at = None\<rparr>]\<rparr>))"

definition factors_find_totp_enrollment ::
    "env \<Rightarrow> uuid \<Rightarrow> totp_enrollment_challenge option repo" where
  "factors_find_totp_enrollment env i =
     sbind (smap_err (label ''find_totp_enrollment'')
         (sql_read env (\<lambda>s. find (\<lambda>r. te_id (er_enrollment r) = i \<and> er_consumed_at r = None)
            (db_enrollments s))))
       (\<lambda>row. sret (map_option er_enrollment row))"

definition enrollment_consumable :: "uuid \<Rightarrow> instant \<Rightarrow> enrollment_row \<Rightarrow> bool" where
  "enrollment_consumable i now r \<longleftrightarrow>
     te_id (er_enrollment r) = i \<and> er_consumed_at r = None \<and> te_expires_at (er_enrollment r) > now"

definition factors_consume_totp_enrollment :: "env \<Rightarrow> uuid \<Rightarrow> instant \<Rightarrow> bool repo" where
  "factors_consume_totp_enrollment env i now =
     sbind (smap_err (label ''consume_totp_enrollment'')
         (sql_count env
            (\<lambda>s. length (filter (enrollment_consumable i now) (db_enrollments s)))
            (\<lambda>s. s\<lparr>db_enrollments := update_where (enrollment_consumable i now)
               (\<lambda>r. r\<lparr>er_consumed_at := Some now\<rparr>) (db_enrollments s)\<rparr>)))
       (\<lambda>n. sret (n = 1))"

section \<open>Recovery codes\<close>

definition recovery_insert :: "env \<Rightarrow> uuid \<Rightarrow> string \<times> instant \<Rightarrow> unit repo" where
  "recovery_insert env u e =
     sql_write env (user_exists u)
       (\<lambda>s. s\<lparr>db_recovery := db_recovery s @
            [\<lparr>rr_id = Suc (db_recovery_seq s), rr_user_id = u, rr_code_hash = fst e,
              rr_created_at = snd e, rr_consumed_at = None\<rparr>],
          db_recovery_seq := Suc (db_recovery_seq s)\<rparr>)"

fun recovery_insert_all :: "env \<Rightarrow> uuid \<Rightarrow> (string \<times> instant) list \<Rightarrow> unit repo" where
  "recovery_insert_all env u [] = sret ()"
| "recovery_insert_all env u (e # es) =
     sbind (smap_err (label ''replace_recovery_codes insert'') (recovery_insert env u e))
       (\<lambda>_. recovery_insert_all env u es)"

definition factors_replace_recovery_codes ::
    "env \<Rightarrow> uuid \<Rightarrow> (string \<times> instant) list \<Rightarrow> unit repo" where
  "factors_replace_recovery_codes env u entries =
     sql_transaction env (label ''replace_recovery_codes begin'') (label ''replace_recovery_codes commit'')
       (sbind (smap_err (label ''replace_recovery_codes delete'')
          (sql_write env (\<lambda>_. True)
             (\<lambda>s. s\<lparr>db_recovery := delete_where (\<lambda>r. rr_user_id r = u) (db_recovery s)\<rparr>)))
        (\<lambda>_. recovery_insert_all env u entries))"

definition factors_list_recovery_codes ::
    "env \<Rightarrow> uuid \<Rightarrow> (string \<times> instant option) list repo" where
  "factors_list_recovery_codes env u =
     sbind (smap_err (label ''list_recovery_codes'')
         (sql_read env (\<lambda>s. filter (\<lambda>r. rr_user_id r = u) (db_recovery s))))
       (\<lambda>rows. sret (map (\<lambda>r. (rr_code_hash r, rr_consumed_at r)) rows))"

fun recovery_match :: "crypto \<Rightarrow> string \<Rightarrow> recovery_row list \<Rightarrow> nat option" where
  "recovery_match cr plaintext [] = None"
| "recovery_match cr plaintext (r # rs) =
     (case recovery_verify cr plaintext (rr_code_hash r) of
        Inr _ \<Rightarrow> Some (rr_id r)
      | Inl _ \<Rightarrow> recovery_match cr plaintext rs)"

definition factors_consume_recovery_code ::
    "env \<Rightarrow> crypto \<Rightarrow> uuid \<Rightarrow> string \<Rightarrow> instant \<Rightarrow> bool repo" where
  "factors_consume_recovery_code env cr u plaintext now =
     sbind (smap_err (label ''consume_recovery_code select'')
         (sql_read env (\<lambda>s. filter (\<lambda>r. rr_user_id r = u \<and> rr_consumed_at r = None) (db_recovery s))))
       (\<lambda>rows. case recovery_match cr plaintext rows of
          None \<Rightarrow> sret False
        | Some i \<Rightarrow>
            sbind (smap_err (label ''consume_recovery_code update'')
               (sql_write env (\<lambda>_. True)
                  (\<lambda>s. s\<lparr>db_recovery := update_where (\<lambda>r. rr_id r = i)
                     (\<lambda>r. r\<lparr>rr_consumed_at := Some now\<rparr>) (db_recovery s)\<rparr>)))
              (\<lambda>_. sret True))"

section \<open>Login challenges\<close>

definition factors_insert_challenge :: "env \<Rightarrow> two_factor_challenge \<Rightarrow> unit repo" where
  "factors_insert_challenge env c =
     smap_err (label ''insert_challenge'')
       (sql_write env
          (\<lambda>s. \<not> list_ex (\<lambda>d. tc_id d = tc_id c \<or> tc_token_hash d = tc_token_hash c) (db_challenges s) \<and>
               user_exists (tc_user_id c) s)
          (\<lambda>s. s\<lparr>db_challenges := db_challenges s @ [c]\<rparr>))"

definition factors_find_challenge :: "env \<Rightarrow> uuid \<Rightarrow> two_factor_challenge option repo" where
  "factors_find_challenge env i =
     smap_err (label ''find_challenge'')
       (sql_read env (\<lambda>s. find (\<lambda>c. tc_id c = i) (db_challenges s)))"

definition factors_delete_challenge :: "env \<Rightarrow> uuid \<Rightarrow> unit repo" where
  "factors_delete_challenge env i =
     smap_err (label ''delete_challenge'')
       (sql_write env (\<lambda>_. True)
          (\<lambda>s. s\<lparr>db_challenges := delete_where (\<lambda>c. tc_id c = i) (db_challenges s)\<rparr>))"

definition factors_verify_challenge_token :: "env \<Rightarrow> crypto \<Rightarrow> uuid \<Rightarrow> string \<Rightarrow> bool repo" where
  "factors_verify_challenge_token env cr i plaintext =
     sbind (factors_find_challenge env i)
       (\<lambda>c. sret (case c of None \<Rightarrow> False | Some c \<Rightarrow> challenge_verify_token cr c plaintext))"

definition factors_consume_challenge :: "env \<Rightarrow> uuid \<Rightarrow> instant \<Rightarrow> uuid option repo" where
  "factors_consume_challenge env i now =
     sbind (factors_find_challenge env i)
       (\<lambda>found. case found of
          None \<Rightarrow> sret None
        | Some c \<Rightarrow>
           (case challenge_consume now c of
              Inr (u, _) \<Rightarrow>
                sbind (smap_err (label ''consume_challenge update'')
                   (sql_write env (\<lambda>_. True)
                      (\<lambda>s. s\<lparr>db_challenges := update_where (\<lambda>d. tc_id d = i)
                         (\<lambda>d. d\<lparr>tc_consumed_at := Some now\<rparr>) (db_challenges s)\<rparr>)))
                  (\<lambda>_. sret (Some u))
            | Inl _ \<Rightarrow> sret None))"

definition factors_purge_expired_challenges :: "env \<Rightarrow> instant \<Rightarrow> nat repo" where
  "factors_purge_expired_challenges env now =
     smap_err (label ''purge_expired_challenges'')
       (sql_count env
          (\<lambda>s. length (filter (\<lambda>c. tc_expires_at c < now) (db_challenges s)))
          (\<lambda>s. s\<lparr>db_challenges := delete_where (\<lambda>c. tc_expires_at c < now) (db_challenges s)\<rparr>))"

section \<open>WebAuthn\<close>

definition factors_insert_webauthn_credential ::
    "env \<Rightarrow> uuid \<Rightarrow> string \<Rightarrow> uuid \<Rightarrow> uuid \<Rightarrow> string \<Rightarrow> int \<Rightarrow> string option \<Rightarrow> string \<Rightarrow> string \<Rightarrow>
     instant \<Rightarrow> unit repo" where
  "factors_insert_webauthn_credential env new_id cred_id u fid spki sign_count transports uv passkey
       created =
     smap_err (label ''insert_webauthn_credential'')
       (sql_write env
          (\<lambda>s. \<not> list_ex (\<lambda>r. cr_id r = new_id \<or> cr_credential_id r = cred_id) (db_credentials s) \<and>
               user_exists u s)
          (\<lambda>s. s\<lparr>db_credentials := db_credentials s @
             [\<lparr>cr_id = new_id, cr_user_id = u, cr_factor_id = fid, cr_credential_id = cred_id,
               cr_public_key_spki = spki, cr_sign_count = sign_count, cr_transports = transports,
               cr_uv_policy = uv, cr_passkey_json = passkey, cr_created_at = created,
               cr_last_used_at = None, cr_revoked_at = None\<rparr>]\<rparr>))"

definition factors_list_webauthn_credentials ::
    "env \<Rightarrow> uuid \<Rightarrow> webauthn_credential list repo" where
  "factors_list_webauthn_credentials env u =
     sbind (smap_err (label ''list_webauthn_credentials'')
         (sql_read env (\<lambda>s. sort_key (\<lambda>r. - cr_created_at r)
            (filter (\<lambda>r. cr_user_id r = u \<and> cr_revoked_at r = None) (db_credentials s)))))
       (\<lambda>rows. slift (collect_results row_to_webauthn_credential rows))"

definition factors_find_webauthn_credential_by_id ::
    "env \<Rightarrow> string \<Rightarrow> webauthn_credential option repo" where
  "factors_find_webauthn_credential_by_id env cred_id =
     sbind (smap_err (label ''find_webauthn_credential_by_id'')
         (sql_read env (\<lambda>s. find (\<lambda>r. cr_credential_id r = cred_id) (db_credentials s))))
       (\<lambda>row. slift (transpose_opt (map_option row_to_webauthn_credential row)))"

definition factors_touch_webauthn_credential :: "env \<Rightarrow> string \<Rightarrow> int \<Rightarrow> instant \<Rightarrow> unit repo" where
  "factors_touch_webauthn_credential env cred_id n now =
     smap_err (label ''touch_webauthn_credential'')
       (sql_write env (\<lambda>_. True)
          (\<lambda>s. s\<lparr>db_credentials := update_where (\<lambda>r. cr_credential_id r = cred_id)
             (\<lambda>r. r\<lparr>cr_sign_count := n, cr_last_used_at := Some now\<rparr>) (db_credentials s)\<rparr>))"

definition factors_revoke_webauthn_credential :: "env \<Rightarrow> string \<Rightarrow> instant \<Rightarrow> unit repo" where
  "factors_revoke_webauthn_credential env cred_id now =
     smap_err (label ''revoke_webauthn_credential'')
       (sql_write env (\<lambda>_. True)
          (\<lambda>s. s\<lparr>db_credentials := update_where (\<lambda>r. cr_credential_id r = cred_id)
             (\<lambda>r. r\<lparr>cr_revoked_at := Some now\<rparr>) (db_credentials s)\<rparr>))"

definition factors_insert_webauthn_challenge ::
    "env \<Rightarrow> uuid \<Rightarrow> uuid \<Rightarrow> string \<Rightarrow> string \<Rightarrow> instant \<Rightarrow> instant \<Rightarrow> unit repo" where
  "factors_insert_webauthn_challenge env i u kind state created expires =
     smap_err (label ''insert_webauthn_challenge'')
       (sql_write env
          (\<lambda>s. \<not> list_ex (\<lambda>c. wch_id c = i) (db_ceremonies s) \<and> user_exists u s)
          (\<lambda>s. s\<lparr>db_ceremonies := db_ceremonies s @
             [webauthn_challenge_new i u kind state created expires]\<rparr>))"

definition factors_find_webauthn_challenge :: "env \<Rightarrow> uuid \<Rightarrow> webauthn_challenge option repo" where
  "factors_find_webauthn_challenge env i =
     smap_err (label ''find_webauthn_challenge'')
       (sql_read env (\<lambda>s. find (\<lambda>c. wch_id c = i) (db_ceremonies s)))"

definition ceremony_consumable :: "uuid \<Rightarrow> instant \<Rightarrow> webauthn_challenge \<Rightarrow> bool" where
  "ceremony_consumable i now c \<longleftrightarrow> wch_id c = i \<and> wch_consumed_at c = None \<and> wch_expires_at c > now"

definition factors_consume_webauthn_challenge ::
    "env \<Rightarrow> uuid \<Rightarrow> instant \<Rightarrow> webauthn_challenge option repo" where
  "factors_consume_webauthn_challenge env i now =
     sbind (factors_find_webauthn_challenge env i)
       (\<lambda>found. case found of
          None \<Rightarrow> sret None
        | Some c \<Rightarrow>
            if \<not> webauthn_challenge_is_usable c now then sret None
            else sbind (smap_err (label ''consume_webauthn_challenge'')
                (sql_count env
                   (\<lambda>s. length (filter (ceremony_consumable i now) (db_ceremonies s)))
                   (\<lambda>s. s\<lparr>db_ceremonies := update_where (ceremony_consumable i now)
                      (\<lambda>d. d\<lparr>wch_consumed_at := Some now\<rparr>) (db_ceremonies s)\<rparr>)))
              (\<lambda>n. sret (if n = 1 then Some c else None)))"

section \<open>What the calls do\<close>

lemma recovery_match_Some:
  "recovery_match cr p rows = Some i \<Longrightarrow>
     \<exists>r \<in> set rows. rr_id r = i \<and> recovery_verify cr p (rr_code_hash r) = Inr ()"
  by (induction rows) (auto split: sum.splits)

lemma recovery_match_None:
  "recovery_match cr p rows = None \<longleftrightarrow>
     (\<forall>r \<in> set rows. recovery_verify cr p (rr_code_hash r) \<noteq> Inr ())"
  by (induction rows) (auto split: sum.splits)

lemma factors_find_challenge_Inr [st_invert]:
  "factors_find_challenge env i s = (Inr c, t) \<longleftrightarrow>
     env_fault env (db_tick s) = None \<and> c = find (\<lambda>c. tc_id c = i) (db_challenges s) \<and> t = tick s"
  by (simp add: factors_find_challenge_def st_invert)

text \<open>
  After a successful consumption no challenge with that identifier is usable, at
  whatever time.
\<close>

lemma consume_challenge_update:
  assumes "factors_consume_challenge env i now s = (Inr (Some u), t)"
  shows "db_challenges t =
    update_where (\<lambda>d. tc_id d = i) (\<lambda>d. d\<lparr>tc_consumed_at := Some now\<rparr>) (db_challenges s)"
  using assms
  by (auto simp: factors_consume_challenge_def st_invert split: option.splits sum.splits)

lemma consume_challenge_final:
  assumes "factors_consume_challenge env i now s = (Inr (Some u), t)"
    and "c \<in> set (db_challenges t)" and "tc_id c = i"
  shows "\<not> challenge_is_usable c later"
  using assms(2) unfolding consume_challenge_update [OF assms(1)]
  by (cases rule: update_where_cases) (use assms(3) in \<open>auto simp: challenge_is_usable_def\<close>)

end
