(* ===== verification/Remember_Device.thy ===== *)
theory Remember_Device
  imports Factor_Domain
begin

text \<open>
  The remember-device cookie: the payload of \<open>openpanel-domain/src/identity/remember.rs\<close>
  and its signing and validation in \<open>openpanel-app/src/identity/remember_device.rs\<close>,
  with the error type of the two-factor service (\<open>identity/two_factor.rs\<close>). The JSON
  form of the payload is serde's, the record \<open>payload_json\<close>.
\<close>

datatype two_factor_error =
    NoFactor
  | InvalidCode
  | CodeReplayed
  | Revoked
  | FactorNotFound
  | NoRecoveryCodes
  | Invalid string
  | Storage string
  | RememberDeviceInvalid
  | RememberDeviceExpired
  | RememberDeviceMismatch
  | WebAuthnUnavailable
  | WebAuthnCeremony string
  | WebAuthnCeremonyExpired

fun two_factor_error_display :: "two_factor_error \<Rightarrow> string" where
  "two_factor_error_display NoFactor = ''no enrolled factor''"
| "two_factor_error_display InvalidCode = ''invalid factor code''"
| "two_factor_error_display CodeReplayed = ''factor code replayed''"
| "two_factor_error_display Revoked = ''factor has been revoked''"
| "two_factor_error_display FactorNotFound = ''factor not found for user''"
| "two_factor_error_display NoRecoveryCodes = ''no recovery codes remain''"
| "two_factor_error_display (Invalid m) = ''invalid request: '' @ m"
| "two_factor_error_display (Storage m) = ''storage failure: '' @ m"
| "two_factor_error_display RememberDeviceInvalid = ''remember-device cookie invalid''"
| "two_factor_error_display RememberDeviceExpired = ''remember-device cookie expired''"
| "two_factor_error_display RememberDeviceMismatch =
     ''remember-device cookie does not match this device''"
| "two_factor_error_display WebAuthnUnavailable = ''WebAuthn is not configured''"
| "two_factor_error_display (WebAuthnCeremony m) = ''WebAuthn ceremony: '' @ m"
| "two_factor_error_display WebAuthnCeremonyExpired = ''WebAuthn ceremony expired''"

section \<open>The payload\<close>

definition REMEMBER_DEVICE_VERSION :: u8 where
  "REMEMBER_DEVICE_VERSION = 1"

definition REMEMBER_DEVICE_DEFAULT_LIFETIME :: duration where
  "REMEMBER_DEVICE_DEFAULT_LIFETIME = days 30"

record remembered_device_payload =
  rd_v :: u8
  rd_factor_id :: uuid
  rd_user_id :: uuid
  rd_ua_hash :: string
  rd_ip_prefix :: string
  rd_exp :: instant
  rd_nonce :: uuid

definition payload_is_live :: "remembered_device_payload \<Rightarrow> instant \<Rightarrow> bool" where
  "payload_is_live p now \<longleftrightarrow> now < rd_exp p"

definition hash_user_agent :: "crypto \<Rightarrow> string \<Rightarrow> string" where
  "hash_user_agent cr ua = sha256_hex cr ua"

definition payload_matches_request ::
    "crypto \<Rightarrow> remembered_device_payload \<Rightarrow> string \<Rightarrow> string \<Rightarrow> bool" where
  "payload_matches_request cr p ua prefix \<longleftrightarrow>
     rd_ua_hash p = hash_user_agent cr ua \<and> rd_ip_prefix p = prefix"

text \<open>The lower-case hexadecimal of the format specifier \<open>:x\<close>.\<close>

fun hex_str :: "nat \<Rightarrow> string" where
  "hex_str n =
     (if n < 16 then [''0123456789abcdef'' ! n] else hex_str (n div 16) @ [''0123456789abcdef'' ! (n mod 16)])"

declare hex_str.simps [simp del]

definition ip_prefix :: "crypto \<Rightarrow> string \<Rightarrow> string" where
  "ip_prefix cr ip =
     (case parse_ip cr ip of
        Some (Inl octets) \<Rightarrow>
          nat_str (unat (octets ! 0)) @ ''.'' @ nat_str (unat (octets ! 1)) @ ''.'' @
          nat_str (unat (octets ! 2))
      | Some (Inr segments) \<Rightarrow>
          hex_str (segments ! 0) @ '':'' @ hex_str (segments ! 1) @ '':'' @
          hex_str (segments ! 2) @ '':'' @ hex_str (segments ! 3)
      | None \<Rightarrow> ip)"

section \<open>The cookie\<close>

record payload_json =
  payload_to_vec :: "remembered_device_payload \<Rightarrow> byte list"
  payload_from_slice :: "byte list \<Rightarrow> remembered_device_payload option"

definition derive_signing_key :: "crypto \<Rightarrow> byte list \<Rightarrow> byte list" where
  "derive_signing_key cr master_key =
     (let prk = hmac_sha256 cr master_key (replicate 32 0)
      in hmac_sha256 cr prk (as_bytes ''openpanel_2fa_remember'' @ [1]))"

definition cookie_sign :: "crypto \<Rightarrow> byte list \<Rightarrow> byte list \<Rightarrow> byte list" where
  "cookie_sign cr key payload = hmac_sha256 cr key payload"

definition constant_time_eq_32 :: "byte list \<Rightarrow> byte list \<Rightarrow> bool" where
  "constant_time_eq_32 a b = (if length b \<noteq> 32 then False else ct_diff a b 0 = 0)"

definition issue_remember_device_with_lifetime ::
    "crypto \<Rightarrow> payload_json \<Rightarrow> byte list \<Rightarrow> uuid \<Rightarrow> uuid \<Rightarrow> string \<Rightarrow> string \<Rightarrow> instant \<Rightarrow> duration \<Rightarrow>
     uuid \<Rightarrow> string" where
  "issue_remember_device_with_lifetime cr js master_key user factor ua ip now lifetime nonce =
     (let cookie_key = derive_signing_key cr master_key;
          payload = \<lparr>rd_v = REMEMBER_DEVICE_VERSION, rd_factor_id = factor, rd_user_id = user,
            rd_ua_hash = hash_user_agent cr ua, rd_ip_prefix = ip_prefix cr ip,
            rd_exp = now + lifetime, rd_nonce = nonce\<rparr>;
          payload_bytes = payload_to_vec js payload;
          tag = cookie_sign cr cookie_key payload_bytes
      in b64_enc cr payload_bytes @ ''.'' @ b64_enc cr tag)"

definition issue_remember_device ::
    "crypto \<Rightarrow> payload_json \<Rightarrow> byte list \<Rightarrow> uuid \<Rightarrow> uuid \<Rightarrow> string \<Rightarrow> string \<Rightarrow> instant \<Rightarrow> uuid \<Rightarrow> string" where
  "issue_remember_device cr js master_key user factor ua ip now nonce =
     issue_remember_device_with_lifetime cr js master_key user factor ua ip now (days 30) nonce"

definition validate_remember_device ::
    "crypto \<Rightarrow> payload_json \<Rightarrow> byte list \<Rightarrow> string \<Rightarrow> string \<Rightarrow> string \<Rightarrow> instant \<Rightarrow>
     two_factor_error + remembered_device_payload" where
  "validate_remember_device cr js master_key cookie ua ip now =
     rbind (ok_or RememberDeviceInvalid (split_once CHR ''.'' cookie)) (\<lambda>(payload_b64, tag_b64).
     rbind (ok_or RememberDeviceInvalid (b64_dec cr payload_b64)) (\<lambda>payload_bytes.
     rbind (ok_or RememberDeviceInvalid (b64_dec cr tag_b64)) (\<lambda>expected_tag.
       let actual_tag = cookie_sign cr (derive_signing_key cr master_key) payload_bytes in
       if \<not> constant_time_eq_32 actual_tag expected_tag then Inl RememberDeviceInvalid
       else rbind (ok_or RememberDeviceInvalid (payload_from_slice js payload_bytes)) (\<lambda>payload.
         if rd_v payload \<noteq> REMEMBER_DEVICE_VERSION then Inl RememberDeviceInvalid
         else if \<not> payload_is_live payload now then Inl RememberDeviceExpired
         else if \<not> payload_matches_request cr payload ua (ip_prefix cr ip)
         then Inl RememberDeviceMismatch
         else Inr payload))))"

definition remember_device_max_age_seconds :: u64 where
  "remember_device_max_age_seconds = word_of_int (30 * 86400)"

section \<open>What a valid cookie is\<close>

text \<open>
  The library contracts: unpadded URL-safe base64 has no dot and decodes to what was
  encoded, HMAC-SHA256 tags have 32 bytes, and serde reads back what it wrote.
\<close>

definition b64_contract :: "crypto \<Rightarrow> bool" where
  "b64_contract cr \<longleftrightarrow> (\<forall>bs. b64_dec cr (b64_enc cr bs) = Some bs \<and> CHR ''.'' \<notin> set (b64_enc cr bs))"

definition hmac_contract :: "crypto \<Rightarrow> bool" where
  "hmac_contract cr \<longleftrightarrow> (\<forall>k m. length (hmac_sha256 cr k m) = 32)"

definition payload_contract :: "payload_json \<Rightarrow> bool" where
  "payload_contract js \<longleftrightarrow> (\<forall>p. payload_from_slice js (payload_to_vec js p) = Some p)"

lemma constant_time_eq_32_iff: "length a = 32 \<Longrightarrow> constant_time_eq_32 a b \<longleftrightarrow> a = b"
  by (auto simp: constant_time_eq_32_def ct_diff_zero)

lemma validate_remember_device_Inr:
  assumes "validate_remember_device cr js key cookie ua ip now = Inr p" and "hmac_contract cr"
  shows "\<exists>pb tb bytes. cookie = pb @ ''.'' @ tb \<and> CHR ''.'' \<notin> set pb \<and> b64_dec cr pb = Some bytes \<and>
      b64_dec cr tb = Some (hmac_sha256 cr (derive_signing_key cr key) bytes) \<and>
      payload_from_slice js bytes = Some p"
    and "rd_v p = REMEMBER_DEVICE_VERSION" and "now < rd_exp p"
    and "rd_ua_hash p = sha256_hex cr ua" and "rd_ip_prefix p = ip_prefix cr ip"
  using assms
  by (auto simp: validate_remember_device_def Let_def payload_is_live_def
      payload_matches_request_def hash_user_agent_def hmac_contract_def cookie_sign_def
      constant_time_eq_32_iff split_once_Some split: if_splits)

lemma remember_device_roundtrip:
  assumes "b64_contract cr" and "hmac_contract cr" and "payload_contract js"
    and "now' < now + lifetime"
  shows "\<exists>p. validate_remember_device cr js key
      (issue_remember_device_with_lifetime cr js key user factor ua ip now lifetime nonce) ua ip now' =
      Inr p \<and> rd_user_id p = user \<and> rd_factor_id p = factor"
  using assms
  by (simp add: validate_remember_device_def issue_remember_device_with_lifetime_def Let_def
      b64_contract_def hmac_contract_def payload_contract_def split_once_append cookie_sign_def
      constant_time_eq_32_iff payload_is_live_def payload_matches_request_def)

end
