(* ===== verification/Secret_Store.thy ===== *)
theory Secret_Store
  imports Audit_Codec Common_Values
begin

text \<open>
  Encryption at rest, \<open>openpanel-app/src/databases/crypto.rs\<close>: a stored secret is the
  hexadecimal nonce and ciphertext of AES-256-GCM joined by a colon. The random
  nonce is an argument.
\<close>

datatype secret_error = MasterKeyMissing | Encryption string | Decryption string

fun secret_error_display :: "secret_error \<Rightarrow> string" where
  "secret_error_display MasterKeyMissing =
     ''master key missing '' @ map char_of [226, 128, 148 :: nat] @
     '' set OPENPANEL__DATABASE__MASTER_KEY''"
| "secret_error_display (Encryption m) = ''encryption error: '' @ m"
| "secret_error_display (Decryption m) = ''decryption error: '' @ m"

definition NONCE_LEN :: nat where
  "NONCE_LEN = 12"

definition KEY_LEN :: nat where
  "KEY_LEN = 32"

definition decode_master_key :: "crypto \<Rightarrow> string \<Rightarrow> secret_error + byte list" where
  "decode_master_key cr s =
     (if s = [] then Inl MasterKeyMissing
      else rbind (map_err (\<lambda>e. Encryption (''base64 decode: '' @ e)) (b64_std_dec cr s)) (\<lambda>raw.
        if length raw \<noteq> KEY_LEN
        then Inl (Encryption (''master key length '' @ nat_str (length raw) @ '' != '' @ nat_str KEY_LEN))
        else Inr raw))"

definition encrypt_to_storage :: "crypto \<Rightarrow> byte list \<Rightarrow> byte list \<Rightarrow> string \<Rightarrow> secret_error + string" where
  "encrypt_to_storage cr key nonce plaintext =
     rbind (map_err Encryption (aead_encrypt cr key nonce (as_bytes plaintext)))
       (\<lambda>ct. Inr (hex_enc cr nonce @ '':'' @ hex_enc cr ct))"

definition decrypt_from_storage :: "crypto \<Rightarrow> byte list \<Rightarrow> string \<Rightarrow> secret_error + string" where
  "decrypt_from_storage cr key stored =
     rbind (ok_or (Decryption ''missing `:` separator'') (split_once CHR '':'' stored)) (\<lambda>(nonce_hex, ct_hex).
     rbind (ok_or (Decryption (''bad nonce hex `'' @ nonce_hex @ ''`'')) (hex_dec cr nonce_hex)) (\<lambda>nonce.
       if length nonce \<noteq> NONCE_LEN
       then Inl (Decryption (''nonce length '' @ nat_str (length nonce) @ '' != '' @ nat_str NONCE_LEN))
       else rbind (ok_or (Decryption ''bad ciphertext hex'') (hex_dec cr ct_hex)) (\<lambda>ct.
         rbind (map_err Decryption (aead_decrypt cr key nonce ct)) (\<lambda>pt.
           ok_or (Decryption (utf8_error cr pt)) (from_utf8 pt)))))"

text \<open>
  The contracts of the libraries: hexadecimal text has no colon and decodes to what
  was encoded, and the cipher decrypts what it encrypted.
\<close>

definition hex_contract :: "crypto \<Rightarrow> bool" where
  "hex_contract cr \<longleftrightarrow> (\<forall>bs. hex_dec cr (hex_enc cr bs) = Some bs \<and> CHR '':'' \<notin> set (hex_enc cr bs))"

definition aead_contract :: "crypto \<Rightarrow> bool" where
  "aead_contract cr \<longleftrightarrow>
     (\<forall>key nonce pt ct. aead_encrypt cr key nonce pt = Inr ct \<longrightarrow> aead_decrypt cr key nonce ct = Inr pt)"

lemma storage_roundtrip:
  assumes "hex_contract cr" and "aead_contract cr" and "length nonce = NONCE_LEN"
    and "\<forall>c \<in> set plaintext. of_char c < (128 :: nat)"
    and "encrypt_to_storage cr key nonce plaintext = Inr stored"
  shows "decrypt_from_storage cr key stored = Inr plaintext"
proof -
  from assms(5) obtain ct where ct: "aead_encrypt cr key nonce (as_bytes plaintext) = Inr ct"
    and stored: "stored = hex_enc cr nonce @ '':'' @ hex_enc cr ct"
    by (auto simp: encrypt_to_storage_def)
  have "split_once CHR '':'' stored = Some (hex_enc cr nonce, hex_enc cr ct)"
    using assms(1) stored by (simp add: split_once_Some hex_contract_def)
  moreover have "aead_decrypt cr key nonce ct = Inr (as_bytes plaintext)"
    using assms(2) ct by (simp add: aead_contract_def)
  ultimately show ?thesis
    using assms(1,3) from_utf8_ascii [OF assms(4)]
    by (simp add: decrypt_from_storage_def hex_contract_def)
qed

end
