(* ===== verification/Two_Factor_Service.thy ===== *)
theory Two_Factor_Service
  imports Factor_Repo Remember_Device Secret_Store
begin

text \<open>
  \<open>TwoFactorService\<close> of \<open>openpanel-app/src/identity/two_factor.rs\<close>: TOTP enrolment,
  recovery codes, login challenges, WebAuthn ceremonies and the remember-device
  cookie. Each method is a call on the store. One clock reading \<open>now\<close> serves a
  whole method; fresh identifiers, salts, nonces and random bytes are arguments. The
  trait \<open>TwoFactorCrypto\<close>, whose implementation wraps webauthn-rs, is part of the
  record \<open>tf_service\<close>.
\<close>

record registered_credential =
  rw_credential_id :: "byte list"
  rw_public_key :: string
  rw_sign_count :: int
  rw_transports :: "string option"
  rw_passkey_json :: string

record verified_assertion =
  va_credential_id :: "byte list"
  va_sign_count :: int

record tf_service =
  tf_master_key :: "byte list"
  tf_issuer_label :: string
  tf_challenge_lifetime :: duration
  tf_recovery_code_count :: u8
  tf_remember_device_lifetime :: duration
  tf_crypto :: crypto
  tf_payload_json :: payload_json
  tf_begin_register :: "uuid \<Rightarrow> string \<Rightarrow> two_factor_error + json \<times> string"
  tf_finish_register :: "json \<Rightarrow> string \<Rightarrow> two_factor_error + registered_credential"
  tf_begin_assert :: "string list \<Rightarrow> two_factor_error + json \<times> string"
  tf_finish_assert :: "json \<Rightarrow> string \<Rightarrow> two_factor_error + verified_assertion"
  tf_totp_url :: "byte list \<Rightarrow> string \<Rightarrow> string \<Rightarrow> string"

text \<open>\<open>TwoFactorSettings::default\<close>.\<close>

definition tf_default_settings :: "tf_service \<Rightarrow> tf_service" where
  "tf_default_settings tf = tf\<lparr>tf_issuer_label := ''OpenPanel'', tf_challenge_lifetime := minutes 5,
     tf_recovery_code_count := 10, tf_remember_device_lifetime := days 30\<rparr>"

datatype factor_response =
    RespTotp string
  | RespRecovery string
  | RespWebAuthn uuid json

record challenge_view =
  cv_challenge_id :: uuid
  cv_challenge_token :: string
  cv_expires_at :: instant

record totp_enrollment =
  ten_enrollment_id :: uuid
  ten_secret :: totp_secret
  ten_provisioning_uri :: string

record verified_totp_enrollment =
  vte_factor :: factor
  vte_recovery_codes :: "string list"

type_synonym 'a tf_call = "(two_factor_error, 'a) call"

definition tf_repo :: "'a repo \<Rightarrow> 'a tf_call" where
  "tf_repo m = smap_err Storage m"

definition tf_audit :: "env \<Rightarrow> audit_event \<Rightarrow> unit tf_call" where
  "tf_audit env e = smap_err (\<lambda>m. Storage (''audit: sqlx error: '' @ m)) (audit_record env e)"

fun map_factor_error :: "factor_error \<Rightarrow> two_factor_error" where
  "map_factor_error FactorCodeReplayed = CodeReplayed"
| "map_factor_error WebAuthnCounterRegression = CodeReplayed"
| "map_factor_error FactorRevoked = Revoked"
| "map_factor_error InvalidCodeFormat = InvalidCode"
| "map_factor_error CodeMismatch = InvalidCode"
| "map_factor_error RecoveryMismatch = InvalidCode"
| "map_factor_error RecoveryConsumed = InvalidCode"
| "map_factor_error InvalidSecret = Storage ''invalid secret''"
| "map_factor_error NotVerified = InvalidCode"

section \<open>TOTP\<close>

definition load_totp_secret :: "tf_service \<Rightarrow> string \<Rightarrow> two_factor_error + byte list" where
  "load_totp_secret tf enc =
     rbind (map_err (\<lambda>e. Storage (''decrypt: '' @ secret_error_display e))
         (decrypt_from_storage (tf_crypto tf) (tf_master_key tf) enc)) (\<lambda>plaintext.
       ok_or (Storage (''hex decode: '' @ hex_error (tf_crypto tf) plaintext))
         (hex_dec (tf_crypto tf) plaintext))"

definition active_totp_factor ::
    "env \<Rightarrow> tf_service \<Rightarrow> uuid \<Rightarrow> (factor \<times> totp_secret) option tf_call" where
  "active_totp_factor env tf u =
     sbind (tf_repo (factors_find_active_totp env u)) (\<lambda>found.
       case found of
         None \<Rightarrow> sret None
       | Some f \<Rightarrow>
           sbind (tf_repo (factors_find_totp_secret_encrypted env (f_id f))) (\<lambda>secret.
             case secret of
               None \<Rightarrow> sret None
             | Some enc \<Rightarrow>
                 slift (rbind (load_totp_secret tf enc) (\<lambda>bytes.
                   rbind (map_err (\<lambda>e. Storage (''invalid secret: '' @ factor_error_display e))
                       (totp_secret_from_bytes bytes))
                     (\<lambda>sec. Inr (Some (f, sec)))))))"

definition enroll_totp ::
    "env \<Rightarrow> tf_service \<Rightarrow> uuid \<Rightarrow> byte list \<Rightarrow> byte list \<Rightarrow> uuid \<Rightarrow> string \<Rightarrow> instant \<Rightarrow>
     totp_enrollment tf_call" where
  "enroll_totp env tf u secret_bytes nonce enrollment_id account_name now =
     (let secret = totp_secret_generate secret_bytes in
      sbind (slift (map_err (\<lambda>e. Storage (''encrypt: '' @ secret_error_display e))
          (encrypt_to_storage (tf_crypto tf) (tf_master_key tf) nonce
            (hex_enc (tf_crypto tf) (ts_bytes secret))))) (\<lambda>encrypted.
      sbind (tf_repo (factors_insert_totp_enrollment env
          (totp_enrollment_new enrollment_id u encrypted now))) (\<lambda>_.
        sret \<lparr>ten_enrollment_id = enrollment_id, ten_secret = secret,
          ten_provisioning_uri = tf_totp_url tf (ts_bytes secret) (tf_issuer_label tf) account_name\<rparr>)))"

text \<open>
  The loop of \<open>hash_plaintext_codes\<close>; the salt of the code at each position is drawn
  from the supply \<open>salts\<close>.
\<close>

definition hash_plaintext_codes ::
    "crypto \<Rightarrow> (nat \<Rightarrow> string) \<Rightarrow> string list \<Rightarrow> instant \<Rightarrow> two_factor_error + (string \<times> instant) list" where
  "hash_plaintext_codes cr salts codes now =
     collect_results (\<lambda>(i, code).
         rbind (map_err (\<lambda>e. Storage (factor_error_display e)) (recovery_hash cr (salts i) code))
           (\<lambda>h. Inr (h, now)))
       (List.enumerate 0 codes)"

definition fresh_recovery_codes ::
    "env \<Rightarrow> tf_service \<Rightarrow> uuid \<Rightarrow> (string \<times> string) list \<Rightarrow> (nat \<Rightarrow> string) \<Rightarrow> instant \<Rightarrow>
     string list tf_call" where
  "fresh_recovery_codes env tf u draws salts now =
     (let (_, codes) = recovery_set_generate (tf_crypto tf) u
            (take (unat (tf_recovery_code_count tf)) draws) now in
      sbind (slift (hash_plaintext_codes (tf_crypto tf) salts codes now)) (\<lambda>entries.
      sbind (tf_repo (factors_replace_recovery_codes env u entries)) (\<lambda>_. sret codes)))"

definition verify_totp_enrollment ::
    "env \<Rightarrow> tf_service \<Rightarrow> string \<Rightarrow> uuid \<Rightarrow> uuid \<Rightarrow> string \<Rightarrow> instant \<Rightarrow> uuid \<Rightarrow>
     (string \<times> string) list \<Rightarrow> (nat \<Rightarrow> string) \<Rightarrow> verified_totp_enrollment tf_call" where
  "verify_totp_enrollment env tf actor u enrollment_id code now factor_id draws salts =
     sbind (tf_repo (factors_find_totp_enrollment env enrollment_id)) (\<lambda>found.
     sbind (slift (ok_or InvalidCode (case found of
          None \<Rightarrow> None
        | Some e \<Rightarrow> if te_user_id e = u \<and> totp_enrollment_is_usable e now then Some e else None)))
       (\<lambda>enrollment.
     sbind (slift (rbind (load_totp_secret tf (te_encrypted_secret enrollment)) (\<lambda>bytes.
          map_err map_factor_error (totp_secret_from_bytes bytes)))) (\<lambda>secret.
     sbind (slift (map_err map_factor_error (totp_verify (tf_crypto tf) secret code now)))
       (\<lambda>verified_step.
     sbind (tf_repo (factors_consume_totp_enrollment env enrollment_id now)) (\<lambda>consumed.
     if \<not> consumed then sfail CodeReplayed
     else
     sbind (slift (map_err map_factor_error (factor_record_used_step now verified_step
          (factor_new_verified factor_id u Totp now)))) (\<lambda>f.
     sbind (tf_repo (factors_insert env f (te_encrypted_secret enrollment))) (\<lambda>_.
     sbind (fresh_recovery_codes env tf u draws salts now) (\<lambda>codes.
     sbind (tf_audit env (audit_event_new now actor ActTwoFactorEnrolled Success)) (\<lambda>_.
       sret \<lparr>vte_factor = f, vte_recovery_codes = codes\<rparr>)))))))))"

section \<open>Factors and recovery codes\<close>

definition list_factors :: "env \<Rightarrow> uuid \<Rightarrow> factor list tf_call" where
  "list_factors env u = tf_repo (factors_list_for_user env u)"

definition has_active_factor :: "env \<Rightarrow> uuid \<Rightarrow> bool tf_call" where
  "has_active_factor env u =
     sbind (tf_repo (factors_list_for_user env u))
       (\<lambda>fs. sret (list_ex (\<lambda>f. f_revoked_at f = None) fs))"

definition count_recovery_codes :: "env \<Rightarrow> uuid \<Rightarrow> u8 tf_call" where
  "count_recovery_codes env u =
     sbind (tf_repo (factors_list_recovery_codes env u))
       (\<lambda>entries. sret (word_of_nat (length (filter (\<lambda>(_, consumed). consumed = None) entries))))"

fun revoke_credentials :: "env \<Rightarrow> uuid \<Rightarrow> instant \<Rightarrow> webauthn_credential list \<Rightarrow> unit tf_call" where
  "revoke_credentials env factor_id now [] = sret ()"
| "revoke_credentials env factor_id now (c # cs) =
     sbind (if wc_factor_id c = factor_id
            then tf_repo (factors_revoke_webauthn_credential env (wc_credential_id c) now)
            else sret ())
       (\<lambda>_. revoke_credentials env factor_id now cs)"

definition revoke_factor :: "env \<Rightarrow> string \<Rightarrow> uuid \<Rightarrow> uuid \<Rightarrow> instant \<Rightarrow> unit tf_call" where
  "revoke_factor env actor u factor_id now =
     sbind (tf_repo (factors_find env factor_id)) (\<lambda>found.
       case found of
         None \<Rightarrow> sfail FactorNotFound
       | Some f \<Rightarrow>
           if f_user_id f \<noteq> u then sfail FactorNotFound
           else if f_revoked_at f \<noteq> None then sret ()
           else
             sbind (tf_repo (factors_update env (factor_revoke now f))) (\<lambda>_.
             sbind (if f_kind f = WebAuthn
                    then sbind (tf_repo (factors_list_webauthn_credentials env u))
                           (revoke_credentials env factor_id now)
                    else sret ()) (\<lambda>_.
               tf_audit env (audit_event_new now actor ActTwoFactorRevoked Success))))"

definition regenerate_recovery_codes ::
    "env \<Rightarrow> tf_service \<Rightarrow> string \<Rightarrow> uuid \<Rightarrow> instant \<Rightarrow> (string \<times> string) list \<Rightarrow> (nat \<Rightarrow> string) \<Rightarrow>
     string list tf_call" where
  "regenerate_recovery_codes env tf actor u now draws salts =
     sbind (fresh_recovery_codes env tf u draws salts now) (\<lambda>codes.
     sbind (tf_audit env (audit_event_new now actor ActTwoFactorRevoked Success)) (\<lambda>_. sret codes))"

section \<open>WebAuthn ceremonies\<close>

definition begin_webauthn_register ::
    "tf_service \<Rightarrow> uuid \<Rightarrow> string \<Rightarrow> uuid \<Rightarrow> two_factor_error + uuid \<times> json \<times> string" where
  "begin_webauthn_register tf u username challenge_id =
     rbind (tf_begin_register tf u username)
       (\<lambda>(challenge, state_json). Inr (challenge_id, challenge, state_json))"

definition persist_webauthn_register ::
    "env \<Rightarrow> tf_service \<Rightarrow> uuid \<Rightarrow> uuid \<Rightarrow> string \<Rightarrow> instant \<Rightarrow> unit tf_call" where
  "persist_webauthn_register env tf challenge_id u state_json now =
     tf_repo (factors_insert_webauthn_challenge env challenge_id u KIND_REGISTER state_json now
       (now + tf_challenge_lifetime tf))"

definition begin_webauthn_assert ::
    "env \<Rightarrow> tf_service \<Rightarrow> uuid \<Rightarrow> uuid \<Rightarrow> instant \<Rightarrow> (uuid \<times> json) tf_call" where
  "begin_webauthn_assert env tf u challenge_id now =
     sbind (tf_repo (factors_list_webauthn_credentials env u)) (\<lambda>creds.
       if creds = [] then sfail NoFactor
       else
         sbind (slift (tf_begin_assert tf (map wc_passkey_json creds))) (\<lambda>(challenge, state_json).
         sbind (tf_repo (factors_insert_webauthn_challenge env challenge_id u KIND_ASSERT state_json now
            (now + tf_challenge_lifetime tf))) (\<lambda>_.
           sret (challenge_id, challenge))))"

definition begin_webauthn_login ::
    "env \<Rightarrow> tf_service \<Rightarrow> uuid \<Rightarrow> string \<Rightarrow> uuid \<Rightarrow> instant \<Rightarrow> (uuid \<times> json) tf_call" where
  "begin_webauthn_login env tf login_challenge_id token challenge_id now =
     sbind (tf_repo (factors_verify_challenge_token env (tf_crypto tf) login_challenge_id token)) (\<lambda>ok.
       if \<not> ok then sfail InvalidCode
       else
         sbind (tf_repo (factors_find_challenge env login_challenge_id)) (\<lambda>found.
         sbind (slift (ok_or InvalidCode found)) (\<lambda>c.
           if \<not> challenge_is_usable c now then sfail CodeReplayed
           else begin_webauthn_assert env tf (tc_user_id c) challenge_id now)))"

definition finish_webauthn_register ::
    "env \<Rightarrow> tf_service \<Rightarrow> string \<Rightarrow> uuid \<Rightarrow> uuid \<Rightarrow> json \<Rightarrow> instant \<Rightarrow> uuid \<Rightarrow> uuid \<Rightarrow>
     (string \<times> string) list \<Rightarrow> (nat \<Rightarrow> string) \<Rightarrow> uuid tf_call" where
  "finish_webauthn_register env tf actor challenge_id u response now factor_id row_id draws salts =
     sbind (tf_repo (factors_consume_webauthn_challenge env challenge_id now)) (\<lambda>consumed.
     sbind (slift (ok_or WebAuthnCeremonyExpired consumed)) (\<lambda>challenge.
     if wch_user_id challenge \<noteq> u \<or> wch_kind challenge \<noteq> KIND_REGISTER then sfail InvalidCode
     else
     sbind (slift (tf_finish_register tf response (wch_state_json challenge))) (\<lambda>credential.
     sbind (tf_repo (factors_insert env (factor_new_verified factor_id u WebAuthn now) [])) (\<lambda>_.
     sbind (tf_repo (factors_insert_webauthn_credential env row_id
          (b64_enc (tf_crypto tf) (rw_credential_id credential)) u factor_id
          (rw_public_key credential) (rw_sign_count credential) (rw_transports credential)
          (uv_policy_as_str UvPreferred) (rw_passkey_json credential) now)) (\<lambda>_.
     sbind (count_recovery_codes env u) (\<lambda>n.
     sbind (if n = 0
            then sbind (fresh_recovery_codes env tf u draws salts now) (\<lambda>_. sret ())
            else sret ()) (\<lambda>_.
     sbind (tf_audit env (audit_event_new now actor ActTwoFactorEnrolled Success)) (\<lambda>_.
       sret factor_id))))))))"

definition finish_webauthn_assert ::
    "env \<Rightarrow> tf_service \<Rightarrow> string \<Rightarrow> uuid \<Rightarrow> json \<Rightarrow> instant \<Rightarrow> (uuid \<times> uuid) tf_call" where
  "finish_webauthn_assert env tf actor challenge_id response now =
     sbind (tf_repo (factors_consume_webauthn_challenge env challenge_id now)) (\<lambda>consumed.
     sbind (slift (ok_or WebAuthnCeremonyExpired consumed)) (\<lambda>challenge.
     if wch_kind challenge \<noteq> KIND_ASSERT then sfail InvalidCode
     else
     sbind (slift (tf_finish_assert tf response (wch_state_json challenge))) (\<lambda>result.
     let cred_id = b64_enc (tf_crypto tf) (va_credential_id result) in
     sbind (tf_repo (factors_find_webauthn_credential_by_id env cred_id)) (\<lambda>found.
     sbind (slift (ok_or InvalidCode found)) (\<lambda>cred.
       case webauthn_record_assertion (va_sign_count result) now cred of
         Inl e \<Rightarrow>
           sbind (tf_audit env (audit_event_new now actor ActTwoFactorFailed Failure)) (\<lambda>_.
             sfail (map_factor_error e))
       | Inr _ \<Rightarrow>
           sbind (tf_repo (factors_touch_webauthn_credential env cred_id (va_sign_count result) now))
             (\<lambda>_. sret (wc_user_id cred, wc_factor_id cred)))))))"

section \<open>Login challenges\<close>

definition issue_login_challenge ::
    "env \<Rightarrow> tf_service \<Rightarrow> string \<Rightarrow> uuid \<Rightarrow> byte list \<Rightarrow> uuid \<Rightarrow> string option \<Rightarrow> string option \<Rightarrow>
     instant \<Rightarrow> challenge_view tf_call" where
  "issue_login_challenge env tf salt challenge_id buf u ip ua now =
     (let (challenge, plaintext) = challenge_create_with_lifetime (tf_crypto tf) salt challenge_id buf
            u ip ua now (tf_challenge_lifetime tf) in
      sbind (tf_repo (factors_insert_challenge env challenge)) (\<lambda>_.
        sret \<lparr>cv_challenge_id = tc_id challenge, cv_challenge_token = plaintext,
          cv_expires_at = tc_expires_at challenge\<rparr>))"

definition verify_totp_code ::
    "env \<Rightarrow> tf_service \<Rightarrow> uuid \<Rightarrow> string \<Rightarrow> instant \<Rightarrow> (uuid option \<times> string) tf_call" where
  "verify_totp_code env tf u code now =
     sbind (active_totp_factor env tf u) (\<lambda>found.
       case found of
         None \<Rightarrow> sfail NoFactor
       | Some (f, secret) \<Rightarrow>
           sbind (slift (map_err map_factor_error (totp_verify (tf_crypto tf) secret code now))) (\<lambda>step.
           sbind (slift (map_err map_factor_error (factor_record_used_step now step f))) (\<lambda>g.
           sbind (tf_repo (factors_update env g)) (\<lambda>_.
             sret (Some (f_id g), ''totp'')))))"

definition verify_recovery_code ::
    "env \<Rightarrow> tf_service \<Rightarrow> uuid \<Rightarrow> string \<Rightarrow> instant \<Rightarrow> (uuid option \<times> string) tf_call" where
  "verify_recovery_code env tf u code now =
     sbind (tf_repo (factors_consume_recovery_code env (tf_crypto tf) u code now)) (\<lambda>consumed.
       if consumed then sret (None, ''recovery'') else sfail InvalidCode)"

text \<open>
  \<open>attempt\<close> makes the outcome of a call a value, so that both outcomes can be matched.
  The WebAuthn branch has an early return: its own errors leave the whole method,
  without the audit entry of the other branches.
\<close>

definition attempt :: "('e, 'a) call \<Rightarrow> ('d, 'e + 'a) call" where
  "attempt m s = (case m s of (r, t) \<Rightarrow> (Inr r, t))"

definition verify_response ::
    "env \<Rightarrow> tf_service \<Rightarrow> string \<Rightarrow> uuid \<Rightarrow> factor_response \<Rightarrow> instant \<Rightarrow>
     (two_factor_error + uuid option \<times> string) tf_call" where
  "verify_response env tf actor u response now =
     (case response of
        RespTotp code \<Rightarrow> attempt (verify_totp_code env tf u code now)
      | RespRecovery code \<Rightarrow> attempt (verify_recovery_code env tf u code now)
      | RespWebAuthn ceremony_id credential \<Rightarrow>
          sbind (finish_webauthn_assert env tf actor ceremony_id credential now)
            (\<lambda>(asserted, factor_id).
              sret (if asserted \<noteq> u then Inl InvalidCode else Inr (Some factor_id, ''webauthn''))))"

definition verify_login_challenge_with_factor ::
    "env \<Rightarrow> tf_service \<Rightarrow> string \<Rightarrow> uuid \<Rightarrow> string \<Rightarrow> factor_response \<Rightarrow> instant \<Rightarrow>
     (uuid \<times> uuid option) tf_call" where
  "verify_login_challenge_with_factor env tf actor challenge_id token response now =
     sbind (tf_repo (factors_verify_challenge_token env (tf_crypto tf) challenge_id token)) (\<lambda>ok.
     if \<not> ok then sfail InvalidCode
     else
     sbind (tf_repo (factors_find_challenge env challenge_id)) (\<lambda>found.
     case found of
       None \<Rightarrow> sfail InvalidCode
     | Some challenge \<Rightarrow>
         if \<not> challenge_is_usable challenge now then sfail CodeReplayed
         else
         sbind (verify_response env tf actor (tc_user_id challenge) response now) (\<lambda>result.
         case result of
           Inr (factor_id, kind) \<Rightarrow>
             sbind (tf_repo (factors_consume_challenge env challenge_id now)) (\<lambda>_.
             sbind (tf_audit env (with_metadata (JObject [(''kind'', JString kind)])
                (audit_event_new now actor ActTwoFactorVerified Success))) (\<lambda>_.
               sret (tc_user_id challenge, factor_id)))
         | Inl e \<Rightarrow>
             sbind (tf_audit env (with_metadata
                (JObject [(''reason'', JString (two_factor_error_display e))])
                (audit_event_new now actor ActTwoFactorFailed Failure))) (\<lambda>_.
               sfail e))))"

definition verify_login_challenge ::
    "env \<Rightarrow> tf_service \<Rightarrow> string \<Rightarrow> uuid \<Rightarrow> string \<Rightarrow> factor_response \<Rightarrow> instant \<Rightarrow> uuid tf_call" where
  "verify_login_challenge env tf actor challenge_id token response now =
     sbind (verify_login_challenge_with_factor env tf actor challenge_id token response now)
       (\<lambda>(u, _). sret u)"

section \<open>Remember-device cookies\<close>

definition accept_remember_device ::
    "env \<Rightarrow> tf_service \<Rightarrow> string \<Rightarrow> string \<Rightarrow> string \<Rightarrow> instant \<Rightarrow> (uuid \<times> uuid) tf_call" where
  "accept_remember_device env tf cookie ua ip now =
     sbind (slift (validate_remember_device (tf_crypto tf) (tf_payload_json tf) (tf_master_key tf)
         cookie ua ip now)) (\<lambda>payload.
     sbind (tf_repo (factors_list_for_user env (rd_user_id payload))) (\<lambda>fs.
     sbind (slift (ok_or RememberDeviceMismatch
         (find (\<lambda>f. f_id f = rd_factor_id payload \<and> f_revoked_at f = None) fs))) (\<lambda>f.
       sret (rd_user_id payload, f_id f))))"

definition issue_remember_device_cookie ::
    "tf_service \<Rightarrow> uuid \<Rightarrow> uuid \<Rightarrow> string \<Rightarrow> string \<Rightarrow> instant \<Rightarrow> uuid \<Rightarrow> string" where
  "issue_remember_device_cookie tf u factor_id ua ip now nonce =
     issue_remember_device_with_lifetime (tf_crypto tf) (tf_payload_json tf) (tf_master_key tf)
       u factor_id ua ip now (tf_remember_device_lifetime tf) nonce"


section \<open>Frames\<close>

lemma keeps_attempt [keeps_intros]: "keeps P m \<Longrightarrow> keeps P (attempt m)"
  by (auto simp: keeps_def attempt_def split: prod.splits)

lemma attempt_Inr [st_invert]: "attempt m s = (Inr r, t) \<longleftrightarrow> m s = (r, t)"
  by (auto simp: attempt_def split: prod.splits)

lemma attempt_Inl [st_invert]: "attempt m s \<noteq> (Inl e, t)"
  by (auto simp: attempt_def split: prod.splits)

lemma tf_repo_Inr [st_invert]: "tf_repo m s = (Inr x, t) \<longleftrightarrow> m s = (Inr x, t)"
  by (simp add: tf_repo_def st_invert)

lemma tf_audit_Inr [st_invert]:
  "tf_audit env e s = (Inr u, t) \<longleftrightarrow>
     env_fault env (db_tick s) = None \<and> t = tick (s\<lparr>db_audit := audit_append e (db_audit s)\<rparr>)"
  by (auto simp: tf_audit_def audit_record_def st_invert)

lemmas factor_read_defs = factors_find_def factors_list_for_user_def factors_find_active_totp_def
  factors_find_totp_secret_encrypted_def factors_find_totp_enrollment_def
  factors_list_recovery_codes_def factors_find_challenge_def factors_verify_challenge_token_def
  factors_list_webauthn_credentials_def factors_find_webauthn_credential_by_id_def
  factors_find_webauthn_challenge_def

text \<open>
  A predicate on the tables that the factor repository does not write is kept by the
  whole two-factor service.
\<close>

locale tf_frame = store_invariant P for P +
  assumes factor_free:
      "P (s\<lparr>db_factors := xa\<rparr>) = P s" "P (s\<lparr>db_enrollments := xb\<rparr>) = P s"
      "P (s\<lparr>db_recovery := xc\<rparr>) = P s" "P (s\<lparr>db_recovery_seq := xd\<rparr>) = P s"
      "P (s\<lparr>db_challenges := xe\<rparr>) = P s" "P (s\<lparr>db_credentials := xf\<rparr>) = P s"
      "P (s\<lparr>db_ceremonies := xg\<rparr>) = P s"
begin

lemma keeps_factor_writes [keeps_intros]:
  "keeps P (factors_insert env f x)" "keeps P (factors_update env f)"
  "keeps P (factors_insert_totp_enrollment env e)"
  "keeps P (factors_consume_totp_enrollment env i now)"
  "keeps P (recovery_insert env u h)"
  "keeps P (factors_insert_challenge env c)"
  "keeps P (factors_insert_webauthn_credential env i cid u fid k n tr uv pk now)"
  "keeps P (factors_touch_webauthn_credential env cid n now)"
  "keeps P (factors_revoke_webauthn_credential env cid now)"
  "keeps P (factors_insert_webauthn_challenge env i u kind st now ex)"
  unfolding factors_insert_def factors_update_def factors_insert_totp_enrollment_def
    factors_consume_totp_enrollment_def recovery_insert_def factors_insert_challenge_def
    factors_insert_webauthn_credential_def factors_touch_webauthn_credential_def
    factors_revoke_webauthn_credential_def factors_insert_webauthn_challenge_def
  by (intro keeps_intros keeps_write keeps_count; simp add: factor_free)+

lemma keeps_factor_mixed [keeps_intros]:
  "keeps P (factors_find_challenge env i)"
  "keeps P (factors_consume_recovery_code env cr u p now)"
  "keeps P (factors_consume_challenge env i now)"
  "keeps P (factors_consume_webauthn_challenge env i now)"
  unfolding factors_consume_recovery_code_def factors_consume_challenge_def
    factors_consume_webauthn_challenge_def factors_find_challenge_def
    factors_find_webauthn_challenge_def
  by (intro keeps_intros keeps_read keeps_write keeps_count; simp add: factor_free)+

lemma keeps_recovery_insert_all [keeps_intros]: "keeps P (recovery_insert_all env u es)"
  by (induction es) (auto intro!: keeps_intros)

lemma keeps_replace_recovery_codes [keeps_intros]: "keeps P (factors_replace_recovery_codes env u es)"
  unfolding factors_replace_recovery_codes_def
  by (intro keeps_intros keeps_transaction keeps_write; simp add: factor_free)

lemma keeps_factor_reads [keeps_intros]:
  "keeps P (factors_find env i)" "keeps P (factors_list_for_user env u)"
  "keeps P (factors_find_active_totp env u)" "keeps P (factors_find_totp_secret_encrypted env i)"
  "keeps P (factors_find_totp_enrollment env i)" "keeps P (factors_list_recovery_codes env u)"
  "keeps P (factors_verify_challenge_token env cr i p)"
  "keeps P (factors_list_webauthn_credentials env u)"
  "keeps P (factors_find_webauthn_credential_by_id env cid)"
  unfolding factors_find_def factors_list_for_user_def factors_find_active_totp_def
    factors_find_totp_secret_encrypted_def factors_find_totp_enrollment_def
    factors_list_recovery_codes_def factors_verify_challenge_token_def
    factors_list_webauthn_credentials_def factors_find_webauthn_credential_by_id_def
  by (intro keeps_intros keeps_read)+

lemma keeps_tf_wrappers [keeps_intros]:
  "keeps P m \<Longrightarrow> keeps P (tf_repo m)" "keeps P (tf_audit env e)"
  unfolding tf_repo_def tf_audit_def by (intro keeps_intros keeps_audit_record; assumption)+

lemma keeps_revoke_credentials [keeps_intros]: "keeps P (revoke_credentials env fid now cs)"
  by (induction cs) (auto intro!: keeps_intros)

lemma keeps_active_totp_factor [keeps_intros]: "keeps P (active_totp_factor env tf u)"
  unfolding active_totp_factor_def by (intro keeps_intros)

lemma keeps_fresh_recovery_codes [keeps_intros]: "keeps P (fresh_recovery_codes env tf u draws salts now)"
  unfolding fresh_recovery_codes_def Let_def by (intro keeps_intros)

lemma keeps_tf_methods [keeps_intros]:
  "keeps P (enroll_totp env tf u sb nonce eid name now)"
  "keeps P (verify_totp_enrollment env tf actor u eid code now fid draws salts)"
  "keeps P (list_factors env u)" "keeps P (has_active_factor env u)"
  "keeps P (count_recovery_codes env u)"
  "keeps P (revoke_factor env actor u fid now)"
  "keeps P (regenerate_recovery_codes env tf actor u now draws salts)"
  "keeps P (persist_webauthn_register env tf cid u st now)"
  "keeps P (begin_webauthn_assert env tf u cid now)"
  "keeps P (finish_webauthn_assert env tf actor cid response now)"
  "keeps P (issue_login_challenge env tf salt cid buf u ip ua now)"
  "keeps P (verify_totp_code env tf u code now)"
  "keeps P (verify_recovery_code env tf u code now)"
  "keeps P (accept_remember_device env tf cookie uastr ipstr now)"
  unfolding enroll_totp_def verify_totp_enrollment_def list_factors_def has_active_factor_def
    count_recovery_codes_def revoke_factor_def regenerate_recovery_codes_def
    persist_webauthn_register_def begin_webauthn_assert_def finish_webauthn_assert_def
    issue_login_challenge_def verify_totp_code_def verify_recovery_code_def
    accept_remember_device_def Let_def
  by (intro keeps_intros)+

lemma keeps_tf_composed [keeps_intros]:
  "keeps P (begin_webauthn_login env tf lid token cid now)"
  "keeps P (finish_webauthn_register env tf actor cid u response now fid rid draws salts)"
  unfolding begin_webauthn_login_def finish_webauthn_register_def
  by (intro keeps_intros)+

lemma keeps_verify_response [keeps_intros]: "keeps P (verify_response env tf actor u resp now)"
  by (cases resp) (auto simp: verify_response_def intro!: keeps_intros)

lemma keeps_verify_login_challenge [keeps_intros]:
  "keeps P (verify_login_challenge_with_factor env tf actor cid token resp now)"
  "keeps P (verify_login_challenge env tf actor cid token resp now)"
  unfolding verify_login_challenge_with_factor_def verify_login_challenge_def
  by (intro keeps_intros)+

end

section \<open>Single use of a login challenge\<close>

text \<open>The response step of a login changes no login challenge.\<close>

lemma verify_response_challenges:
  "keeps (\<lambda>s. db_challenges s = C) (verify_response env tf actor u response now)"
  unfolding verify_response_def verify_totp_code_def verify_recovery_code_def active_totp_factor_def
    finish_webauthn_assert_def tf_repo_def tf_audit_def audit_record_def factor_read_defs
    factors_update_def factors_consume_recovery_code_def factors_consume_webauthn_challenge_def
    factors_touch_webauthn_credential_def
  by (cases response; simp only: factor_response.case)
     (intro keeps_intros keeps_sql_write keeps_sql_count | simp add: tickless_def)+

lemma verify_login_challenge_Inr:
  assumes "verify_login_challenge_with_factor env tf actor cid token response now s = (Inr (u, f), t)"
  obtains c where "find (\<lambda>c. tc_id c = cid) (db_challenges s) = Some c"
    and "challenge_verify_token (tf_crypto tf) c token" and "challenge_is_usable c now"
    and "tc_user_id c = u"
    and "\<exists>k s' s''. verify_response env tf actor u response now s' = (Inr (Inr (f, k)), s'') \<and>
      s' = tick (tick s)"
    and "db_challenges t =
      update_where (\<lambda>d. tc_id d = cid) (\<lambda>d. d\<lparr>tc_consumed_at := Some now\<rparr>) (db_challenges s)"
proof -
  from assms obtain c k s2 s3 where
    c: "find (\<lambda>c. tc_id c = cid) (db_challenges s) = Some c"
      "challenge_verify_token (tf_crypto tf) c token" "challenge_is_usable c now" "tc_user_id c = u"
    and resp: "verify_response env tf actor u response now (tick (tick s)) = (Inr (Inr (f, k)), s2)"
    and cons: "\<exists>r. factors_consume_challenge env cid now s2 = (Inr r, s3)"
    and t: "t = tick (s3\<lparr>db_audit := audit_append (with_metadata (JObject [(''kind'', JString k)])
                (audit_event_new now actor ActTwoFactorVerified Success)) (db_audit s3)\<rparr>)"
    by (auto simp: verify_login_challenge_with_factor_def factors_verify_challenge_token_def st_invert
    )
  have same: "db_challenges s2 = db_challenges s"
    using keeps_run [OF verify_response_challenges _ resp, of "db_challenges s"] by simp
  obtain r where r: "factors_consume_challenge env cid now s2 = (Inr r, s3)"
    using cons by blast
  have "r = Some u"
    using r c same by (auto simp: factors_consume_challenge_def challenge_consume_def st_invert)
  then have "db_challenges s3 =
      update_where (\<lambda>d. tc_id d = cid) (\<lambda>d. d\<lparr>tc_consumed_at := Some now\<rparr>) (db_challenges s2)"
    using consume_challenge_update r by blast
  then show ?thesis
    using that c resp t same by auto
qed

lemma consumed_challenge_refused:
  assumes "\<And>c. c \<in> set (db_challenges t) \<Longrightarrow> tc_id c = cid \<Longrightarrow> \<not> challenge_is_usable c now"
  shows "\<exists>e. fst (verify_login_challenge_with_factor env tf actor cid token response now t) = Inl e"
proof (cases "verify_login_challenge_with_factor env tf actor cid token response now t")
  case (Pair r t')
  show ?thesis
  proof (cases r)
    case (Inl e)
    then show ?thesis using Pair by simp
  next
    case (Inr x)
    then obtain u f where "verify_login_challenge_with_factor env tf actor cid token response now t =
        (Inr (u, f), t')"
      using Pair by (cases x) simp
    then show ?thesis
      by (rule verify_login_challenge_Inr) (use assms in \<open>auto dest: find_SomeD\<close>)
  qed
qed

section \<open>Replay protection of TOTP codes\<close>

text \<open>The row of a user's active TOTP factor, the one the service verifies against.\<close>

definition active_totp_row :: "uuid \<Rightarrow> db \<Rightarrow> factor_row option" where
  "active_totp_row u s =
     find (\<lambda>r. fr_user_id r = u \<and> fr_kind r = ''totp'' \<and> fr_revoked_at r = None) (db_factors s)"

lemma row_to_factor_fields:
  assumes "row_to_factor r = Inr f"
  shows "f_id f = fr_id r" "f_user_id f = fr_user_id r" "f_revoked_at f = fr_revoked_at r"
    "f_last_used_step f = fr_last_used_step r" "f_last_used_at f = fr_last_used_at r"
  using assms by (auto simp: row_to_factor_def)

lemma active_totp_factor_Some:
  assumes "active_totp_factor env tf u s = (Inr (Some (f, sec)), t)"
  shows "\<exists>r. active_totp_row u s = Some r \<and> row_to_factor r = Inr f \<and> sec = totp_secret_generate (ts_bytes sec)"
    and "\<exists>n. t = s\<lparr>db_tick := n\<rparr>"
  using assms
  by (auto simp: active_totp_factor_def active_totp_row_def st_invert factors_find_active_totp_def
      factors_find_totp_secret_encrypted_def totp_secret_from_bytes_def totp_secret_generate_def tick_def
      split: if_splits)

lemma verify_totp_code_Inr:
  assumes "verify_totp_code env tf u code now s = (Inr (f, k), t)"
    and "distinct (map fr_id (db_factors s))"
  obtains r sec step where "active_totp_row u s = Some r"
    and "totp_verify (tf_crypto tf) (totp_secret_generate sec) code now = Inr step"
    and "\<forall>prev. fr_last_used_step r = Some prev \<longrightarrow> prev < step"
    and "f = Some (fr_id r)"
    and "active_totp_row u t = Some
      (r\<lparr>fr_last_used_at := Some now, fr_revoked_at := None, fr_last_used_step := Some step\<rparr>)"
proof -
  from assms(1) obtain g sec step h s1 where
    act: "active_totp_factor env tf u s = (Inr (Some (g, sec)), s1)"
    and ver: "totp_verify (tf_crypto tf) sec code now = Inr step"
    and rec: "factor_record_used_step now step g = Inr h"
    and upd: "factors_update env h s1 = (Inr (), t)" and f: "f = Some (f_id h)"
    by (auto simp: verify_totp_code_def st_invert)
  obtain r where r: "active_totp_row u s = Some r" "row_to_factor r = Inr g"
      "sec = totp_secret_generate (ts_bytes sec)"
    using active_totp_factor_Some(1) [OF act] by blast
  obtain n where n: "s1 = s\<lparr>db_tick := n\<rparr>"
    using active_totp_factor_Some(2) [OF act] by blast
  have h: "f_id h = fr_id r" "f_last_used_step h = Some step" "f_last_used_at h = Some now"
      "f_revoked_at h = fr_revoked_at r" "\<forall>prev. fr_last_used_step r = Some prev \<longrightarrow> prev < step"
    using rec row_to_factor_fields [OF r(2)] by (auto simp: factor_record_used_step_Inr)
  have live: "fr_revoked_at r = None"
    using r(1) by (auto simp: active_totp_row_def dest: find_SomeD)
  let ?upd = "\<lambda>x. x\<lparr>fr_last_used_at := Some now, fr_revoked_at := None,
    fr_last_used_step := Some step\<rparr>"
  let ?p = "\<lambda>r. fr_user_id r = u \<and> fr_kind r = ''totp'' \<and> fr_revoked_at r = None"
  have row: "find ?p (db_factors s) = Some r" and "?p (?upd r)"
    using r(1) by (auto simp: active_totp_row_def dest: find_SomeD)
  have "db_factors t = update_where (\<lambda>x. fr_id x = fr_id r) ?upd (db_factors s)"
    using upd h n live by (simp add: factors_update_def st_invert)
  then have "active_totp_row u t = Some (?upd r)"
    using find_update_where_unique [of ?p "db_factors s" r fr_id ?upd] row \<open>?p (?upd r)\<close> assms(2)
    by (simp add: active_totp_row_def)
  then show ?thesis
    using that r ver h f by metis
qed

section \<open>Recovery codes\<close>

text \<open>The unconsumed codes of a user that a plaintext opens.\<close>

definition open_codes :: "crypto \<Rightarrow> uuid \<Rightarrow> string \<Rightarrow> db \<Rightarrow> recovery_row list" where
  "open_codes cr u p s =
     filter (\<lambda>r. rr_user_id r = u \<and> rr_consumed_at r = None \<and> recovery_verify cr p (rr_code_hash r) = Inr ())
       (db_recovery s)"

lemma verify_recovery_code_Inr:
  assumes "verify_recovery_code env tf u code now s = (Inr (f, k), t)"
    and "distinct (map rr_id (db_recovery s))"
  shows "f = None" and "k = ''recovery''"
    and "length (open_codes (tf_crypto tf) u code s) = Suc (length (open_codes (tf_crypto tf) u code t))"
proof -
  let ?p = "\<lambda>r. rr_user_id r = u \<and> rr_consumed_at r = None \<and>
    recovery_verify (tf_crypto tf) code (rr_code_hash r) = Inr ()"
  from assms(1) obtain i where fk: "f = None" "k = ''recovery''"
    and m: "recovery_match (tf_crypto tf) code
      (filter (\<lambda>r. rr_user_id r = u \<and> rr_consumed_at r = None) (db_recovery s)) = Some i"
    and t: "db_recovery t = update_where (\<lambda>r. rr_id r = i) (\<lambda>r. r\<lparr>rr_consumed_at := Some now\<rparr>) (db_recovery s)"
    by (auto simp: verify_recovery_code_def factors_consume_recovery_code_def st_invert)
  from recovery_match_Some [OF m] obtain r where "r \<in> set (db_recovery s)" "rr_id r = i" "?p r"
    by auto
  then have "length (filter ?p (db_recovery s)) = Suc (length (filter ?p (db_recovery t)))"
    using filter_update_unique [of rr_id "db_recovery s" r ?p "\<lambda>r. r\<lparr>rr_consumed_at := Some now\<rparr>"]
      assms(2) t by simp
  then show "f = None" "k = ''recovery''"
    "length (open_codes (tf_crypto tf) u code s) = Suc (length (open_codes (tf_crypto tf) u code t))"
    using fk by (simp_all add: open_codes_def)
qed

lemma verify_recovery_code_closed:
  assumes "open_codes (tf_crypto tf) u code s = []"
  shows "\<exists>e. fst (verify_recovery_code env tf u code now s) = Inl e"
proof -
  have "recovery_match (tf_crypto tf) code
      (filter (\<lambda>r. rr_user_id r = u \<and> rr_consumed_at r = None) (db_recovery s)) = None"
    using assms by (auto simp: recovery_match_None open_codes_def filter_empty_conv)
  then show ?thesis
    by (simp add: verify_recovery_code_def factors_consume_recovery_code_def sbind_def smap_err_def
        tf_repo_def sql_read_def split: option.splits)
qed

section \<open>WebAuthn counters\<close>

definition stored_sign_count :: "string \<Rightarrow> db \<Rightarrow> int option" where
  "stored_sign_count cred_id s =
     map_option cr_sign_count (find (\<lambda>r. cr_credential_id r = cred_id) (db_credentials s))"

lemma finish_webauthn_assert_Inr:
  assumes "finish_webauthn_assert env tf actor cid response now s = (Inr (u, fid), t)"
  obtains ch result row n where "find (\<lambda>c. wch_id c = cid) (db_ceremonies s) = Some ch"
    and "webauthn_challenge_is_usable ch now" and "wch_kind ch = KIND_ASSERT"
    and "tf_finish_assert tf response (wch_state_json ch) = Inr result"
    and "find (\<lambda>r. cr_credential_id r = b64_enc (tf_crypto tf) (va_credential_id result)) (db_credentials s) = Some row"
    and "cr_revoked_at row = None" and "cr_user_id row = u" and "cr_factor_id row = fid"
    and "cr_sign_count row < va_sign_count result"
    and "stored_sign_count (b64_enc (tf_crypto tf) (va_credential_id result)) t = Some (va_sign_count result)"
proof -
  from assms obtain ch result cred s1 where
    c1: "factors_consume_webauthn_challenge env cid now s = (Inr (Some ch), s1)"
    and kind: "wch_kind ch = KIND_ASSERT" and who: "wc_user_id cred = u" "wc_factor_id cred = fid"
    and fin: "tf_finish_assert tf response (wch_state_json ch) = Inr result"
    and cred: "\<exists>row. find (\<lambda>r. cr_credential_id r = b64_enc (tf_crypto tf) (va_credential_id result))
        (db_credentials s1) = Some row \<and> row_to_webauthn_credential row = Inr cred"
    and rec: "\<exists>c'. webauthn_record_assertion (va_sign_count result) now cred = Inr c'"
    and t: "db_credentials t = update_where
        (\<lambda>r. cr_credential_id r = b64_enc (tf_crypto tf) (va_credential_id result))
        (\<lambda>r. r\<lparr>cr_sign_count := va_sign_count result, cr_last_used_at := Some now\<rparr>) (db_credentials s1)"
    by (auto simp: finish_webauthn_assert_def st_invert Let_def
        factors_find_webauthn_credential_by_id_def factors_touch_webauthn_credential_def)
  have same: "db_credentials s1 = db_credentials s" and ch: "find (\<lambda>c. wch_id c = cid) (db_ceremonies s) = Some ch"
      "webauthn_challenge_is_usable ch now"
    using c1 by (auto simp: factors_consume_webauthn_challenge_def factors_find_webauthn_challenge_def
        st_invert split: if_splits)
  let ?cid = "b64_enc (tf_crypto tf) (va_credential_id result)"
  obtain row where row: "find (\<lambda>r. cr_credential_id r = ?cid) (db_credentials s) = Some row"
      "row_to_webauthn_credential row = Inr cred"
    using cred same by auto
  have "wc_sign_count cred = cr_sign_count row" "wc_revoked_at cred = cr_revoked_at row"
      "wc_user_id cred = cr_user_id row" "wc_factor_id cred = cr_factor_id row"
    using row(2) by (auto simp: row_to_webauthn_credential_def)
  then have "cr_sign_count row < va_sign_count result" "cr_revoked_at row = None" "cr_user_id row = u" "cr_factor_id row = fid"
    using rec who by (auto simp: webauthn_record_assertion_Inr webauthn_is_usable_def)
  moreover have "stored_sign_count ?cid t = Some (va_sign_count result)"
    using row(1) t same find_SomeD [OF row(1)]
    by (simp add: stored_sign_count_def find_update_where_key)
  ultimately show ?thesis
    using that ch kind fin row(1) by blast
qed

section \<open>Remembered devices and active factors\<close>

lemma factors_list_for_user_Inr:
  assumes "factors_list_for_user env u s = (Inr fs, t)"
  shows "f \<in> set fs \<Longrightarrow> \<exists>r \<in> set (db_factors s). fr_user_id r = u \<and> row_to_factor r = Inr f"
    and "r \<in> set (db_factors s) \<Longrightarrow> fr_user_id r = u \<Longrightarrow> \<exists>f \<in> set fs. row_to_factor r = Inr f"
    and "t = tick s"
proof -
  have fs: "collect_results row_to_factor (filter (\<lambda>r. fr_user_id r = u) (db_factors s)) = Inr fs"
    and t: "t = tick s"
    using assms by (simp_all add: factors_list_for_user_def st_invert)
  show "f \<in> set fs \<Longrightarrow> \<exists>r \<in> set (db_factors s). fr_user_id r = u \<and> row_to_factor r = Inr f"
    using collect_results_from [OF fs] by fastforce
  show "r \<in> set (db_factors s) \<Longrightarrow> fr_user_id r = u \<Longrightarrow> \<exists>f \<in> set fs. row_to_factor r = Inr f"
    using collect_results_to [OF fs] by fastforce
  show "t = tick s" by (rule t)
qed

lemma has_active_factor_Inr:
  assumes "has_active_factor env u s = (Inr b, t)"
  shows "b \<longleftrightarrow> (\<exists>r \<in> set (db_factors s). fr_user_id r = u \<and> fr_revoked_at r = None)"
    and "t = tick s"
proof -
  from assms obtain fs where fs: "factors_list_for_user env u s = (Inr fs, t)"
    and b: "b = list_ex (\<lambda>f. f_revoked_at f = None) fs"
    by (auto simp: has_active_factor_def st_invert)
  show "t = tick s" using factors_list_for_user_Inr(3) [OF fs] .
  show "b \<longleftrightarrow> (\<exists>r \<in> set (db_factors s). fr_user_id r = u \<and> fr_revoked_at r = None)"
    unfolding b list_ex_iff
    by (metis factors_list_for_user_Inr(1,2) [OF fs] row_to_factor_fields(3))
qed

lemma accept_remember_device_Inr:
  assumes "accept_remember_device env tf cookie ua ip now s = (Inr (u, fid), t)"
  shows "\<exists>p. validate_remember_device (tf_crypto tf) (tf_payload_json tf) (tf_master_key tf) cookie ua ip
      now = Inr p \<and> rd_user_id p = u \<and> rd_factor_id p = fid"
    and "\<exists>r \<in> set (db_factors s). fr_id r = fid \<and> fr_user_id r = u \<and> fr_revoked_at r = None"
proof -
  from assms obtain p fs f s1 where p: "validate_remember_device (tf_crypto tf) (tf_payload_json tf)
        (tf_master_key tf) cookie ua ip now = Inr p" "rd_user_id p = u"
    and fs: "factors_list_for_user env u s = (Inr fs, s1)"
    and f: "find (\<lambda>f. f_id f = rd_factor_id p \<and> f_revoked_at f = None) fs = Some f" "f_id f = fid"
    by (auto simp: accept_remember_device_def st_invert)
  show "\<exists>p. validate_remember_device (tf_crypto tf) (tf_payload_json tf) (tf_master_key tf) cookie ua ip
      now = Inr p \<and> rd_user_id p = u \<and> rd_factor_id p = fid"
    using p f by (auto dest: find_SomeD)
  have "f \<in> set fs" "f_revoked_at f = None" using f by (auto dest: find_SomeD)
  then show "\<exists>r \<in> set (db_factors s). fr_id r = fid \<and> fr_user_id r = u \<and> fr_revoked_at r = None"
    using factors_list_for_user_Inr(1) [OF fs] f(2) row_to_factor_fields by metis
qed

end
