(* ===== verification/Identity_Service.thy ===== *)
theory Identity_Service
  imports Two_Factor_Service
begin

text \<open>
  \<open>IdentityService\<close> of \<open>openpanel-app/src/identity/service.rs\<close>: accounts, sessions and
  the login flow, with the two-factor service it calls. An audit entry that cannot be
  written is dropped (\<open>.await.ok()\<close>), and so are the outcomes of \<open>touch\<close>,
  \<open>update_last_login\<close> and the deletion of a stale session.
\<close>

type_synonym 'a id_call = "(identity_error, 'a) call"

definition id_repo :: "'a repo \<Rightarrow> 'a id_call" where
  "id_repo m = smap_err IdentityPersistence m"

definition id_audit :: "env \<Rightarrow> audit_event \<Rightarrow> unit id_call" where
  "id_audit env e = signore (audit_record env e)"

definition found_or :: "identity_error \<Rightarrow> 'a option repo \<Rightarrow> 'a id_call" where
  "found_or e m = sbind (id_repo m) (\<lambda>x. slift (ok_or e x))"

definition reason_json :: "string \<Rightarrow> json" where
  "reason_json r = JObject [(''reason'', JString r)]"

definition opt_id_json :: "env \<Rightarrow> uuid option \<Rightarrow> json" where
  "opt_id_json env i = opt_str_json (map_option (env_uuid_str env) i)"

section \<open>Accounts\<close>

definition create_user_with_parents ::
    "env \<Rightarrow> crypto \<Rightarrow> string \<Rightarrow> string \<Rightarrow> uuid \<Rightarrow> instant \<Rightarrow> string \<Rightarrow> string \<Rightarrow> string \<Rightarrow> role \<Rightarrow>
     uuid option \<Rightarrow> uuid option \<Rightarrow> string \<Rightarrow> user id_call" where
  "create_user_with_parents env cr salt1 salt2 i now username email plaintext role parent plan actor =
     (case password_hash cr salt1 plaintext of
        Inl _ \<Rightarrow>
          sbind (id_audit env (with_metadata (reason_json ''password_too_short'')
              (audit_event_new now actor ActUserCreated Failure))) (\<lambda>_.
            sfail PasswordTooShort)
      | Inr _ \<Rightarrow>
          sbind (slift (map_err (\<lambda>_. Forbidden) (username_new username))) (\<lambda>un.
          sbind (slift (map_err (\<lambda>_. Forbidden) (email_new email))) (\<lambda>em.
          sbind (slift (map_err (\<lambda>_. PasswordTooShort) (password_hash cr salt2 plaintext))) (\<lambda>pw.
          sbind (sok (users_find_by_username env (username_as_str un))) (\<lambda>same_name.
          if Option.bind same_name id \<noteq> None then sfail UsernameTaken
          else
          sbind (sok (users_find_by_email env (email_as_str em))) (\<lambda>same_email.
          if Option.bind same_email id \<noteq> None then sfail EmailTaken
          else
          sbind (slift (user_new_with_parents i un em pw role parent plan now)) (\<lambda>u.
          sbind (id_repo (users_insert env u)) (\<lambda>_.
          sbind (id_audit env (with_metadata
              (JObject [(''hosting_plan_id'', opt_id_json env plan),
                        (''parent_account_id'', opt_id_json env parent)])
              (with_target (env_uuid_str env (u_id u))
                (audit_event_new now actor ActUserCreated Success)))) (\<lambda>_.
            sret u)))))))))"

definition create_user ::
    "env \<Rightarrow> crypto \<Rightarrow> string \<Rightarrow> string \<Rightarrow> uuid \<Rightarrow> instant \<Rightarrow> string \<Rightarrow> string \<Rightarrow> string \<Rightarrow> role \<Rightarrow>
     string \<Rightarrow> user id_call" where
  "create_user env cr salt1 salt2 i now username email plaintext role actor =
     create_user_with_parents env cr salt1 salt2 i now username email plaintext role None None actor"

definition update_parent_account_id ::
    "env \<Rightarrow> instant \<Rightarrow> uuid \<Rightarrow> uuid option \<Rightarrow> string \<Rightarrow> unit id_call" where
  "update_parent_account_id env now user_id parent actor =
     sbind (found_or UserNotFound (users_find_by_id env user_id)) (\<lambda>u.
     sbind (slift (user_set_parent_account_id parent u)) (\<lambda>_.
     sbind (id_repo (users_update_parent_account_id env user_id parent)) (\<lambda>_.
       id_audit env (with_metadata
         (JObject [(''field'', JString ''parent_account_id''), (''value'', opt_id_json env parent)])
         (with_target (env_uuid_str env user_id)
           (audit_event_new now actor ActUserUpdated Success))))))"

definition update_hosting_plan_id ::
    "env \<Rightarrow> instant \<Rightarrow> uuid \<Rightarrow> uuid option \<Rightarrow> string \<Rightarrow> unit id_call" where
  "update_hosting_plan_id env now user_id plan actor =
     sbind (found_or UserNotFound (users_find_by_id env user_id)) (\<lambda>u.
     sbind (id_repo (users_update_hosting_plan_id env user_id plan)) (\<lambda>_.
       id_audit env (with_metadata
         (JObject [(''field'', JString ''hosting_plan_id''), (''value'', opt_id_json env plan)])
         (with_target (env_uuid_str env user_id)
           (audit_event_new now actor ActUserUpdated Success)))))"

definition find_children :: "env \<Rightarrow> uuid \<Rightarrow> user list id_call" where
  "find_children env parent = id_repo (users_find_children env parent)"

definition find_by_plan :: "env \<Rightarrow> uuid \<Rightarrow> user list id_call" where
  "find_by_plan env plan = id_repo (users_find_by_plan env plan)"

definition list_users :: "env \<Rightarrow> user list id_call" where
  "list_users env = id_repo (users_list env)"

definition change_role :: "env \<Rightarrow> instant \<Rightarrow> uuid \<Rightarrow> role \<Rightarrow> string \<Rightarrow> unit id_call" where
  "change_role env now target_id new_role actor =
     sbind (found_or UserNotFound (users_find_by_id env target_id)) (\<lambda>u.
     sbind (slift (map_err (\<lambda>_. LastOwner) (user_change_role new_role u))) (\<lambda>u.
     sbind (id_repo (users_update_role env (u_id u) (u_role u))) (\<lambda>_.
       id_audit env (with_metadata (JObject [(''new_role'', JString (role_as_str new_role))])
         (with_target (env_uuid_str env (u_id u))
           (audit_event_new now actor ActRoleChanged Success))))))"

definition disable_user :: "env \<Rightarrow> instant \<Rightarrow> uuid \<Rightarrow> string \<Rightarrow> unit id_call" where
  "disable_user env now target_id actor =
     sbind (found_or UserNotFound (users_find_by_id env target_id)) (\<lambda>u.
     sbind (id_repo (users_disable env (u_id u) now)) (\<lambda>_.
     sbind (id_repo (sessions_delete_for_user env (u_id u))) (\<lambda>_.
       id_audit env (with_target (env_uuid_str env (u_id u))
         (audit_event_new now actor ActUserDisabled Success)))))"

definition enable_user :: "env \<Rightarrow> instant \<Rightarrow> uuid \<Rightarrow> string \<Rightarrow> unit id_call" where
  "enable_user env now target_id actor =
     sbind (found_or UserNotFound (users_find_by_id env target_id)) (\<lambda>u.
     sbind (id_repo (users_enable env (u_id u))) (\<lambda>_.
       id_audit env (with_target (env_uuid_str env (u_id u))
         (audit_event_new now actor ActUserEnabled Success))))"

definition delete_user :: "env \<Rightarrow> instant \<Rightarrow> uuid \<Rightarrow> string \<Rightarrow> unit id_call" where
  "delete_user env now target_id actor =
     sbind (id_repo (users_count env)) (\<lambda>count.
     if count \<le> 1 then sfail LastOwner
     else
     sbind (found_or UserNotFound (users_find_by_id env target_id)) (\<lambda>u.
     if u_role u = Owner then sfail LastOwner
     else
     sbind (id_repo (sessions_delete_for_user env (u_id u))) (\<lambda>_.
     sbind (id_repo (users_delete env (u_id u))) (\<lambda>_.
       id_audit env (with_target (env_uuid_str env (u_id u))
         (audit_event_new now actor ActUserDeleted Success))))))"

definition change_password ::
    "env \<Rightarrow> crypto \<Rightarrow> string \<Rightarrow> instant \<Rightarrow> uuid \<Rightarrow> string \<Rightarrow> string \<Rightarrow> unit id_call" where
  "change_password env cr salt now target_id new_plaintext actor =
     sbind (slift (map_err (\<lambda>_. PasswordTooShort) (password_hash cr salt new_plaintext))) (\<lambda>h.
     sbind (id_repo (users_update_password env target_id (password_hash_str h))) (\<lambda>_.
       id_audit env (with_target (env_uuid_str env target_id)
         (audit_event_new now actor ActPasswordChanged Success))))"

section \<open>Login\<close>

datatype login_outcome =
    Authenticated user session_token
  | FactorRequired user challenge_view

text \<open>What a login draws from the random generator.\<close>

record login_draws =
  ld_token_bytes :: "byte list"
  ld_session_id :: uuid
  ld_session_salt :: string
  ld_challenge_id :: uuid
  ld_challenge_bytes :: "byte list"
  ld_challenge_salt :: string

text \<open>The tail that the three successful paths of the login flow share.\<close>

definition issue_session ::
    "env \<Rightarrow> tf_service \<Rightarrow> login_draws \<Rightarrow> user \<Rightarrow> string option \<Rightarrow> string option \<Rightarrow> instant \<Rightarrow>
     (user \<times> session_token) id_call" where
  "issue_session env tf d u ip ua now =
     (let (session, token) = session_new (tf_crypto tf) (ld_session_salt d) (ld_session_id d) now
            (u_id u) (u_role u) (session_token_generate (tf_crypto tf) (ld_token_bytes d)) ip ua in
      sbind (id_repo (sessions_insert env session)) (\<lambda>_.
      sbind (signore (sessions_touch env (s_id session) now)) (\<lambda>_.
      sbind (signore (users_update_last_login env (u_id u) now)) (\<lambda>_.
      sbind (id_audit env (with_source_ip (case s_source_ip session of None \<Rightarrow> [] | Some x \<Rightarrow> x)
          (audit_event_new now (username_as_str (u_username u)) ActLogin Success))) (\<lambda>_.
        sret (user_record_login now u, token))))))"

definition login_denied ::
    "env \<Rightarrow> user \<Rightarrow> string option \<Rightarrow> instant \<Rightarrow> audit_action \<Rightarrow> audit_outcome \<Rightarrow> string \<Rightarrow> unit id_call" where
  "login_denied env u ip now action outcome reason =
     id_audit env (with_metadata (reason_json reason)
       (with_source_ip (case ip of None \<Rightarrow> [] | Some x \<Rightarrow> x)
         (audit_event_new now (username_as_str (u_username u)) action outcome)))"

text \<open>
  The remember-device cookie: \<open>True\<close> when it stands for the second factor. A cookie
  that is refused, or that names another user, is audited and the flow goes on.
\<close>

definition try_remember_device ::
    "env \<Rightarrow> tf_service \<Rightarrow> user \<Rightarrow> string option \<Rightarrow> string option \<Rightarrow> string option \<Rightarrow> instant \<Rightarrow>
     bool id_call" where
  "try_remember_device env tf u ip ua cookie now =
     (case cookie of
        None \<Rightarrow> sret False
      | Some c \<Rightarrow>
          sbind (attempt (accept_remember_device env tf c (case ua of None \<Rightarrow> [] | Some x \<Rightarrow> x)
              (case ip of None \<Rightarrow> [] | Some x \<Rightarrow> x) now)) (\<lambda>accepted.
            case accepted of
              Inr (cookie_user, factor_id) \<Rightarrow>
                if cookie_user \<noteq> u_id u then
                  sbind (login_denied env u ip now ActTwoFactorFailed Denied
                      ''remember_device_user_mismatch'') (\<lambda>_. sret False)
                else
                  sbind (id_audit env (with_source_ip (case ip of None \<Rightarrow> [] | Some x \<Rightarrow> x)
                      (audit_event_new now (username_as_str (u_username u)) ActDeviceRemembered Success)))
                    (\<lambda>_. sret True)
            | Inl e \<Rightarrow>
                sbind (login_denied env u ip now ActTwoFactorFailed Denied
                    (''remember_device: '' @ two_factor_error_display e)) (\<lambda>_. sret False)))"

definition find_login_user :: "env \<Rightarrow> string \<Rightarrow> user id_call" where
  "find_login_user env name =
     sbind (id_repo (users_find_by_username env name)) (\<lambda>found.
       case found of
         Some u \<Rightarrow> sret u
       | None \<Rightarrow> found_or InvalidCredentials (users_find_by_email env name))"

definition login ::
    "env \<Rightarrow> tf_service \<Rightarrow> login_draws \<Rightarrow> instant \<Rightarrow> string \<Rightarrow> string \<Rightarrow> string option \<Rightarrow> string option \<Rightarrow>
     string option \<Rightarrow> login_outcome id_call" where
  "login env tf d now name plaintext ip ua cookie =
     sbind (find_login_user env name) (\<lambda>u.
     if user_is_disabled u then
       sbind (login_denied env u ip now ActLogin Failure ''account_disabled'')
         (\<lambda>_. sfail AccountDisabled)
     else
     sbind (slift (map_err (\<lambda>e. IdentityPersistence (password_error_display e))
         (password_verify (tf_crypto tf) (u_password u) plaintext))) (\<lambda>verified.
     if \<not> verified then
       sbind (login_denied env u ip now ActLogin Failure ''bad_credentials'')
         (\<lambda>_. sfail InvalidCredentials)
     else
     sbind (smap_err (\<lambda>e. IdentityPersistence (two_factor_error_display e))
         (has_active_factor env (u_id u))) (\<lambda>has_factor.
     sbind (if has_factor then try_remember_device env tf u ip ua cookie now else sret True) (\<lambda>passed.
     if passed then
       sbind (issue_session env tf d u ip ua now) (\<lambda>(v, token). sret (Authenticated v token))
     else
       sbind (smap_err (\<lambda>e. IdentityPersistence (two_factor_error_display e))
           (issue_login_challenge env tf (ld_challenge_salt d) (ld_challenge_id d)
             (ld_challenge_bytes d) (u_id u) ip ua now)) (\<lambda>challenge.
         sret (FactorRequired u challenge))))))"

fun login_factor_error :: "two_factor_error \<Rightarrow> identity_error" where
  "login_factor_error InvalidCode = InvalidCredentials"
| "login_factor_error CodeReplayed = InvalidCredentials"
| "login_factor_error NoFactor = InvalidCredentials"
| "login_factor_error Revoked = InvalidCredentials"
| "login_factor_error e = IdentityPersistence (two_factor_error_display e)"

definition verify_login_factor_with_factor ::
    "env \<Rightarrow> tf_service \<Rightarrow> login_draws \<Rightarrow> instant \<Rightarrow> uuid \<Rightarrow> string \<Rightarrow> factor_response \<Rightarrow>
     string option \<Rightarrow> string option \<Rightarrow> (user \<times> uuid option \<times> session_token) id_call" where
  "verify_login_factor_with_factor env tf d now challenge_id token response ip ua =
     sbind (smap_err login_factor_error
         (verify_login_challenge_with_factor env tf ''two_factor'' challenge_id token response now))
       (\<lambda>(user_id, factor_id).
     sbind (found_or UserNotFound (users_find_by_id env user_id)) (\<lambda>u.
     if user_is_disabled u then sfail AccountDisabled
     else
     sbind (issue_session env tf d u ip ua now) (\<lambda>(v, tok). sret (v, factor_id, tok))))"

definition verify_login_factor ::
    "env \<Rightarrow> tf_service \<Rightarrow> login_draws \<Rightarrow> instant \<Rightarrow> uuid \<Rightarrow> string \<Rightarrow> factor_response \<Rightarrow>
     string option \<Rightarrow> string option \<Rightarrow> (user \<times> session_token) id_call" where
  "verify_login_factor env tf d now challenge_id token response ip ua =
     sbind (verify_login_factor_with_factor env tf d now challenge_id token response ip ua)
       (\<lambda>(u, _, tok). sret (u, tok))"

section \<open>Sessions\<close>

definition logout :: "env \<Rightarrow> crypto \<Rightarrow> instant \<Rightarrow> session_token \<Rightarrow> string \<Rightarrow> unit id_call" where
  "logout env cr now token actor =
     sbind (found_or InvalidToken (sessions_find_by_token_hash_match env cr token)) (\<lambda>session.
     sbind (id_repo (sessions_delete env (s_id session))) (\<lambda>_.
       id_audit env (audit_event_new now actor ActLogout Success)))"

definition resolve_session ::
    "env \<Rightarrow> crypto \<Rightarrow> instant \<Rightarrow> session_token \<Rightarrow> (user \<times> session) id_call" where
  "resolve_session env cr now token =
     sbind (found_or InvalidToken (sessions_find_by_token_hash_match env cr token)) (\<lambda>session.
     if session_is_expired session now then
       sbind (signore (sessions_delete env (s_id session))) (\<lambda>_. sfail SessionExpired)
     else
     sbind (found_or UserNotFound (users_find_by_id env (s_user_id session))) (\<lambda>u.
     if user_is_disabled u then
       sbind (signore (sessions_delete env (s_id session))) (\<lambda>_. sfail AccountDisabled)
     else sret (u, session)))"

section \<open>Outcomes of the steps\<close>

text \<open>An audit entry leaves every table but the log alone.\<close>

lemma audit_record_tables [simp]:
  "db_users (snd (audit_record env e s)) = db_users s"
  "db_sessions (snd (audit_record env e s)) = db_sessions s"
  "db_factors (snd (audit_record env e s)) = db_factors s"
  "db_challenges (snd (audit_record env e s)) = db_challenges s"
  "db_relationships (snd (audit_record env e s)) = db_relationships s"
  "db_pools (snd (audit_record env e s)) = db_pools s"
  "db_claims (snd (audit_record env e s)) = db_claims s"
  "db_plans (snd (audit_record env e s)) = db_plans s"
  "db_assignments (snd (audit_record env e s)) = db_assignments s"
  "db_policies (snd (audit_record env e s)) = db_policies s"
  "db_plan_cache (snd (audit_record env e s)) = db_plan_cache s"
  by (cases "audit_record env e s"; use audit_record_frame [of env e s] in fastforce)+

lemma id_audit_run [simp]: "id_audit env e s = (Inr (), snd (audit_record env e s))"
  by (simp add: id_audit_def)

lemma found_or_Inr [st_invert]: "found_or e m s = (Inr x, t) \<longleftrightarrow> m s = (Inr (Some x), t)"
  by (auto simp: found_or_def id_repo_def st_invert)

lemma found_or_Inl [st_invert]:
  "found_or e m s = (Inl d, t) \<longleftrightarrow>
     (\<exists>x. m s = (Inl x, t) \<and> d = IdentityPersistence x) \<or> m s = (Inr None, t) \<and> d = e"
  by (cases "m s"; auto simp: found_or_def id_repo_def ok_or_def st_invert split: option.splits)

lemma id_repo_Inr [st_invert]: "id_repo m s = (Inr x, t) \<longleftrightarrow> m s = (Inr x, t)"
  by (simp add: id_repo_def st_invert)

lemma id_repo_Inl [st_invert]:
  "id_repo m s = (Inl e, t) \<longleftrightarrow> (\<exists>d. m s = (Inl d, t) \<and> e = IdentityPersistence d)"
  by (simp add: id_repo_def st_invert)

lemma users_find_outcome [st_invert]:
  "users_find env p s = (Inr (Some u), t) \<longleftrightarrow>
     env_fault env (db_tick s) = None \<and> t = tick s \<and> (\<exists>r. find p (db_users s) = Some r \<and> into_user r = Inr u)"
  "users_find env p s = (Inr None, t) \<longleftrightarrow>
     env_fault env (db_tick s) = None \<and> t = tick s \<and> find p (db_users s) = None"
  by (auto simp: users_find_def st_invert)

lemma users_find_Inl [st_invert]:
  "users_find env p s = (Inl e, t) \<longleftrightarrow>
     t = tick s \<and> (env_fault env (db_tick s) = Some e \<or>
       env_fault env (db_tick s) = None \<and> (\<exists>r. find p (db_users s) = Some r \<and> into_user r = Inl e))"
  by (auto simp: users_find_def st_invert transpose_opt_def split: option.splits sum.splits)

lemmas user_lookup_defs = users_find_by_id_def users_find_by_username_def users_find_by_email_def

lemma session_match_outcome [st_invert]:
  "sessions_find_by_token_hash_match env cr tok s = (Inr x, t) \<longleftrightarrow>
     env_fault env (db_tick s) = None \<and> t = tick s \<and> session_scan cr tok (db_sessions s) = x"
  by (auto simp: sessions_find_by_token_hash_match_def st_invert)

lemma find_login_user_Inr:
  assumes "find_login_user env name s = (Inr u, t)"
  shows "\<exists>r \<in> set (db_users s). into_user r = Inr u \<and> (ur_username r = name \<or> ur_email r = name)"
    and "t \<in> {tick s, tick (tick s)}"
proof -
  from assms have t: "t \<in> {tick s, tick (tick s)}"
    and "\<exists>r. into_user r = Inr u \<and> (find (\<lambda>r. ur_username r = name) (db_users s) = Some r \<or>
      find (\<lambda>r. ur_email r = name) (db_users s) = Some r)"
    by (auto simp: find_login_user_def user_lookup_defs st_invert)
  then show "\<exists>r \<in> set (db_users s). into_user r = Inr u \<and> (ur_username r = name \<or> ur_email r = name)"
    by (auto dest!: find_SomeD)
  show "t \<in> {tick s, tick (tick s)}" by (rule t)
qed

lemma users_update_sessions [simp]: "db_sessions (snd (users_update env i f s)) = db_sessions s"
  by (simp add: users_update_def sql_write_def split: option.splits)

lemma sessions_touch_sessions:
  "db_sessions (snd (sessions_touch env i now s)) =
     update_where (\<lambda>r. sr_id r = i) (\<lambda>r. r\<lparr>sr_last_seen_at := now\<rparr>) (db_sessions s) \<or>
   db_sessions (snd (sessions_touch env i now s)) = db_sessions s"
  by (simp add: sessions_touch_def sql_write_def split: option.splits)

lemma issue_session_Inr:
  assumes "issue_session env tf d u ip ua now s = (Inr (v, tok), t)"
  obtains x where "fst (session_new (tf_crypto tf) (ld_session_salt d) (ld_session_id d) now
        (u_id u) (u_role u) tok ip ua) = x"
    and "v = user_record_login now u"
    and "tok = session_token_generate (tf_crypto tf) (ld_token_bytes d)"
    and "user_exists (u_id u) s"
    and "db_sessions t = db_sessions s @ [session_to_row x]"
proof -
  let ?x = "fst (session_new (tf_crypto tf) (ld_session_salt d) (ld_session_id d) now
        (u_id u) (u_role u) (session_token_generate (tf_crypto tf) (ld_token_bytes d)) ip ua)"
  have x: "s_id ?x = ld_session_id d" "s_last_seen_at ?x = now" "s_user_id ?x = u_id u"
    by (simp_all add: session_new_def)
  from assms have ok: "\<not> list_ex (\<lambda>r. sr_id r = s_id ?x \<or> sr_token_hash r = s_token_hash ?x) (db_sessions s)"
    "user_exists (u_id u) s" "v = user_record_login now u"
    "tok = session_token_generate (tf_crypto tf) (ld_token_bytes d)"
    by (auto simp: issue_session_def session_new_def sessions_insert_def st_invert Let_def)
  from assms have t: "db_sessions t = update_where (\<lambda>r. sr_id r = s_id ?x) (\<lambda>r. r\<lparr>sr_last_seen_at := now\<rparr>)
      (db_sessions s @ [session_to_row ?x]) \<or> db_sessions t = db_sessions s @ [session_to_row ?x]"
    using sessions_touch_sessions [of env "s_id ?x" now
        "tick (s\<lparr>db_sessions := db_sessions s @ [session_to_row ?x]\<rparr>)"]
    by (auto simp: issue_session_def session_new_def sessions_insert_def users_update_last_login_def
        st_invert Let_def)
  have "update_where (\<lambda>r. sr_id r = s_id ?x) (\<lambda>r. r\<lparr>sr_last_seen_at := now\<rparr>)
      (db_sessions s @ [session_to_row ?x]) = db_sessions s @ [session_to_row ?x]"
    using ok(1) x by (auto simp: update_where_def list_ex_iff session_to_row_def intro!: map_idI)
  then show ?thesis using that ok t by auto
qed

section \<open>Login\<close>

text \<open>The two-factor service writes neither accounts nor sessions.\<close>

interpretation accounts_frame: tf_frame "\<lambda>s. db_users s = U \<and> db_sessions s = S" for U S
  by unfold_locales (auto simp: tickless_def)

lemma has_active_factor_frame:
  "has_active_factor env u s = (r, t) \<Longrightarrow> db_users t = db_users s \<and> db_sessions t = db_sessions s"
  using keeps_run [OF accounts_frame.keeps_tf_methods(4)] by blast

lemma try_remember_device_frame:
  assumes "try_remember_device env tf u ip ua cookie now s = (r, t)"
  shows "db_users t = db_users s \<and> db_sessions t = db_sessions s"
proof -
  have "keeps (\<lambda>x. db_users x = db_users s \<and> db_sessions x = db_sessions s)
      (try_remember_device env tf u ip ua cookie now)"
    unfolding try_remember_device_def login_denied_def id_audit_def
    by (intro keeps_intros accounts_frame.keeps_audit_record accounts_frame.keeps_tf_methods)
  from keeps_run [OF this _ assms] show ?thesis by simp
qed

lemma try_remember_device_True:
  assumes "try_remember_device env tf u ip ua cookie now s = (Inr True, t)"
  shows "\<exists>c p. cookie = Some c \<and>
      validate_remember_device (tf_crypto tf) (tf_payload_json tf) (tf_master_key tf) c
        (case ua of None \<Rightarrow> [] | Some x \<Rightarrow> x) (case ip of None \<Rightarrow> [] | Some x \<Rightarrow> x) now = Inr p \<and>
      rd_user_id p = u_id u \<and>
      (\<exists>f \<in> set (db_factors s). fr_id f = rd_factor_id p \<and> fr_user_id f = u_id u \<and> fr_revoked_at f = None)"
proof -
  from assms obtain c fid s1 where c: "cookie = Some c"
    and acc: "accept_remember_device env tf c (case ua of None \<Rightarrow> [] | Some x \<Rightarrow> x)
      (case ip of None \<Rightarrow> [] | Some x \<Rightarrow> x) now s = (Inr (u_id u, fid), s1)"
    by (auto simp: try_remember_device_def login_denied_def st_invert)
  show ?thesis
    using accept_remember_device_Inr [OF acc] c by fastforce
qed

lemma login_Authenticated:
  assumes "login env tf d now name plaintext ip ua cookie s = (Inr (Authenticated v tok), t)"
  obtains r u where "r \<in> set (db_users s)" and "into_user r = Inr u"
    and "ur_username r = name \<or> ur_email r = name"
    and "ur_disabled_at r = None" and "v = user_record_login now u"
    and "password_verify (tf_crypto tf) (Password (ur_password_hash r)) plaintext = Inr True"
    and "(\<exists>f \<in> set (db_factors s). fr_user_id f = ur_id r \<and> fr_revoked_at f = None) \<Longrightarrow>
      \<exists>s1 s2. try_remember_device env tf u ip ua cookie now s1 = (Inr True, s2) \<and>
        db_factors s1 = db_factors s"
    and "db_sessions t = db_sessions s @ [session_to_row (fst (session_new (tf_crypto tf)
        (ld_session_salt d) (ld_session_id d) now (u_id u) (u_role u) tok ip ua))]"
proof -
  from assms obtain u s1 b s2 s3 where
    u: "find_login_user env name s = (Inr u, s1)" "\<not> user_is_disabled u"
      "password_verify (tf_crypto tf) (u_password u) plaintext = Inr True"
    and b: "has_active_factor env (u_id u) s1 = (Inr b, s2)"
    and rem: "(if b then try_remember_device env tf u ip ua cookie now else sret True) s2 = (Inr True, s3)"
    and iss: "issue_session env tf d u ip ua now s3 = (Inr (v, tok), t)"
    by (auto simp: login_def login_denied_def st_invert)
  obtain r where r: "r \<in> set (db_users s)" "into_user r = Inr u" "ur_username r = name \<or> ur_email r = name"
    using find_login_user_Inr(1) [OF u(1)] by blast
  have s1: "db_factors s1 = db_factors s" "db_sessions s1 = db_sessions s"
    using find_login_user_Inr(2) [OF u(1)] by auto
  have s2: "db_factors s2 = db_factors s" "db_sessions s2 = db_sessions s"
    using has_active_factor_Inr(2) [OF b] s1 by auto
  have s3: "db_sessions s3 = db_sessions s"
    using rem s2 try_remember_device_frame [of env tf u ip ua cookie now s2 "Inr True" s3]
    by (cases b) auto
  have "\<exists>s1 s2. try_remember_device env tf u ip ua cookie now s1 = (Inr True, s2) \<and> db_factors s1 = db_factors s"
    if "\<exists>f \<in> set (db_factors s). fr_user_id f = ur_id r \<and> fr_revoked_at f = None"
  proof -
    have b using has_active_factor_Inr(1) [OF b] that s1 into_user_fields(1) [OF r(2)] by simp
    then show ?thesis using rem s2 by auto
  qed
  moreover have "ur_disabled_at r = None" "Password (ur_password_hash r) = u_password u"
    using u(2) into_user_fields(4,6) [OF r(2)] by (simp_all add: user_is_disabled_def)
  moreover have "v = user_record_login now u" "db_sessions t = db_sessions s @
      [session_to_row (fst (session_new (tf_crypto tf) (ld_session_salt d) (ld_session_id d) now
        (u_id u) (u_role u) tok ip ua))]"
    using issue_session_Inr [OF iss] s3 by metis+
  ultimately show ?thesis
    using that [OF r(1,2,3)] u(3) by simp
qed

lemma login_FactorRequired:
  assumes "login env tf d now name plaintext ip ua cookie s = (Inr (FactorRequired u c), t)"
  shows "db_sessions t = db_sessions s"
proof -
  from assms obtain v s1 b s2 s3 where
    u: "find_login_user env name s = (Inr v, s1)"
    and b: "has_active_factor env (u_id v) s1 = (Inr b, s2)"
    and rem: "(if b then try_remember_device env tf v ip ua cookie now else sret True) s2 = (Inr False, s3)"
    and iss: "issue_login_challenge env tf (ld_challenge_salt d) (ld_challenge_id d)
             (ld_challenge_bytes d) (u_id v) ip ua now s3 = (Inr c, t)"
    by (auto simp: login_def login_denied_def st_invert)
  have "db_sessions s1 = db_sessions s" using find_login_user_Inr(2) [OF u] by auto
  moreover have "db_sessions s2 = db_sessions s1" using has_active_factor_Inr(2) [OF b] by simp
  moreover have "db_sessions s3 = db_sessions s2"
    using rem try_remember_device_frame [of env tf v ip ua cookie now s2 "Inr False" s3] by (cases b) auto
  moreover have "db_sessions t = db_sessions s3"
    using keeps_run [OF accounts_frame.keeps_tf_methods(11) _ iss] by blast
  ultimately show ?thesis by simp
qed

section \<open>Sessions\<close>

lemma resolve_session_Inr:
  assumes "resolve_session env cr now tok s = (Inr (u, x), t)"
  obtains r where "session_to_row x \<in> set (db_sessions s)" and "session_verify_token cr x tok"
    and "\<not> session_is_expired x now" and "r \<in> set (db_users s)" and "into_user r = Inr u"
    and "ur_id r = s_user_id x" and "ur_disabled_at r = None"
proof -
  from assms obtain r where x: "session_scan cr tok (db_sessions s) = Some x" "\<not> session_is_expired x now"
    and r: "find (\<lambda>r. ur_id r = s_user_id x) (db_users s) = Some r" "into_user r = Inr u"
      "\<not> user_is_disabled u"
    by (auto simp: resolve_session_def user_lookup_defs st_invert)
  show ?thesis
    using that [of r] session_scan_Some [OF x(1)] x(2) find_SomeD [OF r(1)] r into_user_fields(6) [OF r(2)]
    by (auto simp: user_is_disabled_def)
qed

lemma disable_user_Inr:
  assumes "disable_user env now i actor s = (Inr (), t)"
  shows "\<forall>r \<in> set (db_sessions t). sr_user_id r \<noteq> i"
    and "\<forall>r \<in> set (db_users t). ur_id r = i \<longrightarrow> ur_disabled_at r = Some now"
    and "\<exists>r \<in> set (db_users s). ur_id r = i"
proof -
  from assms obtain r u where r: "find (\<lambda>r. ur_id r = i) (db_users s) = Some r" "into_user r = Inr u"
    and t: "db_users t = update_where (\<lambda>r. ur_id r = u_id u) (\<lambda>r. r\<lparr>ur_disabled_at := Some now\<rparr>) (db_users s)"
      "db_sessions t = delete_where (\<lambda>r. sr_user_id r = u_id u) (db_sessions s)"
    by (auto simp: disable_user_def user_lookup_defs users_disable_def users_update_def
        sessions_delete_for_user_def st_invert)
  have i: "u_id u = i" using find_SomeD [OF r(1)] into_user_fields(1) [OF r(2)] by simp
  show "\<forall>r \<in> set (db_sessions t). sr_user_id r \<noteq> i" using t i by simp
  show "\<forall>r \<in> set (db_users t). ur_id r = i \<longrightarrow> ur_disabled_at r = Some now"
    using t i by (auto simp: update_where_def)
  show "\<exists>r \<in> set (db_users s). ur_id r = i" using find_SomeD [OF r(1)] by auto
qed

section \<open>Invariants of the accounts\<close>

definition user_row_wf :: "user_row \<Rightarrow> bool" where
  "user_row_wf r = (case into_user r of Inl _ \<Rightarrow> False | Inr u \<Rightarrow> user_wf u)"

text \<open>Two rows agree on the columns that identify an account and decide its rights.\<close>

definition same_identity :: "user_row \<Rightarrow> user_row \<Rightarrow> bool" where
  "same_identity r r' \<longleftrightarrow> ur_id r' = ur_id r \<and> ur_username r' = ur_username r \<and>
     ur_email r' = ur_email r \<and> ur_role r' = ur_role r \<and> ur_parent_account_id r' = ur_parent_account_id r"

definition owner_row :: "user_row \<Rightarrow> bool" where
  "owner_row r \<longleftrightarrow> ur_role r = role_as_str Owner"

lemma user_row_wf_iff:
  "user_row_wf r \<longleftrightarrow> (\<exists>un. username_new (ur_username r) = Inr un) \<and> (\<exists>em. email_new (ur_email r) = Inr em) \<and>
     (\<exists>role. role_from_str (ur_role r) = Inr role) \<and> ur_parent_account_id r \<noteq> Some (ur_id r)"
  by (auto simp: user_row_wf_def into_user_def user_restore_def user_wf_def rbind_def map_err_def
      split: sum.splits dest: username_vo.new_valid email_vo.new_valid)

lemma user_row_wf_same: "same_identity r r' \<Longrightarrow> user_row_wf r' = user_row_wf r"
  by (simp add: user_row_wf_iff same_identity_def)

lemma user_to_row_wf: "user_wf u \<Longrightarrow> user_row_wf (user_to_row u)"
  by (simp add: user_row_wf_def user_codec.roundtrip)

text \<open>
  What an invariant has to say of the writes of the user and session repositories, so
  that every method of the identity service keeps it.
\<close>

locale account_invariant = tf_frame P for P +
  assumes unique_ids: "P s \<Longrightarrow> distinct (map ur_id (db_users s))"
    and insert_user: "P s \<Longrightarrow> user_wf u \<Longrightarrow>
      \<not> list_ex (\<lambda>r. ur_id r = u_id u \<or> ur_username r = username_as_str (u_username u) \<or>
            ur_email r = email_as_str (u_email u)) (db_users s) \<Longrightarrow>
      P (s\<lparr>db_users := db_users s @ [user_to_row u]\<rparr>)"
    and update_user: "P s \<Longrightarrow> (\<And>r. same_identity r (f r)) \<Longrightarrow>
      P (s\<lparr>db_users := update_where (\<lambda>r. ur_id r = i) f (db_users s)\<rparr>)"
    and update_parent: "P s \<Longrightarrow> p \<noteq> Some i \<Longrightarrow>
      P (s\<lparr>db_users := update_where (\<lambda>r. ur_id r = i) (\<lambda>r. r\<lparr>ur_parent_account_id := p\<rparr>) (db_users s)\<rparr>)"
    and update_role: "P s \<Longrightarrow> (\<And>r. r \<in> set (db_users s) \<Longrightarrow> ur_id r = i \<Longrightarrow> owner_row r \<Longrightarrow> role = Owner) \<Longrightarrow>
      P (s\<lparr>db_users := update_where (\<lambda>r. ur_id r = i) (\<lambda>r. r\<lparr>ur_role := role_as_str role\<rparr>) (db_users s)\<rparr>)"
    and delete_user: "P s \<Longrightarrow> (\<And>r. r \<in> set (db_users s) \<Longrightarrow> ur_id r = i \<Longrightarrow> \<not> owner_row r) \<Longrightarrow> P (cascade_user i s)"
    and insert_session: "P s \<Longrightarrow>
      \<not> list_ex (\<lambda>r. sr_id r = s_id x \<or> sr_token_hash r = s_token_hash x) (db_sessions s) \<Longrightarrow>
      user_exists (s_user_id x) s \<Longrightarrow> P (s\<lparr>db_sessions := db_sessions s @ [session_to_row x]\<rparr>)"
    and touch_session: "P s \<Longrightarrow>
      P (s\<lparr>db_sessions := update_where (\<lambda>r. sr_id r = j) (\<lambda>r. r\<lparr>sr_last_seen_at := n\<rparr>) (db_sessions s)\<rparr>)"
    and drop_sessions: "P s \<Longrightarrow> P (s\<lparr>db_sessions := delete_where q (db_sessions s)\<rparr>)"
begin

lemma keeps_id_wrappers [keeps_intros]:
  "keeps P m \<Longrightarrow> keeps P (id_repo m)" "keeps P (id_audit env e)"
  "keeps P n \<Longrightarrow> keeps P (found_or d n)"
  unfolding id_repo_def id_audit_def found_or_def
  by (intro keeps_intros keeps_audit_record; assumption)+

lemma keeps_user_reads [keeps_intros]:
  "keeps P (users_find_by_id env i)" "keeps P (users_find_by_username env n)"
  "keeps P (users_find_by_email env m)" "keeps P (users_list env)" "keeps P (users_count env)"
  "keeps P (sessions_find_by_token_hash_match env cr tok)"
  unfolding user_lookup_defs users_find_def users_list_def users_count_def
    sessions_find_by_token_hash_match_def
  by (intro keeps_intros keeps_read)+

lemma keeps_users_update [keeps_intros]:
  "(\<And>r. same_identity r (f r)) \<Longrightarrow> keeps P (users_update env i f)"
  unfolding users_update_def by (intro keeps_write update_user)

lemma keeps_user_writes [keeps_intros]:
  "keeps P (users_disable env i now)" "keeps P (users_enable env i)"
  "keeps P (users_update_last_login env i now)" "keeps P (users_update_password env i h)"
  "keeps P (users_update_hosting_plan_id env i plan)"
  unfolding users_disable_def users_enable_def users_update_last_login_def
    users_update_password_def users_update_hosting_plan_id_def
  by (intro keeps_intros; simp add: same_identity_def)+

lemma keeps_session_writes [keeps_intros]:
  "keeps P (sessions_insert env x)" "keeps P (sessions_touch env j now)"
  "keeps P (sessions_delete env j)" "keeps P (sessions_delete_for_user env u)"
  "keeps P (sessions_purge_expired env now)"
  unfolding sessions_insert_def sessions_touch_def sessions_delete_def
    sessions_delete_for_user_def sessions_purge_expired_def
  by (intro keeps_write keeps_count; simp add: insert_session touch_session drop_sessions)+

lemma keeps_users_insert: "user_wf u \<Longrightarrow> keeps P (users_insert env u)"
  unfolding users_insert_def by (intro keeps_write) (simp add: insert_user)

lemma keeps_create_user_with_parents [keeps_intros]:
  "keeps P (create_user_with_parents env cr salt1 salt2 i now username email plaintext role parent plan actor)"
  unfolding create_user_with_parents_def
  by (intro keeps_slift_bind keeps_users_insert keeps_intros;
      auto dest: username_vo.new_valid email_vo.new_valid user_new_with_parents_wf)

lemma keeps_update_parent_account_id [keeps_intros]:
  "keeps P (update_parent_account_id env now i parent actor)"
proof -
  have "keeps P (users_update_parent_account_id env i p)" if "p \<noteq> Some i" for p
    unfolding users_update_parent_account_id_def users_update_def
    using that by (intro keeps_write update_parent)
  then show ?thesis
    unfolding update_parent_account_id_def
    by (intro keeps_sbind_result keepsD [of P] keeps_slift_bind keeps_intros)
       (auto simp: user_set_parent_account_id_def user_lookup_defs st_invert
         dest!: find_SomeD into_user_fields(1) split: if_splits)
qed

text \<open>A row found by its identifier is the only one with it, and carries the role of the account.\<close>

lemma found_row:
  assumes "P s" and "users_find_by_id env i s = (Inr (Some u), t)"
  shows "t = tick s" and "u_id u = i" and "r \<in> set (db_users s) \<Longrightarrow> ur_id r = i \<Longrightarrow> owner_row r = (u_role u = Owner)"
proof -
  from assms(2) obtain q where q: "find (\<lambda>r. ur_id r = i) (db_users s) = Some q" "into_user q = Inr u"
    and t: "t = tick s"
    by (auto simp: user_lookup_defs st_invert)
  show "t = tick s" by (rule t)
  show "u_id u = i" using find_SomeD [OF q(1)] into_user_fields(1) [OF q(2)] by simp
  show "owner_row r = (u_role u = Owner)" if "r \<in> set (db_users s)" "ur_id r = i"
  proof -
    have "r = q"
      using find_distinct [OF unique_ids [OF assms(1)] that(1)] that(2) q(1) by simp
    then show ?thesis
      using into_user_fields(5) [OF q(2)] by (auto simp: owner_row_def role_codec.enc_inject [symmetric])
  qed
qed

lemma keeps_change_role [keeps_intros]: "keeps P (change_role env now i role actor)"
  unfolding change_role_def
proof (intro keeps_sbind_result)
  fix s u t
  assume s: "P s" "P t" and "found_or UserNotFound (users_find_by_id env i) s = (Inr u, t)"
  then have u: "users_find_by_id env i s = (Inr (Some u), t)" by (simp add: st_invert)
  note row = found_row [OF s(1) u]
  show "P (snd (sbind (slift (map_err (\<lambda>_. LastOwner) (user_change_role role u))) (\<lambda>u.
     sbind (id_repo (users_update_role env (u_id u) (u_role u))) (\<lambda>_.
       id_audit env (with_metadata (JObject [(''new_role'', JString (role_as_str role))])
         (with_target (env_uuid_str env (u_id u)) (audit_event_new now actor ActRoleChanged Success))))) t))"
  proof (cases "user_change_role role u")
    case (Inr v)
    then have v: "u_id v = i" "u_role v = role" "u_role u = Owner \<longrightarrow> role = Owner"
      using row(2) by (auto simp: user_change_role_def split: if_splits)
    have "P (snd (users_update_role env i role t))"
      using s row v update_role [of t i role] tickless_tick [OF tickless_P]
      by (auto simp: users_update_role_def users_update_def sql_write_def split: option.splits)
    then show ?thesis
      using v Inr keepsD [OF keeps_id_wrappers(2)]
      by (cases "users_update_role env i role t")
         (auto simp: sbind_def id_repo_def smap_err_def map_err_def id_audit_def keepsD [OF keeps_audit_record]
            split: sum.splits)
  qed (use s in \<open>simp add: sbind_def\<close>)
qed (intro keeps_intros)

lemma keeps_delete_user [keeps_intros]: "keeps P (delete_user env now i actor)"
proof -
  have del: "P (snd (sbind (id_repo (sessions_delete_for_user env i)) (\<lambda>_.
      sbind (id_repo (users_delete env i)) (\<lambda>_. id_audit env e)) s))"
    if s: "P s" "\<And>r. r \<in> set (db_users s) \<Longrightarrow> ur_id r = i \<Longrightarrow> \<not> owner_row r" for s e
  proof -
    let ?Q = "\<lambda>s. P s \<and> (\<forall>r \<in> set (db_users s). ur_id r = i \<longrightarrow> \<not> owner_row r)"
    have "keeps ?Q (sbind (id_repo (sessions_delete_for_user env i)) (\<lambda>_.
      sbind (id_repo (users_delete env i)) (\<lambda>_. id_audit env e)))"
      unfolding id_repo_def id_audit_def audit_record_def sessions_delete_for_user_def users_delete_def
      using tickless_P drop_sessions delete_user audit_free
      by (intro keeps_intros keeps_sql_write) (auto simp: tickless_def cascade_user_def)
    then show ?thesis using s keepsD [of ?Q] by blast
  qed
  have tail: "keeps P (sbind (found_or UserNotFound (users_find_by_id env i)) (\<lambda>u.
     if u_role u = Owner then sfail LastOwner
     else
     sbind (id_repo (sessions_delete_for_user env (u_id u))) (\<lambda>_.
     sbind (id_repo (users_delete env (u_id u))) (\<lambda>_.
       id_audit env (with_target (env_uuid_str env (u_id u))
         (audit_event_new now actor ActUserDeleted Success))))))"
  proof (intro keeps_sbind_result)
    fix s u t
    assume s: "P s" "P t" and "found_or UserNotFound (users_find_by_id env i) s = (Inr u, t)"
    then have u: "users_find_by_id env i s = (Inr (Some u), t)" by (simp add: st_invert)
    note row = found_row [OF s(1) u]
    show "P (snd ((if u_role u = Owner then sfail LastOwner
     else
     sbind (id_repo (sessions_delete_for_user env (u_id u))) (\<lambda>_.
     sbind (id_repo (users_delete env (u_id u))) (\<lambda>_.
       id_audit env (with_target (env_uuid_str env (u_id u))
         (audit_event_new now actor ActUserDeleted Success))))) t))"
      using del [of t] row s by auto
  qed (intro keeps_intros)
  show ?thesis
    unfolding delete_user_def
    by (intro keeps_sbind [of P "id_repo (users_count env)"] keeps_if tail keeps_id_wrappers
        keeps_user_reads keeps_combinators)
qed

lemma keeps_issue_session [keeps_intros]: "keeps P (issue_session env tf d u ip ua now)"
  unfolding issue_session_def by (intro keeps_intros)

lemma keeps_identity_methods [keeps_intros]:
  "keeps P (create_user env cr salt1 salt2 j now username email plaintext role actor)"
  "keeps P (update_hosting_plan_id env now i plan actor)"
  "keeps P (list_users env)"
  "keeps P (disable_user env now i actor)" "keeps P (enable_user env now i actor)"
  "keeps P (change_password env cr salt now i p actor)"
  "keeps P (logout env cr now tok actor)" "keeps P (resolve_session env cr now tok)"
  "keeps P (verify_login_factor_with_factor env tf d now cid token resp ip ua)"
  "keeps P (try_remember_device env tf u ip ua cookie now)"
  "keeps P (find_login_user env name)"
  unfolding create_user_def update_hosting_plan_id_def list_users_def disable_user_def enable_user_def
    change_password_def logout_def resolve_session_def verify_login_factor_with_factor_def
    try_remember_device_def login_denied_def find_login_user_def
  by (intro keeps_intros)+

lemma keeps_login [keeps_intros]:
  "keeps P (login env tf d now name plaintext ip ua cookie)"
  "keeps P (verify_login_factor env tf d now cid token resp ip ua)"
  unfolding login_def verify_login_factor_def login_denied_def
  by (intro keeps_intros)+

end

text \<open>
  The keys are unique, every row of \<open>users\<close> is a valid account and every session
  belongs to one.
\<close>

definition accounts_wf :: "db \<Rightarrow> bool" where
  "accounts_wf s \<longleftrightarrow>
     distinct (map ur_id (db_users s)) \<and> distinct (map ur_username (db_users s)) \<and>
     distinct (map ur_email (db_users s)) \<and> list_all user_row_wf (db_users s) \<and>
     distinct (map sr_id (db_sessions s)) \<and> distinct (map sr_token_hash (db_sessions s)) \<and>
     list_all (\<lambda>r. user_exists (sr_user_id r) s) (db_sessions s)"

definition has_owner :: "uuid \<Rightarrow> db \<Rightarrow> bool" where
  "has_owner i s \<longleftrightarrow> list_ex (\<lambda>r. ur_id r = i \<and> owner_row r) (db_users s)"

lemma user_exists_iff: "user_exists i s \<longleftrightarrow> i \<in> set (map ur_id (db_users s))"
  by (auto simp: user_exists_def list_ex_iff)

lemma accounts_wf_update:
  assumes "accounts_wf s" and "\<And>r. ur_id (f r) = ur_id r" and "\<And>r. ur_username (f r) = ur_username r"
    and "\<And>r. ur_email (f r) = ur_email r" and "\<And>r. ur_id r = i \<Longrightarrow> user_row_wf r \<Longrightarrow> user_row_wf (f r)"
  shows "accounts_wf (s\<lparr>db_users := update_where (\<lambda>r. ur_id r = i) f (db_users s)\<rparr>)"
proof -
  have "list_all user_row_wf (update_where (\<lambda>r. ur_id r = i) f (db_users s))"
    using assms(1,5) by (auto simp: accounts_wf_def list_all_iff update_where_def)
  then show ?thesis
    using assms(1-4) by (simp add: accounts_wf_def user_exists_iff map_update_where del: set_map)
qed

lemma accounts_wf_cascade: "accounts_wf s \<Longrightarrow> accounts_wf (cascade_user i s)"
  by (auto simp: accounts_wf_def cascade_user_def distinct_map_delete_where list_all_iff user_exists_iff)

lemma accounts_wf_insert_user:
  assumes "accounts_wf s" "user_wf u" "\<not> list_ex (\<lambda>r. ur_id r = u_id u \<or>
     ur_username r = username_as_str (u_username u) \<or> ur_email r = email_as_str (u_email u)) (db_users s)"
  shows "accounts_wf (s\<lparr>db_users := db_users s @ [user_to_row u]\<rparr>)"
proof -
  have "ur_id (user_to_row u) = u_id u" "ur_username (user_to_row u) = username_as_str (u_username u)"
    "ur_email (user_to_row u) = email_as_str (u_email u)"
    by (simp_all add: user_to_row_def)
  then show ?thesis
    using assms user_to_row_wf [of u]
    by (auto simp: accounts_wf_def list_ex_iff list_all_iff user_exists_iff)
qed

lemma accounts_wf_sessions:
  assumes "accounts_wf s"
  shows "\<not> list_ex (\<lambda>r. sr_id r = s_id x \<or> sr_token_hash r = s_token_hash x) (db_sessions s) \<Longrightarrow>
      user_exists (s_user_id x) s \<Longrightarrow> accounts_wf (s\<lparr>db_sessions := db_sessions s @ [session_to_row x]\<rparr>)"
    and "accounts_wf (s\<lparr>db_sessions := update_where (\<lambda>r. sr_id r = j) (\<lambda>r. r\<lparr>sr_last_seen_at := n\<rparr>) (db_sessions s)\<rparr>)"
    and "accounts_wf (s\<lparr>db_sessions := delete_where q (db_sessions s)\<rparr>)"
proof -
  show "accounts_wf (s\<lparr>db_sessions := db_sessions s @ [session_to_row x]\<rparr>)"
    if "\<not> list_ex (\<lambda>r. sr_id r = s_id x \<or> sr_token_hash r = s_token_hash x) (db_sessions s)"
      "user_exists (s_user_id x) s"
  proof -
    have "sr_id (session_to_row x) = s_id x" "sr_token_hash (session_to_row x) = s_token_hash x"
      "sr_user_id (session_to_row x) = s_user_id x"
      by (simp_all add: session_to_row_def)
    then show ?thesis
      using assms that by (auto simp: accounts_wf_def list_ex_iff list_all_iff user_exists_iff)
  qed
  show "accounts_wf (s\<lparr>db_sessions := update_where (\<lambda>r. sr_id r = j) (\<lambda>r. r\<lparr>sr_last_seen_at := n\<rparr>) (db_sessions s)\<rparr>)"
    using assms
    by (auto simp: accounts_wf_def map_update_where list_all_iff user_exists_iff elim!: update_where_cases)
  show "accounts_wf (s\<lparr>db_sessions := delete_where q (db_sessions s)\<rparr>)"
    using assms by (simp add: accounts_wf_def distinct_map_delete_where list_all_iff user_exists_iff)
qed

lemmas accounts_wf_steps = accounts_wf_insert_user accounts_wf_cascade accounts_wf_sessions

interpretation accounts: account_invariant accounts_wf
proof unfold_locales
  fix s f i assume "accounts_wf s" and "\<And>r. same_identity r (f r)"
  then show "accounts_wf (s\<lparr>db_users := update_where (\<lambda>r. ur_id r = i) f (db_users s)\<rparr>)"
    by (intro accounts_wf_update) (simp_all add: same_identity_def user_row_wf_iff)
next
  fix s p and i :: uuid assume "accounts_wf s" and "p \<noteq> Some i"
  then show "accounts_wf (s\<lparr>db_users :=
      update_where (\<lambda>r. ur_id r = i) (\<lambda>r. r\<lparr>ur_parent_account_id := p\<rparr>) (db_users s)\<rparr>)"
    by (intro accounts_wf_update) (simp_all add: user_row_wf_iff)
next
  fix s i role assume "accounts_wf s"
  then show "accounts_wf (s\<lparr>db_users :=
      update_where (\<lambda>r. ur_id r = i) (\<lambda>r. r\<lparr>ur_role := role_as_str role\<rparr>) (db_users s)\<rparr>)"
    by (intro accounts_wf_update) (simp_all add: user_row_wf_iff role_codec.dec_enc)
qed (simp_all add: accounts_wf_steps, simp_all add: tickless_def accounts_wf_def user_exists_def)

text \<open>An owner stays an owner: the role is never taken away and the account never deleted.\<close>

lemma has_owner_update:
  assumes "has_owner i s" and "\<And>r. ur_id (f r) = ur_id r"
    and "\<And>r. r \<in> set (db_users s) \<Longrightarrow> ur_id r = j \<Longrightarrow> owner_row r \<Longrightarrow> owner_row (f r)"
  shows "has_owner i (s\<lparr>db_users := update_where (\<lambda>r. ur_id r = j) f (db_users s)\<rparr>)"
proof -
  obtain r where r: "r \<in> set (db_users s)" "ur_id r = i" "owner_row r"
    using assms(1) by (auto simp: has_owner_def list_ex_iff)
  then show ?thesis
    using assms(2,3) unfolding has_owner_def list_ex_iff set_update_where
    by (intro bexI [of _ "if ur_id r = j then f r else r"])
       (auto simp: set_update_where intro: rev_image_eqI [of r])
qed

interpretation owners: account_invariant "\<lambda>s. accounts_wf s \<and> has_owner i s" for i
proof unfold_locales
  fix s f j assume s: "accounts_wf s \<and> has_owner i s" and f: "\<And>r. same_identity r (f r)"
  then have "has_owner i (s\<lparr>db_users := update_where (\<lambda>r. ur_id r = j) f (db_users s)\<rparr>)"
    by (intro has_owner_update) (auto simp: same_identity_def owner_row_def)
  then show "accounts_wf (s\<lparr>db_users := update_where (\<lambda>r. ur_id r = j) f (db_users s)\<rparr>) \<and>
      has_owner i (s\<lparr>db_users := update_where (\<lambda>r. ur_id r = j) f (db_users s)\<rparr>)"
    using s f accounts.update_user by blast
next
  fix s p and j :: uuid assume "accounts_wf s \<and> has_owner i s" and "p \<noteq> Some j"
  then show "accounts_wf (s\<lparr>db_users :=
      update_where (\<lambda>r. ur_id r = j) (\<lambda>r. r\<lparr>ur_parent_account_id := p\<rparr>) (db_users s)\<rparr>) \<and>
    has_owner i (s\<lparr>db_users :=
      update_where (\<lambda>r. ur_id r = j) (\<lambda>r. r\<lparr>ur_parent_account_id := p\<rparr>) (db_users s)\<rparr>)"
    using accounts.update_parent by (auto intro!: has_owner_update simp: owner_row_def)
next
  fix s j role assume s: "accounts_wf s \<and> has_owner i s"
    and "\<And>r. r \<in> set (db_users s) \<Longrightarrow> ur_id r = j \<Longrightarrow> owner_row r \<Longrightarrow> role = Owner"
  then have "has_owner i (s\<lparr>db_users :=
      update_where (\<lambda>r. ur_id r = j) (\<lambda>r. r\<lparr>ur_role := role_as_str role\<rparr>) (db_users s)\<rparr>)"
    by (intro has_owner_update) (auto simp: owner_row_def)
  then show "accounts_wf (s\<lparr>db_users :=
      update_where (\<lambda>r. ur_id r = j) (\<lambda>r. r\<lparr>ur_role := role_as_str role\<rparr>) (db_users s)\<rparr>) \<and>
    has_owner i (s\<lparr>db_users :=
      update_where (\<lambda>r. ur_id r = j) (\<lambda>r. r\<lparr>ur_role := role_as_str role\<rparr>) (db_users s)\<rparr>)"
    using s \<open>\<And>r. r \<in> set (db_users s) \<Longrightarrow> ur_id r = j \<Longrightarrow> owner_row r \<Longrightarrow> role = Owner\<close>
      accounts.update_role by blast
next
  fix s j assume "accounts_wf s \<and> has_owner i s"
    and "\<And>r. r \<in> set (db_users s) \<Longrightarrow> ur_id r = j \<Longrightarrow> \<not> owner_row r"
  then show "accounts_wf (cascade_user j s) \<and> has_owner i (cascade_user j s)"
    using accounts_wf_cascade by (auto simp: has_owner_def list_ex_iff cascade_user_def)
qed (simp_all add: accounts_wf_steps has_owner_def,
     simp_all add: tickless_def accounts_wf_def user_exists_def)

section \<open>An issued session resolves to its user\<close>

text \<open>What argon2 promises of a hash it has made.\<close>

definition argon2_contract :: "crypto \<Rightarrow> bool" where
  "argon2_contract cr \<longleftrightarrow> (\<forall>salt p. phc_error cr (argon2_default_hash cr salt p) = None \<and>
     argon2_verify cr (argon2_default_hash cr salt p) p)"

lemma session_new_verifies:
  "argon2_contract cr \<Longrightarrow> session_verify_token cr (fst (session_new cr salt i now u r tok ip ua)) tok"
  by (simp add: argon2_contract_def session_new_def session_verify_token_def)

lemma session_scan_append:
  "session_scan cr tok rows = None \<Longrightarrow> session_scan cr tok (rows @ rest) = session_scan cr tok rest"
  by (induction rows) (auto split: sum.splits if_splits)

definition enabled_account :: "uuid \<Rightarrow> db \<Rightarrow> bool" where
  "enabled_account i s \<longleftrightarrow> list_ex (\<lambda>r. ur_id r = i \<and> ur_disabled_at r = None) (db_users s)"

lemma enabled_account_found:
  assumes "accounts_wf s" and "enabled_account i s"
  obtains r u where "find (\<lambda>r. ur_id r = i) (db_users s) = Some r" and "into_user r = Inr u"
    and "u_id u = i" and "\<not> user_is_disabled u"
proof -
  obtain r where r: "r \<in> set (db_users s)" "ur_id r = i" "ur_disabled_at r = None"
    using assms(2) by (auto simp: enabled_account_def list_ex_iff)
  have "user_row_wf r" "distinct (map ur_id (db_users s))"
    using assms(1) r by (auto simp: accounts_wf_def list_all_iff)
  moreover obtain u where "into_user r = Inr u"
    using \<open>user_row_wf r\<close> by (auto simp: user_row_wf_def split: sum.splits)
  ultimately show ?thesis
    using that find_distinct [of ur_id "db_users s" r] r into_user_fields(1,6) by (metis user_is_disabled_def)
qed

lemma enabled_account_users:
  "enabled_account i s \<Longrightarrow> db_users t = db_users s \<Longrightarrow> enabled_account i t"
  by (simp add: enabled_account_def)

lemma enabled_account_last_login:
  "enabled_account i s \<Longrightarrow> db_users t =
     update_where (\<lambda>r. ur_id r = j) (\<lambda>r. r\<lparr>ur_last_login_at := Some now\<rparr>) (db_users s) \<Longrightarrow> enabled_account i t"
proof -
  assume "enabled_account i s" and t: "db_users t =
     update_where (\<lambda>r. ur_id r = j) (\<lambda>r. r\<lparr>ur_last_login_at := Some now\<rparr>) (db_users s)"
  then obtain r where r: "r \<in> set (db_users s)" "ur_id r = i" "ur_disabled_at r = None"
    by (auto simp: enabled_account_def list_ex_iff)
  have "(if ur_id r = j then r\<lparr>ur_last_login_at := Some now\<rparr> else r) \<in> set (db_users t)"
    using r(1) unfolding t set_update_where by (rule imageI)
  then show "enabled_account i t"
    using r unfolding enabled_account_def list_ex_iff by (elim bexI [rotated]) auto
qed

lemma tickless_enabled_account: "tickless (enabled_account i)"
  by (simp add: tickless_def enabled_account_def)

lemma enabled_account_frame:
  "keeps (enabled_account i) (users_update_last_login env j now)"
  "keeps (enabled_account i) (sessions_touch env k now)"
  "keeps (enabled_account i) (id_repo (sessions_insert env x))"
  "keeps (enabled_account i) (id_audit env e)"
  unfolding users_update_last_login_def users_update_def sessions_touch_def sessions_insert_def id_repo_def
    id_audit_def audit_record_def
  by (intro keeps_intros keeps_sql_write tickless_enabled_account;
      erule enabled_account_last_login enabled_account_users; simp)+

lemma issue_session_enabled: "keeps (enabled_account i) (issue_session env tf d u ip ua now)"
  unfolding issue_session_def by (intro keeps_intros enabled_account_frame)

lemma issued_session_resolves:
  assumes iss: "issue_session env tf d u ip ua now s = (Inr (v, tok), t)"
    and wf: "accounts_wf s" and en: "enabled_account (u_id u) s" and c: "argon2_contract (tf_crypto tf)"
    and fresh: "session_scan (tf_crypto tf) tok (db_sessions s) = None"
    and live: "now \<le> later" "later \<le> now + hours 24"
    and up: "env_fault env' = (\<lambda>_. None)"
  shows "\<exists>w x t'. resolve_session env' (tf_crypto tf) later tok t = (Inr (w, x), t') \<and>
    u_id w = u_id u \<and> s_user_id x = u_id u \<and> s_role x = u_role u"
proof -
  let ?x = "fst (session_new (tf_crypto tf) (ld_session_salt d) (ld_session_id d) now (u_id u) (u_role u) tok ip ua)"
  have t: "db_sessions t = db_sessions s @ [session_to_row ?x]"
    using issue_session_Inr [OF iss] by metis
  have "accounts_wf t" "enabled_account (u_id u) t"
    using keeps_run [OF accounts.keeps_issue_session wf iss] keeps_run [OF issue_session_enabled en iss] .
  then obtain r w where r: "find (\<lambda>r. ur_id r = u_id u) (db_users t) = Some r" "into_user r = Inr w"
    "u_id w = u_id u" "\<not> user_is_disabled w"
    by (rule enabled_account_found)
  have scan: "session_scan (tf_crypto tf) tok (db_sessions t) = Some ?x"
    using t fresh session_new_verifies [OF c]
    by (simp add: session_scan_append session_codec.roundtrip)
  have x: "s_user_id ?x = u_id u" "s_role ?x = u_role u" by (simp_all add: session_new_def)
  have "resolve_session env' (tf_crypto tf) later tok t = (Inr (w, ?x), tick (tick t))"
    using r scan x session_new_live [OF live] up
    by (simp add: resolve_session_def user_lookup_defs users_find_def found_or_def id_repo_def
        sessions_find_by_token_hash_match_def sql_read_def sbind_def smap_err_def ok_or_def)
  then show ?thesis using r x by blast
qed

text \<open>The two successful ends of the login flow.\<close>

lemma login_issues:
  assumes "login env tf d now name plaintext ip ua cookie s = (Inr (Authenticated v tok), t)"
    and "accounts_wf s"
  obtains u s' where "issue_session env tf d u ip ua now s' = (Inr (v, tok), t)" and "accounts_wf s'"
    and "enabled_account (u_id u) s'" and "db_sessions s' = db_sessions s"
proof -
  from assms obtain u s1 b s2 s3 where
    u: "find_login_user env name s = (Inr u, s1)" "\<not> user_is_disabled u"
    and b: "has_active_factor env (u_id u) s1 = (Inr b, s2)"
    and rem: "(if b then try_remember_device env tf u ip ua cookie now else sret True) s2 = (Inr True, s3)"
    and iss: "issue_session env tf d u ip ua now s3 = (Inr (v, tok), t)"
    by (auto simp: login_def login_denied_def st_invert)
  have s1: "db_users s1 = db_users s" "db_sessions s1 = db_sessions s"
    using find_login_user_Inr(2) [OF u(1)] by auto
  have s3: "db_users s3 = db_users s" "db_sessions s3 = db_sessions s"
    using rem s1 has_active_factor_frame [OF b]
      try_remember_device_frame [of env tf u ip ua cookie now s2 "Inr True" s3]
    by (cases b; simp)+
  have "accounts_wf s3"
    using assms(2) s3 by (simp add: accounts_wf_def user_exists_def)
  moreover have "enabled_account (u_id u) s3"
    using find_login_user_Inr(1) [OF u(1)] u(2) s3 into_user_fields(1,6)
    by (auto simp: enabled_account_def list_ex_iff user_is_disabled_def)
  ultimately show ?thesis using that iss s3 by blast
qed

lemma verify_login_factor_Inr:
  assumes "verify_login_factor_with_factor env tf d now cid token resp ip ua s = (Inr (v, f, tok), t)"
  obtains u s' where "verify_login_challenge_with_factor env tf ''two_factor'' cid token resp now s = (Inr (u_id u, f), s')"
    and "issue_session env tf d u ip ua now (tick s') = (Inr (v, tok), t)"
    and "enabled_account (u_id u) s'" and "v = user_record_login now u"
proof -
  from assms obtain i u r s1 where
    ver: "verify_login_challenge_with_factor env tf ''two_factor'' cid token resp now s = (Inr (i, f), s1)"
    and r: "find (\<lambda>r. ur_id r = i) (db_users s1) = Some r" "into_user r = Inr u" "\<not> user_is_disabled u"
    and iss: "issue_session env tf d u ip ua now (tick s1) = (Inr (v, tok), t)"
    by (auto simp: verify_login_factor_with_factor_def user_lookup_defs st_invert)
  have "i = u_id u" using find_SomeD [OF r(1)] into_user_fields(1) [OF r(2)] by simp
  moreover have "enabled_account i s1"
    using find_SomeD [OF r(1)] r(3) into_user_fields(6) [OF r(2)]
    by (auto simp: enabled_account_def list_ex_iff user_is_disabled_def)
  moreover have "v = user_record_login now u" using issue_session_Inr [OF iss] by metis
  ultimately show ?thesis using that ver iss by blast
qed

section \<open>Creating an account\<close>

lemma create_user_Inr:
  assumes "create_user_with_parents env cr salt1 salt2 i now username email plaintext role parent plan actor s
    = (Inr u, t)"
  shows "u_id u = i" and "username_as_str (u_username u) = username" and "email_as_str (u_email u) = email"
    and "u_role u = role" and "user_wf u" and "password_hash cr salt2 plaintext = Inr (u_password u)"
    and "u_disabled_at u = None"
    and "db_users t = db_users s @ [user_to_row u]" and "db_factors t = db_factors s"
    and "\<forall>r \<in> set (db_users s). ur_id r \<noteq> i \<and> ur_username r \<noteq> username \<and> ur_email r \<noteq> email"
proof -
  from assms obtain un em pw where
    v: "username_new username = Inr un" "email_new email = Inr em"
      "password_hash cr salt2 plaintext = Inr pw"
      "user_new_with_parents i un em pw role parent plan now = Inr u"
    and fresh: "\<not> list_ex (\<lambda>r. ur_id r = u_id u \<or> ur_username r = username_as_str (u_username u) \<or>
            ur_email r = email_as_str (u_email u)) (db_users s)"
    and t: "db_users t = db_users s @ [user_to_row u]" "db_factors t = db_factors s"
    by (auto simp: create_user_with_parents_def user_lookup_defs users_insert_def st_invert)
  have u: "u_id u = i" "u_username u = un" "u_email u = em" "u_role u = role" "u_disabled_at u = None"
      "u_password u = pw"
    using v(4) by (auto simp: user_new_with_parents_def split: if_splits)
  show "u_id u = i" "u_role u = role" "u_disabled_at u = None" "db_users t = db_users s @ [user_to_row u]"
    "db_factors t = db_factors s" "password_hash cr salt2 plaintext = Inr (u_password u)"
    using u t v by simp_all
  show n: "username_as_str (u_username u) = username" "email_as_str (u_email u) = email"
    using u v username_vo.new_keeps email_vo.new_keeps by auto
  show "user_wf u"
    using v user_new_with_parents_wf username_vo.new_valid email_vo.new_valid by blast
  show "\<forall>r \<in> set (db_users s). ur_id r \<noteq> i \<and> ur_username r \<noteq> username \<and> ur_email r \<noteq> email"
    using fresh u n by (auto simp: list_ex_iff)
qed

lemma logout_Inr:
  assumes "logout env cr now tok actor s = (Inr (), t)" and "distinct (map sr_id (db_sessions s))"
  obtains x where "session_scan cr tok (db_sessions s) = Some x"
    and "db_sessions t = delete_where (\<lambda>r. r = session_to_row x) (db_sessions s)"
proof -
  from assms(1) obtain x where x: "session_scan cr tok (db_sessions s) = Some x"
    and t: "db_sessions t = delete_where (\<lambda>r. sr_id r = s_id x) (db_sessions s)"
    by (auto simp: logout_def sessions_delete_def st_invert)
  have "sr_id r = s_id x \<longleftrightarrow> r = session_to_row x" if "r \<in> set (db_sessions s)" for r
  proof -
    have "session_to_row x \<in> set (db_sessions s)" "sr_id (session_to_row x) = s_id x"
      using session_scan_Some [OF x] by (simp_all add: session_to_row_def)
    then show ?thesis
      using that find_distinct [OF assms(2)] by (metis option.inject)
  qed
  then have "db_sessions t = delete_where (\<lambda>r. r = session_to_row x) (db_sessions s)"
    unfolding t delete_where_def by (intro filter_cong) auto
  then show ?thesis using that x by blast
qed

text \<open>The second step of a login, seen from the state it starts in.\<close>

lemma issue_session_challenges: "keeps (\<lambda>s. db_challenges s = C) (issue_session env tf d u ip ua now)"
  unfolding issue_session_def Let_def id_repo_def id_audit_def audit_record_def users_update_last_login_def users_update_def
    sessions_insert_def sessions_touch_def
  by (intro keeps_intros keeps_sql_write) (simp_all add: tickless_def)

lemma session_new_row:
  "sr_user_id (session_to_row (fst (session_new cr salt i now u r tok ip ua))) = u"
  "sr_role (session_to_row (fst (session_new cr salt i now u r tok ip ua))) = role_as_str r"
  by (simp_all add: session_new_def session_to_row_def Let_def split: prod.split)

lemma second_step_facts:
  assumes "verify_login_factor_with_factor env tf d now cid token resp ip ua s = (Inr (v, f, tok), t)"
  shows "\<exists>c x. find (\<lambda>c. tc_id c = cid) (db_challenges s) = Some c \<and>
    challenge_verify_token (tf_crypto tf) c token \<and> challenge_is_usable c now \<and> tc_user_id c = u_id v \<and>
    (\<exists>k s'. verify_response env tf ''two_factor'' (u_id v) resp now (tick (tick s)) = (Inr (Inr (f, k)), s')) \<and>
    enabled_account (u_id v) s \<and>
    sr_user_id x = u_id v \<and> sr_role x = role_as_str (u_role v) \<and> db_sessions t = db_sessions s @ [x]"
  using assms
proof (rule verify_login_factor_Inr)
  fix u s'
  assume chal: "verify_login_challenge_with_factor env tf ''two_factor'' cid token resp now s = (Inr (u_id u, f), s')"
    and iss: "issue_session env tf d u ip ua now (tick s') = (Inr (v, tok), t)"
    and en: "enabled_account (u_id u) s'" and v: "v = user_record_login now u"
  have id: "u_id v = u_id u" "u_role v = u_role u" by (simp_all add: v user_record_login_def)
  have frame: "db_users s' = db_users s" "db_sessions s' = db_sessions s"
    using keeps_run [OF accounts_frame.keeps_verify_login_challenge(1) _ chal, of "db_users s" "db_sessions s"] by simp_all
  have "enabled_account (u_id v) s"
    using en frame(1) enabled_account_users [of "u_id u" s' s] id by simp
  moreover from iss obtain x where "db_sessions t = db_sessions s @ [x]" "sr_user_id x = u_id v"
      "sr_role x = role_as_str (u_role v)"
    by (rule issue_session_Inr) (use frame(2) id session_new_row in auto)
  ultimately show ?thesis
    using chal id by (elim verify_login_challenge_Inr) (simp only:, blast)
qed

end
