(* ===== verification/Hierarchy_Service.thy ===== *)
theory Hierarchy_Service
  imports Hierarchy_Repo Identity_Service
begin

text \<open>
  \<open>HierarchyService\<close> of \<open>openpanel-app/src/account_hierarchy/service.rs\<close>: attaching and
  detaching accounts, the tree below an account, pools, claims and child accounts.
\<close>

definition h_found :: "'a option repo \<Rightarrow> 'a hcall" where
  "h_found m = sbind (h_sql m) (\<lambda>x. slift (ok_or HUserNotFound x))"

definition h_audit :: "env \<Rightarrow> audit_event \<Rightarrow> unit hcall" where
  "h_audit env e = signore (audit_record env e)"

definition id_json :: "env \<Rightarrow> uuid \<Rightarrow> json" where
  "id_json env i = JString (env_uuid_str env i)"

section \<open>Relationships\<close>

definition attach_child ::
    "env \<Rightarrow> instant \<Rightarrow> uuid \<Rightarrow> uuid \<Rightarrow> string \<Rightarrow> uuid \<Rightarrow> account_relationship hcall" where
  "attach_child env now parent_id child_id actor actor_id =
     (if parent_id = child_id then sfail Cycle
      else
      sbind (h_found (users_find_by_id env parent_id)) (\<lambda>_.
      sbind (h_found (users_find_by_id env child_id)) (\<lambda>_.
      sbind (parent_of env child_id) (\<lambda>existing.
      if existing \<noteq> None then sfail AlreadyAttached
      else
      sbind (path_exists env parent_id child_id) (\<lambda>path.
      if path then sfail Cycle
      else
      (let rel = relationship_new parent_id child_id actor_id now in
      sbind (insert_relationship env rel) (\<lambda>_.
      sbind (h_sql (users_update_parent_account_id env child_id (Some parent_id))) (\<lambda>_.
      sbind (h_audit env (with_metadata (JObject [(''parent_id'', id_json env parent_id)])
          (with_target (env_uuid_str env child_id)
            (audit_event_new now actor ActAccountHierarchyAttached Success)))) (\<lambda>_.
        sret rel)))))))))"

definition detach_child :: "env \<Rightarrow> instant \<Rightarrow> uuid \<Rightarrow> uuid \<Rightarrow> string \<Rightarrow> unit hcall" where
  "detach_child env now parent_id child_id actor =
     sbind (parent_of env child_id) (\<lambda>found.
     sbind (slift (ok_or HUserNotFound found)) (\<lambda>rel.
     if ar_parent_id rel \<noteq> parent_id then sfail HUserNotFound
     else
     sbind (detach env parent_id child_id) (\<lambda>_.
     sbind (h_sql (users_update_parent_account_id env child_id None)) (\<lambda>_.
       h_audit env (with_metadata (JObject [(''parent_id'', id_json env parent_id)])
         (with_target (env_uuid_str env child_id)
           (audit_event_new now actor ActAccountHierarchyDetached Success)))))))"

fun load_children :: "env \<Rightarrow> account_relationship list \<Rightarrow> user list hcall" where
  "load_children env [] = sret []"
| "load_children env (rel # rels) =
     sbind (h_sql (users_find_by_id env (ar_child_id rel))) (\<lambda>found.
     sbind (load_children env rels) (\<lambda>us.
       sret (case found of None \<Rightarrow> us | Some u \<Rightarrow> u # us)))"

definition hierarchy_children :: "env \<Rightarrow> uuid \<Rightarrow> user list hcall" where
  "hierarchy_children env parent_id = sbind (children_of env parent_id) (load_children env)"

section \<open>The tree\<close>

text \<open>\<open>by_parent\<close>: the accounts of a parent in the order of the list.\<close>

fun by_parent :: "user list \<Rightarrow> children_map" where
  "by_parent [] = Map.empty"
| "by_parent (u # us) =
     (case u_parent_account_id u of
        None \<Rightarrow> by_parent us
      | Some p \<Rightarrow> (by_parent us)(p \<mapsto> u_id u # (case by_parent us p of None \<Rightarrow> [] | Some ks \<Rightarrow> ks)))"

text \<open>The parent shown for a child: the first child of the child itself when it has one.\<close>

definition shown_parent :: "children_map \<Rightarrow> uuid \<Rightarrow> uuid \<Rightarrow> uuid" where
  "shown_parent kids kid parent =
     (case kids kid of None \<Rightarrow> parent | Some [] \<Rightarrow> parent | Some (g # _) \<Rightarrow> g)"

text \<open>
  The recursion follows the parent pointers of the table with no record of the
  accounts on the way. The first argument bounds its depth; \<open>None\<close> is a recursion
  that is deeper.
\<close>

fun append_children :: "nat \<Rightarrow> children_map \<Rightarrow> hierarchy_node \<Rightarrow> nat \<Rightarrow> hierarchy_node option" where
  "append_children 0 kids node depth = None"
| "append_children (Suc n) kids node depth =
     (case kids (hn_user_id node) of
        None \<Rightarrow> Some node
      | Some ks \<Rightarrow>
          map_option (foldl (\<lambda>nd child. node_push_child child nd) node)
            (those (map (\<lambda>kid.
               append_children n kids
                 (node_new kid (Some (shown_parent kids kid (hn_user_id node))) (depth + 1))
                 (depth + 1)) ks)))"

definition hierarchy_tree :: "env \<Rightarrow> nat \<Rightarrow> uuid \<Rightarrow> hierarchy_node option hcall" where
  "hierarchy_tree env depth_bound root_id =
     sbind (h_found (users_find_by_id env root_id)) (\<lambda>root.
     sbind (h_sql (users_list env)) (\<lambda>us.
       sret (append_children depth_bound (by_parent us)
         (node_new (u_id root) (u_parent_account_id root) 0) 0)))"

section \<open>Pools\<close>

definition set_pool :: "env \<Rightarrow> instant \<Rightarrow> uuid \<Rightarrow> pool_axis \<Rightarrow> u64 \<Rightarrow> string \<Rightarrow> quota_pool hcall" where
  "set_pool env now parent_id axis total_bytes actor =
     sbind (slift (quota_pool_new parent_id axis total_bytes now)) (\<lambda>pool.
     sbind (upsert_pool env pool) (\<lambda>_.
     sbind (h_audit env (with_metadata (JObject [(''axis'', JString (pool_axis_str axis)),
            (''total_bytes'', JNumber (int (unat total_bytes)))])
         (with_target (env_uuid_str env parent_id)
           (audit_event_new now actor ActAccountHierarchyPoolSet Success)))) (\<lambda>_.
       sret pool)))"

definition claim_pool ::
    "env \<Rightarrow> instant \<Rightarrow> uuid \<Rightarrow> uuid \<Rightarrow> pool_axis \<Rightarrow> u64 \<Rightarrow> string \<Rightarrow> pool_claim hcall" where
  "claim_pool env now parent_id child_id axis share_bytes actor =
     sbind (pools_of env parent_id) (\<lambda>pools.
     sbind (slift (ok_or PoolNotFound (find (\<lambda>p. qp_axis p = axis) pools))) (\<lambda>pool.
     sbind (repo_pool_usage env parent_id axis) (\<lambda>used.
     sbind (slift (check_pool_claim (qp_total_bytes pool) used share_bytes)) (\<lambda>_.
     sbind (slift (pool_claim_new parent_id child_id axis share_bytes now)) (\<lambda>claim.
     sbind (insert_claim env claim) (\<lambda>_.
     sbind (h_audit env (with_metadata (JObject [(''axis'', JString (pool_axis_str axis)),
            (''parent_id'', id_json env parent_id), (''share_bytes'', JNumber (int (unat share_bytes)))])
         (with_target (env_uuid_str env child_id)
           (audit_event_new now actor ActAccountHierarchyPoolClaimed Success)))) (\<lambda>_.
       sret claim)))))))"

definition release_claim :: "env \<Rightarrow> instant \<Rightarrow> uuid \<Rightarrow> uuid \<Rightarrow> pool_axis \<Rightarrow> string \<Rightarrow> unit hcall" where
  "release_claim env now parent_id child_id axis actor =
     sbind (remove_claim env parent_id child_id axis) (\<lambda>_.
       h_audit env (with_metadata (JObject [(''axis'', JString (pool_axis_str axis)),
            (''parent_id'', id_json env parent_id)])
         (with_target (env_uuid_str env child_id)
           (audit_event_new now actor ActAccountHierarchyPoolReleased Success))))"

record pool_usage_row =
  pu_axis :: pool_axis
  pu_total_bytes :: u64
  pu_used_bytes :: u64

fun usage_rows :: "env \<Rightarrow> uuid \<Rightarrow> quota_pool list \<Rightarrow> pool_usage_row list hcall" where
  "usage_rows env parent_id [] = sret []"
| "usage_rows env parent_id (p # ps) =
     sbind (repo_pool_usage env parent_id (qp_axis p)) (\<lambda>used.
     sbind (usage_rows env parent_id ps) (\<lambda>rows.
       sret (\<lparr>pu_axis = qp_axis p, pu_total_bytes = qp_total_bytes p, pu_used_bytes = used\<rparr> # rows)))"

definition pool_usage :: "env \<Rightarrow> uuid \<Rightarrow> pool_usage_row list hcall" where
  "pool_usage env parent_id = sbind (pools_of env parent_id) (usage_rows env parent_id)"

section \<open>Child accounts\<close>

definition can_create_child :: "role \<Rightarrow> role \<Rightarrow> bool" where
  "can_create_child caller child \<longleftrightarrow>
     (caller, child) \<in> {(Owner, Admin), (Owner, RoleUser), (Admin, RoleUser)}"

fun map_identity_err :: "identity_error \<Rightarrow> hierarchy_error" where
  "map_identity_err ParentAccountCycle = Cycle"
| "map_identity_err UserNotFound = HUserNotFound"
| "map_identity_err Forbidden = HForbidden"
| "map_identity_err e = HPersistence (identity_error_display e)"

record create_child_request =
  ccr_username :: string
  ccr_email :: string
  ccr_password :: string
  ccr_role :: role
  ccr_initial_plan_id :: "uuid option"

definition create_child ::
    "env \<Rightarrow> crypto \<Rightarrow> string \<Rightarrow> uuid \<Rightarrow> instant \<Rightarrow> uuid \<Rightarrow> create_child_request \<Rightarrow> string \<Rightarrow> uuid \<Rightarrow>
     user hcall" where
  "create_child env cr salt new_id now parent_id req actor actor_id =
     sbind (h_found (users_find_by_id env parent_id)) (\<lambda>parent.
     if \<not> can_create_child (u_role parent) (ccr_role req) then sfail HForbidden
     else
     sbind (slift (map_err (\<lambda>_. HPersistence ''password too short'')
         (password_hash cr salt (ccr_password req)))) (\<lambda>pw.
     sbind (slift (map_err (\<lambda>e. HPersistence (username_error_display e))
         (username_new (ccr_username req)))) (\<lambda>un.
     sbind (slift (map_err (\<lambda>e. HPersistence (domain_error_display e))
         (email_new (ccr_email req)))) (\<lambda>em.
     sbind (slift (map_err map_identity_err (user_new_with_parents new_id un em pw (ccr_role req)
         (Some parent_id) (ccr_initial_plan_id req) now))) (\<lambda>u.
     sbind (h_sql (users_insert env u)) (\<lambda>_.
     sbind (insert_relationship env (relationship_new parent_id (u_id u) actor_id now)) (\<lambda>_.
     sbind (case ccr_initial_plan_id req of
              None \<Rightarrow> sret ()
            | Some plan \<Rightarrow> h_sql (users_update_hosting_plan_id env (u_id u) (Some plan))) (\<lambda>_.
     sbind (h_audit env (with_metadata (JObject [(''parent_id'', id_json env parent_id)])
         (with_target (env_uuid_str env (u_id u))
           (audit_event_new now actor ActAccountHierarchyChildCreated Success)))) (\<lambda>_.
       sret u)))))))))"

section \<open>The tree below an account\<close>

fun tree_ids :: "hierarchy_node \<Rightarrow> uuid list" where
  "tree_ids (HierarchyNode u p d cs) = u # concat (map tree_ids cs)"

lemma node_new_fields [simp]:
  "hn_user_id (node_new i p d) = i" "hn_parent_id (node_new i p d) = p" "hn_depth (node_new i p d) = d"
  "hn_children (node_new i p d) = []"
  by (simp_all add: node_new_def)

lemma those_Some_iff: "those xs = Some ys \<longleftrightarrow> xs = map Some ys"
  by (induction xs arbitrary: ys) (auto split: option.splits)

lemma those_None: "None \<in> set xs \<Longrightarrow> those xs = None"
  by (induction xs) (auto split: option.splits)

lemma map_Some_mono:
  "map f ks = map Some cs \<Longrightarrow> (\<And>k r. f k = Some r \<Longrightarrow> g k = Some r) \<Longrightarrow> map g ks = map Some cs"
  by (induction ks arbitrary: cs) auto

lemma foldl_push_children:
  "foldl (\<lambda>nd c. node_push_child c nd) n cs =
     HierarchyNode (hn_user_id n) (hn_parent_id n) (hn_depth n) (hn_children n @ cs)"
  by (induction cs arbitrary: n) (simp_all add: node_push_child_def)

lemma append_children_mono:
  "append_children n kids node d = Some r \<Longrightarrow> n \<le> m \<Longrightarrow> append_children m kids node d = Some r"
proof (induction n arbitrary: m node d r)
  case (Suc n)
  then obtain m' where m: "m = Suc m'" "n \<le> m'" by (cases m) auto
  show ?case
  proof (cases "kids (hn_user_id node)")
    case None
    then show ?thesis using Suc.prems m by simp
  next
    case (Some ks)
    let ?child = "\<lambda>kid. node_new kid (Some (shown_parent kids kid (hn_user_id node))) (d + 1)"
    obtain cs where cs: "map (\<lambda>kid. append_children n kids (?child kid) (d + 1)) ks = map Some cs"
      and r: "r = foldl (\<lambda>nd child. node_push_child child nd) node cs"
      using Suc.prems(1) Some by (auto simp: those_Some_iff)
    have "map (\<lambda>kid. append_children m' kids (?child kid) (d + 1)) ks = map Some cs"
      using cs by (rule map_Some_mono) (rule Suc.IH [OF _ m(2)])
    then have "those (map (\<lambda>kid. append_children m' kids (?child kid) (d + 1)) ks) = Some cs"
      by (simp add: those_Some_iff)
    then show ?thesis using Some m r by simp
  qed
qed simp

text \<open>On acyclic parent pointers the recursion ends, and the tree holds exactly the accounts below the root.\<close>

lemma append_children_total:
  assumes "wf ((child_edge kids)\<inverse>)"
  shows "\<exists>n r. append_children n kids (node_new i p d) d = Some r \<and>
    set (tree_ids r) = {j. (i, j) \<in> (child_edge kids)\<^sup>*}"
  using assms
proof (induction i arbitrary: p d rule: wf_induct_rule)
  case (less i)
  have below: "{j. (i, j) \<in> (child_edge kids)\<^sup>*} =
      insert i (\<Union>k \<in> {k. (i, k) \<in> child_edge kids}. {j. (k, j) \<in> (child_edge kids)\<^sup>*})"
    by (auto intro: converse_rtrancl_into_rtrancl elim: converse_rtranclE)
  show ?case
  proof (cases "kids i")
    case None
    then have "append_children 1 kids (node_new i p d) d = Some (node_new i p d)"
      and "{k. (i, k) \<in> child_edge kids} = {}"
      by (simp_all add: node_new_def child_edge_def)
    then show ?thesis
      using below by (intro exI [of _ 1] exI [of _ "node_new i p d"]) (simp add: node_new_def)
  next
    case (Some ks)
    let ?child = "\<lambda>kid. node_new kid (Some (shown_parent kids kid i)) (d + 1)"
    have edges: "{k. (i, k) \<in> child_edge kids} = set ks"
      using Some by (simp add: child_edge_def)
    have "\<forall>k \<in> set ks. \<exists>n r. append_children n kids (?child k) (d + 1) = Some r \<and>
        set (tree_ids r) = {j. (k, j) \<in> (child_edge kids)\<^sup>*}"
      using less edges by blast
    then obtain n r where nr: "\<And>k. k \<in> set ks \<Longrightarrow> append_children (n k) kids (?child k) (d + 1) = Some (r k)"
      "\<And>k. k \<in> set ks \<Longrightarrow> set (tree_ids (r k)) = {j. (k, j) \<in> (child_edge kids)\<^sup>*}"
      by metis
    let ?N = "sum_list (map n ks)"
    have "append_children ?N kids (?child k) (d + 1) = Some (r k)" if "k \<in> set ks" for k
      using append_children_mono [OF nr(1) [OF that]] member_le_sum_list [of "n k" "map n ks"] that by simp
    then have "those (map (\<lambda>k. append_children ?N kids (?child k) (d + 1)) ks) = Some (map r ks)"
      by (simp add: those_Some_iff)
    then have "append_children (Suc ?N) kids (node_new i p d) d =
        Some (foldl (\<lambda>nd c. node_push_child c nd) (node_new i p d) (map r ks))"
      using Some by simp
    moreover have "set (tree_ids (foldl (\<lambda>nd c. node_push_child c nd) (node_new i p d) (map r ks))) =
        {j. (i, j) \<in> (child_edge kids)\<^sup>*}"
      using nr(2) below edges by (simp add: foldl_push_children)
    ultimately show ?thesis by blast
  qed
qed

text \<open>On a cycle it does not end.\<close>

lemma append_children_cycle:
  "(i, i) \<in> (child_edge kids)\<^sup>+ \<Longrightarrow> append_children n kids (node_new i p d) d = None"
proof (induction n arbitrary: i p d)
  case (Suc n)
  from Suc.prems obtain k where k: "(i, k) \<in> child_edge kids" "(k, i) \<in> (child_edge kids)\<^sup>*"
    by (auto dest: tranclD)
  then have cyc: "(k, k) \<in> (child_edge kids)\<^sup>+"
    by (meson rtrancl_into_trancl1)
  obtain ks where ks: "kids i = Some ks" "k \<in> set ks"
    using k(1) by (auto simp: child_edge_def)
  have "None \<in> set (map (\<lambda>kid. append_children n kids (node_new kid
      (Some (shown_parent kids kid i)) (d + 1)) (d + 1)) ks)"
    using Suc.IH [OF cyc, of "Some (shown_parent kids k i)" "d + 1"] ks(2) by (auto intro: rev_image_eqI)
  from those_None [OF this] show ?case
    using ks(1) by simp
qed simp

text \<open>The edges the service follows are the parent pointers of the accounts.\<close>

lemma by_parent_edge:
  "(p, c) \<in> child_edge (by_parent us) \<longleftrightarrow> (\<exists>u \<in> set us. u_parent_account_id u = Some p \<and> u_id u = c)"
proof (induction us)
  case (Cons u us)
  then show ?case
    by (cases "u_parent_account_id u"; cases "by_parent us p") (auto simp: child_edge_def)
qed (simp add: child_edge_def)

definition parent_edge :: "db \<Rightarrow> uuid rel" where
  "parent_edge s = {(p, c). \<exists>r \<in> set (db_users s). ur_parent_account_id r = Some p \<and> ur_id r = c}"

lemma finite_parent_edge: "finite (parent_edge s)"
proof (rule finite_subset)
  show "parent_edge s \<subseteq> (\<lambda>r. (the (ur_parent_account_id r), ur_id r)) ` set (db_users s)"
    by (auto simp: parent_edge_def intro: rev_image_eqI)
qed simp

lemma users_list_edges:
  assumes "users_list env s = (Inr us, t)"
  shows "child_edge (by_parent us) = parent_edge s"
proof -
  have us: "collect_results into_user (sort_key ur_created_at (db_users s)) = Inr us"
    using assms by (simp add: users_list_def st_invert)
  have "\<exists>r \<in> set (db_users s). ur_parent_account_id r = u_parent_account_id u \<and> ur_id r = u_id u"
    if "u \<in> set us" for u
    using collect_results_from [OF us that] into_user_fields(1,7) by fastforce
  moreover have "\<exists>u \<in> set us. u_parent_account_id u = ur_parent_account_id r \<and> u_id u = ur_id r"
    if "r \<in> set (db_users s)" for r
    using collect_results_to [OF us, of r] that into_user_fields(1,7) by fastforce
  ultimately show ?thesis
    unfolding parent_edge_def by (auto simp: by_parent_edge) (metis, metis)
qed

section \<open>Attaching\<close>

lemma parent_of_None:
  "parent_of env c s = (Inr None, t) \<longleftrightarrow>
     env_fault env (db_tick s) = None \<and> t = tick s \<and>
     (\<forall>r \<in> set (db_relationships s). rel_child_id r = c \<longrightarrow> \<not> rel_active r)"
  by (auto simp: parent_of_def st_invert filter_empty_conv)

lemma keeps_path_walk: "tickless P \<Longrightarrow> keeps P (path_walk env a i n)"
  by (induction n arbitrary: i) (auto simp: h_sql_def intro!: keeps_intros)

lemma h_found_Inr [st_invert]: "h_found m s = (Inr x, t) \<longleftrightarrow> m s = (Inr (Some x), t)"
  by (auto simp: h_found_def st_invert)

lemma h_audit_run [simp]: "h_audit env e s = (Inr (), snd (audit_record env e s))"
  by (simp add: h_audit_def)

text \<open>
  What an invariant has to say of the writes of the hierarchy repository under the
  guards the service establishes. \<open>pool_ok\<close> restricts the totals that are declared.
\<close>

locale hierarchy_invariant = account_invariant P for P +
  fixes pool_ok :: "u64 \<Rightarrow> bool"
  assumes insert_rel: "P s \<Longrightarrow> ar_status r = RelActive \<Longrightarrow>
      \<not> list_ex (\<lambda>x. rel_parent_id x = ar_parent_id r \<and> rel_child_id x = ar_child_id r) (db_relationships s) \<Longrightarrow>
      user_exists (ar_parent_id r) s \<Longrightarrow> user_exists (ar_child_id r) s \<Longrightarrow>
      (\<And>x. x \<in> set (db_relationships s) \<Longrightarrow> rel_child_id x = ar_child_id r \<Longrightarrow> \<not> rel_active x) \<Longrightarrow>
      P (s\<lparr>db_relationships := db_relationships s @ [relationship_to_row r]\<rparr>)"
    and detach_rel: "P s \<Longrightarrow> P (s\<lparr>db_relationships :=
      update_where (\<lambda>r. rel_parent_id r = p \<and> rel_child_id r = c) (\<lambda>r. r\<lparr>rel_status := ''detached''\<rparr>)
        (db_relationships s)\<rparr>)"
    and new_child: "P s \<Longrightarrow> \<not> user_exists c s \<Longrightarrow> x \<in> set (db_relationships s) \<Longrightarrow> rel_child_id x \<noteq> c"
    and declare_pool: "P s \<Longrightarrow> pool_ok (qp_total_bytes pool) \<Longrightarrow> qp_total_bytes pool \<noteq> 0 \<Longrightarrow>
      user_exists (qp_parent_id pool) s \<Longrightarrow> P (s\<lparr>db_pools := upsert_pool_row (pool_to_row pool) (db_pools s)\<rparr>)"
    and admit_claim: "P s \<Longrightarrow> prow \<in> set (db_pools s) \<Longrightarrow> pr_parent_id prow = pc_parent_id claim \<Longrightarrow>
      pr_axis prow = pool_axis_str (pc_axis claim) \<Longrightarrow>
      sql_sum 0 (claim_shares (pc_parent_id claim) (pc_axis claim) s) = Some n \<Longrightarrow>
      check_pool_claim (pr_total_bytes prow) (word_of_int n) (pc_share_bytes claim) = Inr () \<Longrightarrow>
      \<not> list_ex (\<lambda>x. clr_parent_id x = pc_parent_id claim \<and> clr_child_id x = pc_child_id claim \<and>
               clr_axis x = pool_axis_str (pc_axis claim)) (db_claims s) \<Longrightarrow>
      user_exists (pc_parent_id claim) s \<Longrightarrow> user_exists (pc_child_id claim) s \<Longrightarrow>
      P (s\<lparr>db_claims := db_claims s @ [claim_to_row claim]\<rparr>)"
    and drop_claims: "P s \<Longrightarrow> P (s\<lparr>db_claims := delete_where q (db_claims s)\<rparr>)"
begin

lemma keeps_h_wrappers [keeps_intros]:
  "keeps P m \<Longrightarrow> keeps P (h_sql m)" "keeps P (h_audit env e)" "keeps P n \<Longrightarrow> keeps P (h_found n)"
  unfolding h_sql_def h_audit_def h_found_def
  by (intro keeps_intros keeps_audit_record; assumption)+

lemma keeps_h_reads [keeps_intros]:
  "keeps P (parent_of env c)" "keeps P (children_of env p)" "keeps P (pools_of env p)"
  "keeps P (claims_of env p)" "keeps P (repo_pool_usage env p axis)" "keeps P (path_exists env a i)"
  unfolding parent_of_def children_of_def pools_of_def claims_of_def repo_pool_usage_def path_exists_def
  by (intro keeps_intros keeps_read keeps_path_walk tickless_P)+

lemma keeps_update_parent_pointer:
  "p \<noteq> Some i \<Longrightarrow> keeps P (users_update_parent_account_id env i p)"
  unfolding users_update_parent_account_id_def users_update_def
  by (intro keeps_write) (simp add: update_parent)

text \<open>The child has no active parent: the guard of the insertion.\<close>

definition unattached :: "uuid \<Rightarrow> db \<Rightarrow> bool" where
  "unattached c s \<longleftrightarrow> P s \<and> (\<forall>r \<in> set (db_relationships s). rel_child_id r = c \<longrightarrow> \<not> rel_active r)"

lemma tickless_unattached: "tickless (unattached c)"
  using tickless_P by (simp add: tickless_def unattached_def)

lemma leads_insert_relationship:
  "leads (unattached c) P (insert_relationship env (relationship_new p c by_id now))"
  unfolding insert_relationship_def h_sql_def
  by (rule leads_combinators)
     (auto simp: leads_def sql_write_def tickless_tick [OF tickless_P] unattached_def relationship_new_def
        split: option.splits intro!: insert_rel)

lemma keeps_attach_child [keeps_intros]: "keeps P (attach_child env now p c actor actor_id)"
proof (cases "p = c")
  case False
  let ?rel = "relationship_new p c actor_id now"
  let ?tail = "sbind (path_exists env p c) (\<lambda>path.
      if path then sfail Cycle
      else
      (let rel = ?rel in
      sbind (insert_relationship env rel) (\<lambda>_.
      sbind (h_sql (users_update_parent_account_id env c (Some p))) (\<lambda>_.
      sbind (h_audit env (with_metadata (JObject [(''parent_id'', id_json env p)])
          (with_target (env_uuid_str env c)
            (audit_event_new now actor ActAccountHierarchyAttached Success)))) (\<lambda>_.
        sret rel)))))"
  have "leads (unattached c) P ?tail"
    unfolding Let_def path_exists_def
    using False
    by (intro leads_sbind_before keeps_path_walk tickless_unattached leads_combinators
        leads_sbind_after leads_insert_relationship keeps_intros keeps_update_parent_pointer)
       (simp_all add: unattached_def)
  then have lead: "unattached c t \<Longrightarrow> P (snd (?tail t))" for t
    by (rule leadsD)
  have tail: "P (snd ((if existing \<noteq> None then sfail AlreadyAttached else ?tail) t))"
    if "P s" "P t" "parent_of env c s = (Inr existing, t)" for s t existing
    using that lead [of t] by (cases existing) (auto simp: parent_of_None unattached_def)
  show ?thesis
    unfolding attach_child_def if_not_P [OF False]
    by (intro keeps_sbind [of P "h_found (users_find_by_id env p)"]
        keeps_sbind [of P "h_found (users_find_by_id env c)"] keeps_sbind_result [of P "parent_of env c"]
        keeps_h_wrappers keeps_h_reads keeps_user_reads tail)
qed (simp add: attach_child_def keeps_combinators)

lemma keeps_detach_child [keeps_intros]: "keeps P (detach_child env now p c actor)"
proof -
  have "keeps P (detach env p c)"
    unfolding detach_def by (intro keeps_intros keeps_write) (simp add: detach_rel)
  then show ?thesis
    unfolding detach_child_def by (intro keeps_intros keeps_update_parent_pointer) simp_all
qed

lemma keeps_set_pool: "pool_ok tot \<Longrightarrow> keeps P (set_pool env now p axis tot actor)"
  unfolding set_pool_def upsert_pool_def
  by (intro keeps_slift_bind keeps_intros keeps_write)
     (auto simp: quota_pool_new_def declare_pool split: if_splits)

lemma keeps_release_claim [keeps_intros]: "keeps P (release_claim env now p c axis actor)"
  unfolding release_claim_def remove_claim_def
  by (intro keeps_intros keeps_write) (simp add: drop_claims)


text \<open>The guards of a claim: the pool is there, and so much of it is in use.\<close>

definition has_pool :: "uuid \<Rightarrow> pool_axis \<Rightarrow> u64 \<Rightarrow> db \<Rightarrow> bool" where
  "has_pool p axis tot s \<longleftrightarrow> P s \<and> (\<exists>r \<in> set (db_pools s). pr_parent_id r = p \<and>
     pr_axis r = pool_axis_str axis \<and> pr_total_bytes r = tot)"

definition has_usage :: "uuid \<Rightarrow> pool_axis \<Rightarrow> u64 \<Rightarrow> u64 \<Rightarrow> db \<Rightarrow> bool" where
  "has_usage p axis tot used s \<longleftrightarrow> has_pool p axis tot s \<and>
     map_option word_of_int (sql_sum 0 (claim_shares p axis s)) = Some used"

lemma pools_of_has_pool:
  assumes "P s" and ps: "pools_of env p s = (Inr pools, t)" and hit: "find (\<lambda>p. qp_axis p = axis) pools = Some pool"
  shows "has_pool p axis (qp_total_bytes pool) t"
proof -
  have t: "t = tick s"
    and rows: "collect_results into_pool (sort_key pr_axis (filter (\<lambda>r. pr_parent_id r = p) (db_pools s))) = Inr pools"
    using ps by (simp_all add: pools_of_def st_invert)
  obtain r where "r \<in> set (db_pools s)" "pr_parent_id r = p" "into_pool r = Inr pool"
    using collect_results_from [OF rows] find_SomeD [OF hit] by fastforce
  then show ?thesis
    using find_SomeD [OF hit] assms(1) tickless_tick [OF tickless_P] t
    by (auto simp: has_pool_def into_pool_def quota_pool_new_def axis_codec.dec_iff split: if_splits
        intro!: bexI [of _ r])
qed

lemma usage_has_usage:
  assumes "has_pool p axis tot s" and "repo_pool_usage env p axis s = (Inr used, t)"
  shows "has_usage p axis tot used t"
  using assms tickless_tick [OF tickless_P]
  by (auto simp: has_usage_def has_pool_def repo_pool_usage_def claim_shares_def st_invert)

lemma leads_insert_claim:
  assumes "check_pool_claim tot used share = Inr ()" and "pool_claim_new p c axis share now = Inr claim"
  shows "leads (has_usage p axis tot used) P (insert_claim env claim)"
proof -
  have claim: "pc_parent_id claim = p" "pc_axis claim = axis" "pc_share_bytes claim = share"
    using assms(2) by (auto simp: pool_claim_new_def split: if_splits)
  have "P (s\<lparr>db_claims := db_claims s @ [claim_to_row claim]\<rparr>)"
    if "has_usage p axis tot used s"
      "\<not> list_ex (\<lambda>x. clr_parent_id x = pc_parent_id claim \<and> clr_child_id x = pc_child_id claim \<and>
               clr_axis x = pool_axis_str (pc_axis claim)) (db_claims s)"
      "user_exists (pc_parent_id claim) s" "user_exists (pc_child_id claim) s" for s
    using that assms(1) claim by (auto simp: has_usage_def has_pool_def intro!: admit_claim)
  then show ?thesis
    unfolding insert_claim_def h_sql_def
    by (intro leads_combinators)
       (auto simp: leads_def sql_write_def tickless_tick [OF tickless_P] has_usage_def has_pool_def
         split: option.splits)
qed

lemma keeps_claim_pool [keeps_intros]: "keeps P (claim_pool env now p c axis share actor)"
proof (rule keeps_leads)
  have sub: "has_usage p axis tot used s \<Longrightarrow> P s" "has_pool p axis tot s \<Longrightarrow> P s" for tot used s
    by (auto simp: has_usage_def has_pool_def)
  show "leads P P (claim_pool env now p c axis share actor)"
    unfolding claim_pool_def
  proof (rule leads_sbind [where R = "\<lambda>pools s. P s \<and>
      (\<forall>pool. find (\<lambda>p. qp_axis p = axis) pools = Some pool \<longrightarrow> has_pool p axis (qp_total_bytes pool) s)"],
      goal_cases)
    case (1 s e t)
    then show ?case using keeps_run [OF keeps_h_reads(3)] by blast
  next
    case (2 s pools t)
    then show ?case using pools_of_has_pool keeps_run [OF keeps_h_reads(3)] by blast
  next
    case (3 pools)
    show ?case
    proof (rule leads_slift_bind, goal_cases)
      case (2 pool)
      then have hit: "find (\<lambda>p. qp_axis p = axis) pools = Some pool"
        by (auto simp: ok_or_def split: option.splits)
      show ?case
      proof (rule leads_sbind [where R = "\<lambda>used. has_usage p axis (qp_total_bytes pool) used"], goal_cases)
        case (1 s e t)
        then show ?case using keeps_run [OF keeps_h_reads(5)] by blast
      next
        case (2 s used t)
        then show ?case using usage_has_usage hit by blast
      next
        case (3 used)
        show ?case
          by (intro leads_slift_bind leads_sbind_after leads_insert_claim keeps_intros; (erule sub)?; simp)
      qed
    qed simp
  qed
qed

lemma leads_new_child:
  assumes "user_wf u" and "\<And>x. keeps P (f x)"
  shows "keeps P (sbind (h_sql (users_insert env u)) (\<lambda>_.
    sbind (insert_relationship env (relationship_new p (u_id u) by_id now)) f))"
proof (rule keeps_leads, rule leads_sbind [where R = "\<lambda>_. unattached (u_id u)"])
  fix s e t assume "P s" "h_sql (users_insert env u) s = (Inl e, t)"
  then show "P t" using keeps_run [OF keeps_h_wrappers(1) [OF keeps_users_insert [OF assms(1)]]] by blast
next
  fix s x t assume s: "P s" and ins: "h_sql (users_insert env u) s = (Inr x, t)"
  then have "P t" using keeps_run [OF keeps_h_wrappers(1) [OF keeps_users_insert [OF assms(1)]]] by blast
  moreover have "\<not> user_exists (u_id u) s" "db_relationships t = db_relationships s"
    using ins by (auto simp: users_insert_def user_exists_def list_ex_iff st_invert)
  ultimately show "unattached (u_id u) t"
    using new_child [OF s] by (auto simp: unattached_def)
next
  show "leads (unattached (u_id u)) P (sbind (insert_relationship env (relationship_new p (u_id u) by_id now)) f)"
    by (intro leads_sbind_after leads_insert_relationship assms(2))
qed

lemma keeps_create_child [keeps_intros]:
  "keeps P (create_child env cr salt new_id now p req actor actor_id)"
  unfolding create_child_def
  by (intro keeps_sbind [of P "h_found (users_find_by_id env p)"] keeps_if keeps_slift_bind leads_new_child
      keeps_intros)
     (auto dest: username_vo.new_valid email_vo.new_valid user_new_with_parents_wf)

lemma keeps_load_children [keeps_intros]: "keeps P (load_children env rels)"
  by (induction rels) (auto intro!: keeps_intros)

lemma keeps_usage_rows [keeps_intros]: "keeps P (usage_rows env p pools)"
  by (induction pools) (auto intro!: keeps_intros)

lemma keeps_hierarchy_reads [keeps_intros]:
  "keeps P (hierarchy_children env p)" "keeps P (hierarchy_tree env n p)" "keeps P (pool_usage env p)"
  unfolding hierarchy_children_def hierarchy_tree_def pool_usage_def
  by (intro keeps_intros)+

end

section \<open>Well-formed tenancy\<close>

text \<open>
  Over the accounts with identifiers \<open>ids\<close>: keys are unique, every reference is to an
  account, and an account has at most one active parent.
\<close>

definition relations_ok :: "uuid set \<Rightarrow> relationship_row list \<Rightarrow> bool" where
  "relations_ok ids rels \<longleftrightarrow>
     distinct (map (\<lambda>r. (rel_parent_id r, rel_child_id r)) rels) \<and>
     list_all (\<lambda>r. rel_parent_id r \<in> ids \<and> rel_child_id r \<in> ids) rels \<and>
     distinct (map rel_child_id (filter rel_active rels))"

definition pools_ok :: "uuid set \<Rightarrow> pool_row list \<Rightarrow> bool" where
  "pools_ok ids pools \<longleftrightarrow>
     distinct (map (\<lambda>r. (pr_parent_id r, pr_axis r)) pools) \<and> list_all (\<lambda>r. pr_parent_id r \<in> ids) pools"

definition claims_ok :: "uuid set \<Rightarrow> claim_row list \<Rightarrow> bool" where
  "claims_ok ids claims \<longleftrightarrow>
     distinct (map (\<lambda>r. (clr_parent_id r, clr_child_id r, clr_axis r)) claims) \<and>
     list_all (\<lambda>r. clr_parent_id r \<in> ids \<and> clr_child_id r \<in> ids) claims"

definition account_ids :: "db \<Rightarrow> uuid set" where
  "account_ids s = set (map ur_id (db_users s))"

definition tenancy_wf :: "db \<Rightarrow> bool" where
  "tenancy_wf s \<longleftrightarrow> accounts_wf s \<and> relations_ok (account_ids s) (db_relationships s) \<and>
     pools_ok (account_ids s) (db_pools s) \<and> claims_ok (account_ids s) (db_claims s)"

lemma account_ids_simps [simp]:
  "account_ids (s\<lparr>db_users := db_users s @ [user_to_row u]\<rparr>) = insert (u_id u) (account_ids s)"
  "(\<And>r. ur_id (f r) = ur_id r) \<Longrightarrow>
     account_ids (s\<lparr>db_users := update_where (\<lambda>r. ur_id r = i) f (db_users s)\<rparr>) = account_ids s"
  "account_ids (cascade_user i s) = account_ids s - {i}"
proof -
  show "account_ids (s\<lparr>db_users := db_users s @ [user_to_row u]\<rparr>) = insert (u_id u) (account_ids s)"
    by (simp add: account_ids_def user_to_row_def)
  show "account_ids (s\<lparr>db_users := update_where (\<lambda>r. ur_id r = i) f (db_users s)\<rparr>) = account_ids s"
    if "\<And>r. ur_id (f r) = ur_id r"
    using map_update_where [of "\<lambda>r. ur_id r = i" ur_id f "db_users s"] that by (simp add: account_ids_def del: set_map)
  show "account_ids (cascade_user i s) = account_ids s - {i}"
    by (auto simp: account_ids_def cascade_user_def)
qed

lemma account_ids_frame [simp]:
  "account_ids (s\<lparr>db_tick := n\<rparr>) = account_ids s" "account_ids (s\<lparr>db_sessions := xs\<rparr>) = account_ids s"
  "account_ids (s\<lparr>db_relationships := ys\<rparr>) = account_ids s" "account_ids (s\<lparr>db_pools := zs\<rparr>) = account_ids s"
  "account_ids (s\<lparr>db_claims := cs\<rparr>) = account_ids s" "account_ids (s\<lparr>db_audit := l\<rparr>) = account_ids s"
  "account_ids (s\<lparr>db_factors := a\<rparr>) = account_ids s" "account_ids (s\<lparr>db_enrollments := b\<rparr>) = account_ids s"
  "account_ids (s\<lparr>db_recovery := c\<rparr>) = account_ids s" "account_ids (s\<lparr>db_recovery_seq := d\<rparr>) = account_ids s"
  "account_ids (s\<lparr>db_challenges := e\<rparr>) = account_ids s" "account_ids (s\<lparr>db_credentials := f\<rparr>) = account_ids s"
  "account_ids (s\<lparr>db_ceremonies := g\<rparr>) = account_ids s"
  by (simp_all add: account_ids_def)

lemma accounts_wf_frame [simp]:
  "accounts_wf (s\<lparr>db_tick := n\<rparr>) = accounts_wf s"
  "accounts_wf (s\<lparr>db_relationships := ys\<rparr>) = accounts_wf s" "accounts_wf (s\<lparr>db_pools := zs\<rparr>) = accounts_wf s"
  "accounts_wf (s\<lparr>db_claims := cs\<rparr>) = accounts_wf s" "accounts_wf (s\<lparr>db_audit := l\<rparr>) = accounts_wf s"
  "accounts_wf (s\<lparr>db_factors := a\<rparr>) = accounts_wf s" "accounts_wf (s\<lparr>db_enrollments := b\<rparr>) = accounts_wf s"
  "accounts_wf (s\<lparr>db_recovery := c\<rparr>) = accounts_wf s" "accounts_wf (s\<lparr>db_recovery_seq := d\<rparr>) = accounts_wf s"
  "accounts_wf (s\<lparr>db_challenges := e\<rparr>) = accounts_wf s" "accounts_wf (s\<lparr>db_credentials := f\<rparr>) = accounts_wf s"
  "accounts_wf (s\<lparr>db_ceremonies := g\<rparr>) = accounts_wf s"
  by (simp_all add: accounts_wf_def user_exists_def)

lemma user_exists_ids: "user_exists i s \<longleftrightarrow> i \<in> account_ids s"
  by (simp add: user_exists_iff account_ids_def)

lemma refs_mono:
  "relations_ok A rels \<Longrightarrow> relations_ok (insert i A) rels"
  "pools_ok A pools \<Longrightarrow> pools_ok (insert i A) pools"
  "claims_ok A claims \<Longrightarrow> claims_ok (insert i A) claims"
  by (auto simp: relations_ok_def pools_ok_def claims_ok_def list_all_iff)

lemma filter_delete_where: "filter q (delete_where p rows) = delete_where p (filter q rows)"
  by (simp add: delete_where_def conj_commute)

lemma refs_cascade:
  "relations_ok A rels \<Longrightarrow>
     relations_ok (A - {i}) (delete_where (\<lambda>r. rel_parent_id r = i \<or> rel_child_id r = i) rels)"
  "pools_ok A pools \<Longrightarrow> pools_ok (A - {i}) (delete_where (\<lambda>r. pr_parent_id r = i) pools)"
  "claims_ok A claims \<Longrightarrow>
     claims_ok (A - {i}) (delete_where (\<lambda>r. clr_parent_id r = i \<or> clr_child_id r = i) claims)"
  by (auto simp: relations_ok_def pools_ok_def claims_ok_def list_all_iff distinct_map_delete_where
      filter_delete_where)

lemma tenancy_wf_cascade: "tenancy_wf s \<Longrightarrow> tenancy_wf (cascade_user i s)"
  using refs_cascade accounts_wf_cascade
  by (simp add: tenancy_wf_def) (simp add: cascade_user_def)

lemma relations_ok_insert:
  assumes "relations_ok A rels" and "\<not> list_ex (\<lambda>x. rel_parent_id x = p \<and> rel_child_id x = c) rels"
    and "p \<in> A" "c \<in> A" and "\<And>x. x \<in> set rels \<Longrightarrow> rel_child_id x = c \<Longrightarrow> \<not> rel_active x"
    and "rel_parent_id r = p" "rel_child_id r = c"
  shows "relations_ok A (rels @ [r])"
  using assms by (auto simp: relations_ok_def list_all_iff list_ex_iff)

lemma relations_ok_detach:
  assumes "relations_ok A rels"
  shows "relations_ok A (update_where p (\<lambda>r. r\<lparr>rel_status := ''detached''\<rparr>) rels)"
proof -
  have "filter rel_active (update_where p (\<lambda>r. r\<lparr>rel_status := ''detached''\<rparr>) rels) =
      delete_where p (filter rel_active rels)"
    by (induction rels) (auto simp: rel_active_def)
  then show ?thesis
    using assms
    by (auto simp: relations_ok_def map_update_where distinct_map_delete_where list_all_iff
        elim!: update_where_cases)
qed

lemma pools_ok_upsert:
  assumes "pools_ok A pools" and "pr_parent_id r \<in> A"
  shows "pools_ok A (upsert_pool_row r pools)"
  using assms
  by (auto simp: pools_ok_def upsert_pool_row_def map_update_where list_all_iff list_ex_iff
      elim!: update_where_cases)

lemma claims_ok_insert:
  assumes "claims_ok A claims" and "\<not> list_ex (\<lambda>x. clr_parent_id x = p \<and> clr_child_id x = c \<and> clr_axis x = a) claims"
    and "p \<in> A" "c \<in> A" and "clr_parent_id r = p" "clr_child_id r = c" "clr_axis r = a"
  shows "claims_ok A (claims @ [r])"
  using assms by (auto simp: claims_ok_def list_all_iff list_ex_iff)

lemma claims_ok_delete: "claims_ok A claims \<Longrightarrow> claims_ok A (delete_where q claims)"
  by (simp add: claims_ok_def distinct_map_delete_where list_all_iff)

interpretation tenancy: hierarchy_invariant tenancy_wf "\<lambda>_. True"
proof unfold_locales
  fix s f i assume "tenancy_wf s" and f: "\<And>r. same_identity r (f r)"
  then show "tenancy_wf (s\<lparr>db_users := update_where (\<lambda>r. ur_id r = i) f (db_users s)\<rparr>)"
    using accounts.update_user [of s f i] by (simp add: tenancy_wf_def same_identity_def)
next
  fix s p and i :: uuid assume "tenancy_wf s" and "p \<noteq> Some i"
  then show "tenancy_wf (s\<lparr>db_users :=
      update_where (\<lambda>r. ur_id r = i) (\<lambda>r. r\<lparr>ur_parent_account_id := p\<rparr>) (db_users s)\<rparr>)"
    using accounts.update_parent [of s p i] by (simp add: tenancy_wf_def)
next
  fix s i role assume "tenancy_wf s"
    and "\<And>r. r \<in> set (db_users s) \<Longrightarrow> ur_id r = i \<Longrightarrow> owner_row r \<Longrightarrow> role = Owner"
  then show "tenancy_wf (s\<lparr>db_users :=
      update_where (\<lambda>r. ur_id r = i) (\<lambda>r. r\<lparr>ur_role := role_as_str role\<rparr>) (db_users s)\<rparr>)"
    using accounts.update_role [of s i role] by (simp add: tenancy_wf_def)
next
  fix s and r :: account_relationship
  assume "tenancy_wf s" "ar_status r = RelActive"
    "\<not> list_ex (\<lambda>x. rel_parent_id x = ar_parent_id r \<and> rel_child_id x = ar_child_id r) (db_relationships s)"
    "user_exists (ar_parent_id r) s" "user_exists (ar_child_id r) s"
    "\<And>x. x \<in> set (db_relationships s) \<Longrightarrow> rel_child_id x = ar_child_id r \<Longrightarrow> \<not> rel_active x"
  then show "tenancy_wf (s\<lparr>db_relationships := db_relationships s @ [relationship_to_row r]\<rparr>)"
    using relations_ok_insert [of "account_ids s" "db_relationships s" "ar_parent_id r" "ar_child_id r"
        "relationship_to_row r"]
    by (simp add: tenancy_wf_def relationship_to_row_def user_exists_ids)
next
  fix s c and x :: relationship_row assume "tenancy_wf s" "\<not> user_exists c s" "x \<in> set (db_relationships s)"
  then show "rel_child_id x \<noteq> c"
    by (auto simp: tenancy_wf_def relations_ok_def list_all_iff user_exists_ids)
next
  fix s and pool :: quota_pool assume "tenancy_wf s" "user_exists (qp_parent_id pool) s"
  then show "tenancy_wf (s\<lparr>db_pools := upsert_pool_row (pool_to_row pool) (db_pools s)\<rparr>)"
    using pools_ok_upsert [of "account_ids s" "db_pools s" "pool_to_row pool"]
    by (simp add: tenancy_wf_def pool_to_row_def user_exists_ids)
next
  fix s and claim :: pool_claim
  assume "tenancy_wf s"
    "\<not> list_ex (\<lambda>x. clr_parent_id x = pc_parent_id claim \<and> clr_child_id x = pc_child_id claim \<and>
        clr_axis x = pool_axis_str (pc_axis claim)) (db_claims s)"
    "user_exists (pc_parent_id claim) s" "user_exists (pc_child_id claim) s"
  then show "tenancy_wf (s\<lparr>db_claims := db_claims s @ [claim_to_row claim]\<rparr>)"
    using claims_ok_insert [of "account_ids s" "db_claims s" "pc_parent_id claim" "pc_child_id claim"
        "pool_axis_str (pc_axis claim)" "claim_to_row claim"]
    by (simp add: tenancy_wf_def claim_to_row_def user_exists_ids)
next
  show "tenancy_wf s \<Longrightarrow> distinct (map ur_id (db_users s))" for s
    by (simp add: tenancy_wf_def accounts_wf_def)
qed (auto simp: tenancy_wf_cascade,
     simp_all add: tenancy_wf_def tickless_def accounts_wf_steps refs_mono relations_ok_detach claims_ok_delete)

text \<open>An invariant of the accounts alone can be added to one of the hierarchy.\<close>

lemma hierarchy_invariant_extend:
  assumes p: "hierarchy_invariant P ok" and q: "account_invariant Q"
    and free: "\<And>s x. Q (s\<lparr>db_relationships := x\<rparr>) = Q s" "\<And>s x. Q (s\<lparr>db_pools := x\<rparr>) = Q s"
      "\<And>s x. Q (s\<lparr>db_claims := x\<rparr>) = Q s"
  shows "hierarchy_invariant (\<lambda>s. P s \<and> Q s) ok"
proof -
  note pa = hierarchy_invariant.axioms(1) [OF p]
  note frame = account_invariant.axioms(1) [OF pa] account_invariant.axioms(1) [OF q]
  note store = frame [THEN tf_frame.axioms(1)]
  note acc = account_invariant.insert_user account_invariant.update_user account_invariant.update_parent
    account_invariant.update_role account_invariant.delete_user account_invariant.insert_session
    account_invariant.touch_session account_invariant.drop_sessions
  note hier = hierarchy_invariant.insert_rel [OF p] hierarchy_invariant.detach_rel [OF p]
    hierarchy_invariant.new_child [OF p] hierarchy_invariant.declare_pool [OF p]
    hierarchy_invariant.admit_claim [OF p] hierarchy_invariant.drop_claims [OF p]
  show ?thesis
    by unfold_locales
       (use store [THEN store_invariant.tickless_P] in \<open>simp add: tickless_def\<close>,
        simp_all add: store [THEN store_invariant.audit_free] frame [THEN tf_frame.factor_free(1)]
          frame [THEN tf_frame.factor_free(2)] frame [THEN tf_frame.factor_free(3)]
          frame [THEN tf_frame.factor_free(4)] frame [THEN tf_frame.factor_free(5)]
          frame [THEN tf_frame.factor_free(6)] frame [THEN tf_frame.factor_free(7)] free,
        (blast intro: acc [OF pa] acc [OF q] hier(1,2) account_invariant.unique_ids [OF pa] |
          (elim conjE, rule hier; assumption))+)
qed


interpretation tenancy_owners: hierarchy_invariant
    "\<lambda>s. tenancy_wf s \<and> (accounts_wf s \<and> has_owner i s)" "\<lambda>_. True" for i
  by (rule hierarchy_invariant_extend)
     (rule tenancy.hierarchy_invariant_axioms, rule owners.account_invariant_axioms, simp_all add: has_owner_def)

section \<open>Capacity\<close>

text \<open>
  Totals below \<open>2 ^ 63\<close>, the range in which the signed column holds them as they are,
  keep every sum of claims in that range.
\<close>

definition within_capacity :: "db \<Rightarrow> bool" where
  "within_capacity s \<longleftrightarrow> (\<forall>r \<in> set (db_pools s). unat (pr_total_bytes r) < 2 ^ 63) \<and>
     (\<forall>p axis. claimed p axis s < 2 ^ 63)"

lemma sum_list_delete_le:
  "sum_list (map f (filter p (delete_where q xs))) \<le> sum_list (map (f :: _ \<Rightarrow> nat) (filter p xs))"
  by (induction xs) auto

lemma claimed_delete_le:
  "db_claims t = delete_where q (db_claims s) \<Longrightarrow> claimed p axis t \<le> claimed p axis s"
  using sum_list_delete_le [of "\<lambda>r. unat (clr_share_bytes r)"
      "\<lambda>r. clr_parent_id r = p \<and> clr_axis r = pool_axis_str axis" q "db_claims s"]
  by (simp add: claimed_def claim_shares_def comp_def)

lemma claimed_frame: "db_claims t = db_claims s \<Longrightarrow> claimed p axis t = claimed p axis s"
  by (simp add: claimed_def claim_shares_def)

lemma claimed_insert:
  "claimed p axis (s\<lparr>db_claims := db_claims s @ [claim_to_row c]\<rparr>) =
     claimed p axis s + (if pc_parent_id c = p \<and> pc_axis c = axis then unat (pc_share_bytes c) else 0)"
  by (simp add: claimed_def claim_shares_def claim_to_row_def axis_codec.enc_inject)

lemma within_capacity_frame [simp]:
  "within_capacity (s\<lparr>db_tick := n\<rparr>) = within_capacity s" "within_capacity (s\<lparr>db_users := us\<rparr>) = within_capacity s"
  "within_capacity (s\<lparr>db_sessions := xs\<rparr>) = within_capacity s"
  "within_capacity (s\<lparr>db_relationships := ys\<rparr>) = within_capacity s"
  "within_capacity (s\<lparr>db_audit := l\<rparr>) = within_capacity s"
  "within_capacity (s\<lparr>db_factors := a\<rparr>) = within_capacity s" "within_capacity (s\<lparr>db_enrollments := b\<rparr>) = within_capacity s"
  "within_capacity (s\<lparr>db_recovery := c\<rparr>) = within_capacity s" "within_capacity (s\<lparr>db_recovery_seq := d\<rparr>) = within_capacity s"
  "within_capacity (s\<lparr>db_challenges := e\<rparr>) = within_capacity s" "within_capacity (s\<lparr>db_credentials := f\<rparr>) = within_capacity s"
  "within_capacity (s\<lparr>db_ceremonies := g\<rparr>) = within_capacity s"
  by (simp_all add: within_capacity_def claimed_def claim_shares_def)

lemma within_capacity_drop:
  "within_capacity s \<Longrightarrow> set (db_pools t) \<subseteq> set (db_pools s) \<Longrightarrow>
     db_claims t = delete_where q (db_claims s) \<Longrightarrow> within_capacity t"
  unfolding within_capacity_def
  by (intro conjI ballI allI) (auto intro: le_less_trans [OF claimed_delete_le])

text \<open>What an accepted claim says of the shares: their sum stays within the total.\<close>

lemma admitted_claim:
  assumes "sql_sum 0 (claim_shares p axis s) = Some n" and "claimed p axis s < 2 ^ 63"
    and "check_pool_claim tot (word_of_int n) share = Inr ()"
  shows "min (claimed p axis s + unat share) (2 ^ 64 - 1) \<le> unat tot"
proof -
  have "n = int (claimed p axis s)"
    using assms(1,2) sql_sum_small [of 0] by (simp add: claimed_def)
  then have "unat (word_of_int n :: u64) = claimed p axis s"
    using assms(2) by (simp add: unat_of_nat take_bit_nat_eq_self)
  then show ?thesis
    using assms(3) check_pool_claim_Inr [of tot "word_of_int n" share] by simp
qed

lemma within_capacity_claim:
  assumes "within_capacity s" and "r \<in> set (db_pools s)"
    and "sql_sum 0 (claim_shares (pc_parent_id c) (pc_axis c) s) = Some n"
    and "check_pool_claim (pr_total_bytes r) (word_of_int n) (pc_share_bytes c) = Inr ()"
  shows "within_capacity (s\<lparr>db_claims := db_claims s @ [claim_to_row c]\<rparr>)"
proof -
  have "min (claimed (pc_parent_id c) (pc_axis c) s + unat (pc_share_bytes c)) (2 ^ 64 - 1) \<le>
      unat (pr_total_bytes r)"
    using assms by (intro admitted_claim) (auto simp: within_capacity_def)
  then have "claimed (pc_parent_id c) (pc_axis c) s + unat (pc_share_bytes c) < 2 ^ 63"
    using assms(1,2) by (fastforce simp: within_capacity_def)
  then show ?thesis
    using assms(1) by (auto simp: within_capacity_def claimed_insert)
qed

lemma within_capacity_pool:
  "within_capacity s \<Longrightarrow> unat (qp_total_bytes pool) < 2 ^ 63 \<Longrightarrow>
     within_capacity (s\<lparr>db_pools := upsert_pool_row (pool_to_row pool) (db_pools s)\<rparr>)"
  using claimed_frame [of "s\<lparr>db_pools := upsert_pool_row (pool_to_row pool) (db_pools s)\<rparr>" s]
  by (auto simp: within_capacity_def upsert_pool_row_def pool_to_row_def elim!: update_where_cases split: if_splits)

lemma cascade_tables:
  "db_pools (cascade_user i s) = delete_where (\<lambda>r. pr_parent_id r = i) (db_pools s)"
  "db_claims (cascade_user i s) = delete_where (\<lambda>r. clr_parent_id r = i \<or> clr_child_id r = i) (db_claims s)"
  by (simp_all add: cascade_user_def)

interpretation capacity: hierarchy_invariant "\<lambda>s. tenancy_wf s \<and> within_capacity s" "\<lambda>tot. unat tot < 2 ^ 63"
proof unfold_locales
  fix s prow n and claim :: pool_claim
  assume "tenancy_wf s \<and> within_capacity s" "prow \<in> set (db_pools s)"
    "pr_parent_id prow = pc_parent_id claim" "pr_axis prow = pool_axis_str (pc_axis claim)"
    "sql_sum 0 (claim_shares (pc_parent_id claim) (pc_axis claim) s) = Some n"
    "check_pool_claim (pr_total_bytes prow) (word_of_int n) (pc_share_bytes claim) = Inr ()"
    "\<not> list_ex (\<lambda>x. clr_parent_id x = pc_parent_id claim \<and> clr_child_id x = pc_child_id claim \<and>
        clr_axis x = pool_axis_str (pc_axis claim)) (db_claims s)"
    "user_exists (pc_parent_id claim) s" "user_exists (pc_child_id claim) s"
  then show "tenancy_wf (s\<lparr>db_claims := db_claims s @ [claim_to_row claim]\<rparr>) \<and>
      within_capacity (s\<lparr>db_claims := db_claims s @ [claim_to_row claim]\<rparr>)"
    using tenancy.admit_claim [of s prow claim n] within_capacity_claim [of s prow claim n] by blast
next
  fix s i assume "tenancy_wf s \<and> within_capacity s" "\<And>r. r \<in> set (db_users s) \<Longrightarrow> ur_id r = i \<Longrightarrow> \<not> owner_row r"
  then show "tenancy_wf (cascade_user i s) \<and> within_capacity (cascade_user i s)"
    using tenancy_wf_cascade within_capacity_drop [of s "cascade_user i s",
        OF _ _ cascade_tables(2)] cascade_tables(1) [of i s] by auto
next
  show "tickless (\<lambda>s. tenancy_wf s \<and> within_capacity s)"
    using tenancy.tickless_P by (simp add: tickless_def)
next
  fix s q assume "tenancy_wf s \<and> within_capacity s"
  then show "tenancy_wf (s\<lparr>db_claims := delete_where q (db_claims s)\<rparr>) \<and>
      within_capacity (s\<lparr>db_claims := delete_where q (db_claims s)\<rparr>)"
    using tenancy.drop_claims within_capacity_drop [of s _ q] by simp
qed (simp_all add: within_capacity_pool tenancy.audit_free tenancy.factor_free,
     (blast intro: tenancy.unique_ids tenancy.insert_user tenancy.update_user tenancy.update_parent
       tenancy.update_role tenancy.insert_session tenancy.touch_session tenancy.drop_sessions
       tenancy.insert_rel tenancy.detach_rel tenancy.declare_pool dest: tenancy.new_child)+)

section \<open>What the operations do\<close>

lemma claim_pool_Inr:
  assumes "claim_pool env now p c axis share actor s = (Inr claim, t)" and "within_capacity s"
  shows "\<exists>r \<in> set (db_pools s). pr_parent_id r = p \<and> pr_axis r = pool_axis_str axis \<and>
      claimed p axis t \<le> unat (pr_total_bytes r)"
    and "claimed p axis t = claimed p axis s + unat share"
proof -
  from assms(1) obtain pools pool used where
    pools: "pools_of env p s = (Inr pools, tick s)" "find (\<lambda>p. qp_axis p = axis) pools = Some pool"
    and used: "repo_pool_usage env p axis (tick s) = (Inr used, tick (tick s))"
    and chk: "check_pool_claim (qp_total_bytes pool) used share = Inr ()"
    and claim: "pool_claim_new p c axis share now = Inr claim"
    and t: "db_claims t = db_claims s @ [claim_to_row claim]"
    by (auto simp: claim_pool_def pools_of_def repo_pool_usage_def insert_claim_def st_invert)
  have f: "pc_parent_id claim = p" "pc_axis claim = axis" "pc_share_bytes claim = share"
    using claim by (auto simp: pool_claim_new_def split: if_splits)
  have small: "claimed p axis s < 2 ^ 63" using assms(2) by (simp add: within_capacity_def)
  have "claimed p axis t = claimed p axis (s\<lparr>db_claims := db_claims s @ [claim_to_row claim]\<rparr>)"
    using t by (intro claimed_frame) simp
  then show sum: "claimed p axis t = claimed p axis s + unat share"
    using claimed_insert [of p axis s claim] f by simp
  have "unat used = claimed p axis s"
    using repo_pool_usage_Inr(1) [OF used] claimed_frame [of "tick s" s] small by simp
  then have bound: "min (claimed p axis t) (2 ^ 64 - 1) \<le> unat (qp_total_bytes pool)"
    using chk sum check_pool_claim_Inr [of "qp_total_bytes pool" used share] by simp
  obtain r where r: "r \<in> set (db_pools s)" "pr_parent_id r = p" "pr_axis r = pool_axis_str axis"
      "pr_total_bytes r = qp_total_bytes pool"
    using collect_results_from [of into_pool _ pools] pools find_SomeD [OF pools(2)]
    by (fastforce simp: pools_of_def st_invert into_pool_def quota_pool_new_def axis_codec.dec_iff
        split: if_splits)
  moreover have "unat (pr_total_bytes r) < 2 ^ 63"
    using assms(2) r(1) by (simp add: within_capacity_def)
  ultimately show "\<exists>r \<in> set (db_pools s). pr_parent_id r = p \<and> pr_axis r = pool_axis_str axis \<and>
      claimed p axis t \<le> unat (pr_total_bytes r)"
    using bound by (intro bexI [of _ r]) auto
qed

lemma attach_child_Inr:
  assumes "attach_child env now p c actor actor_id s = (Inr rel, t)"
  shows "p \<noteq> c" and "rel = relationship_new p c actor_id now"
    and "\<forall>r \<in> set (db_relationships s). rel_child_id r = c \<longrightarrow> \<not> rel_active r"
    and "db_relationships t = db_relationships s @ [relationship_to_row rel]"
    and "db_users t = update_where (\<lambda>r. ur_id r = c) (\<lambda>r. r\<lparr>ur_parent_account_id := Some p\<rparr>) (db_users s)"
proof -
  from assms have pc: "p \<noteq> c" by (auto simp: attach_child_def)
  from assms pc obtain s1 s2 where par: "parent_of env c (tick (tick s)) = (Inr None, s1)"
    and path: "path_exists env p c s1 = (Inr False, s2)"
    and rel: "rel = relationship_new p c actor_id now"
    and t: "db_relationships t = db_relationships s2 @ [relationship_to_row rel]"
      "db_users t = update_where (\<lambda>r. ur_id r = c) (\<lambda>r. r\<lparr>ur_parent_account_id := Some p\<rparr>) (db_users s2)"
    by (auto simp: attach_child_def user_lookup_defs st_invert Let_def insert_relationship_def
        users_update_parent_account_id_def users_update_def)
  have "tickless (\<lambda>x. db_users x = db_users s \<and> db_relationships x = db_relationships s)"
    by (simp add: tickless_def)
  from keeps_run [OF keeps_path_walk [OF this] _ path [unfolded path_exists_def]]
  have s2: "db_users s2 = db_users s" "db_relationships s2 = db_relationships s"
    using par by (simp_all add: parent_of_None)
  show "p \<noteq> c" "rel = relationship_new p c actor_id now" by (fact pc rel)+
  show "\<forall>r \<in> set (db_relationships s). rel_child_id r = c \<longrightarrow> \<not> rel_active r"
    using par by (simp add: parent_of_None)
  show "db_relationships t = db_relationships s @ [relationship_to_row rel]"
    "db_users t = update_where (\<lambda>r. ur_id r = c) (\<lambda>r. r\<lparr>ur_parent_account_id := Some p\<rparr>) (db_users s)"
    using t s2 by simp_all
qed

text \<open>
  The search for a path starts at the child, which has no active parent at that point:
  without faults it never finds one, whatever lies below the child.
\<close>

lemma path_exists_unattached:
  assumes "env_fault env = (\<lambda>_. None)" and "p \<noteq> c"
    and "\<forall>r \<in> set (db_relationships s). rel_child_id r = c \<longrightarrow> \<not> rel_active r"
  shows "fst (path_exists env p c s) = Inr False"
proof -
  have "active_parent s c = None"
    using assms(3) by (auto simp: active_parent_def find_None_iff)
  then have "parent_chain s c 1025 = [c]"
    by (simp add: eval_nat_numeral)
  then show ?thesis
    using path_walk_chain [OF assms(1), of p c 1025 s] assms(2) by (simp add: path_exists_def)
qed

lemma user_row_wf_converts: "user_row_wf r \<Longrightarrow> \<exists>u. into_user r = Inr u"
  by (cases "into_user r") (simp_all add: user_row_wf_def)

lemma hierarchy_tree_total:
  assumes up: "env_fault env = (\<lambda>_. None)" and wf: "accounts_wf s" and root: "user_exists i s"
    and acyc: "acyclic (parent_edge s)"
  shows "\<exists>n. \<forall>m \<ge> n. \<exists>node t. hierarchy_tree env m i s = (Inr (Some node), t) \<and>
    set (tree_ids node) = {j. (i, j) \<in> (parent_edge s)\<^sup>*}"
proof -
  have rows: "list_all user_row_wf (db_users s)" "distinct (map ur_id (db_users s))"
    using wf by (simp_all add: accounts_wf_def)
  obtain r where r: "r \<in> set (db_users s)" "ur_id r = i"
    using root by (auto simp: user_exists_iff)
  obtain u where u: "into_user r = Inr u"
    using rows r(1) user_row_wf_converts by (auto simp: list_all_iff)
  have "\<exists>g. \<forall>q \<in> set (db_users s). into_user q = Inr (g q)"
    using rows(1) user_row_wf_converts by (intro bchoice) (auto simp: list_all_iff)
  then obtain g where "collect_results into_user (sort_key ur_created_at (db_users s)) =
      Inr (map g (sort_key ur_created_at (db_users s)))"
    using collect_results_map [of "sort_key ur_created_at (db_users s)" into_user] by auto
  then obtain us where us: "users_list env (tick s) = (Inr us, tick (tick s))"
    by (simp add: users_list_def sbind_def sql_eval [OF up])
  have edges: "child_edge (by_parent us) = parent_edge s"
    using users_list_edges [OF us] by (simp add: parent_edge_def)
  have "wf ((child_edge (by_parent us))\<inverse>)"
    unfolding edges using acyc finite_parent_edge by (simp add: finite_acyclic_wf_converse)
  then obtain n node where n: "append_children n (by_parent us) (node_new i (u_parent_account_id u) 0) 0 = Some node"
    "set (tree_ids node) = {j. (i, j) \<in> (child_edge (by_parent us))\<^sup>*}"
    using append_children_total by blast
  have "u_id u = i" using into_user_fields(1) [OF u] r by simp
  moreover have "find (\<lambda>q. ur_id q = i) (db_users s) = Some r"
    using find_distinct [OF rows(2) r(1)] r(2) by simp
  ultimately have "users_find_by_id env i s = (Inr (Some u), tick s)"
    using u up by (simp add: user_lookup_defs st_invert)
  then have hf: "h_found (users_find_by_id env i) s = (Inr u, tick s)"
    by (simp add: st_invert)
  have hl: "h_sql (users_list env) (tick s) = (Inr us, tick (tick s))"
    using us by (simp add: st_invert)
  have "hierarchy_tree env m i s = (Inr (Some node), tick (tick s))" if "n \<le> m" for m
    unfolding hierarchy_tree_def sbind_eval(1) [of "h_found (users_find_by_id env i)", OF hf]
      sbind_eval(1) [of "h_sql (users_list env)", OF hl] \<open>u_id u = i\<close>
      append_children_mono [OF n(1) that] by simp
  then show ?thesis
    using n(2) unfolding edges
    by (intro exI [of _ n] allI impI exI [of _ node] exI [of _ "tick (tick s)"] conjI)
qed

lemma found_account:
  assumes "env_fault env = (\<lambda>_. None)" and "accounts_wf s" and "user_exists i s"
  obtains u where "users_find_by_id env i s = (Inr (Some u), tick s)" and "u_id u = i"
proof -
  have rows: "list_all user_row_wf (db_users s)" "distinct (map ur_id (db_users s))"
    using assms(2) by (simp_all add: accounts_wf_def)
  obtain r where r: "r \<in> set (db_users s)" "ur_id r = i" using assms(3) by (auto simp: user_exists_iff)
  obtain u where u: "into_user r = Inr u"
    using rows r(1) user_row_wf_converts by (auto simp: list_all_iff)
  moreover have "find (\<lambda>q. ur_id q = i) (db_users s) = Some r"
    using find_distinct [OF rows(2) r(1)] r(2) by simp
  ultimately show thesis
    using that [of u] assms(1) into_user_fields(1) [OF u] r(2) by (simp add: user_lookup_defs st_invert)
qed

lemma found_accounts:
  assumes "env_fault env = (\<lambda>_. None)" and "accounts_wf s"
  obtains us where "users_list env s = (Inr us, tick s)"
proof -
  have "\<exists>g. \<forall>q \<in> set (db_users s). into_user q = Inr (g q)"
    using assms(2) user_row_wf_converts by (intro bchoice) (auto simp: list_all_iff accounts_wf_def)
  then obtain g where "collect_results into_user (sort_key ur_created_at (db_users s)) =
      Inr (map g (sort_key ur_created_at (db_users s)))"
    using collect_results_map [of "sort_key ur_created_at (db_users s)" into_user] by auto
  then show thesis using that by (simp add: users_list_def sbind_def sql_eval [OF assms(1)])
qed

text \<open>On a cycle of parent pointers the tree is not built, at any depth.\<close>

lemma hierarchy_tree_cycle:
  assumes "env_fault env = (\<lambda>_. None)" and "accounts_wf s" and "user_exists i s" and "(i, i) \<in> (parent_edge s)\<^sup>+"
  shows "fst (hierarchy_tree env n i s) = Inr None"
proof -
  obtain u where u: "users_find_by_id env i s = (Inr (Some u), tick s)" "u_id u = i"
    using found_account [OF assms(1-3)] .
  have wf: "accounts_wf (tick s)" using assms(2) by (simp add: tick_def)
  obtain us where us: "users_list env (tick s) = (Inr us, tick (tick s))"
    using found_accounts [OF assms(1) wf] .
  have "(i, i) \<in> (child_edge (by_parent us))\<^sup>+"
    using users_list_edges [OF us] assms(4) by (simp add: parent_edge_def)
  then have "append_children n (by_parent us) (node_new i (u_parent_account_id u) 0) 0 = None"
    by (rule append_children_cycle)
  then show ?thesis
    by (simp add: hierarchy_tree_def sbind_def h_found_def h_sql_def smap_err_def u us)
qed

text \<open>
  An account that has no active parent is attached to any other that it has no row with: the search
  for a path starts at the child and finds nothing above it.
\<close>

lemma attach_child_run:
  assumes up: "env_fault env = (\<lambda>_. None)" and wf: "accounts_wf s" and ids: "user_exists p s" "user_exists i s" "p \<noteq> i"
    and free: "\<forall>r \<in> set (db_relationships s). rel_child_id r = i \<longrightarrow> \<not> rel_active r"
    and new: "\<forall>r \<in> set (db_relationships s). rel_parent_id r = p \<longrightarrow> rel_child_id r \<noteq> i"
  shows "\<exists>t. attach_child env now p i actor by_id s = (Inr (relationship_new p i by_id now), t)"
proof -
  obtain u where u: "users_find_by_id env p s = (Inr (Some u), tick s)" using found_account [OF up wf ids(1)] .
  have t1: "accounts_wf (tick s)" "user_exists i (tick s)" using wf ids by (simp_all add: tick_def user_exists_def)
  obtain v where v: "users_find_by_id env i (tick s) = (Inr (Some v), tick (tick s))" using found_account [OF up t1] .
  let ?s = "tick (tick (tick s))"
  have par: "parent_of env i (tick (tick s)) = (Inr None, ?s)" using free up by (simp add: parent_of_None)
  have "fst (path_exists env p i ?s) = Inr False"
    using free ids(3) by (intro path_exists_unattached [OF up]) simp_all
  then obtain s4 where path: "path_exists env p i ?s = (Inr False, s4)" by (metis prod.collapse)
  have "tickless (\<lambda>x. db_users x = db_users s \<and> db_relationships x = db_relationships s)"
    by (simp add: tickless_def)
  from keeps_run [OF keeps_path_walk [OF this] _ path [unfolded path_exists_def]]
  have s4: "db_users s4 = db_users s" "db_relationships s4 = db_relationships s" by simp_all
  have ins: "insert_relationship env (relationship_new p i by_id now) s4 =
      (Inr (), tick (s4\<lparr>db_relationships := db_relationships s4 @ [relationship_to_row (relationship_new p i by_id now)]\<rparr>))"
    using ids new s4 up
    by (auto simp: insert_relationship_def st_invert list_ex_iff relationship_new_def user_exists_def)
  show ?thesis
    using ids(3)
    by (simp add: attach_child_def Let_def sbind_def h_found_def h_sql_def smap_err_def u v par path ins
        users_update_parent_account_id_def users_update_def sql_eval [OF up])
qed

end
