(* ===== verification/Plans_Service.thy ===== *)
theory Plans_Service
  imports Plans_Repo Hierarchy_Service
begin

text \<open>
  \<open>HostingPlansService\<close> of \<open>openpanel-app/src/hosting_plans/service.rs\<close>: the life cycle of
  plans, their assignment to accounts, and the resolver of effective caps with its cache of
  60 seconds. The cache is the field \<open>db_plan_cache\<close> of the state; a poisoned lock is a panic
  and not modelled.
\<close>

definition CACHE_TTL_SECONDS :: int where
  "CACHE_TTL_SECONDS = 60"

section \<open>The cache\<close>

definition cache_hit :: "instant \<Rightarrow> uuid \<Rightarrow> db \<Rightarrow> effective_quotas option" where
  "cache_hit now u s =
     (case db_plan_cache s u of
        None \<Rightarrow> None
      | Some (caps, stored_at) \<Rightarrow>
          if num_seconds (now - stored_at) \<le> CACHE_TTL_SECONDS then Some caps else None)"

definition cache_store :: "instant \<Rightarrow> uuid \<Rightarrow> effective_quotas \<Rightarrow> db \<Rightarrow> db" where
  "cache_store now u caps s = s\<lparr>db_plan_cache := (db_plan_cache s)(u \<mapsto> (caps, now))\<rparr>"

definition invalidate_cache :: "uuid option \<Rightarrow> unit pcall" where
  "invalidate_cache uid s =
     (Inr (), s\<lparr>db_plan_cache :=
       (case uid of Some u \<Rightarrow> (db_plan_cache s)(u := None) | None \<Rightarrow> Map.empty)\<rparr>)"

section \<open>Plans\<close>

definition p_audit :: "env \<Rightarrow> audit_event \<Rightarrow> unit pcall" where
  "p_audit env e = signore (audit_record env e)"

definition plan_found :: "env \<Rightarrow> plan_json \<Rightarrow> uuid \<Rightarrow> hosting_plan pcall" where
  "plan_found env js i = sbind (plans_find_by_id env js i) (\<lambda>x. slift (ok_or PlanNotFound x))"

definition create_plan ::
    "env \<Rightarrow> plan_json \<Rightarrow> uuid \<Rightarrow> instant \<Rightarrow> string \<Rightarrow> string \<Rightarrow> plan_quotas \<Rightarrow> string \<Rightarrow> hosting_plan pcall" where
  "create_plan env js new_id now name description caps actor =
     sbind (slift (hosting_plan_new new_id name description caps now)) (\<lambda>plan.
     sbind (plans_insert env js plan) (\<lambda>_.
     sbind (p_audit env (with_metadata (JObject [(''name'', JString (hp_name plan))])
         (with_target (env_uuid_str env (hp_id plan))
           (audit_event_new now actor ActPlanCreated Success)))) (\<lambda>_.
       sret plan)))"

definition set_features ::
    "(plan_feature \<times> plan_feature_state) list \<Rightarrow> instant \<Rightarrow> hosting_plan \<Rightarrow> hosting_plan" where
  "set_features fs now p = fold (\<lambda>(f, st). plan_set_feature f st now) fs p"

text \<open>\<open>new_features\<close> is a \<open>BTreeMap\<close>, given as the list of its entries.\<close>

definition update_plan ::
    "env \<Rightarrow> plan_json \<Rightarrow> instant \<Rightarrow> uuid \<Rightarrow> plan_quotas \<Rightarrow> (plan_feature \<times> plan_feature_state) list \<Rightarrow> string \<Rightarrow>
     hosting_plan pcall" where
  "update_plan env js now plan_id new_caps new_features actor =
     sbind (plan_found env js plan_id) (\<lambda>plan.
     if disk_bytes new_caps < disk_bytes (hp_quota_caps plan) then sfail WouldShrinkBelowUsage
     else if bandwidth_bytes_per_month new_caps < bandwidth_bytes_per_month (hp_quota_caps plan)
     then sfail WouldShrinkBelowUsage
     else
     (let plan = set_features new_features now (plan_set_quota_caps new_caps now plan) in
     sbind (plans_update env js plan) (\<lambda>_.
     sbind (invalidate_cache None) (\<lambda>_.
     sbind (p_audit env (with_metadata (JObject [(''name'', JString (hp_name plan))])
         (with_target (env_uuid_str env (hp_id plan))
           (audit_event_new now actor ActPlanUpdated Success)))) (\<lambda>_.
       sret plan)))))"

definition disable_plan :: "env \<Rightarrow> plan_json \<Rightarrow> instant \<Rightarrow> uuid \<Rightarrow> string \<Rightarrow> unit pcall" where
  "disable_plan env js now plan_id actor =
     sbind (plan_found env js plan_id) (\<lambda>plan.
     (let plan = plan_disable now plan in
     sbind (plans_update env js plan) (\<lambda>_.
     sbind (invalidate_cache None) (\<lambda>_.
       p_audit env (with_target (env_uuid_str env (hp_id plan))
         (audit_event_new now actor ActPlanDisabled Success))))))"

definition enable_plan :: "env \<Rightarrow> plan_json \<Rightarrow> instant \<Rightarrow> uuid \<Rightarrow> string \<Rightarrow> unit pcall" where
  "enable_plan env js now plan_id actor =
     sbind (plan_found env js plan_id) (\<lambda>plan.
     (let plan = plan_enable now plan in
     sbind (plans_update env js plan) (\<lambda>_.
     sbind (invalidate_cache None) (\<lambda>_.
       p_audit env (with_target (env_uuid_str env (hp_id plan))
         (audit_event_new now actor ActPlanEnabled Success))))))"

definition clone_plan ::
    "env \<Rightarrow> plan_json \<Rightarrow> uuid \<Rightarrow> instant \<Rightarrow> uuid \<Rightarrow> string \<Rightarrow> string \<Rightarrow> hosting_plan pcall" where
  "clone_plan env js new_id now source_id new_name actor =
     sbind (plan_found env js source_id) (\<lambda>source.
     sbind (slift (clone_with_name new_id new_name now source)) (\<lambda>clone.
     sbind (plans_insert env js clone) (\<lambda>_.
     sbind (p_audit env (with_metadata (JObject [(''name'', JString (hp_name clone)), (''source'', id_json env (hp_id source))])
         (with_target (env_uuid_str env (hp_id clone))
           (audit_event_new now actor ActPlanCloned Success)))) (\<lambda>_.
       sret clone))))"

definition delete_plan :: "env \<Rightarrow> instant \<Rightarrow> uuid \<Rightarrow> string \<Rightarrow> unit pcall" where
  "delete_plan env now plan_id actor =
     sbind (count_assignments env plan_id) (\<lambda>count.
     if count > 0
     then sbind (p_audit env (with_metadata (JObject [(''assignments'', JNumber (int count))])
            (with_target (env_uuid_str env plan_id)
              (audit_event_new now actor ActPlanDeleteBlocked Failure)))) (\<lambda>_. sfail PlanInUse)
     else
     sbind (plans_delete env plan_id) (\<lambda>_.
     sbind (invalidate_cache None) (\<lambda>_.
       p_audit env (with_target (env_uuid_str env plan_id)
         (audit_event_new now actor ActPlanDeleted Success)))))"

definition list_plans :: "env \<Rightarrow> plan_json \<Rightarrow> hosting_plan list pcall" where
  "list_plans env js = plans_list env js"

definition find_plan :: "env \<Rightarrow> plan_json \<Rightarrow> uuid \<Rightarrow> hosting_plan pcall" where
  "find_plan env js plan_id =
     sbind (plans_find_by_id env js plan_id) (\<lambda>x. slift (ok_or PlanNotFound x))"

section \<open>Assignments\<close>

definition assignment_event ::
    "env \<Rightarrow> instant \<Rightarrow> string \<Rightarrow> uuid \<Rightarrow> uuid \<Rightarrow> uuid option \<Rightarrow> audit_event" where
  "assignment_event env now actor user_id plan_id prev =
     (case prev of
        Some from_id \<Rightarrow>
          with_metadata (JObject [(''from'', id_json env from_id), (''to'', id_json env plan_id)])
            (with_target (env_uuid_str env user_id) (audit_event_new now actor ActPlanReassigned Success))
      | None \<Rightarrow>
          with_metadata (JObject [(''plan_id'', id_json env plan_id)])
            (with_target (env_uuid_str env user_id) (audit_event_new now actor ActPlanAssigned Success)))"

definition assign_plan ::
    "env \<Rightarrow> plan_json \<Rightarrow> instant \<Rightarrow> uuid \<Rightarrow> uuid \<Rightarrow> string \<Rightarrow> uuid \<Rightarrow> plan_assignment pcall" where
  "assign_plan env js now plan_id user_id actor actor_id =
     sbind (plan_found env js plan_id) (\<lambda>plan.
     if \<not> accepts_assignments plan then sfail PlanDisabledErr
     else
     sbind (sbind (p_sql (users_find_by_id env user_id)) (\<lambda>x. slift (ok_or PUserNotFound x))) (\<lambda>_.
     sbind (replace_current_assignment env user_id now) (\<lambda>prev.
     (let assignment = plan_assignment_new user_id plan_id actor_id now in
     sbind (insert_assignment env assignment) (\<lambda>_.
     sbind (invalidate_cache (Some user_id)) (\<lambda>_.
     sbind (p_sql (users_update_hosting_plan_id env user_id (Some plan_id))) (\<lambda>_.
     sbind (p_audit env (assignment_event env now actor user_id plan_id prev)) (\<lambda>_.
       sret assignment))))))))"

definition unassign_plan :: "env \<Rightarrow> instant \<Rightarrow> uuid \<Rightarrow> string \<Rightarrow> unit pcall" where
  "unassign_plan env now user_id actor =
     sbind (remove_current_assignment env user_id now) (\<lambda>prev.
       case prev of
         None \<Rightarrow> sret ()
       | Some plan \<Rightarrow>
           sbind (p_sql (users_update_hosting_plan_id env user_id None)) (\<lambda>_.
           sbind (invalidate_cache (Some user_id)) (\<lambda>_.
             p_audit env (with_metadata (JObject [(''plan_id'', id_json env plan)])
               (with_target (env_uuid_str env user_id)
                 (audit_event_new now actor ActPlanUnassigned Success))))))"

section \<open>Effective caps\<close>

definition role_default :: effective_quotas where
  "role_default =
     \<lparr>eff_disk_bytes = 10 * 1024 * 1024 * 1024,
      eff_bandwidth_bytes_per_month = 100 * 1024 * 1024 * 1024,
      eff_max_sites = 5, eff_max_databases = 5, eff_max_mail_domains = 2, eff_max_mailboxes = 10,
      eff_max_cron_jobs = 25, eff_max_api_tokens = 4, eff_max_fleet_agents = 0\<rparr>"

definition resolve_caps :: "env \<Rightarrow> plan_json \<Rightarrow> uuid \<Rightarrow> db \<Rightarrow> effective_quotas \<times> db" where
  "resolve_caps env js u s =
     (case current_assignment env u s of
        (Inr (Some a), s1) \<Rightarrow>
          (case plans_find_by_id env js (pa_plan_id a) s1 of
             (Inr (Some plan), s2) \<Rightarrow> (effective_from_caps (hp_quota_caps plan), s2)
           | (_, s2) \<Rightarrow> (role_default, s2))
      | (_, s1) \<Rightarrow> (role_default, s1))"

definition effective :: "env \<Rightarrow> plan_json \<Rightarrow> instant \<Rightarrow> uuid \<Rightarrow> db \<Rightarrow> effective_quotas \<times> db" where
  "effective env js now u s =
     (case cache_hit now u s of
        Some cached \<Rightarrow> (cached, s)
      | None \<Rightarrow> (case resolve_caps env js u s of (caps, s1) \<Rightarrow> (caps, cache_store now u caps s1)))"

text \<open>The synchronous resolver of the \<open>PlanResolver\<close> trait, and \<open>effective_async\<close>.\<close>

definition resolver_effective :: "instant \<Rightarrow> uuid \<Rightarrow> db \<Rightarrow> effective_quotas" where
  "resolver_effective now u s =
     (case cache_hit now u s of Some cached \<Rightarrow> cached | None \<Rightarrow> role_default)"

definition effective_async :: "instant \<Rightarrow> uuid \<Rightarrow> db \<Rightarrow> effective_quotas \<times> db" where
  "effective_async now u s =
     (case cache_hit now u s of
        Some cached \<Rightarrow> (cached, s)
      | None \<Rightarrow> (role_default, cache_store now u role_default s))"

section \<open>Invariants of plans and assignments\<close>

text \<open>
  What an invariant of the state has to allow for the plan operations to keep it: plans
  that are well formed and have a new identifier and name come in, a plan leaves only when
  no assignment mentions it, and an assignment starts only when the account has none.
\<close>

locale plans_invariant = store_invariant P for P +
  fixes js :: plan_json
  assumes stored_wf: "P s \<Longrightarrow> r \<in> set (db_plans s) \<Longrightarrow> into_plan js r = Inr p \<Longrightarrow> plan_wf p"
    and add_plan: "P s \<Longrightarrow> plan_wf p \<Longrightarrow> plan_to_row js p = Inr row \<Longrightarrow>
      (\<And>r. r \<in> set (db_plans s) \<Longrightarrow> plr_id r \<noteq> hp_id p \<and> plr_name r \<noteq> hp_name p) \<Longrightarrow>
      P (s\<lparr>db_plans := db_plans s @ [row]\<rparr>)"
    and change_plan: "P s \<Longrightarrow> plan_wf p \<Longrightarrow> plan_to_row js p = Inr row \<Longrightarrow>
      (\<And>r. r \<in> set (db_plans s) \<Longrightarrow> plr_id r \<noteq> hp_id p \<Longrightarrow> plr_name r \<noteq> hp_name p) \<Longrightarrow>
      P (s\<lparr>db_plans := update_where (\<lambda>r. plr_id r = hp_id p) (plan_row_set row) (db_plans s)\<rparr>)"
    and drop_plan: "P s \<Longrightarrow> (\<And>a. a \<in> set (db_assignments s) \<Longrightarrow> pa_plan_id a \<noteq> i) \<Longrightarrow>
      P (s\<lparr>db_plans := delete_where (\<lambda>r. plr_id r = i) (db_plans s)\<rparr>)"
    and end_plan: "P s \<Longrightarrow> P (s\<lparr>db_assignments := end_assignment u now (db_assignments s)\<rparr>)"
    and add_assignment: "P s \<Longrightarrow> filter (current_for (pa_user_id a)) (db_assignments s) = [] \<Longrightarrow>
      (\<And>x. x \<in> set (db_assignments s) \<Longrightarrow> pa_user_id x = pa_user_id a \<Longrightarrow> pa_assigned_at x \<noteq> pa_assigned_at a) \<Longrightarrow>
      (\<exists>r \<in> set (db_plans s). plr_id r = pa_plan_id a) \<Longrightarrow>
      P (s\<lparr>db_assignments := db_assignments s @ [a\<lparr>pa_replaced_at := None\<rparr>]\<rparr>)"
    and point_plan: "P s \<Longrightarrow> P (s\<lparr>db_users :=
      update_where (\<lambda>r. ur_id r = i) (\<lambda>r. r\<lparr>ur_hosting_plan_id := q\<rparr>) (db_users s)\<rparr>)"
    and cache_free: "P (s\<lparr>db_plan_cache := c\<rparr>) = P s"
begin

lemma keeps_p_wrappers [keeps_intros]:
  "keeps P m \<Longrightarrow> keeps P (p_sql m)" "keeps P (p_audit env e)" "keeps P (invalidate_cache uid)"
  unfolding p_sql_def p_audit_def
  by (intro keeps_intros keeps_audit_record; assumption)+ (simp add: keeps_def invalidate_cache_def cache_free)

lemma keeps_plan_reads [keeps_intros]:
  "keeps P (plans_find_by_id env js i)" "keeps P (plans_find_by_name env js n)" "keeps P (plans_list env js)"
  "keeps P (count_assignments env i)" "keeps P (current_assignment env u)"
  "keeps P (users_find_by_id env u)"
  unfolding plans_find_by_id_def plans_find_by_name_def plans_find_def plans_list_def count_assignments_def
    current_assignment_def user_lookup_defs users_find_def
  by (intro keeps_intros tickless_P)+

lemma keeps_plan_found_bind:
  assumes "\<And>p. plan_wf p \<Longrightarrow> keeps P (f p)"
  shows "keeps P (sbind (plan_found env js i) f)"
  unfolding plan_found_def
proof (rule keeps_sbind_result)
  fix s x t
  assume s: "P s" "P t" and "sbind (plans_find_by_id env js i) (\<lambda>x. slift (ok_or PlanNotFound x)) s = (Inr x, t)"
  then obtain r where "find (\<lambda>r. plr_id r = i) (db_plans s) = Some r" "into_plan js r = Inr x"
    by (auto simp: plans_find_by_id_def plans_find_Inr st_invert split: option.splits)
  then have "plan_wf x" using stored_wf [OF s(1), of r x] find_SomeD [of _ "db_plans s" r] by blast
  then show "P (snd (f x t))" using s(2) by (rule keepsD [OF assms])
qed (intro keeps_intros)

lemma keeps_plans_insert: "plan_wf p \<Longrightarrow> keeps P (plans_insert env js p)"
  unfolding plans_insert_def
  by (intro keeps_slift_bind keeps_intros keeps_write)
     (auto simp: list_ex_iff plan_to_row_fields intro: add_plan)

lemma keeps_plans_update: "plan_wf p \<Longrightarrow> keeps P (plans_update env js p)"
proof -
  assume wf: "plan_wf p"
  have same: "update_where (\<lambda>r. plr_id r = plr_id row) (plan_row_set row) rows = rows"
    if "\<And>r. r \<in> set rows \<Longrightarrow> plr_id r \<noteq> plr_id row" for row rows
    using that by (intro update_where_none) blast
  show ?thesis
    unfolding plans_update_def
  proof (intro keeps_slift_bind keeps_intros keeps_write)
    fix row s
    assume row: "plan_to_row js p = Inr row" and s: "P s"
      and ok: "list_ex (\<lambda>r. plr_id r = plr_id row) (db_plans s) \<longrightarrow>
        \<not> list_ex (\<lambda>r. plr_id r \<noteq> plr_id row \<and> plr_name r = plr_name row) (db_plans s)"
    show "P (s\<lparr>db_plans := update_where (\<lambda>r. plr_id r = plr_id row) (plan_row_set row) (db_plans s)\<rparr>)"
    proof (cases "list_ex (\<lambda>r. plr_id r = plr_id row) (db_plans s)")
      case True
      then show ?thesis
        using ok s wf row change_plan [OF s wf row] by (auto simp: list_ex_iff plan_to_row_fields)
    next
      case False
      then have "db_plans s = update_where (\<lambda>r. plr_id r = plr_id row) (plan_row_set row) (db_plans s)"
        by (intro same [symmetric]) (auto simp: list_ex_iff)
      then show ?thesis using s by simp
    qed
  qed
qed

lemma keeps_create_plan [keeps_intros]: "keeps P (create_plan env js i now name d caps actor)"
  unfolding create_plan_def
  by (intro keeps_slift_bind keeps_sbind keeps_plans_insert keeps_intros) (auto dest: hosting_plan_new_wf)

lemma keeps_clone_plan [keeps_intros]: "keeps P (clone_plan env js i now source name actor)"
  unfolding clone_plan_def
  by (intro keeps_plan_found_bind keeps_slift_bind keeps_sbind keeps_plans_insert keeps_intros)
     (auto dest: clone_with_name_wf)

lemma set_features_wf: "plan_wf p \<Longrightarrow> plan_wf (set_features fs now p)"
  unfolding set_features_def by (induction fs arbitrary: p) (auto simp: plan_ops_wf(3))

lemma keeps_update_plan [keeps_intros]: "keeps P (update_plan env js now i caps fs actor)"
  unfolding update_plan_def Let_def
  by (intro keeps_plan_found_bind keeps_if keeps_sbind keeps_plans_update keeps_intros)
     (auto intro: set_features_wf plan_ops_wf(4))

lemma keeps_toggle_plan [keeps_intros]:
  "keeps P (disable_plan env js now i actor)" "keeps P (enable_plan env js now i actor)"
  unfolding disable_plan_def enable_plan_def Let_def
  by (intro keeps_plan_found_bind keeps_sbind keeps_plans_update keeps_intros; rule plan_ops_wf; assumption)+

lemma keeps_delete_plan [keeps_intros]: "keeps P (delete_plan env now i actor)"
proof -
  have "P (s\<lparr>db_plans := delete_where (\<lambda>r. plr_id r = i) (db_plans s)\<rparr>)"
    if s: "P s" and ok: "\<not> list_ex (\<lambda>a. pa_plan_id a = i) (db_assignments s) \<or>
      \<not> list_ex (\<lambda>r. plr_id r = i) (db_plans s)" for s
  proof (cases "list_ex (\<lambda>r. plr_id r = i) (db_plans s)")
    case True
    then show ?thesis using s ok by (auto simp: list_ex_iff intro: drop_plan)
  next
    case False
    then have "db_plans s = delete_where (\<lambda>r. plr_id r = i) (db_plans s)"
      by (auto simp: delete_where_def list_ex_iff filter_id_conv intro: sym)
    then show ?thesis using s by simp
  qed
  then show ?thesis
    unfolding delete_plan_def plans_delete_def
    by (intro keeps_intros keeps_write) auto
qed

lemma keeps_point_plan [keeps_intros]: "keeps P (users_update_hosting_plan_id env u q)"
  unfolding users_update_hosting_plan_id_def users_update_def by (intro keeps_write) (simp add: point_plan)

lemma keeps_end_assignment [keeps_intros]:
  "keeps P (replace_current_assignment env u now)" "keeps P (remove_current_assignment env u now)"
  unfolding remove_is_replace unfolding replace_current_assignment_def
  by (intro keeps_intros keeps_read keeps_write; simp add: end_plan)+

lemma pa_user: "pa_user_id (plan_assignment_new u plan by_id now) = u"
  by (simp add: plan_assignment_new_def)

lemma leads_insert_assignment:
  "leads (\<lambda>s. P s \<and> filter (current_for u) (db_assignments s) = []) P
     (insert_assignment env (plan_assignment_new u plan by_id now))"
  unfolding insert_assignment_def p_sql_def
  using tickless_P pa_user
  by (intro leads_combinators leads_sql_transaction)
     (auto simp: tickless_def leads_def sql_write_def tickless_tick [OF tickless_P] list_ex_iff
       split: option.splits intro!: add_assignment)

lemma keeps_assign_plan [keeps_intros]: "keeps P (assign_plan env js now plan u actor actor_id)"
proof -
  have "keeps P (sbind (replace_current_assignment env u now) (\<lambda>prev.
     sbind (insert_assignment env (plan_assignment_new u plan actor_id now)) (\<lambda>_.
     sbind (invalidate_cache (Some u)) (\<lambda>_.
     sbind (p_sql (users_update_hosting_plan_id env u (Some plan))) (\<lambda>_.
     sbind (p_audit env (assignment_event env now actor u plan prev)) (\<lambda>_.
       sret (plan_assignment_new u plan actor_id now)))))))"
  proof (rule keeps_leads, rule leads_sbind [where R = "\<lambda>_ s. P s \<and> filter (current_for u) (db_assignments s) = []"])
    fix s e t assume "P s" "replace_current_assignment env u now s = (Inl e, t)"
    then show "P t" using keeps_run [OF keeps_end_assignment(1)] by blast
  next
    fix s x t assume "P s" "replace_current_assignment env u now s = (Inr x, t)"
    moreover from this have "P t" using keeps_run [OF keeps_end_assignment(1)] by blast
    ultimately show "P t \<and> filter (current_for u) (db_assignments t) = []"
      by (auto simp: replace_current_assignment_Inr end_assignment_none)
  qed (intro leads_sbind_after leads_insert_assignment keeps_intros)
  then show ?thesis
    unfolding assign_plan_def Let_def
    by (intro keeps_plan_found_bind keeps_if keeps_combinators
        keeps_sbind [of P "sbind (p_sql (users_find_by_id env u)) (\<lambda>x. slift (ok_or PUserNotFound x))"])
       (auto intro!: keeps_intros)
qed

lemma keeps_unassign_plan [keeps_intros]: "keeps P (unassign_plan env now u actor)"
  unfolding unassign_plan_def by (intro keeps_intros)

lemma keeps_resolve_caps:
  assumes "P s"
  shows "P (snd (resolve_caps env js u s))"
proof -
  obtain x s1 where 1: "current_assignment env u s = (x, s1)" by (metis surj_pair)
  then have s1: "P s1" using keeps_run [OF keeps_plan_reads(5) assms] by blast
  have "P (snd (plans_find_by_id env js i s1))" for i
    using keepsD [OF keeps_plan_reads(1) s1] by blast
  then show ?thesis
    using 1 s1 by (auto simp: resolve_caps_def split: sum.split option.split prod.split) (metis snd_conv)+
qed

lemma keeps_effective: "P s \<Longrightarrow> P (snd (effective env js now u s))"
  using keeps_resolve_caps [of s env u]
  by (auto simp: effective_def cache_store_def cache_free split: option.split prod.split)

lemma keeps_effective_async: "P s \<Longrightarrow> P (snd (effective_async now u s))"
  by (simp add: effective_async_def cache_store_def cache_free split: option.split)

end

section \<open>A well-formed catalogue\<close>

text \<open>
  Identifiers and names are unique, every stored plan reads back as a well-formed one, every
  assignment, current or replaced, refers to a stored plan, and an account has at most one
  current assignment.
\<close>

definition plan_row_ok :: "plan_json \<Rightarrow> plan_row \<Rightarrow> bool" where
  "plan_row_ok js r \<longleftrightarrow> (case into_plan js r of Inl e \<Rightarrow> False | Inr p \<Rightarrow> plan_wf p)"

definition catalogue_ok :: "plan_json \<Rightarrow> plan_row list \<Rightarrow> plan_assignment list \<Rightarrow> bool" where
  "catalogue_ok js plans rows \<longleftrightarrow>
     distinct (map plr_id plans) \<and> distinct (map plr_name plans) \<and> list_all (plan_row_ok js) plans \<and>
     distinct (map (\<lambda>a. (pa_user_id a, pa_assigned_at a)) rows) \<and>
     list_all (\<lambda>a. pa_plan_id a \<in> set (map plr_id plans)) rows \<and>
     distinct (map pa_user_id (filter assignment_is_current rows))"

definition plans_wf :: "plan_json \<Rightarrow> db \<Rightarrow> bool" where
  "plans_wf js s \<longleftrightarrow> catalogue_ok js (db_plans s) (db_assignments s)"

lemma plan_row_ok_Inr: "plan_row_ok js r \<longleftrightarrow> (\<exists>p. into_plan js r = Inr p \<and> plan_wf p)"
  by (auto simp: plan_row_ok_def split: sum.splits)

lemma plan_row_ok_new:
  assumes "json_roundtrips js" and "plan_wf p" and "plan_to_row js p = Inr row"
  shows "plan_row_ok js row"
proof -
  have "into_plan js row = Inr (p\<lparr>hp_branding_scope := branding_default\<rparr>)"
    using plan_row_roundtrip [OF assms(1,2)] assms(3) by (metis sum.inject(2))
  then show ?thesis using assms(2) by (simp add: plan_row_ok_Inr plan_wf_def)
qed

lemma into_plan_set:
  "into_plan js row = Inr p \<Longrightarrow> into_plan js (plan_row_set row r) =
     Inr (p\<lparr>hp_id := plr_id r, hp_created_at := plr_created_at r\<rparr>)"
  by (auto simp: into_plan_def hosting_plan_restore_def plan_row_set_def)

lemma plan_row_ok_set: "plan_row_ok js row \<Longrightarrow> plan_row_ok js (plan_row_set row r)"
  by (auto simp: plan_row_ok_Inr plan_wf_def dest: into_plan_set)

lemma distinct_map_update:
  assumes "distinct (map k rows)" and "distinct (map j rows)"
    and "\<And>r. r \<in> set rows \<Longrightarrow> k (f r) = k r \<and> j (f r) = v"
    and "\<And>r. r \<in> set rows \<Longrightarrow> k r \<noteq> i \<Longrightarrow> j r \<noteq> v"
  shows "distinct (map j (update_where (\<lambda>r. k r = i) f rows))"
  using assms
proof (induction rows)
  case (Cons x xs)
  show ?case
  proof (cases "k x = i")
    case True
    then have "update_where (\<lambda>r. k r = i) f xs = xs"
      using Cons.prems(1) by (intro update_where_none) (force simp: image_iff)
    moreover have "v \<notin> j ` set xs" using Cons.prems True by (auto simp: image_iff) metis
    ultimately show ?thesis using Cons.prems True by simp
  next
    case False
    then show ?thesis
      using Cons by (auto simp: set_update_where image_iff split: if_splits)
  qed
qed simp

lemma catalogue_ok_update:
  assumes ok: "catalogue_ok js plans rows" and js: "json_roundtrips js" and p: "plan_wf p" "plan_to_row js p = Inr row"
    and names: "\<And>r. r \<in> set plans \<Longrightarrow> plr_id r \<noteq> hp_id p \<Longrightarrow> plr_name r \<noteq> hp_name p"
  shows "catalogue_ok js (update_where (\<lambda>r. plr_id r = hp_id p) (plan_row_set row) plans) rows"
proof -
  have ids: "map plr_id (update_where (\<lambda>r. plr_id r = hp_id p) (plan_row_set row) plans) = map plr_id plans"
    by (intro map_update_where) (simp add: plan_row_set_def)
  have "distinct (map plr_name (update_where (\<lambda>r. plr_id r = hp_id p) (plan_row_set row) plans))"
    using ok names plan_to_row_fields(2) [OF p(2)]
    by (intro distinct_map_update [where v = "hp_name p"]) (auto simp: catalogue_ok_def plan_row_set_def)
  moreover have "list_all (plan_row_ok js) (update_where (\<lambda>r. plr_id r = hp_id p) (plan_row_set row) plans)"
    using ok plan_row_ok_set [OF plan_row_ok_new [OF js p]]
    by (auto simp: catalogue_ok_def list_all_iff set_update_where)
  ultimately show ?thesis using ok by (simp add: catalogue_ok_def ids)
qed

lemma filter_current_end:
  "filter assignment_is_current (end_assignment u now rows) =
     filter (\<lambda>a. assignment_is_current a \<and> pa_user_id a \<noteq> u) rows"
  by (induction rows) (auto simp: end_assignment_def current_for_def assignment_is_current_def)

lemma catalogue_ok_end: "catalogue_ok js plans rows \<Longrightarrow> catalogue_ok js plans (end_assignment u now rows)"
proof -
  have "map (\<lambda>a. (pa_user_id a, pa_assigned_at a)) (end_assignment u now rows) =
      map (\<lambda>a. (pa_user_id a, pa_assigned_at a)) rows"
    unfolding end_assignment_def by (intro map_update_where) simp
  moreover have "list_all q (end_assignment u now rows) = list_all q rows"
    if "\<And>a x. q (a\<lparr>pa_replaced_at := x\<rparr>) = q a" for q
    using that by (induction rows) (auto simp: end_assignment_def)
  moreover have "distinct (map pa_user_id (filter assignment_is_current rows)) \<Longrightarrow>
      distinct (map pa_user_id (filter (\<lambda>a. assignment_is_current a \<and> pa_user_id a \<noteq> u) rows))"
    by (induction rows) (auto split: if_splits)
  ultimately show "catalogue_ok js plans rows \<Longrightarrow> catalogue_ok js plans (end_assignment u now rows)"
    by (simp add: catalogue_ok_def filter_current_end)
qed

lemma catalogue_ok_add_assignment:
  assumes "catalogue_ok js plans rows" and "filter (current_for (pa_user_id a)) rows = []"
    and "\<And>x. x \<in> set rows \<Longrightarrow> pa_user_id x = pa_user_id a \<Longrightarrow> pa_assigned_at x \<noteq> pa_assigned_at a"
    and "\<exists>r \<in> set plans. plr_id r = pa_plan_id a"
  shows "catalogue_ok js plans (rows @ [a\<lparr>pa_replaced_at := None\<rparr>])"
proof -
  have "pa_user_id a \<notin> set (map pa_user_id (filter assignment_is_current rows))"
    using assms(2) by (auto simp: filter_empty_conv current_for_def)
  moreover have "(pa_user_id a, pa_assigned_at a) \<notin> set (map (\<lambda>a. (pa_user_id a, pa_assigned_at a)) rows)"
    using assms(3) by (auto simp: image_iff) metis
  moreover have "pa_plan_id a \<in> set (map plr_id plans)" using assms(4) by force
  ultimately show ?thesis
    using assms(1) by (simp add: catalogue_ok_def assignment_is_current_def)
qed

lemma catalogue_ok_add_plan:
  assumes "catalogue_ok js plans rows" and "json_roundtrips js" and p: "plan_wf p" "plan_to_row js p = Inr row"
    and "\<And>r. r \<in> set plans \<Longrightarrow> plr_id r \<noteq> hp_id p \<and> plr_name r \<noteq> hp_name p"
  shows "catalogue_ok js (plans @ [row]) rows"
  using assms(1,5) plan_row_ok_new [OF assms(2) p] plan_to_row_fields(1,2) [OF p(2)]
  by (fastforce simp: catalogue_ok_def list_all_iff)

lemma catalogue_ok_drop_plan:
  assumes "catalogue_ok js plans rows" and "\<And>a. a \<in> set rows \<Longrightarrow> pa_plan_id a \<noteq> i"
  shows "catalogue_ok js (delete_where (\<lambda>r. plr_id r = i) plans) rows"
  using assms by (fastforce simp: catalogue_ok_def list_all_iff image_iff intro: distinct_map_delete_where)

text \<open>
  The catalogue stands beside the other tables: an invariant of accounts and hierarchy that
  ignores plans and assignments can be joined with it.
\<close>

lemma plans_invariant_join:
  assumes p: "account_invariant P"
    and free: "\<And>s x. P (s\<lparr>db_plans := x\<rparr>) = P s" "\<And>s x. P (s\<lparr>db_assignments := x\<rparr>) = P s"
      "\<And>s x. P (s\<lparr>db_plan_cache := x\<rparr>) = P s"
  shows "plans_invariant (\<lambda>s. P s \<and> json_roundtrips js \<and> plans_wf js s) js"
proof -
  note store = tf_frame.axioms(1) [OF account_invariant.axioms(1) [OF p]]
  note point = account_invariant.update_user [OF p, where f = "\<lambda>r. r\<lparr>ur_hosting_plan_id := q\<rparr>" for q]
  show ?thesis
  proof (unfold_locales, goal_cases)
    case 1
    then show ?case using store_invariant.tickless_P [OF store] by (simp add: tickless_def plans_wf_def)
  next
    case 3
    then show ?case by (auto simp: plans_wf_def catalogue_ok_def list_all_iff plan_row_ok_Inr)
  qed (auto simp: store_invariant.audit_free [OF store] free plans_wf_def same_identity_def
      intro!: catalogue_ok_add_plan catalogue_ok_update catalogue_ok_drop_plan catalogue_ok_end
        catalogue_ok_add_assignment point)
qed

text \<open>And the operations of accounts and hierarchy touch neither the catalogue nor the tables below.\<close>

lemma hierarchy_invariant_join:
  assumes p: "hierarchy_invariant P ok"
  shows "hierarchy_invariant (\<lambda>s. P s \<and> R (db_plans s) (db_assignments s) (db_policies s) (db_usages s)
    (db_collaborators s) (db_grants s) (db_cron_jobs s) (db_cron_runs s)
    (db_channels s, db_subscriptions s, db_events s, db_deliveries s)) ok"
proof -
  note pa = hierarchy_invariant.axioms(1) [OF p]
  note frame = account_invariant.axioms(1) [OF pa]
  note store = tf_frame.axioms(1) [OF frame]
  note laws = account_invariant.insert_user [OF pa] account_invariant.update_user [OF pa]
    account_invariant.update_parent [OF pa] account_invariant.update_role [OF pa]
    account_invariant.delete_user [OF pa] account_invariant.insert_session [OF pa]
    account_invariant.touch_session [OF pa] account_invariant.drop_sessions [OF pa]
    hierarchy_invariant.insert_rel [OF p] hierarchy_invariant.detach_rel [OF p]
    hierarchy_invariant.new_child [OF p] hierarchy_invariant.declare_pool [OF p]
    hierarchy_invariant.admit_claim [OF p] hierarchy_invariant.drop_claims [OF p]
    account_invariant.unique_ids [OF pa]
  show ?thesis
    by unfold_locales
       (use store_invariant.tickless_P [OF store] in \<open>simp add: tickless_def\<close>,
        simp_all add: store_invariant.audit_free [OF store] tf_frame.factor_free [OF frame] cascade_user_def [of _ s for s],
        (elim conjE, rule laws [unfolded cascade_user_def]; assumption)+)
qed

interpretation catalogue: plans_invariant "\<lambda>s. accounts_wf s \<and> json_roundtrips js \<and> plans_wf js s" js for js
  by (rule plans_invariant_join) (rule accounts.account_invariant_axioms, simp_all add: accounts_wf_def user_exists_def)

section \<open>What each operation does\<close>

lemma p_audit_outcome [st_invert]:
  "p_audit env e s = (r, t) \<longleftrightarrow> r = Inr () \<and> t = snd (audit_record env e s)"
  by (auto simp: p_audit_def)

lemma invalidate_outcome [st_invert]:
  "invalidate_cache uid s = (r, t) \<longleftrightarrow> r = Inr () \<and> t = s\<lparr>db_plan_cache :=
     (case uid of Some u \<Rightarrow> (db_plan_cache s)(u := None) | None \<Rightarrow> Map.empty)\<rparr>"
  by (auto simp: invalidate_cache_def)

lemma audit_record_plans [simp]:
  "db_plans (snd (audit_record env e s)) = db_plans s"
  "db_assignments (snd (audit_record env e s)) = db_assignments s"
  "db_plan_cache (snd (audit_record env e s)) = db_plan_cache s"
  using audit_record_frame [of env e s] by (metis (no_types, lifting) db.simps db.surjective prod.collapse tick_fields)+

lemma plan_found_Inr [st_invert]:
  "plan_found env js i s = (Inr p, t) \<longleftrightarrow> env_fault env (db_tick s) = None \<and> t = tick s \<and>
     (\<exists>r. find (\<lambda>r. plr_id r = i) (db_plans s) = Some r \<and> into_plan js r = Inr p)"
  by (auto simp: plan_found_def plans_find_by_id_def plans_find_Inr st_invert split: option.splits)

lemma create_plan_Inr:
  assumes "create_plan env js i now name d caps actor s = (Inr p, t)"
  shows "hosting_plan_new i name d caps now = Inr p"
    and "\<exists>row. plan_to_row js p = Inr row \<and> db_plans t = db_plans s @ [row]"
    and "\<forall>r \<in> set (db_plans s). plr_id r \<noteq> i \<and> plr_name r \<noteq> name"
    and "db_assignments t = db_assignments s" and "db_plan_cache t = db_plan_cache s"
proof -
  from assms obtain row where p: "hosting_plan_new i name d caps now = Inr p" "plan_to_row js p = Inr row"
    "\<forall>r \<in> set (db_plans s). plr_id r \<noteq> hp_id p \<and> plr_name r \<noteq> hp_name p"
    and t: "t = snd (audit_record env (with_metadata (JObject [(''name'', JString (hp_name p))])
         (with_target (env_uuid_str env (hp_id p)) (audit_event_new now actor ActPlanCreated Success)))
         (tick (s\<lparr>db_plans := db_plans s @ [row]\<rparr>)))"
    by (auto simp: create_plan_def plans_insert_Inr st_invert)
  have "hp_id p = i" "hp_name p = name"
    using p(1) by (auto simp: hosting_plan_new_def split: if_splits)
  then show "hosting_plan_new i name d caps now = Inr p"
    "\<exists>row. plan_to_row js p = Inr row \<and> db_plans t = db_plans s @ [row]"
    "\<forall>r \<in> set (db_plans s). plr_id r \<noteq> i \<and> plr_name r \<noteq> name"
    "db_assignments t = db_assignments s" "db_plan_cache t = db_plan_cache s"
    using p t by auto
qed

text \<open>A name that is taken is refused as such, and nothing is stored.\<close>

lemma create_plan_taken:
  assumes "env_fault env (db_tick s) = None" and "contains ''UNIQUE'' (env_constraint env (db_tick s))"
    and "plan_name_ok name" and "r \<in> set (db_plans s)" and "plr_name r = name \<or> plr_id r = i"
    and "json_roundtrips js"
  shows "create_plan env js i now name d caps actor s = (Inl DuplicateName, tick s)"
proof -
  obtain p where p: "hosting_plan_new i name d caps now = Inr p" "hp_id p = i" "hp_name p = name"
    using assms(3) by (auto simp: hosting_plan_new_def plan_name_ok_def)
  from hosting_plan_new_wf [OF p(1)] obtain row where row: "plan_to_row js p = Inr row"
    using plan_row_roundtrip [OF assms(6), of p] by metis
  have "plans_insert env js p s = (Inl DuplicateName, tick s)"
    using assms row p plan_to_row_fields(1,2) [OF row]
    by (auto simp: plans_insert_def st_invert list_ex_iff plan_write_error_def is_unique_violation_def)
  then show ?thesis by (simp add: create_plan_def p(1) sbind_def)
qed

text \<open>The specification of the resolver: the caps of the plan that is assigned, or the default.\<close>

definition spec_caps :: "plan_json \<Rightarrow> uuid \<Rightarrow> db \<Rightarrow> effective_quotas" where
  "spec_caps js u s =
     (case latest_by pa_assigned_at (filter (current_for u) (db_assignments s)) of
        None \<Rightarrow> role_default
      | Some a \<Rightarrow>
          (case find (\<lambda>r. plr_id r = pa_plan_id a) (db_plans s) of
             None \<Rightarrow> role_default
           | Some r \<Rightarrow>
               (case into_plan js r of
                  Inl e \<Rightarrow> role_default
                | Inr p \<Rightarrow> effective_from_caps (hp_quota_caps p))))"

lemma resolve_caps_spec:
  assumes "env_fault env = (\<lambda>_. None)"
  shows "fst (resolve_caps env js u s) = spec_caps js u s"
    and "\<exists>n. snd (resolve_caps env js u s) = s\<lparr>db_tick := n\<rparr>"
proof -
  have cur: "current_assignment env u s = (Inr (latest_by pa_assigned_at (filter (current_for u) (db_assignments s))), tick s)"
    using assms by (simp add: current_assignment_Inr)
  have fnd: "plans_find_by_id env js i s' = (case find (\<lambda>r. plr_id r = i) (db_plans s') of
      None \<Rightarrow> Inr None | Some r \<Rightarrow> map_sum id Some (into_plan js r), tick s')" for i s'
    by (cases "find (\<lambda>r. plr_id r = i) (db_plans s')"; cases "into_plan js (the (find (\<lambda>r. plr_id r = i) (db_plans s')))")
       (simp_all add: plans_find_by_id_def plans_find_def sbind_def p_sql_def smap_err_def sql_eval [OF assms])
  show "fst (resolve_caps env js u s) = spec_caps js u s"
    by (auto simp: resolve_caps_def cur fnd spec_caps_def map_sum_def split: option.split sum.split prod.split)
  have "snd (resolve_caps env js u s) = tick s \<or> snd (resolve_caps env js u s) = tick (tick s)"
    by (auto simp: resolve_caps_def cur fnd split: option.split sum.split prod.split)
  then show "\<exists>n. snd (resolve_caps env js u s) = s\<lparr>db_tick := n\<rparr>"
    by (auto simp: tick_def)
qed

text \<open>A change of plan never takes disk or bandwidth away.\<close>

lemma update_plan_Inr:
  assumes "update_plan env js now i caps fs actor s = (Inr p, t)"
  shows "\<exists>r q row. find (\<lambda>r. plr_id r = i) (db_plans s) = Some r \<and> into_plan js r = Inr q \<and>
      disk_bytes (hp_quota_caps q) \<le> disk_bytes caps \<and>
      bandwidth_bytes_per_month (hp_quota_caps q) \<le> bandwidth_bytes_per_month caps \<and>
      p = set_features fs now (plan_set_quota_caps caps now q) \<and> plan_to_row js p = Inr row \<and>
      db_plans t = update_where (\<lambda>r. plr_id r = hp_id p) (plan_row_set row) (db_plans s)"
    and "db_assignments t = db_assignments s" and "db_plan_cache t = Map.empty"
  using assms by (auto simp: update_plan_def plans_update_Inr st_invert Let_def not_less)

lemma toggle_plan_Inr:
  assumes "disable_plan env js now i actor s = (Inr u, t) \<or> enable_plan env js now i actor s = (Inr u, t)"
  shows "db_assignments t = db_assignments s" and "db_plan_cache t = Map.empty"
  using assms by (auto simp: disable_plan_def enable_plan_def plans_update_Inr st_invert Let_def)

lemma clone_plan_Inr:
  assumes "clone_plan env js i now source name actor s = (Inr p, t)"
  shows "\<exists>r q row. find (\<lambda>r. plr_id r = source) (db_plans s) = Some r \<and> into_plan js r = Inr q \<and>
      clone_with_name i name now q = Inr p \<and> plan_to_row js p = Inr row \<and> db_plans t = db_plans s @ [row]"
    and "\<forall>r \<in> set (db_plans s). plr_id r \<noteq> i \<and> plr_name r \<noteq> name"
    and "db_assignments t = db_assignments s" and "db_plan_cache t = db_plan_cache s"
proof -
  have f: "hp_id p = i \<and> hp_name p = name" if "clone_with_name i name now q = Inr p" for q
    using that by (auto simp: clone_with_name_def hosting_plan_new_def split: if_splits)
  show "\<exists>r q row. find (\<lambda>r. plr_id r = source) (db_plans s) = Some r \<and> into_plan js r = Inr q \<and>
      clone_with_name i name now q = Inr p \<and> plan_to_row js p = Inr row \<and> db_plans t = db_plans s @ [row]"
    "\<forall>r \<in> set (db_plans s). plr_id r \<noteq> i \<and> plr_name r \<noteq> name"
    "db_assignments t = db_assignments s" "db_plan_cache t = db_plan_cache s"
    using assms f by (auto simp: clone_plan_def plans_insert_Inr st_invert)
qed

text \<open>
  A plan leaves only when no assignment refers to it, and the refusal of one in use changes
  neither plans nor assignments.
\<close>

lemma delete_plan_Inr:
  assumes "delete_plan env now i actor s = (Inr u, t)"
  shows "(\<exists>r \<in> set (db_plans s). plr_id r = i) \<Longrightarrow> \<forall>a \<in> set (db_assignments s). pa_plan_id a \<noteq> i"
    and "db_plans t = delete_where (\<lambda>r. plr_id r = i) (db_plans s)"
    and "db_assignments t = db_assignments s" and "db_plan_cache t = Map.empty"
  using assms
  by (auto simp: delete_plan_def plans_delete_def count_assignments_def st_invert list_ex_iff)

lemma delete_plan_in_use:
  assumes "env_fault env (db_tick s) = None" and "a \<in> set (db_assignments s)" and "pa_plan_id a = i"
    and "assignment_is_current a"
  shows "fst (delete_plan env now i actor s) = Inl PlanInUse"
    and "db_plans (snd (delete_plan env now i actor s)) = db_plans s"
    and "db_assignments (snd (delete_plan env now i actor s)) = db_assignments s"
proof -
  have n: "0 < length (filter (\<lambda>a. pa_plan_id a = i \<and> assignment_is_current a) (db_assignments s))"
    using assms by (auto simp: length_greater_0_conv filter_empty_conv)
  then have run: "count_assignments env i s = (Inr (length (filter (\<lambda>a. pa_plan_id a = i \<and> assignment_is_current a) (db_assignments s))), tick s)"
    using assms(1) by (simp add: count_assignments_def st_invert)
  show "fst (delete_plan env now i actor s) = Inl PlanInUse"
    "db_plans (snd (delete_plan env now i actor s)) = db_plans s"
    "db_assignments (snd (delete_plan env now i actor s)) = db_assignments s"
    using n by (simp_all add: delete_plan_def sbind_eval(1) [of "count_assignments env i", OF run])
       (simp_all add: sbind_def p_audit_def)
qed

lemma assign_plan_Inr:
  assumes "assign_plan env js now i u actor by_id s = (Inr a, t)"
  shows "a = plan_assignment_new u i by_id now"
    and "\<exists>r p. find (\<lambda>r. plr_id r = i) (db_plans s) = Some r \<and> into_plan js r = Inr p \<and> accepts_assignments p"
    and "user_exists u s"
    and "db_assignments t = end_assignment u now (db_assignments s) @ [a]"
    and "db_plans t = db_plans s" and "db_plan_cache t = (db_plan_cache s)(u := None)"
proof -
  show "a = plan_assignment_new u i by_id now"
    "\<exists>r p. find (\<lambda>r. plr_id r = i) (db_plans s) = Some r \<and> into_plan js r = Inr p \<and> accepts_assignments p"
    "db_assignments t = end_assignment u now (db_assignments s) @ [a]"
    "db_plans t = db_plans s" "db_plan_cache t = (db_plan_cache s)(u := None)"
    using assms
    by (auto simp: assign_plan_def insert_assignment_def replace_current_assignment_Inr st_invert Let_def
        users_update_hosting_plan_id_def users_update_def plan_assignment_new_def user_lookup_defs)
  show "user_exists u s"
    using assms
    by (auto simp: assign_plan_def user_lookup_defs st_invert Let_def user_exists_def list_ex_iff
        dest: find_SomeD split: option.splits)
qed

text \<open>Right after an assignment it is the account's only current one.\<close>

lemma current_after_assign:
  assumes "assign_plan env js now i u actor by_id s = (Inr a, t)"
  shows "filter (current_for u) (db_assignments t) = [a]"
  using assign_plan_Inr(1,4) [OF assms] end_assignment_none [of u now "db_assignments s"]
  by (simp add: plan_assignment_new_def current_for_def assignment_is_current_def)

lemma unassign_plan_Inr:
  assumes "unassign_plan env now u actor s = (Inr x, t)"
  shows "db_assignments t = end_assignment u now (db_assignments s)" and "db_plans t = db_plans s"
    and "db_plan_cache t = db_plan_cache s \<and> filter (current_for u) (db_assignments s) = [] \<or>
      db_plan_cache t = (db_plan_cache s)(u := None)"
  using assms
  by (auto simp: unassign_plan_def remove_is_replace replace_current_assignment_Inr st_invert
      users_update_hosting_plan_id_def users_update_def)

section \<open>The cache refines the resolver\<close>

text \<open>
  Completed operations of the service on a store without faults. \<open>effective_async\<close> is left
  out: it caches the default for every account it misses.
\<close>

inductive plan_step :: "env \<Rightarrow> plan_json \<Rightarrow> db \<Rightarrow> db \<Rightarrow> bool" for env js where
  created: "create_plan env js i now name d caps actor s = (Inr p, t) \<Longrightarrow> plan_step env js s t"
| updated: "update_plan env js now i caps fs actor s = (Inr p, t) \<Longrightarrow> plan_step env js s t"
| disabled: "disable_plan env js now i actor s = (Inr x, t) \<Longrightarrow> plan_step env js s t"
| enabled: "enable_plan env js now i actor s = (Inr x, t) \<Longrightarrow> plan_step env js s t"
| cloned: "clone_plan env js i now source name actor s = (Inr p, t) \<Longrightarrow> plan_step env js s t"
| deleted: "delete_plan env now i actor s = (Inr x, t) \<Longrightarrow> plan_step env js s t"
| assigned: "assign_plan env js now i u actor by_id s = (Inr a, t) \<Longrightarrow> plan_step env js s t"
| unassigned: "unassign_plan env now u actor s = (Inr x, t) \<Longrightarrow> plan_step env js s t"
| resolved: "effective env js now u s = (caps, t) \<Longrightarrow> plan_step env js s t"

definition cache_coherent :: "plan_json \<Rightarrow> db \<Rightarrow> bool" where
  "cache_coherent js s \<longleftrightarrow> (\<forall>u caps since. db_plan_cache s u = Some (caps, since) \<longrightarrow> caps = spec_caps js u s)"

lemma effective_spec:
  assumes "env_fault env = (\<lambda>_. None)" and "cache_coherent js s"
  shows "fst (effective env js now u s) = spec_caps js u s"
  using assms resolve_caps_spec(1) [OF assms(1), of js u s]
  by (auto simp: effective_def cache_hit_def cache_coherent_def split: option.splits prod.splits if_splits)

lemma spec_caps_frame:
  assumes "filter (current_for u) (db_assignments t) = filter (current_for u) (db_assignments s)"
    and "\<And>a. a \<in> set (filter (current_for u) (db_assignments s)) \<Longrightarrow>
      find (\<lambda>r. plr_id r = pa_plan_id a) (db_plans t) = find (\<lambda>r. plr_id r = pa_plan_id a) (db_plans s)"
  shows "spec_caps js u t = spec_caps js u s"
proof (cases "latest_by pa_assigned_at (filter (current_for u) (db_assignments s))")
  case (Some a)
  then show ?thesis
    using assms(2) [OF latest_by_SomeD [OF Some]] by (simp add: spec_caps_def assms(1))
qed (simp add: spec_caps_def assms(1))

lemma find_append_other: "x \<in> set (map k rows) \<Longrightarrow> find (\<lambda>r. k r = x) (rows @ [r]) = find (\<lambda>r. k r = x) rows"
  by (induction rows) auto

lemma filter_current_other:
  "v \<noteq> u \<Longrightarrow> filter (current_for v) (end_assignment u now rows) = filter (current_for v) rows"
  by (induction rows) (auto simp: end_assignment_def current_for_def assignment_is_current_def)

lemma end_assignment_idle: "filter (current_for u) rows = [] \<Longrightarrow> end_assignment u now rows = rows"
  unfolding end_assignment_def by (intro update_where_none) (simp add: filter_empty_conv)

lemma coherent_same_cache:
  assumes "cache_coherent js s" and "db_plan_cache t = db_plan_cache s"
    and "\<And>u. spec_caps js u t = spec_caps js u s"
  shows "cache_coherent js t"
  using assms by (simp add: cache_coherent_def)

lemma coherent_append_plan:
  assumes "cache_coherent js s" and "plans_wf js s" and "db_plans t = db_plans s @ [row]"
    and "db_assignments t = db_assignments s" and "db_plan_cache t = db_plan_cache s"
  shows "cache_coherent js t"
proof (rule coherent_same_cache [OF assms(1,5)], rule spec_caps_frame)
  fix u a assume "a \<in> set (filter (current_for u) (db_assignments s))"
  then have "pa_plan_id a \<in> set (map plr_id (db_plans s))"
    using assms(2) by (auto simp: plans_wf_def catalogue_ok_def list_all_iff)
  then show "find (\<lambda>r. plr_id r = pa_plan_id a) (db_plans t) = find (\<lambda>r. plr_id r = pa_plan_id a) (db_plans s)"
    unfolding assms(3) by (rule find_append_other)
qed (simp add: assms(4))

lemma coherent_one_user:
  assumes "cache_coherent js s" and "db_plan_cache t = (db_plan_cache s)(u := None)" and "db_plans t = db_plans s"
    and "\<And>v. v \<noteq> u \<Longrightarrow> filter (current_for v) (db_assignments t) = filter (current_for v) (db_assignments s)"
  shows "cache_coherent js t"
  using assms(1,2) spec_caps_frame [of _ t s, OF assms(4)]
  by (auto simp: cache_coherent_def assms(3) split: if_splits)

lemma coherent_effective:
  assumes up: "env_fault env = (\<lambda>_. None)" and coh: "cache_coherent js s" and run: "effective env js now u s = (caps, t)"
  shows "cache_coherent js t"
proof (cases "cache_hit now u s")
  case None
  obtain n where "snd (resolve_caps env js u s) = s\<lparr>db_tick := n\<rparr>" using resolve_caps_spec(2) [OF up] by blast
  then have t: "t = cache_store now u (spec_caps js u s) (s\<lparr>db_tick := n\<rparr>)"
    using None run resolve_caps_spec(1) [OF up, of js u s]
    by (auto simp: effective_def split: prod.splits)
  moreover have "spec_caps js v t = spec_caps js v s" for v
    unfolding t by (rule spec_caps_frame) (simp_all add: cache_store_def)
  ultimately show ?thesis
    using coh by (auto simp: cache_coherent_def cache_store_def split: if_splits)
qed (use run coh in \<open>simp add: effective_def\<close>)

lemmas catalogue_keeps = catalogue.keeps_create_plan catalogue.keeps_update_plan catalogue.keeps_toggle_plan
  catalogue.keeps_clone_plan catalogue.keeps_delete_plan catalogue.keeps_assign_plan catalogue.keeps_unassign_plan

lemma plan_step_wf:
  assumes "plan_step env js s t" and "accounts_wf s \<and> json_roundtrips js \<and> plans_wf js s"
  shows "accounts_wf t \<and> json_roundtrips js \<and> plans_wf js t"
  using assms
proof (induction rule: plan_step.induct)
  case (resolved now u s caps t)
  then show ?case using catalogue.keeps_effective [of s js env now u] by simp
qed (rule catalogue_keeps [THEN keeps_run]; assumption)+

lemma plan_step_coherent:
  assumes "plan_step env js s t" and up: "env_fault env = (\<lambda>_. None)" and "plans_wf js s" and "cache_coherent js s"
  shows "cache_coherent js t"
  using assms(1)
proof cases
  case (created i now name d caps actor p)
  then show ?thesis
    using create_plan_Inr(2,4,5) [OF created] coherent_append_plan [OF assms(4,3)] by blast
next
  case (updated now i caps fs actor p)
  then show ?thesis using update_plan_Inr(3) by (simp add: cache_coherent_def)
next
  case (disabled now i actor x)
  then show ?thesis using toggle_plan_Inr(2) by (metis cache_coherent_def option.distinct(1))
next
  case (enabled now i actor x)
  then show ?thesis using toggle_plan_Inr(2) by (metis cache_coherent_def option.distinct(1))
next
  case (cloned i now source name actor p)
  then show ?thesis
    using clone_plan_Inr(1,3,4) [OF cloned] coherent_append_plan [OF assms(4,3)] by blast
next
  case (deleted now i actor x)
  then show ?thesis using delete_plan_Inr(4) by (simp add: cache_coherent_def)
next
  case (assigned now i u actor by_id a)
  note run = assign_plan_Inr [OF assigned]
  show ?thesis
    using run(1) by (intro coherent_one_user [OF assms(4) run(6,5)])
      (simp add: run(4) filter_current_other plan_assignment_new_def current_for_def)
next
  case (unassigned now u actor x)
  note run = unassign_plan_Inr [OF unassigned]
  from run(3) show ?thesis
  proof
    assume idle: "db_plan_cache t = db_plan_cache s \<and> filter (current_for u) (db_assignments s) = []"
    then have "spec_caps js v t = spec_caps js v s" for v
      using run(1,2) end_assignment_idle by (intro spec_caps_frame) simp_all
    then show ?thesis using coherent_same_cache [OF assms(4)] idle by blast
  next
    assume "db_plan_cache t = (db_plan_cache s)(u := None)"
    then show ?thesis
      using coherent_one_user [OF assms(4) _ run(2)] run(1) filter_current_other by simp
  qed
next
  case (resolved now u caps)
  then show ?thesis using coherent_effective [OF up assms(4)] by blast
qed

lemma plan_steps_coherent:
  assumes "(plan_step env js)\<^sup>*\<^sup>* s t" and "env_fault env = (\<lambda>_. None)"
    and "accounts_wf s \<and> json_roundtrips js \<and> plans_wf js s" and "cache_coherent js s"
  shows "(accounts_wf t \<and> json_roundtrips js \<and> plans_wf js t) \<and> cache_coherent js t"
  using assms(1)
  by (induction rule: rtranclp_induct) (use assms plan_step_wf plan_step_coherent in blast)+

end
