(* ===== verification/Quota_Service.thy ===== *)
theory Quota_Service
  imports Quota_Repo Plans_Service
begin

text \<open>
  \<open>QuotaService\<close> of \<open>openpanel-app/src/quotas/service.rs\<close>: policies of accounts and the
  ingestion of usage samples with the audit entry of the worst limit that is exceeded.
\<close>

definition q_audit :: "env \<Rightarrow> audit_event \<Rightarrow> unit qcall" where
  "q_audit env e = signore (audit_record env e)"

definition quota_find_by_subject ::
    "env \<Rightarrow> quota_subject \<Rightarrow> uuid \<Rightarrow> quota_policy option qcall" where
  "quota_find_by_subject env kind subj = policies_find_by_subject env kind subj"

definition quota_find_by_id :: "env \<Rightarrow> uuid \<Rightarrow> quota_policy option qcall" where
  "quota_find_by_id env i = policies_find_by_id env i"

definition quota_list :: "env \<Rightarrow> quota_policy list qcall" where
  "quota_list env = policies_list env"

definition set_user_policy ::
    "env \<Rightarrow> instant \<Rightarrow> uuid \<Rightarrow> quota_policy \<Rightarrow> string \<Rightarrow> quota_policy qcall" where
  "set_user_policy env now user_id policy actor =
     sbind (q_sql (users_find_by_id env user_id)) (\<lambda>user.
     if user = None then sfail SubjectNotFound
     else
     sbind (policies_find_by_subject env SubjUser user_id) (\<lambda>existing.
     sbind (if existing \<noteq> None then policies_update env policy else policies_insert env policy) (\<lambda>_.
     sbind (q_audit env (with_metadata
         (JObject [(''subject_id'', id_json env user_id), (''subject_kind'', JString ''user'')])
         (with_target (env_uuid_str env (qpol_id policy))
           (audit_event_new now actor ActQuotaPolicyChanged Success)))) (\<lambda>_.
       sret policy))))"

definition quota_delete :: "env \<Rightarrow> instant \<Rightarrow> uuid \<Rightarrow> string \<Rightarrow> unit qcall" where
  "quota_delete env now i actor =
     sbind (policies_delete env i) (\<lambda>_.
       q_audit env (with_target (env_uuid_str env i)
         (audit_event_new now actor ActQuotaPolicyDeleted Success)))"

definition names_json :: "quota_dimension set \<Rightarrow> json" where
  "names_json ds = JArray (map JString (dimension_names ds))"

definition sample ::
    "env \<Rightarrow> usage_json \<Rightarrow> instant \<Rightarrow> quota_policy \<Rightarrow> u64 \<Rightarrow> u64 \<Rightarrow> u64 \<Rightarrow> string \<Rightarrow> quota_usage qcall" where
  "sample env js now policy disk_used inodes_used bandwidth_used actor =
     (let usage = quota_usage_sample (qpol_subject_id policy) policy disk_used inodes_used bandwidth_used now in
     sbind (insert_usage env js usage) (\<lambda>_.
     sbind
       (if qu_over_hard usage \<noteq> {}
        then q_audit env (with_metadata (JObject [(''over_hard'', names_json (qu_over_hard usage))])
               (with_target (env_uuid_str env (qpol_subject_id policy))
                 (audit_event_new now actor ActQuotaHardLimitReached Failure)))
        else if qu_over_soft usage \<noteq> {}
        then q_audit env (with_metadata (JObject [(''over_soft'', names_json (qu_over_soft usage))])
               (with_target (env_uuid_str env (qpol_subject_id policy))
                 (audit_event_new now actor ActQuotaSoftLimitReached Success)))
        else sret ()) (\<lambda>_.
       sret usage)))"

definition latest_usage :: "env \<Rightarrow> usage_json \<Rightarrow> uuid \<Rightarrow> quota_usage option qcall" where
  "latest_usage env js subj = repo_latest_usage env js subj"

section \<open>Invariants\<close>

text \<open>What an invariant has to allow for the quota operations to keep it.\<close>

locale quota_invariant = store_invariant P for P +
  assumes add_policy: "P s \<Longrightarrow>
      \<not> list_ex (\<lambda>r. por_id r = qpol_id p \<or> por_subject_kind r = subject_kind_str (qpol_subject_kind p) \<and>
              por_subject_id r = qpol_subject_id p) (db_policies s) \<Longrightarrow>
      P (s\<lparr>db_policies := db_policies s @ [policy_to_row p]\<rparr>)"
    and change_policy: "P s \<Longrightarrow> P (s\<lparr>db_policies := update_where (\<lambda>r. por_id r = i) (policy_row_set row) (db_policies s)\<rparr>)"
    and drop_policy: "P s \<Longrightarrow> P (s\<lparr>db_policies := delete_where (\<lambda>r. por_id r = i) (db_policies s)\<rparr>)"
    and usage_free: "P (s\<lparr>db_usages := xs\<rparr>) = P s"
begin

lemma keeps_q_wrappers [keeps_intros]:
  "keeps P m \<Longrightarrow> keeps P (q_sql m)" "keeps P (q_audit env e)"
  unfolding q_sql_def q_audit_def by (intro keeps_intros keeps_audit_record; assumption)+

lemma keeps_quota_reads [keeps_intros]:
  "keeps P (policies_find_by_id env i)" "keeps P (policies_find_by_subject env k i)" "keeps P (policies_list env)"
  "keeps P (repo_latest_usage env js i)" "keeps P (users_find_by_id env i)"
  unfolding policies_find_by_id_def policies_find_by_subject_def policies_find_def policies_list_def
    repo_latest_usage_def user_lookup_defs users_find_def
  by (intro keeps_intros tickless_P)+

lemma keeps_quota_writes [keeps_intros]:
  "keeps P (policies_insert env p)" "keeps P (policies_update env p)" "keeps P (policies_delete env i)"
  "keeps P (insert_usage env js u)"
  unfolding policies_insert_def policies_update_def policies_delete_def insert_usage_def
  by (intro keeps_q_wrappers keeps_write; simp add: add_policy change_policy drop_policy usage_free)+

lemma keeps_set_user_policy: "keeps P (set_user_policy env now i p actor)"
  unfolding set_user_policy_def by (intro keeps_intros)

lemma keeps_quota_delete: "keeps P (quota_delete env now i actor)"
  unfolding quota_delete_def by (intro keeps_intros)

lemma keeps_sample: "keeps P (sample env js now p d i b actor)"
  unfolding sample_def Let_def by (intro keeps_intros)

end

definition policy_row_ok :: "policy_row \<Rightarrow> bool" where
  "policy_row_ok r \<longleftrightarrow> (case into_policy r of Inl e \<Rightarrow> False | Inr p \<Rightarrow> True)"

definition policies_wf :: "policy_row list \<Rightarrow> bool" where
  "policies_wf rows \<longleftrightarrow> distinct (map por_id rows) \<and>
     distinct (map (\<lambda>r. (por_subject_kind r, por_subject_id r)) rows) \<and> list_all policy_row_ok rows"

lemma policies_wf_add:
  assumes "policies_wf rows"
    and "\<not> list_ex (\<lambda>r. por_id r = qpol_id p \<or> por_subject_kind r = subject_kind_str (qpol_subject_kind p) \<and>
              por_subject_id r = qpol_subject_id p) rows"
  shows "policies_wf (rows @ [policy_to_row p])"
proof -
  have "policy_row_ok (policy_to_row p)" by (simp add: policy_row_ok_def policy_codec.roundtrip)
  moreover have "por_id (policy_to_row p) \<notin> set (map por_id rows)"
    "(por_subject_kind (policy_to_row p), por_subject_id (policy_to_row p)) \<notin>
       set (map (\<lambda>r. (por_subject_kind r, por_subject_id r)) rows)"
    using assms(2) by (auto simp: policy_to_row_def list_ex_iff)
  ultimately show ?thesis using assms(1) by (simp add: policies_wf_def)
qed

lemma policy_row_ok_set: "policy_row_ok (policy_row_set row r) = policy_row_ok r"
  by (simp add: policy_row_ok_def into_policy_def policy_row_set_def quota_policy_restore_def rbind_def
      split: sum.split)

lemma policies_wf_update: "policies_wf rows \<Longrightarrow> policies_wf (update_where (\<lambda>r. por_id r = i) (policy_row_set row) rows)"
proof -
  have "map por_id (update_where (\<lambda>r. por_id r = i) (policy_row_set row) rows) = map por_id rows"
    "map (\<lambda>r. (por_subject_kind r, por_subject_id r)) (update_where (\<lambda>r. por_id r = i) (policy_row_set row) rows) =
       map (\<lambda>r. (por_subject_kind r, por_subject_id r)) rows"
    by (intro map_update_where; simp add: policy_row_set_def)+
  then show "policies_wf rows \<Longrightarrow> ?thesis"
    by (auto simp: policies_wf_def list_all_iff set_update_where policy_row_ok_set)
qed

lemma policies_wf_delete: "policies_wf rows \<Longrightarrow> policies_wf (delete_where q rows)"
  by (auto simp: policies_wf_def list_all_iff intro: distinct_map_delete_where)

lemma quota_invariant_join:
  assumes "store_invariant P" and "\<And>s x. P (s\<lparr>db_policies := x\<rparr>) = P s" and "\<And>s x. P (s\<lparr>db_usages := x\<rparr>) = P s"
  shows "quota_invariant (\<lambda>s. P s \<and> policies_wf (db_policies s))"
  by unfold_locales
     (use store_invariant.tickless_P [OF assms(1)] in \<open>simp add: tickless_def\<close>,
      simp_all add: store_invariant.audit_free [OF assms(1)] assms(2,3) policies_wf_add policies_wf_update
        policies_wf_delete)

section \<open>What each operation does\<close>

lemma q_audit_outcome [st_invert]:
  "q_audit env e s = (r, t) \<longleftrightarrow> r = Inr () \<and> t = snd (audit_record env e s)"
  by (auto simp: q_audit_def)

lemma audit_record_quota [simp]:
  "db_policies (snd (audit_record env e s)) = db_policies s" "db_usages (snd (audit_record env e s)) = db_usages s"
  using audit_record_frame [of env e s] by (metis (no_types, lifting) db.simps db.surjective prod.collapse tick_fields)+

lemma policies_find_Inr:
  "policies_find env q s = (Inr x, t) \<longleftrightarrow> env_fault env (db_tick s) = None \<and> t = tick s \<and>
     (case find q (db_policies s) of None \<Rightarrow> x = None | Some r \<Rightarrow> \<exists>p. into_policy r = Inr p \<and> x = Some p)"
  by (cases "find q (db_policies s)"; cases x) (auto simp: policies_find_def st_invert)

text \<open>
  The first policy of an account is stored. A later one is written with \<open>WHERE id = ?\<close> and the
  identifier of the new policy: it takes effect only when that is the identifier of the stored one.
\<close>

definition user_policy_row :: "uuid \<Rightarrow> policy_row \<Rightarrow> bool" where
  "user_policy_row u r \<longleftrightarrow> por_subject_kind r = ''user'' \<and> por_subject_id r = u"

lemma set_user_policy_Inr:
  assumes "set_user_policy env now u p actor s = (Inr q, t)"
  shows "q = p" and "user_exists u s"
    and "find (user_policy_row u) (db_policies s) = None \<Longrightarrow> db_policies t = db_policies s @ [policy_to_row p]"
    and "find (user_policy_row u) (db_policies s) \<noteq> None \<Longrightarrow>
      db_policies t = update_where (\<lambda>r. por_id r = qpol_id p) (policy_row_set (policy_to_row p)) (db_policies s)"
proof -
  have e: "(\<lambda>r. por_subject_kind r = subject_kind_str SubjUser \<and> por_subject_id r = u) = user_policy_row u"
    by (simp add: fun_eq_iff user_policy_row_def subject_kind_str_def)
  show "q = p"
    "find (user_policy_row u) (db_policies s) = None \<Longrightarrow> db_policies t = db_policies s @ [policy_to_row p]"
    "find (user_policy_row u) (db_policies s) \<noteq> None \<Longrightarrow>
      db_policies t = update_where (\<lambda>r. por_id r = qpol_id p) (policy_row_set (policy_to_row p)) (db_policies s)"
    using assms
    by (auto simp: set_user_policy_def policies_find_by_subject_def policies_find_Inr e st_invert
        policies_insert_def policies_update_def user_lookup_defs split: option.splits)
  show "user_exists u s"
    using assms
    by (auto simp: set_user_policy_def st_invert user_lookup_defs user_exists_def list_ex_iff dest!: find_SomeD
        split: option.splits)
qed

lemma sample_Inr:
  assumes "sample env js now p d i b actor s = (Inr u, t)"
  shows "u = quota_usage_sample (qpol_subject_id p) p d i b now"
    and "db_usages t = db_usages s @ [usage_to_row js u]" and "db_policies t = db_policies s"
  using assms by (auto simp: sample_def insert_usage_def st_invert Let_def split: if_splits)

text \<open>The sample just taken is the latest one, unless the clock went back.\<close>

lemma latest_by_append:
  "\<forall>x \<in> set rows. k x < k r \<Longrightarrow> latest_by k (rows @ [r]) = Some r"
  by (induction rows) auto

lemma latest_usage_after_sample:
  assumes "usage_json_contract js" and "sample env js now p d i b actor s = (Inr u, t)"
    and "\<forall>r \<in> set (db_usages s). usr_subject_id r = qpol_subject_id p \<longrightarrow> usr_sampled_at r < now"
    and "env_fault env (db_tick t) = None"
  shows "latest_usage env js (qpol_subject_id p) t = (Inr (Some u), tick t)"
proof -
  note run = sample_Inr [OF assms(2)]
  have f: "usr_subject_id (usage_to_row js u) = qpol_subject_id p" "usr_sampled_at (usage_to_row js u) = now"
    by (simp_all add: run(1) usage_to_row_def quota_usage_sample_def Let_def)
  have "latest_by usr_sampled_at (filter (\<lambda>r. usr_subject_id r = qpol_subject_id p) (db_usages t)) = Some (usage_to_row js u)"
    using assms(3) by (simp add: run(2) f latest_by_append)
  then show ?thesis
    using assms(4) usage_codec.roundtrip [OF assms(1), of u]
    by (simp add: latest_usage_def repo_latest_usage_def st_invert)
qed

end
