(* ===== verification/Token_Domain.thy ===== *)
theory Token_Domain
  imports Factor_Domain Audit_Codec "HOL-Library.Char_ord" "HOL-Library.List_Lexorder"
begin

unbundle bit_operations_syntax

text \<open>
  Personal API tokens, \<open>openpanel-domain/src/api_tokens/mod.rs\<close>: scopes, source networks,
  the credential text with its checksum, and the token aggregate.
\<close>

datatype api_token_error =
    InvalidCredential
  | InvalidScope
  | InvalidCidr
  | InvalidLabel
  | EmptyScopes
  | InvalidExpiration
  | AlreadyRevoked
  | TokenNotFound
  | TokenForbidden
  | TokenPersistence string

fun api_token_error_display :: "api_token_error \<Rightarrow> string" where
  "api_token_error_display InvalidCredential = ''invalid API token''"
| "api_token_error_display InvalidScope = ''invalid token scope''"
| "api_token_error_display InvalidCidr = ''invalid CIDR''"
| "api_token_error_display InvalidLabel = ''invalid token label''"
| "api_token_error_display EmptyScopes = ''token requires at least one scope''"
| "api_token_error_display InvalidExpiration = ''token expiration must be in the future''"
| "api_token_error_display AlreadyRevoked = ''token is already revoked''"
| "api_token_error_display TokenNotFound = ''API token not found''"
| "api_token_error_display TokenForbidden = ''API token operation forbidden''"
| "api_token_error_display (TokenPersistence e) = ''API token persistence failed: '' @ e"

section \<open>Scopes\<close>

datatype token_scope = TokenScope string

primrec scope_str :: "token_scope \<Rightarrow> string" where
  "scope_str (TokenScope s) = s"

text \<open>The derived order of the newtype is the order of the text.\<close>

instantiation token_scope :: linorder
begin

definition less_eq_token_scope :: "token_scope \<Rightarrow> token_scope \<Rightarrow> bool" where
  "less_eq_token_scope a b \<longleftrightarrow> scope_str a \<le> scope_str b"

definition less_token_scope :: "token_scope \<Rightarrow> token_scope \<Rightarrow> bool" where
  "less_token_scope a b \<longleftrightarrow> scope_str a < scope_str b"

instance
proof
  show "a = b" if "a \<le> b" "b \<le> a" for a b :: token_scope
    using that by (cases a; cases b) (simp add: less_eq_token_scope_def)
qed (auto simp: less_eq_token_scope_def less_token_scope_def)

end

definition valid_scope_part :: "string \<Rightarrow> bool" where
  "valid_scope_part v \<longleftrightarrow>
     v \<noteq> [] \<and> length v \<le> 32 \<and> is_ascii_lowercase (hd v) \<and>
     list_all (\<lambda>c. is_ascii_lowercase c \<or> is_ascii_digit c \<or> c = CHR ''_'' \<or> c = CHR ''-'') v"

text \<open>\<open>str::split\<close> on a character: always at least one part.\<close>

fun split_on :: "char \<Rightarrow> string \<Rightarrow> string list" where
  "split_on c [] = [[]]"
| "split_on c (x # xs) =
     (if x = c then [] # split_on c xs
      else case split_on c xs of p # ps \<Rightarrow> (x # p) # ps | [] \<Rightarrow> [[x]])"

definition scope_parse :: "string \<Rightarrow> api_token_error + token_scope" where
  "scope_parse v =
     (case split_on CHR '':'' v of
        [context, verb] \<Rightarrow>
          if valid_scope_part context \<and> valid_scope_part verb then Inr (TokenScope v) else Inl InvalidScope
      | _ \<Rightarrow> Inl InvalidScope)"

definition scope_context :: "token_scope \<Rightarrow> string" where
  "scope_context sc = (case split_once CHR '':'' (scope_str sc) of None \<Rightarrow> [] | Some (a, b) \<Rightarrow> a)"

definition scope_verb :: "token_scope \<Rightarrow> string" where
  "scope_verb sc = (case split_once CHR '':'' (scope_str sc) of None \<Rightarrow> [] | Some (a, b) \<Rightarrow> b)"

lemma split_on_ne: "split_on c s \<noteq> []"
  by (induction s) (auto split: list.splits)

lemma split_on_single: "split_on c s = [p] \<longleftrightarrow> p = s \<and> c \<notin> set s"
proof (induction s arbitrary: p)
  case (Cons x xs)
  then show ?case using split_on_ne [of c xs] by (cases "split_on c xs") auto
qed auto

lemma split_on_pair: "split_on c s = [a, b] \<longleftrightarrow> s = a @ c # b \<and> c \<notin> set a \<and> c \<notin> set b"
proof (induction s arbitrary: a)
  case (Cons x xs)
  show ?case
  proof (cases a)
    case Nil
    then show ?thesis using split_on_single [of c xs b] by (cases "split_on c xs") auto
  next
    case (Cons y ys)
    then show ?thesis
      using split_on_ne [of c xs] Cons.IH [of ys] by (cases "split_on c xs") auto
  qed
qed auto

definition scope_wf :: "token_scope \<Rightarrow> bool" where
  "scope_wf sc \<longleftrightarrow> (\<exists>a b. scope_str sc = a @ CHR '':'' # b \<and> valid_scope_part a \<and> valid_scope_part b)"

lemma valid_scope_part_colon: "valid_scope_part v \<Longrightarrow> CHR '':'' \<notin> set v"
  by (auto simp: valid_scope_part_def list_all_iff ascii_defs)

lemma scope_parse_Inr: "scope_parse v = Inr sc \<longleftrightarrow> sc = TokenScope v \<and> scope_wf sc"
proof -
  have "scope_parse v = Inr sc \<longleftrightarrow>
      (\<exists>a b. split_on CHR '':'' v = [a, b] \<and> valid_scope_part a \<and> valid_scope_part b \<and> sc = TokenScope v)"
    by (auto simp: scope_parse_def split: list.splits)
  also have "\<dots> \<longleftrightarrow> sc = TokenScope v \<and> scope_wf sc"
    by (cases sc) (auto simp: split_on_pair scope_wf_def dest: valid_scope_part_colon)
  finally show ?thesis .
qed

interpretation scope_vo: value_object scope_parse scope_str scope_wf
proof
  show "scope_parse s = Inr v \<longleftrightarrow> scope_wf v \<and> scope_str v = s" for s v
    by (cases v) (auto simp: scope_parse_Inr)
qed

lemma scope_parts:
  assumes "scope_wf sc"
  shows "scope_str sc = scope_context sc @ CHR '':'' # scope_verb sc"
    and "valid_scope_part (scope_context sc)" and "valid_scope_part (scope_verb sc)"
proof -
  obtain a b where ab: "scope_str sc = a @ CHR '':'' # b" "valid_scope_part a" "valid_scope_part b"
    using assms by (auto simp: scope_wf_def)
  then have "split_once CHR '':'' (scope_str sc) = Some (a, b)"
    by (simp add: split_once_append valid_scope_part_colon)
  then show "scope_str sc = scope_context sc @ CHR '':'' # scope_verb sc"
    "valid_scope_part (scope_context sc)" "valid_scope_part (scope_verb sc)"
    using ab by (simp_all add: scope_context_def scope_verb_def)
qed

section \<open>Libraries\<close>

text \<open>
  What the model takes from libraries: SHA-256 and HMAC-SHA256 (crates sha2 and hmac) and the
  text form of IP addresses. An address is the integer \<open>u32::from\<close> or \<open>u128::from\<close> makes of it.
\<close>

datatype ip_addr = V4 "32 word" | V6 "128 word"

record token_lib =
  lib_sha256 :: "byte list \<Rightarrow> byte list"
  lib_hmac :: "byte list \<Rightarrow> byte list \<Rightarrow> byte list"
  lib_parse_ip :: "string \<Rightarrow> ip_addr option"
  lib_show_ip :: "ip_addr \<Rightarrow> string"

definition ip_contract :: "token_lib \<Rightarrow> bool" where
  "ip_contract lib \<longleftrightarrow>
     (\<forall>a. lib_parse_ip lib (lib_show_ip lib a) = Some a \<and> CHR ''/'' \<notin> set (lib_show_ip lib a))"

definition digest_contract :: "token_lib \<Rightarrow> bool" where
  "digest_contract lib \<longleftrightarrow> (\<forall>m. length (lib_sha256 lib m) = 32) \<and> (\<forall>k m. length (lib_hmac lib k m) = 32)"

section \<open>Networks\<close>

datatype cidr = Cidr string

primrec cidr_str :: "cidr \<Rightarrow> string" where
  "cidr_str (Cidr s) = s"

definition is_ipv4 :: "ip_addr \<Rightarrow> bool" where
  "is_ipv4 a = (case a of V4 _ \<Rightarrow> True | V6 _ \<Rightarrow> False)"

text \<open>\<open>u8::from_str\<close>: an optional plus sign, digits, and a value below 256.\<close>

definition parse_u8 :: "string \<Rightarrow> nat option" where
  "parse_u8 s =
     (let ds = (case s of c # cs \<Rightarrow> if c = CHR ''+'' then cs else s | [] \<Rightarrow> [])
      in if ds = [] then None
         else case parse_digits ds 0 of None \<Rightarrow> None | Some n \<Rightarrow> if n < 256 then Some n else None)"

definition max_prefix :: "ip_addr \<Rightarrow> nat" where
  "max_prefix a = (if is_ipv4 a then 32 else 128)"

definition cidr_parse :: "token_lib \<Rightarrow> string \<Rightarrow> api_token_error + cidr" where
  "cidr_parse lib v =
     rbind (ok_or InvalidCidr (split_once CHR ''/'' v)) (\<lambda>(address, prefix).
     rbind (ok_or InvalidCidr (lib_parse_ip lib address)) (\<lambda>a.
     rbind (ok_or InvalidCidr (parse_u8 prefix)) (\<lambda>p.
       if p > max_prefix a then Inl InvalidCidr
       else Inr (Cidr (lib_show_ip lib a @ ''/'' @ nat_str p)))))"

definition prefix_match_v4 :: "32 word \<Rightarrow> 32 word \<Rightarrow> nat \<Rightarrow> bool" where
  "prefix_match_v4 network candidate prefix =
     (let mask = (if prefix = 0 then 0 else push_bit (32 - prefix) (- 1))
      in network AND mask = candidate AND mask)"

definition prefix_match_v6 :: "128 word \<Rightarrow> 128 word \<Rightarrow> nat \<Rightarrow> bool" where
  "prefix_match_v6 network candidate prefix =
     (let mask = (if prefix = 0 then 0 else push_bit (128 - prefix) (- 1))
      in network AND mask = candidate AND mask)"

definition cidr_contains :: "token_lib \<Rightarrow> cidr \<Rightarrow> ip_addr \<Rightarrow> bool" where
  "cidr_contains lib c candidate =
     (case split_once CHR ''/'' (cidr_str c) of
        None \<Rightarrow> False
      | Some (address, prefix) \<Rightarrow>
          (case lib_parse_ip lib address of
             None \<Rightarrow> False
           | Some network \<Rightarrow>
               (case parse_u8 prefix of
                  None \<Rightarrow> False
                | Some p \<Rightarrow>
                    (case (network, candidate) of
                       (V4 n, V4 x) \<Rightarrow> prefix_match_v4 n x p
                     | (V6 n, V6 x) \<Rightarrow> prefix_match_v6 n x p
                     | _ \<Rightarrow> False))))"

text \<open>The masks compare exactly the leading bits.\<close>

definition same_prefix :: "nat \<Rightarrow> 'n::len word \<Rightarrow> 'n word \<Rightarrow> bool" where
  "same_prefix p a b \<longleftrightarrow> drop_bit (LENGTH('n) - p) a = drop_bit (LENGTH('n) - p) b"

lemma masked_prefix:
  fixes a b :: "'n::len word"
  assumes "p \<le> LENGTH('n)"
  shows "(a AND push_bit (LENGTH('n) - p) (- 1) = b AND push_bit (LENGTH('n) - p) (- 1)) \<longleftrightarrow> same_prefix p a b"
proof -
  let ?k = "LENGTH('n) - p"
  have "same_prefix p a b \<longleftrightarrow> (\<forall>n. bit a (?k + n) = bit b (?k + n))"
  proof
    show "\<forall>n. bit a (?k + n) = bit b (?k + n)" if "same_prefix p a b"
      using that unfolding same_prefix_def by (metis bit_drop_bit_eq comp_apply)
    show "same_prefix p a b" if "\<forall>n. bit a (?k + n) = bit b (?k + n)"
      using that unfolding same_prefix_def by (intro bit_word_eqI) (simp add: bit_drop_bit_eq)
  qed
  also have "\<dots> \<longleftrightarrow> (\<forall>n. (bit a n \<and> ?k \<le> n) = (bit b n \<and> ?k \<le> n))"
    by (metis le_add1 le_add_diff_inverse)
  also have "\<dots> \<longleftrightarrow> (\<forall>n. bit (a AND push_bit ?k (- 1)) n = bit (b AND push_bit ?k (- 1)) n)"
  proof -
    have "bit (w AND push_bit ?k (- 1)) n \<longleftrightarrow> bit w n \<and> ?k \<le> n" for w :: "'n word" and n
      using bit_imp_le_length [of w n] by (auto simp: bit_simps)
    then show ?thesis by (simp only:)
  qed
  also have "\<dots> \<longleftrightarrow> a AND push_bit ?k (- 1) = b AND push_bit ?k (- 1)"
    by (metis bit_word_eqI)
  finally show ?thesis by simp
qed

lemma prefix_match_iff:
  "p \<le> 32 \<Longrightarrow> prefix_match_v4 n x p \<longleftrightarrow> same_prefix p n x"
  "q \<le> 128 \<Longrightarrow> prefix_match_v6 m y q \<longleftrightarrow> same_prefix q m y"
proof -
  have zero: "same_prefix 0 a b" for a b :: "'n::len word"
    by (simp add: same_prefix_def)
  show "p \<le> 32 \<Longrightarrow> prefix_match_v4 n x p \<longleftrightarrow> same_prefix p n x"
    using masked_prefix [of p n x] zero [of n x] by (cases "p = 0") (simp_all add: prefix_match_v4_def)
  show "q \<le> 128 \<Longrightarrow> prefix_match_v6 m y q \<longleftrightarrow> same_prefix q m y"
    using masked_prefix [of q m y] zero [of m y] by (cases "q = 0") (simp_all add: prefix_match_v6_def)
qed

text \<open>A network that was accepted keeps its prefix length in range and matches by it.\<close>

lemma parse_u8_nat_str: "p < 256 \<Longrightarrow> parse_u8 (nat_str p) = Some p"
  using nat_str_Cons [of p] parse_digits_nat_str [of p "[]" 0] by (auto simp: parse_u8_def)

definition in_network :: "ip_addr \<Rightarrow> nat \<Rightarrow> ip_addr \<Rightarrow> bool" where
  "in_network network p x =
     (case (network, x) of (V4 n, V4 y) \<Rightarrow> same_prefix p n y | (V6 n, V6 y) \<Rightarrow> same_prefix p n y | _ \<Rightarrow> False)"

lemma cidr_parse_contains:
  assumes "ip_contract lib" and "cidr_parse lib v = Inr c"
  obtains ad pr a p where "split_once CHR ''/'' v = Some (ad, pr)" and "lib_parse_ip lib ad = Some a"
    and "parse_u8 pr = Some p" and "p \<le> max_prefix a"
    and "cidr_str c = lib_show_ip lib a @ ''/'' @ nat_str p"
    and "\<And>x. cidr_contains lib c x \<longleftrightarrow> in_network a p x"
proof -
  from assms(2) obtain ad pr a p where v: "split_once CHR ''/'' v = Some (ad, pr)" "lib_parse_ip lib ad = Some a"
    "parse_u8 pr = Some p" and p: "\<not> p > max_prefix a"
    and c: "c = Cidr (lib_show_ip lib a @ ''/'' @ nat_str p)"
    by (auto simp: cidr_parse_def split: prod.splits if_splits)
  have ip: "lib_parse_ip lib (lib_show_ip lib a) = Some a" "CHR ''/'' \<notin> set (lib_show_ip lib a)"
    using assms(1) by (auto simp: ip_contract_def)
  have "p < 256" using p by (simp add: max_prefix_def split: if_splits)
  then have "cidr_contains lib c x \<longleftrightarrow> in_network a p x" for x
    using p ip split_once_append [OF ip(2)]
    by (auto simp: cidr_contains_def c parse_u8_nat_str in_network_def prefix_match_iff is_ipv4_def max_prefix_def
        split: ip_addr.splits)
  with v p c show thesis by (intro that [of ad pr a p]) (simp_all add: not_less)
qed

lemma cidr_parse_idem:
  assumes "ip_contract lib" and "cidr_parse lib v = Inr c"
  shows "cidr_parse lib (cidr_str c) = Inr c"
  using assms(2)
proof (rule cidr_parse_contains [OF assms(1)])
  fix ad pr a p
  assume p: "p \<le> max_prefix a" and c: "cidr_str c = lib_show_ip lib a @ ''/'' @ nat_str p"
  have "lib_parse_ip lib (lib_show_ip lib a) = Some a" "CHR ''/'' \<notin> set (lib_show_ip lib a)"
    using assms(1) by (auto simp: ip_contract_def)
  moreover have "p < 256" using p by (simp add: max_prefix_def split: if_splits)
  ultimately show ?thesis
    using p c by (cases c) (simp add: cidr_parse_def split_once_append parse_u8_nat_str not_less [symmetric])
qed

section \<open>Base 32\<close>

definition ALPHABET32 :: string where
  "ALPHABET32 = ''ABCDEFGHIJKLMNOPQRSTUVWXYZ234567''"

text \<open>
  The buffer is a \<open>u32\<close> whose upper bits are shifted out; only the lowest \<open>bits\<close> of it are
  pending.
\<close>

fun base32_drain :: "u32 \<Rightarrow> nat \<Rightarrow> string \<times> nat" where
  "base32_drain buffer bits =
     (if bits \<ge> 5
      then (case base32_drain buffer (bits - 5) of (out, rest) \<Rightarrow>
        (ALPHABET32 ! unat (drop_bit (bits - 5) buffer AND 31) # out, rest))
      else ([], bits))"

declare base32_drain.simps [simp del]

fun b32_encode_loop :: "byte list \<Rightarrow> u32 \<Rightarrow> nat \<Rightarrow> string" where
  "b32_encode_loop [] buffer bits =
     (if bits > 0 then [ALPHABET32 ! unat (push_bit (5 - bits) buffer AND 31)] else [])"
| "b32_encode_loop (byte # bytes) buffer bits =
     (let buffer = push_bit 8 buffer OR ucast byte in
      case base32_drain buffer (bits + 8) of (out, bits) \<Rightarrow> out @ b32_encode_loop bytes buffer bits)"

definition base32_encode :: "byte list \<Rightarrow> string" where
  "base32_encode bytes = b32_encode_loop bytes 0 0"

fun b32_decode_loop :: "string \<Rightarrow> u32 \<Rightarrow> nat \<Rightarrow> byte list option" where
  "b32_decode_loop [] buffer bits = Some []"
| "b32_decode_loop (c # cs) buffer bits =
     (case position c ALPHABET32 of
        None \<Rightarrow> None
      | Some index \<Rightarrow>
          (let buffer = push_bit 5 buffer OR word_of_nat index; bits = bits + 5 in
           if bits \<ge> 8
           then map_option ((#) (ucast (drop_bit (bits - 8) buffer AND 0xff)))
                  (b32_decode_loop cs buffer (bits - 8))
           else b32_decode_loop cs buffer bits))"

definition base32_decode :: "string \<Rightarrow> byte list option" where
  "base32_decode v = b32_decode_loop v 0 0"

text \<open>
  Both loops read and write a stream of bits, most significant first: \<open>lowbits n w\<close> is the
  part of it that the lowest \<open>n\<close> bits of \<open>w\<close> hold.
\<close>

definition lowbits :: "nat \<Rightarrow> 'n::len word \<Rightarrow> bool list" where
  "lowbits n w = map (bit w) (rev [0..<n])"

lemma length_lowbits [simp]: "length (lowbits n w) = n"
  by (simp add: lowbits_def)

lemma lowbits_0 [simp]: "lowbits 0 w = []"
  by (simp add: lowbits_def)

lemma lowbits_eqI: "(\<And>i. i < n \<Longrightarrow> bit v i = bit w i) \<Longrightarrow> lowbits n v = lowbits n w"
  by (simp add: lowbits_def)

lemma lowbits_add: "lowbits (m + n) w = lowbits m (drop_bit n w) @ lowbits n w"
proof -
  have "rev [0..<m + n] = map (\<lambda>i. i + n) (rev [0..<m]) @ rev [0..<n]"
    by (simp add: upt_add_eq_append [of 0 n m] add.commute [of m n] rev_map [symmetric] map_add_upt)
  then show ?thesis
    by (simp add: lowbits_def bit_drop_bit_eq comp_def add.commute)
qed

lemma lowbits_push:
  fixes buf :: "'a::len word" and b :: "'b::len word"
  assumes "m + n \<le> LENGTH('a)" and "\<And>i. bit b i \<Longrightarrow> i < n"
  shows "lowbits (m + n) (push_bit n buf OR ucast b) = lowbits m buf @ lowbits n b"
proof -
  have "lowbits m (drop_bit n (push_bit n buf OR ucast b)) = lowbits m buf"
    using assms by (intro lowbits_eqI) (auto simp: bit_simps)
  moreover have "lowbits n (push_bit n buf OR ucast b) = map (bit b) (rev [0..<n])"
    using assms(1) by (auto simp: lowbits_def bit_simps)
  ultimately show ?thesis by (simp only: lowbits_add) (simp only: lowbits_def)
qed

lemma lowbits_8_inject: "lowbits 8 (a :: byte) = lowbits 8 b \<Longrightarrow> a = b"
  by (rule bit_word_eqI) (simp add: lowbits_def)

lemma concat_bytes_inject:
  "length xs = length ys \<Longrightarrow> concat (map (lowbits 8) xs) = concat (map (lowbits 8) (ys :: byte list)) \<Longrightarrow> xs = ys"
  by (induction xs ys rule: list_induct2) (auto dest: lowbits_8_inject)

text \<open>The five bits of a character.\<close>

definition char5 :: "char \<Rightarrow> bool list" where
  "char5 c = (case position c ALPHABET32 of None \<Rightarrow> [] | Some i \<Rightarrow> lowbits 5 (word_of_nat i :: u32))"

lemma distinct_ALPHABET32: "distinct ALPHABET32" and length_ALPHABET32: "length ALPHABET32 = 32"
  by (simp_all add: ALPHABET32_def)

lemma position_ALPHABET32: "i < 32 \<Longrightarrow> position (ALPHABET32 ! i) ALPHABET32 = Some i"
  by (simp add: position_nth [OF distinct_ALPHABET32] length_ALPHABET32)

lemma and_31_less: "unat (w AND 31 :: u32) < 32"
proof -
  have "w AND 31 \<le> 31" by (rule word_and_le1)
  then show ?thesis by (simp add: word_le_nat_alt)
qed

lemma char5_nth: "char5 (ALPHABET32 ! unat (w AND 31 :: u32)) = lowbits 5 w"
proof -
  have "(31 :: u32) = mask 5" by (simp add: mask_eq_exp_minus_1)
  then have "lowbits 5 (w AND 31) = lowbits 5 w"
    by (intro lowbits_eqI) (simp only: bit_and_iff bit_mask_iff possible_bit_word, auto dest: bit_imp_le_length)
  then show ?thesis by (simp add: char5_def position_ALPHABET32 and_31_less)
qed

lemma base32_drain_bits:
  assumes "base32_drain buf bits = (out, rest)"
  shows "concat (map char5 out) @ lowbits rest buf = lowbits bits buf" and "rest = bits mod 5"
    and "length out = bits div 5" and "set out \<subseteq> set ALPHABET32"
proof -
  have "concat (map char5 (fst (base32_drain buf bits))) @ lowbits (snd (base32_drain buf bits)) buf = lowbits bits buf \<and>
      snd (base32_drain buf bits) = bits mod 5 \<and> length (fst (base32_drain buf bits)) = bits div 5 \<and>
      set (fst (base32_drain buf bits)) \<subseteq> set ALPHABET32"
  proof (induction buf bits rule: base32_drain.induct)
    case (1 buffer bits)
    show ?case
    proof (cases "bits \<ge> 5")
      case True
      then obtain k where k: "bits = 5 + k" using le_Suc_ex by blast
      then show ?thesis
        using 1 [OF True] and_31_less lowbits_add [of 5 k buffer]
        by (subst (1 2 3 4 5) base32_drain.simps) (auto simp: char5_nth length_ALPHABET32 split: prod.splits)
    qed (simp add: base32_drain.simps)
  qed
  then show "concat (map char5 out) @ lowbits rest buf = lowbits bits buf" "rest = bits mod 5"
    "length out = bits div 5" "set out \<subseteq> set ALPHABET32"
    unfolding assms fst_conv snd_conv by blast+
qed

lemma b32_encode_bits:
  assumes "bits < 5"
  shows "\<exists>pad. length pad < 5 \<and> concat (map char5 (b32_encode_loop bs buf bits)) =
      lowbits bits buf @ concat (map (lowbits 8) bs) @ pad"
  using assms
proof (induction bs buf bits rule: b32_encode_loop.induct)
  case (1 buffer bits)
  show ?case
  proof (cases "bits = 0")
    case False
    have "lowbits 5 (push_bit (5 - bits) buffer) = lowbits bits (drop_bit (5 - bits) (push_bit (5 - bits) buffer)) @
        lowbits (5 - bits) (push_bit (5 - bits) buffer)"
      using 1 lowbits_add [of bits "5 - bits"] by simp
    moreover have "lowbits bits (drop_bit (5 - bits) (push_bit (5 - bits) buffer)) = lowbits bits buffer"
      using 1 by (intro lowbits_eqI) (auto simp: bit_simps)
    ultimately show ?thesis using 1 False by (auto simp: char5_nth)
  qed simp
next
  case (2 byte bytes buffer bits)
  let ?buf = "push_bit 8 buffer OR ucast byte"
  obtain out rest where d: "base32_drain ?buf (bits + 8) = (out, rest)" by fastforce
  note dr = base32_drain_bits [OF d]
  obtain pad where "length pad < 5" "concat (map char5 (b32_encode_loop bytes ?buf rest)) =
      lowbits rest ?buf @ concat (map (lowbits 8) bytes) @ pad"
    using 2(1) [OF refl d [symmetric]] dr(2) by auto
  moreover have "lowbits (bits + 8) ?buf = lowbits bits buffer @ lowbits 8 byte"
    using 2(2) by (intro lowbits_push) (auto dest: bit_imp_le_length)
  ultimately show ?case using d dr(1) by (auto simp: Let_def)
qed

lemma b32_encode_loop_chars:
  "bits < 5 \<Longrightarrow> set (b32_encode_loop bs buf bits) \<subseteq> set ALPHABET32 \<and>
     length (b32_encode_loop bs buf bits) = (bits + 8 * length bs + 4) div 5"
proof (induction bs buf bits rule: b32_encode_loop.induct)
  case (1 buffer bits)
  then show ?case using and_31_less by (auto simp: length_ALPHABET32)
next
  case (2 byte bytes buffer bits)
  obtain out rest where d: "base32_drain (push_bit 8 buffer OR ucast byte) (bits + 8) = (out, rest)" by fastforce
  note dr = base32_drain_bits [OF d]
  have "length (b32_encode_loop bytes (push_bit 8 buffer OR ucast byte) rest) = (rest + 8 * length bytes + 4) div 5"
    "set (b32_encode_loop bytes (push_bit 8 buffer OR ucast byte) rest) \<subseteq> set ALPHABET32"
    using 2(1) [OF refl d [symmetric]] dr(2) by auto
  moreover have "(bits + 8) div 5 + ((bits + 8) mod 5 + 8 * length bytes + 4) div 5 = (bits + 8 * Suc (length bytes) + 4) div 5"
    by presburger
  ultimately show ?case using d dr by (simp add: Let_def)
qed

lemma b32_decode_bits:
  assumes "set cs \<subseteq> set ALPHABET32" and "bits < 8"
  shows "\<exists>out rest. b32_decode_loop cs buf bits = Some out \<and> length rest < 8 \<and>
      lowbits bits buf @ concat (map char5 cs) = concat (map (lowbits 8) out) @ rest"
  using assms
proof (induction cs buf bits rule: b32_decode_loop.induct)
  case (1 buffer bits)
  then show ?case by simp
next
  case (2 c cs buffer bits)
  from 2(3) obtain i where i: "i < 32" "c = ALPHABET32 ! i"
    by (auto simp: in_set_conv_nth length_ALPHABET32)
  then have p: "position c ALPHABET32 = Some i" by (simp add: position_ALPHABET32)
  let ?b = "push_bit 5 buffer OR word_of_nat i :: u32"
  have small: "bit (word_of_nat i :: u32) j \<Longrightarrow> j < 5" for j
  proof -
    have "j < 5" if "bit i j"
    proof (rule ccontr)
      assume "\<not> j < 5"
      then have "(2 :: nat) ^ 5 \<le> 2 ^ j" by (intro power_increasing) auto
      then show False using i(1) that by (simp add: bit_iff_odd)
    qed
    then show "bit (word_of_nat i :: u32) j \<Longrightarrow> j < 5" by (simp add: bit_simps)
  qed
  have all: "lowbits (bits + 5) ?b = lowbits bits buffer @ char5 c"
    using lowbits_push [where m = bits and n = 5 and buf = buffer and b = "word_of_nat i :: u32"] 2(4) small p by (simp add: char5_def)
  show ?case
  proof (cases "bits + 5 \<ge> 8")
    case True
    then obtain k where k: "bits + 5 = 8 + k" using le_Suc_ex by blast
    obtain out rest where ih: "b32_decode_loop cs ?b k = Some out" "length rest < 8"
      "lowbits k ?b @ concat (map char5 cs) = concat (map (lowbits 8) out) @ rest"
      using 2(1) [OF p refl refl True] 2(3,4) k by auto
    have "lowbits 8 (ucast (drop_bit k ?b AND 0xff) :: byte) = lowbits 8 (drop_bit k ?b)"
    proof -
      have "drop_bit k ?b AND 0xff = take_bit 8 (drop_bit k ?b)"
        by (simp add: take_bit_eq_mask mask_eq_exp_minus_1)
      then show ?thesis by (auto simp: lowbits_def bit_simps)
    qed
    moreover have "lowbits bits buffer @ char5 c = lowbits 8 (drop_bit k ?b) @ lowbits k ?b"
      using all k lowbits_add [of 8 k ?b] by metis
    then have "lowbits bits buffer @ char5 c @ concat (map char5 cs) =
        lowbits 8 (drop_bit k ?b) @ concat (map (lowbits 8) out) @ rest"
      using ih(3) by (metis append.assoc)
    moreover have "b32_decode_loop (c # cs) buffer bits = Some (ucast (drop_bit k ?b AND 0xff) # out)"
      using ih(1) p True k by (simp del: drop_bit_or drop_bit_push_bit)
    ultimately show ?thesis
      using ih(2) by (intro exI [of _ "ucast (drop_bit k ?b AND 0xff) # out"] exI [of _ rest])
        (simp del: drop_bit_or b32_decode_loop.simps)
  next
    case False
    then obtain out rest where "b32_decode_loop cs ?b (bits + 5) = Some out" "length rest < 8"
      "lowbits (bits + 5) ?b @ concat (map char5 cs) = concat (map (lowbits 8) out) @ rest"
      using 2(2) [OF p refl refl False] 2(3,4) by auto
    then show ?thesis using p False all by (intro exI [of _ out] exI [of _ rest]) simp
  qed
qed

lemma base32_roundtrip: "base32_decode (base32_encode bs) = Some bs"
proof -
  obtain pad where pad: "length pad < 5" "concat (map char5 (base32_encode bs)) = concat (map (lowbits 8) bs) @ pad"
    using b32_encode_bits [of 0 bs 0] by (auto simp: base32_encode_def)
  obtain out rest where out: "base32_decode (base32_encode bs) = Some out" "length rest < 8"
    "concat (map char5 (base32_encode bs)) = concat (map (lowbits 8) out) @ rest"
    using b32_decode_bits [of "base32_encode bs" 0 0] b32_encode_loop_chars [of 0 bs 0]
    by (auto simp: base32_encode_def base32_decode_def)
  have len: "length (concat (map (lowbits 8) xs)) = 8 * length xs" for xs :: "byte list"
    by (induction xs) simp_all
  have "8 * length bs + length pad = 8 * length out + length rest"
    using pad(2) out(3) len by (metis length_append)
  then have "length bs = length out" using pad(1) out(2) by linarith
  then have "bs = out"
    using pad(2) out(3) len by (intro concat_bytes_inject) (metis append_eq_append_conv)+
  then show ?thesis using out(1) by simp
qed

section \<open>Credentials\<close>

definition PAT_PREFIX :: string where
  "PAT_PREFIX = ''openpanel_pat_''"

definition BODY_CHARS :: nat where
  "BODY_CHARS = 24"

definition CHECKSUM_CHARS :: nat where
  "CHECKSUM_CHARS = 4"

record token_credential =
  tcr_rendered :: string
  tcr_body :: string

definition checksum :: "token_lib \<Rightarrow> string \<Rightarrow> string" where
  "checksum lib body = take CHECKSUM_CHARS (base32_encode (take 3 (lib_sha256 lib (as_bytes body))))"

definition constant_time_text_eq :: "string \<Rightarrow> string \<Rightarrow> bool" where
  "constant_time_text_eq a b \<longleftrightarrow> length a = length b \<and> ct_diff (as_bytes a) (as_bytes b) 0 = 0"

text \<open>The fifteen bytes are drawn from the operating system.\<close>

definition credential_generate :: "token_lib \<Rightarrow> byte list \<Rightarrow> token_credential" where
  "credential_generate lib bytes =
     (let body = base32_encode bytes in
      \<lparr>tcr_rendered = PAT_PREFIX @ body @ ''.'' @ checksum lib body, tcr_body = body\<rparr>)"

definition strip_prefix :: "string \<Rightarrow> string \<Rightarrow> string option" where
  "strip_prefix p s = (if take (length p) s = p then Some (drop (length p) s) else None)"

definition credential_parse :: "token_lib \<Rightarrow> string \<Rightarrow> api_token_error + token_credential" where
  "credential_parse lib v =
     rbind (ok_or InvalidCredential (strip_prefix PAT_PREFIX v)) (\<lambda>suffix.
     rbind (ok_or InvalidCredential (split_once CHR ''.'' suffix)) (\<lambda>(body, supplied).
       if length body \<noteq> BODY_CHARS \<or> length supplied \<noteq> CHECKSUM_CHARS \<or> base32_decode body = None \<or>
          \<not> constant_time_text_eq supplied (checksum lib body)
       then Inl InvalidCredential
       else Inr \<lparr>tcr_rendered = v, tcr_body = body\<rparr>))"

definition credential_hash :: "token_lib \<Rightarrow> byte list \<Rightarrow> token_credential \<Rightarrow> byte list" where
  "credential_hash lib pepper c = lib_hmac lib pepper (as_bytes (tcr_body c))"

text \<open>\<open>TokenHash\<close> is an array of 32 bytes, so the two sides have the same length.\<close>

definition token_hash_eq :: "byte list \<Rightarrow> byte list \<Rightarrow> bool" where
  "token_hash_eq a b \<longleftrightarrow> ct_diff a b 0 = 0"

lemma token_hash_eq_iff: "length a = length b \<Longrightarrow> token_hash_eq a b \<longleftrightarrow> a = b"
  by (simp add: token_hash_eq_def ct_diff_zero)

lemma constant_time_text_eq_iff: "constant_time_text_eq a b \<longleftrightarrow> a = b"
  by (auto simp: constant_time_text_eq_def ct_diff_zero as_bytes_def as_bytes_inject [unfolded as_bytes_def])

lemma base32_encode_chars:
  "set (base32_encode bs) \<subseteq> set ALPHABET32" "length (base32_encode bs) = (8 * length bs + 4) div 5"
  using b32_encode_loop_chars [of 0 bs 0] by (simp_all add: base32_encode_def)

lemma credential_roundtrip:
  assumes "digest_contract lib" and "length bytes = 15"
  shows "credential_parse lib (tcr_rendered (credential_generate lib bytes)) = Inr (credential_generate lib bytes)"
    and "base32_decode (tcr_body (credential_generate lib bytes)) = Some bytes"
proof -
  have "CHR ''.'' \<notin> set ALPHABET32" by (simp add: ALPHABET32_def)
  then have dot: "CHR ''.'' \<notin> set (base32_encode bytes)" using base32_encode_chars(1) by blast
  have "length (checksum lib body) = 4" for body
  proof -
    have "length (base32_encode (take 3 (lib_sha256 lib (as_bytes body)))) = 5"
      using assms(1) by (subst base32_encode_chars(2)) (simp add: digest_contract_def)
    then show ?thesis by (simp add: checksum_def CHECKSUM_CHARS_def)
  qed
  then show "credential_parse lib (tcr_rendered (credential_generate lib bytes)) = Inr (credential_generate lib bytes)"
    using assms(2) split_once_append [OF dot] base32_roundtrip [of bytes]
    by (simp add: credential_parse_def credential_generate_def Let_def strip_prefix_def BODY_CHARS_def
        CHECKSUM_CHARS_def base32_encode_chars(2) constant_time_text_eq_iff)
  show "base32_decode (tcr_body (credential_generate lib bytes)) = Some bytes"
    by (simp add: credential_generate_def Let_def base32_roundtrip)
qed

section \<open>The token aggregate\<close>

text \<open>A \<open>BTreeSet\<close> of scopes is the sorted list of its elements.\<close>

definition btree_collect :: "'a::linorder list \<Rightarrow> 'a list" where
  "btree_collect xs = sort (remdups xs)"

record api_token =
  at_id :: uuid
  at_user_id :: uuid
  at_label :: string
  at_hash :: "byte list"
  at_scopes :: "token_scope list"
  at_cidr_allowlist :: "cidr list"
  at_created_at :: instant
  at_expires_at :: instant
  at_last_used_at :: "instant option"
  at_revoked_at :: "instant option"

record api_token_metadata =
  tm_id :: uuid
  tm_user_id :: uuid
  tm_label :: string
  tm_scopes :: "token_scope list"
  tm_cidr_allowlist :: "cidr list"
  tm_created_at :: instant
  tm_expires_at :: instant
  tm_last_used_at :: "instant option"
  tm_revoked_at :: "instant option"

definition token_restore ::
    "uuid \<Rightarrow> uuid \<Rightarrow> string \<Rightarrow> byte list \<Rightarrow> token_scope list \<Rightarrow> cidr list \<Rightarrow> instant \<Rightarrow> instant \<Rightarrow>
     instant option \<Rightarrow> instant option \<Rightarrow> api_token_error + api_token" where
  "token_restore i user_id label hash scopes cidrs created_at expires_at last_used_at revoked_at =
     (if trim label = [] \<or> length label > 120 then Inl InvalidLabel
      else if scopes = [] then Inl EmptyScopes
      else if expires_at \<le> created_at then Inl InvalidExpiration
      else Inr \<lparr>at_id = i, at_user_id = user_id, at_label = trim label, at_hash = hash, at_scopes = scopes,
        at_cidr_allowlist = cidrs, at_created_at = created_at, at_expires_at = expires_at,
        at_last_used_at = last_used_at, at_revoked_at = revoked_at\<rparr>)"

definition token_new ::
    "uuid \<Rightarrow> uuid \<Rightarrow> string \<Rightarrow> byte list \<Rightarrow> token_scope list \<Rightarrow> cidr list \<Rightarrow> instant \<Rightarrow> instant \<Rightarrow>
     api_token_error + api_token" where
  "token_new i user_id label hash scopes cidrs expires_at now =
     token_restore i user_id label hash scopes cidrs now expires_at None None"

definition token_revoke :: "instant \<Rightarrow> api_token \<Rightarrow> api_token_error + api_token" where
  "token_revoke now t =
     (if at_revoked_at t \<noteq> None then Inl AlreadyRevoked else Inr (t\<lparr>at_revoked_at := Some now\<rparr>))"

definition token_mark_used :: "instant \<Rightarrow> api_token \<Rightarrow> api_token" where
  "token_mark_used now t = t\<lparr>at_last_used_at := Some now\<rparr>"

definition token_is_active :: "api_token \<Rightarrow> instant \<Rightarrow> bool" where
  "token_is_active t now \<longleftrightarrow> at_revoked_at t = None \<and> now < at_expires_at t"

definition allows_ip :: "token_lib \<Rightarrow> api_token \<Rightarrow> ip_addr \<Rightarrow> bool" where
  "allows_ip lib t a \<longleftrightarrow>
     at_cidr_allowlist t = [] \<or> list_ex (\<lambda>c. cidr_contains lib c a) (at_cidr_allowlist t)"

definition allows_scope :: "api_token \<Rightarrow> token_scope \<Rightarrow> bool" where
  "allows_scope t sc \<longleftrightarrow> List.member (at_scopes t) sc"

definition token_metadata :: "api_token \<Rightarrow> api_token_metadata" where
  "token_metadata t =
     \<lparr>tm_id = at_id t, tm_user_id = at_user_id t, tm_label = at_label t, tm_scopes = at_scopes t,
      tm_cidr_allowlist = at_cidr_allowlist t, tm_created_at = at_created_at t,
      tm_expires_at = at_expires_at t, tm_last_used_at = at_last_used_at t,
      tm_revoked_at = at_revoked_at t\<rparr>"

text \<open>What the constructors establish and the stored row keeps.\<close>

definition token_wf :: "token_lib \<Rightarrow> api_token \<Rightarrow> bool" where
  "token_wf lib t \<longleftrightarrow>
     at_label t \<noteq> [] \<and> trim (at_label t) = at_label t \<and> length (at_label t) \<le> 120 \<and>
     length (at_hash t) = 32 \<and>
     at_scopes t \<noteq> [] \<and> sorted (at_scopes t) \<and> distinct (at_scopes t) \<and> list_all scope_wf (at_scopes t) \<and>
     list_all (\<lambda>c. cidr_parse lib (cidr_str c) = Inr c) (at_cidr_allowlist t) \<and>
     at_created_at t < at_expires_at t"

end
