(* ===== verification/Token_Repo.thy ===== *)
theory Token_Repo
  imports Identity_Repo Token_Domain
begin

text \<open>
  The SQLite adapter of \<open>openpanel-app/src/api_tokens/repo.rs\<close>. Scopes and networks are stored
  as JSON lists of texts, written and read by serde\_json, which is \<open>text_json\<close>.
\<close>

record text_json =
  texts_to_json :: "string list \<Rightarrow> string + string"
  texts_from_json :: "string \<Rightarrow> string + string list"

definition text_json_contract :: "text_json \<Rightarrow> bool" where
  "text_json_contract js \<longleftrightarrow> (\<forall>x. \<exists>s. texts_to_json js x = Inr s \<and> texts_from_json js s = Inr x)"

section \<open>Rows\<close>

definition json_scopes :: "text_json \<Rightarrow> api_token \<Rightarrow> string + string" where
  "json_scopes js t = texts_to_json js (map scope_str (at_scopes t))"

definition json_cidrs :: "text_json \<Rightarrow> api_token \<Rightarrow> string + string option" where
  "json_cidrs js t =
     (if at_cidr_allowlist t = [] then Inr None
      else rbind (texts_to_json js (map cidr_str (at_cidr_allowlist t))) (\<lambda>j. Inr (Some j)))"

definition token_to_row :: "text_json \<Rightarrow> api_token \<Rightarrow> string + token_row" where
  "token_to_row js t =
     rbind (json_scopes js t) (\<lambda>scopes.
     rbind (json_cidrs js t) (\<lambda>cidrs.
       Inr \<lparr>tkr_id = at_id t, tkr_user_id = at_user_id t, tkr_label = at_label t, tkr_hash = at_hash t,
         tkr_scopes = scopes, tkr_cidr_allowlist = cidrs, tkr_created_at = at_created_at t,
         tkr_expires_at = at_expires_at t, tkr_last_used_at = at_last_used_at t,
         tkr_revoked_at = at_revoked_at t\<rparr>))"

definition into_token :: "token_lib \<Rightarrow> text_json \<Rightarrow> token_row \<Rightarrow> string + api_token" where
  "into_token lib js r =
     rbind (guard ''invalid token hash'' (length (tkr_hash r) = 32)) (\<lambda>_.
     rbind (texts_from_json js (tkr_scopes r)) (\<lambda>scope_texts.
     rbind (map_err api_token_error_display (collect_results scope_parse scope_texts)) (\<lambda>scopes.
     rbind (case tkr_cidr_allowlist r of None \<Rightarrow> Inr [] | Some j \<Rightarrow> texts_from_json js j) (\<lambda>cidr_texts.
     rbind (map_err api_token_error_display (collect_results (cidr_parse lib) cidr_texts)) (\<lambda>cidrs.
       map_err api_token_error_display
         (token_restore (tkr_id r) (tkr_user_id r) (tkr_label r) (tkr_hash r) (btree_collect scopes) cidrs
           (tkr_created_at r) (tkr_expires_at r) (tkr_last_used_at r) (tkr_revoked_at r)))))))"

text \<open>\<open>UPDATE\<close> writes every column but the identifiers and the creation time.\<close>

definition token_row_set :: "token_row \<Rightarrow> token_row \<Rightarrow> token_row" where
  "token_row_set row r =
     r\<lparr>tkr_label := tkr_label row, tkr_hash := tkr_hash row, tkr_scopes := tkr_scopes row,
       tkr_cidr_allowlist := tkr_cidr_allowlist row, tkr_expires_at := tkr_expires_at row,
       tkr_last_used_at := tkr_last_used_at row, tkr_revoked_at := tkr_revoked_at row\<rparr>"

definition token_at :: "uuid \<Rightarrow> uuid \<Rightarrow> token_row \<Rightarrow> bool" where
  "token_at i u r \<longleftrightarrow> tkr_id r = i \<and> tkr_user_id r = u"

section \<open>Statements\<close>

definition tokens_insert :: "env \<Rightarrow> text_json \<Rightarrow> api_token \<Rightarrow> unit repo" where
  "tokens_insert env js t =
     sbind (slift (token_to_row js t)) (\<lambda>row.
       sql_write env
         (\<lambda>s. \<not> list_ex (\<lambda>r. tkr_id r = at_id t \<or> tkr_hash r = at_hash t) (db_api_tokens s) \<and>
              user_exists (at_user_id t) s)
         (\<lambda>s. s\<lparr>db_api_tokens := db_api_tokens s @ [row]\<rparr>))"

definition tokens_create :: "env \<Rightarrow> text_json \<Rightarrow> api_token \<Rightarrow> unit repo" where
  "tokens_create env js t = tokens_insert env js t"

definition tokens_update :: "env \<Rightarrow> text_json \<Rightarrow> api_token \<Rightarrow> unit repo" where
  "tokens_update env js t =
     sbind (slift (token_to_row js t)) (\<lambda>row.
       sql_write env
         (\<lambda>s. list_ex (token_at (at_id t) (at_user_id t)) (db_api_tokens s) \<longrightarrow>
              \<not> list_ex (\<lambda>r. \<not> token_at (at_id t) (at_user_id t) r \<and> tkr_hash r = at_hash t) (db_api_tokens s))
         (\<lambda>s. s\<lparr>db_api_tokens := update_where (token_at (at_id t) (at_user_id t)) (token_row_set row)
                  (db_api_tokens s)\<rparr>))"

definition tokens_rotate :: "env \<Rightarrow> text_json \<Rightarrow> api_token \<Rightarrow> api_token \<Rightarrow> unit repo" where
  "tokens_rotate env js old new =
     sql_transaction env (\<lambda>e. e) (\<lambda>e. e)
       (sbind (sql_write env (\<lambda>_. True)
          (\<lambda>s. s\<lparr>db_api_tokens := update_where (token_at (at_id old) (at_user_id old))
             (\<lambda>r. r\<lparr>tkr_revoked_at := at_revoked_at old\<rparr>) (db_api_tokens s)\<rparr>))
         (\<lambda>_. tokens_insert env js new))"

definition tokens_find_row ::
    "env \<Rightarrow> token_lib \<Rightarrow> text_json \<Rightarrow> (token_row \<Rightarrow> bool) \<Rightarrow> api_token option repo" where
  "tokens_find_row env lib js q =
     sbind (sql_read env (\<lambda>s. find q (db_api_tokens s)))
       (\<lambda>row. slift (transpose_opt (map_option (into_token lib js) row)))"

definition tokens_find :: "env \<Rightarrow> token_lib \<Rightarrow> text_json \<Rightarrow> uuid \<Rightarrow> uuid \<Rightarrow> api_token option repo" where
  "tokens_find env lib js user_id i = tokens_find_row env lib js (token_at i user_id)"

definition tokens_find_by_hash ::
    "env \<Rightarrow> token_lib \<Rightarrow> text_json \<Rightarrow> byte list \<Rightarrow> api_token option repo" where
  "tokens_find_by_hash env lib js hash = tokens_find_row env lib js (\<lambda>r. tkr_hash r = hash)"

definition tokens_list :: "env \<Rightarrow> token_lib \<Rightarrow> text_json \<Rightarrow> uuid \<Rightarrow> api_token list repo" where
  "tokens_list env lib js user_id =
     sbind (sql_read env (\<lambda>s. sort_key (\<lambda>r. - tkr_created_at r)
         (filter (\<lambda>r. tkr_user_id r = user_id) (db_api_tokens s))))
       (\<lambda>rows. slift (collect_results (into_token lib js) rows))"

section \<open>Round trip\<close>

lemma sorted_btree_collect [simp]:
  "sorted (btree_collect xs)" "distinct (btree_collect xs)" "set (btree_collect xs) = set xs"
  "btree_collect xs = [] \<longleftrightarrow> xs = []"
  by (simp_all add: btree_collect_def) (metis remdups_eq_nil_iff sort_key_simps(1) length_sort length_0_conv)

lemma btree_collect_id: "sorted xs \<Longrightarrow> distinct xs \<Longrightarrow> btree_collect xs = xs"
  by (simp add: btree_collect_def distinct_remdups_id sorted_sort_id)

lemma into_token_wf:
  assumes "ip_contract lib" and "into_token lib js r = Inr t"
  shows "token_wf lib t" and "at_id t = tkr_id r" and "at_user_id t = tkr_user_id r" and "at_hash t = tkr_hash r"
    and "at_created_at t = tkr_created_at r" and "at_expires_at t = tkr_expires_at r"
    and "at_last_used_at t = tkr_last_used_at r" and "at_revoked_at t = tkr_revoked_at r"
proof -
  from assms(2) obtain scope_texts scopes cidr_texts cidrs where
    parts: "collect_results scope_parse scope_texts = Inr scopes" "collect_results (cidr_parse lib) cidr_texts = Inr cidrs"
    and h: "length (tkr_hash r) = 32"
    and t: "token_restore (tkr_id r) (tkr_user_id r) (tkr_label r) (tkr_hash r) (btree_collect scopes) cidrs
           (tkr_created_at r) (tkr_expires_at r) (tkr_last_used_at r) (tkr_revoked_at r) = Inr t"
    unfolding into_token_def rbind_Inr map_err_Inr guard_Inr by blast
  have "list_all scope_wf scopes"
    using parts(1) by (auto simp: list_all_iff dest!: collect_results_from dest: scope_vo.new_valid)
  moreover have "list_all (\<lambda>c. cidr_parse lib (cidr_str c) = Inr c) cidrs"
    using parts(2) by (auto simp: list_all_iff dest!: collect_results_from intro: cidr_parse_idem [OF assms(1)])
  moreover have "length (trim (tkr_label r)) \<le> 120" if "length (tkr_label r) \<le> 120"
    using length_trim [of "tkr_label r"] that by simp
  ultimately show "token_wf lib t"
    using t h by (auto simp: token_restore_def token_wf_def trim_idem list_all_iff split: if_splits)
  show "at_id t = tkr_id r" "at_user_id t = tkr_user_id r" "at_hash t = tkr_hash r"
    "at_created_at t = tkr_created_at r" "at_expires_at t = tkr_expires_at r"
    "at_last_used_at t = tkr_last_used_at r" "at_revoked_at t = tkr_revoked_at r"
    using t by (auto simp: token_restore_def split: if_splits)
qed

lemma token_to_row_total:
  assumes "text_json_contract js"
  obtains row where "token_to_row js t = Inr row"
proof -
  obtain sc where "json_scopes js t = Inr sc" using assms unfolding text_json_contract_def json_scopes_def by blast
  moreover obtain ci where "texts_to_json js (map cidr_str (at_cidr_allowlist t)) = Inr ci"
    using assms unfolding text_json_contract_def by blast
  ultimately show thesis using that by (cases "at_cidr_allowlist t = []") (simp_all add: token_to_row_def json_cidrs_def)
qed

lemma token_roundtrip:
  assumes "text_json_contract js" and "token_wf lib t" and "token_to_row js t = Inr row"
  shows "into_token lib js row = Inr t"
proof -
  from assms(3) obtain sc ci where j: "json_scopes js t = Inr sc" "json_cidrs js t = Inr ci"
    and row: "row = \<lparr>tkr_id = at_id t, tkr_user_id = at_user_id t, tkr_label = at_label t, tkr_hash = at_hash t,
         tkr_scopes = sc, tkr_cidr_allowlist = ci, tkr_created_at = at_created_at t,
         tkr_expires_at = at_expires_at t, tkr_last_used_at = at_last_used_at t,
         tkr_revoked_at = at_revoked_at t\<rparr>"
    by (auto simp: token_to_row_def)
  have js: "texts_from_json js s = Inr x" if "texts_to_json js x = Inr s" for x s
    using assms(1) that by (metis text_json_contract_def sum.inject(2))
  have read_back: "collect_results f (map g xs) = Inr xs" if "\<And>x. x \<in> set xs \<Longrightarrow> f (g x) = Inr x"
    for f :: "string \<Rightarrow> 'e + 'v" and g xs
    using that by (induction xs) auto
  have scopes: "collect_results scope_parse (map scope_str (at_scopes t)) = Inr (at_scopes t)"
    using assms(2) by (intro read_back) (simp add: token_wf_def list_all_iff scope_vo.new_as_str)
  have cidrs: "collect_results (cidr_parse lib) (map cidr_str (at_cidr_allowlist t)) = Inr (at_cidr_allowlist t)"
    using assms(2) by (intro read_back) (simp add: token_wf_def list_all_iff)
  have ci: "(case ci of None \<Rightarrow> Inr [] | Some j \<Rightarrow> texts_from_json js j) = Inr (map cidr_str (at_cidr_allowlist t))"
    using j(2) js by (auto simp: json_cidrs_def split: if_splits)
  show ?thesis
    using js [OF j(1) [unfolded json_scopes_def]] scopes cidrs ci assms(2)
    by (cases ci) (auto simp: into_token_def row token_wf_def btree_collect_id token_restore_def)
qed

end
