(* ===== verification/Token_Service.thy ===== *)
theory Token_Service
  imports Token_Repo Hierarchy_Service
begin

text \<open>
  \<open>ApiTokenService\<close> of \<open>openpanel-app/src/api_tokens/service.rs\<close>: issue, listing, revocation
  and rotation of tokens, bearer authentication and the rate limiter. \<open>tks_round\<close> is the
  rounding of \<open>f64\<close>: an arithmetic operation gives the rounding of its exact result.
\<close>

record token_service =
  tks_lib :: token_lib
  tks_json :: text_json
  tks_pepper :: "byte list"
  tks_burst :: u32
  tks_per_minute :: u32
  tks_round :: "rat \<Rightarrow> rat"

record create_api_token =
  cat_user_id :: uuid
  cat_label :: string
  cat_scopes :: "string list"
  cat_expires_at :: instant
  cat_cidr_allowlist :: "string list"

record created_api_token =
  crt_metadata :: api_token_metadata
  crt_plaintext_token :: string
  crt_shown_once :: bool

record bearer_principal =
  bp_user :: user
  bp_token_id :: uuid

datatype token_auth_error =
    Unauthorized
  | TokenExpired
  | ScopeRejected
  | CidrRejected
  | AuthForbidden
  | RateLimited u64
  | InvalidApiToken api_token_error
  | TokenInternal string

type_synonym 'a tcall = "(token_auth_error, 'a) call"

definition t_repo :: "'a repo \<Rightarrow> 'a tcall" where
  "t_repo m = smap_err TokenInternal m"

definition t_audit :: "env \<Rightarrow> audit_event \<Rightarrow> unit tcall" where
  "t_audit env e = signore (audit_record env e)"

text \<open>The actions of this service are among those whose names the log reads back.\<close>

abbreviation token_action :: "string \<Rightarrow> audit_action" where
  "token_action name \<equiv> OtherAction name"

definition token_record ::
    "env \<Rightarrow> instant \<Rightarrow> user \<Rightarrow> audit_action \<Rightarrow> audit_outcome \<Rightarrow> uuid \<Rightarrow> json \<Rightarrow> unit tcall" where
  "token_record env now actor action outcome target metadata =
     t_audit env (with_metadata metadata (with_target (env_uuid_str env target)
       (audit_event_new now (username_as_str (u_username actor)) action outcome)))"

definition record_token :: "env \<Rightarrow> instant \<Rightarrow> audit_action \<Rightarrow> audit_outcome \<Rightarrow> uuid \<Rightarrow> unit tcall" where
  "record_token env now action outcome token_id =
     t_audit env (with_metadata (JObject [(''token_id'', id_json env token_id)])
       (with_target (env_uuid_str env token_id) (audit_event_new now ''api-token'' action outcome)))"

section \<open>Rate limiting\<close>

definition f64_of_u32 :: "u32 \<Rightarrow> rat" where
  "f64_of_u32 w = of_nat (unat w)"

definition refill_per_second :: "token_service \<Rightarrow> rat" where
  "refill_per_second svc = tks_round svc (f64_of_u32 (tks_per_minute svc) / 60)"

text \<open>\<open>Duration::as_secs_f64\<close>: whole seconds and the fraction are rounded on their own.\<close>

definition as_secs_f64 :: "token_service \<Rightarrow> nat \<Rightarrow> rat" where
  "as_secs_f64 svc nanos =
     tks_round svc (tks_round svc (of_nat (nanos div 10 ^ 9)) + tks_round svc (of_nat (nanos mod 10 ^ 9) / 10 ^ 9))"

definition refill :: "token_service \<Rightarrow> nat \<Rightarrow> bucket \<Rightarrow> rat" where
  "refill svc inst b =
     min (tks_round svc (bk_tokens b +
            tks_round svc (as_secs_f64 svc (inst - bk_last_refill b) * refill_per_second svc)))
         (f64_of_u32 (tks_burst svc))"

text \<open>
  A division by a rate of zero is infinite, and \<open>as u64\<close> saturates: the largest number.
\<close>

definition retry_after :: "token_service \<Rightarrow> rat \<Rightarrow> u64" where
  "retry_after svc tokens =
     (if refill_per_second svc = 0 then - 1
      else let r = max 1 \<lceil>tks_round svc (tks_round svc (1 - tokens) / refill_per_second svc)\<rceil>
           in if r \<ge> 2 ^ 64 then - 1 else word_of_int r)"

definition consume_bucket :: "token_service \<Rightarrow> nat \<Rightarrow> bucket option \<Rightarrow> (token_auth_error + unit) \<times> bucket" where
  "consume_bucket svc inst entry =
     (let b = (case entry of
                 None \<Rightarrow> \<lparr>bk_tokens = f64_of_u32 (tks_burst svc), bk_last_refill = inst\<rparr>
               | Some b \<Rightarrow> b);
          tokens = refill svc inst b in
      if tokens < 1
      then (Inl (RateLimited (retry_after svc tokens)), \<lparr>bk_tokens = tokens, bk_last_refill = inst\<rparr>)
      else (Inr (), \<lparr>bk_tokens = tks_round svc (tokens - 1), bk_last_refill = inst\<rparr>))"

definition token_consume :: "token_service \<Rightarrow> nat \<Rightarrow> uuid \<Rightarrow> unit tcall" where
  "token_consume svc inst token_id s =
     (case consume_bucket svc inst (db_buckets s token_id) of
        (r, b) \<Rightarrow> (r, s\<lparr>db_buckets := (db_buckets s)(token_id \<mapsto> b)\<rparr>))"

section \<open>Life cycle\<close>

definition authorize_target :: "env \<Rightarrow> user \<Rightarrow> uuid \<Rightarrow> user tcall" where
  "authorize_target env actor user_id =
     sbind (sbind (t_repo (users_find_by_id env user_id)) (\<lambda>x. slift (ok_or AuthForbidden x))) (\<lambda>target.
       if u_id actor = user_id \<or> u_role actor = Owner \<or> (u_role actor = Admin \<and> u_role target \<noteq> Owner)
       then sret target else sfail AuthForbidden)"

definition parse_scopes :: "string list \<Rightarrow> token_auth_error + token_scope list" where
  "parse_scopes values =
     map_err InvalidApiToken (rbind (collect_results scope_parse values) (\<lambda>scopes. Inr (btree_collect scopes)))"

definition authorize_scopes :: "role \<Rightarrow> token_scope list \<Rightarrow> token_auth_error + unit" where
  "authorize_scopes role scopes =
     (if role = RoleUser \<and> list_ex (\<lambda>sc. scope_verb sc \<noteq> ''read'') scopes then Inl AuthForbidden else Inr ())"

definition created_token :: "api_token \<Rightarrow> token_credential \<Rightarrow> created_api_token" where
  "created_token t c = \<lparr>crt_metadata = token_metadata t, crt_plaintext_token = tcr_rendered c, crt_shown_once = True\<rparr>"

text \<open>\<open>i\<close> is the fresh identifier and \<open>bytes\<close> the random body of the credential.\<close>

definition create_token ::
    "env \<Rightarrow> token_service \<Rightarrow> uuid \<Rightarrow> byte list \<Rightarrow> instant \<Rightarrow> user \<Rightarrow> create_api_token \<Rightarrow> created_api_token tcall" where
  "create_token env svc i bytes now actor input =
     sbind (authorize_target env actor (cat_user_id input)) (\<lambda>target.
     sbind (slift (parse_scopes (cat_scopes input))) (\<lambda>scopes.
     sbind (slift (authorize_scopes (u_role actor) scopes)) (\<lambda>_.
     if cat_expires_at input > now + days 365 then sfail (InvalidApiToken InvalidExpiration)
     else
     sbind (slift (map_err InvalidApiToken
         (collect_results (cidr_parse (tks_lib svc)) (cat_cidr_allowlist input)))) (\<lambda>cidrs.
     (let credential = credential_generate (tks_lib svc) bytes in
     sbind (slift (map_err InvalidApiToken (token_new i (u_id target) (cat_label input)
         (credential_hash (tks_lib svc) (tks_pepper svc) credential) scopes cidrs
         (cat_expires_at input) now))) (\<lambda>token.
     sbind (t_repo (tokens_create env (tks_json svc) token)) (\<lambda>_.
     sbind (token_record env now actor (token_action ''token_created'') Success (at_id token)
         (JObject [(''token_id'', id_json env (at_id token)), (''user_id'', id_json env (u_id target))])) (\<lambda>_.
       sret (created_token token credential)))))))))"

definition list_tokens :: "env \<Rightarrow> token_service \<Rightarrow> user \<Rightarrow> uuid \<Rightarrow> api_token_metadata list tcall" where
  "list_tokens env svc actor user_id =
     sbind (authorize_target env actor user_id) (\<lambda>_.
     sbind (t_repo (tokens_list env (tks_lib svc) (tks_json svc) user_id)) (\<lambda>ts.
       sret (map token_metadata ts)))"

definition token_found :: "env \<Rightarrow> token_service \<Rightarrow> uuid \<Rightarrow> uuid \<Rightarrow> api_token tcall" where
  "token_found env svc user_id i =
     sbind (t_repo (tokens_find env (tks_lib svc) (tks_json svc) user_id i))
       (\<lambda>x. slift (ok_or (InvalidApiToken TokenNotFound) x))"

definition revoke_token :: "env \<Rightarrow> token_service \<Rightarrow> instant \<Rightarrow> user \<Rightarrow> uuid \<Rightarrow> uuid \<Rightarrow> unit tcall" where
  "revoke_token env svc now actor user_id i =
     sbind (authorize_target env actor user_id) (\<lambda>_.
     sbind (token_found env svc user_id i) (\<lambda>token.
     sbind (slift (map_err InvalidApiToken (token_revoke now token))) (\<lambda>token.
     sbind (t_repo (tokens_update env (tks_json svc) token)) (\<lambda>_.
       token_record env now actor (token_action ''token_revoked'') Success i
         (JObject [(''token_id'', id_json env i)])))))"

definition rotate_token ::
    "env \<Rightarrow> token_service \<Rightarrow> uuid \<Rightarrow> byte list \<Rightarrow> instant \<Rightarrow> user \<Rightarrow> uuid \<Rightarrow> uuid \<Rightarrow> created_api_token tcall" where
  "rotate_token env svc new_id bytes now actor user_id i =
     sbind (authorize_target env actor user_id) (\<lambda>_.
     sbind (token_found env svc user_id i) (\<lambda>old.
     if \<not> token_is_active old now then sfail Unauthorized
     else
     sbind (slift (map_err InvalidApiToken (token_revoke now old))) (\<lambda>old.
     (let credential = credential_generate (tks_lib svc) bytes in
     sbind (slift (map_err InvalidApiToken (token_new new_id (at_user_id old) (at_label old)
         (credential_hash (tks_lib svc) (tks_pepper svc) credential) (at_scopes old)
         (at_cidr_allowlist old) (at_expires_at old) now))) (\<lambda>new.
     sbind (t_repo (tokens_rotate env (tks_json svc) old new)) (\<lambda>_.
     sbind (token_record env now actor (token_action ''token_rotated'') Success (at_id new)
         (JObject [(''rotated_from'', id_json env (at_id old)), (''token_id'', id_json env (at_id new))])) (\<lambda>_.
       sret (created_token new credential))))))))"

section \<open>Bearer authentication\<close>

definition bearer_token :: "env \<Rightarrow> token_service \<Rightarrow> string \<Rightarrow> api_token tcall" where
  "bearer_token env svc plaintext =
     sbind (slift (map_err (\<lambda>_. Unauthorized) (credential_parse (tks_lib svc) plaintext))) (\<lambda>credential.
     (let hash = credential_hash (tks_lib svc) (tks_pepper svc) credential in
     sbind (t_repo (tokens_find_by_hash env (tks_lib svc) (tks_json svc) hash)) (\<lambda>found.
       slift (ok_or Unauthorized
         (case found of None \<Rightarrow> None | Some t \<Rightarrow> if token_hash_eq (at_hash t) hash then Some t else None)))))"

definition token_denied ::
    "env \<Rightarrow> instant \<Rightarrow> string \<Rightarrow> api_token \<Rightarrow> token_auth_error \<Rightarrow> 'a tcall" where
  "token_denied env now action token e =
     sbind (record_token env now (token_action action) Denied (at_id token)) (\<lambda>_. sfail e)"

definition authenticate ::
    "env \<Rightarrow> token_service \<Rightarrow> instant \<Rightarrow> nat \<Rightarrow> string \<Rightarrow> ip_addr \<Rightarrow> token_scope \<Rightarrow> bearer_principal tcall" where
  "authenticate env svc now inst plaintext peer required =
     sbind (bearer_token env svc plaintext) (\<lambda>token.
     if at_revoked_at token \<noteq> None then sfail Unauthorized
     else if now \<ge> at_expires_at token then token_denied env now ''token_expired'' token TokenExpired
     else if \<not> allows_ip (tks_lib svc) token peer
     then token_denied env now ''token_cidr_rejected'' token CidrRejected
     else if \<not> allows_scope token required
     then token_denied env now ''token_scope_rejected'' token ScopeRejected
     else (\<lambda>s. case token_consume svc inst (at_id token) s of
       (Inl e, s) \<Rightarrow> token_denied env now ''token_rate_limited'' token e s
     | (Inr _, s) \<Rightarrow>
        sbind (t_repo (users_find_by_id env (at_user_id token))) (\<lambda>found.
        sbind (slift (ok_or Unauthorized
            (case found of None \<Rightarrow> None | Some u \<Rightarrow> if user_is_disabled u then None else Some u))) (\<lambda>u.
        sbind (t_repo (tokens_update env (tks_json svc) (token_mark_used now token))) (\<lambda>_.
        sbind (record_token env now (token_action ''token_request'') Success (at_id token)) (\<lambda>_.
          sret \<lparr>bp_user = u, bp_token_id = at_id token\<rparr>)))) s))"

section \<open>What each operation does\<close>

lemma t_repo_Inr [st_invert]: "t_repo m s = (Inr x, t) \<longleftrightarrow> m s = (Inr x, t)"
  by (simp add: t_repo_def st_invert)

lemma t_repo_Inl [st_invert]: "t_repo m s = (Inl e, t) \<longleftrightarrow> (\<exists>d. m s = (Inl d, t) \<and> e = TokenInternal d)"
  by (simp add: t_repo_def st_invert)

lemma t_audit_outcome [st_invert]:
  "t_audit env e s = (r, t) \<longleftrightarrow> r = Inr () \<and> t = snd (audit_record env e s)"
  "token_record env now actor action oc target m s = (r, t) \<longleftrightarrow> r = Inr () \<and>
     t = snd (audit_record env (with_metadata m (with_target (env_uuid_str env target)
       (audit_event_new now (username_as_str (u_username actor)) action oc))) s)"
  "record_token env now action oc i s = (r, t) \<longleftrightarrow> r = Inr () \<and>
     t = snd (audit_record env (with_metadata (JObject [(''token_id'', id_json env i)])
       (with_target (env_uuid_str env i) (audit_event_new now ''api-token'' action oc))) s)"
  by (auto simp: t_audit_def token_record_def record_token_def)

lemma audit_record_tokens [simp]:
  "db_api_tokens (snd (audit_record env e s)) = db_api_tokens s"
  "db_buckets (snd (audit_record env e s)) = db_buckets s"
  "db_users (snd (audit_record env e s)) = db_users s"
  using audit_record_frame [of env e s] by (metis (no_types, lifting) db.simps db.surjective prod.collapse tick_fields)+

lemma tokens_find_row_Inr [st_invert]:
  "tokens_find_row env lib js q s = (Inr x, t) \<longleftrightarrow> env_fault env (db_tick s) = None \<and> t = tick s \<and>
     (case find q (db_api_tokens s) of None \<Rightarrow> x = None | Some r \<Rightarrow> \<exists>p. into_token lib js r = Inr p \<and> x = Some p)"
  by (cases "find q (db_api_tokens s)"; cases x) (auto simp: tokens_find_row_def st_invert)

lemma tokens_update_Inr [st_invert]:
  "tokens_update env js k s = (Inr x, t) \<longleftrightarrow>
     (\<exists>row. token_to_row js k = Inr row \<and> env_fault env (db_tick s) = None \<and>
       (list_ex (token_at (at_id k) (at_user_id k)) (db_api_tokens s) \<longrightarrow>
          \<not> list_ex (\<lambda>r. \<not> token_at (at_id k) (at_user_id k) r \<and> tkr_hash r = at_hash k) (db_api_tokens s)) \<and>
       t = tick (s\<lparr>db_api_tokens := update_where (token_at (at_id k) (at_user_id k)) (token_row_set row) (db_api_tokens s)\<rparr>))"
  by (auto simp: tokens_update_def st_invert)

lemma tokens_insert_Inr [st_invert]:
  "tokens_insert env js k s = (Inr x, t) \<longleftrightarrow>
     (\<exists>row. token_to_row js k = Inr row \<and> env_fault env (db_tick s) = None \<and>
       \<not> list_ex (\<lambda>r. tkr_id r = at_id k \<or> tkr_hash r = at_hash k) (db_api_tokens s) \<and> user_exists (at_user_id k) s \<and>
       t = tick (s\<lparr>db_api_tokens := db_api_tokens s @ [row]\<rparr>))"
  by (auto simp: tokens_insert_def st_invert)

lemma authorize_target_Inr:
  assumes "authorize_target env actor i s = (Inr u, t)"
  shows "t = tick s" and "u_id u = i" and "user_exists i s"
    and "u_id actor = i \<or> u_role actor = Owner \<or> u_role actor = Admin \<and> u_role u \<noteq> Owner"
  using assms
  by (auto simp: authorize_target_def st_invert user_lookup_defs user_exists_def list_ex_iff
      dest!: find_SomeD into_user_fields(1) split: if_splits)

lemma token_found_Inr:
  assumes "token_found env svc u i s = (Inr k, t)"
  obtains r where "find (token_at i u) (db_api_tokens s) = Some r" and "into_token (tks_lib svc) (tks_json svc) r = Inr k"
    and "t = tick s"
  using assms by (auto simp: token_found_def st_invert tokens_find_def split: option.splits)

lemma bearer_token_Inr:
  assumes "bearer_token env svc plaintext s = (Inr k, t)"
  obtains c r where "credential_parse (tks_lib svc) plaintext = Inr c" and "t = tick s"
    and "find (\<lambda>r. tkr_hash r = credential_hash (tks_lib svc) (tks_pepper svc) c) (db_api_tokens s) = Some r"
    and "into_token (tks_lib svc) (tks_json svc) r = Inr k"
  using assms
  by (auto simp: bearer_token_def st_invert tokens_find_by_hash_def Let_def split: option.splits if_splits)

lemma authenticate_Inr:
  assumes "authenticate env svc now inst plaintext peer sc s = (Inr p, t)"
  obtains c r k u row where "credential_parse (tks_lib svc) plaintext = Inr c"
    and "find (\<lambda>r. tkr_hash r = credential_hash (tks_lib svc) (tks_pepper svc) c) (db_api_tokens s) = Some r"
    and "into_token (tks_lib svc) (tks_json svc) r = Inr k"
    and "at_revoked_at k = None" and "now < at_expires_at k"
    and "allows_ip (tks_lib svc) k peer" and "allows_scope k sc"
    and "fst (consume_bucket svc inst (db_buckets s (at_id k))) = Inr ()"
    and "\<exists>q \<in> set (db_users s). ur_id q = at_user_id k \<and> into_user q = Inr u \<and> ur_disabled_at q = None"
    and "p = \<lparr>bp_user = u, bp_token_id = at_id k\<rparr>"
    and "token_to_row (tks_json svc) (token_mark_used now k) = Inr row"
    and "db_api_tokens t = update_where (token_at (at_id k) (at_user_id k)) (token_row_set row) (db_api_tokens s)"
    and "db_buckets t = (db_buckets s)(at_id k \<mapsto> snd (consume_bucket svc inst (db_buckets s (at_id k))))"
    and "db_users t = db_users s"
proof -
  from assms obtain k s1 where k: "bearer_token env svc plaintext s = (Inr k, s1)"
    and live: "at_revoked_at k = None" "now < at_expires_at k" "allows_ip (tks_lib svc) k peer" "allows_scope k sc"
    and rest: "(case token_consume svc inst (at_id k) s1 of
       (Inl e, s) \<Rightarrow> token_denied env now ''token_rate_limited'' k e s
     | (Inr _, s) \<Rightarrow>
        sbind (t_repo (users_find_by_id env (at_user_id k))) (\<lambda>found.
        sbind (slift (ok_or Unauthorized
            (case found of None \<Rightarrow> None | Some u \<Rightarrow> if user_is_disabled u then None else Some u))) (\<lambda>u.
        sbind (t_repo (tokens_update env (tks_json svc) (token_mark_used now k))) (\<lambda>_.
        sbind (record_token env now (token_action ''token_request'') Success (at_id k)) (\<lambda>_.
          sret \<lparr>bp_user = u, bp_token_id = at_id k\<rparr>)))) s) = (Inr p, t)"
    by (auto simp: authenticate_def st_invert token_denied_def not_le split: if_splits)
  obtain c r where r: "credential_parse (tks_lib svc) plaintext = Inr c" "s1 = tick s"
    "find (\<lambda>r. tkr_hash r = credential_hash (tks_lib svc) (tks_pepper svc) c) (db_api_tokens s) = Some r"
    "into_token (tks_lib svc) (tks_json svc) r = Inr k"
    using bearer_token_Inr [OF k] by blast
  obtain b where b: "consume_bucket svc inst (db_buckets s (at_id k)) = (Inr (), b)"
    using rest r(2)
    by (cases "consume_bucket svc inst (db_buckets s (at_id k))")
       (auto simp: token_consume_def token_denied_def st_invert split: sum.splits)
  obtain u row q where u: "q \<in> set (db_users s)" "ur_id q = at_user_id k" "into_user q = Inr u" "\<not> user_is_disabled u"
    "p = \<lparr>bp_user = u, bp_token_id = at_id k\<rparr>" "token_to_row (tks_json svc) (token_mark_used now k) = Inr row"
    "db_api_tokens t = update_where (token_at (at_id k) (at_user_id k)) (token_row_set row) (db_api_tokens s)"
    "db_buckets t = (db_buckets s)(at_id k \<mapsto> b)" "db_users t = db_users s"
    using rest r(2) b
    by (auto simp: token_consume_def st_invert user_lookup_defs token_mark_used_def dest!: find_SomeD
        split: option.splits if_splits)
  moreover have "ur_disabled_at q = None"
    using into_user_fields(6) [OF u(3)] u(4) by (simp add: user_is_disabled_def)
  ultimately show thesis using that [OF r(1,3,4) live] b by auto
qed

lemma create_token_Inr:
  assumes "create_token env svc i bytes now actor input s = (Inr x, t)"
  obtains k row scopes cidrs target where "parse_scopes (cat_scopes input) = Inr scopes"
    and "authorize_scopes (u_role actor) scopes = Inr ()" and "cat_expires_at input \<le> now + days 365"
    and "collect_results (cidr_parse (tks_lib svc)) (cat_cidr_allowlist input) = Inr cidrs"
    and "token_new i (cat_user_id input) (cat_label input)
         (credential_hash (tks_lib svc) (tks_pepper svc) (credential_generate (tks_lib svc) bytes)) scopes cidrs
         (cat_expires_at input) now = Inr k"
    and "authorize_target env actor (cat_user_id input) s = (Inr target, tick s)"
    and "token_to_row (tks_json svc) k = Inr row"
    and "\<not> list_ex (\<lambda>r. tkr_id r = at_id k \<or> tkr_hash r = at_hash k) (db_api_tokens s)"
    and "db_api_tokens t = db_api_tokens s @ [row]" and "db_users t = db_users s" and "db_buckets t = db_buckets s"
    and "x = created_token k (credential_generate (tks_lib svc) bytes)"
proof -
  from assms obtain u s1 where a: "authorize_target env actor (cat_user_id input) s = (Inr u, s1)"
    by (auto simp: create_token_def st_invert)
  note u = authorize_target_Inr [OF a]
  show thesis
    using assms a u
    by (auto simp: create_token_def st_invert tokens_create_def Let_def intro!: that split: if_splits)
qed

lemma revoke_token_Inr:
  assumes "revoke_token env svc now actor u i s = (Inr x, t)"
  obtains r k row where "find (token_at i u) (db_api_tokens s) = Some r"
    and "into_token (tks_lib svc) (tks_json svc) r = Inr k" and "at_revoked_at k = None"
    and "token_to_row (tks_json svc) (k\<lparr>at_revoked_at := Some now\<rparr>) = Inr row"
    and "db_api_tokens t = update_where (token_at (at_id k) (at_user_id k)) (token_row_set row) (db_api_tokens s)"
    and "db_users t = db_users s" and "db_buckets t = db_buckets s"
proof -
  from assms obtain v s1 where a: "authorize_target env actor u s = (Inr v, s1)"
    by (auto simp: revoke_token_def st_invert)
  show thesis
    using assms authorize_target_Inr(1) [OF a] a
    by (auto simp: revoke_token_def st_invert token_found_def tokens_find_def token_revoke_def intro!: that
        split: if_splits option.splits)
qed

lemma rotate_token_Inr:
  assumes "rotate_token env svc new_id bytes now actor u i s = (Inr x, t)"
  obtains r k new row where "find (token_at i u) (db_api_tokens s) = Some r"
    and "into_token (tks_lib svc) (tks_json svc) r = Inr k" and "token_is_active k now"
    and "token_new new_id (at_user_id k) (at_label k)
         (credential_hash (tks_lib svc) (tks_pepper svc) (credential_generate (tks_lib svc) bytes)) (at_scopes k)
         (at_cidr_allowlist k) (at_expires_at k) now = Inr new"
    and "token_to_row (tks_json svc) new = Inr row"
    and "\<not> list_ex (\<lambda>r. tkr_id r = at_id new \<or> tkr_hash r = at_hash new) (db_api_tokens s)"
    and "db_api_tokens t = update_where (token_at (at_id k) (at_user_id k)) (\<lambda>r. r\<lparr>tkr_revoked_at := Some now\<rparr>)
      (db_api_tokens s) @ [row]"
    and "db_users t = db_users s" and "db_buckets t = db_buckets s"
    and "x = created_token new (credential_generate (tks_lib svc) bytes)"
proof -
  from assms obtain v s1 where a: "authorize_target env actor u s = (Inr v, s1)"
    by (auto simp: rotate_token_def st_invert)
  have ex: "list_ex (\<lambda>r. tkr_id r = n \<or> tkr_hash r = h)
      (update_where p (\<lambda>r. r\<lparr>tkr_revoked_at := y\<rparr>) rows) = list_ex (\<lambda>r. tkr_id r = n \<or> tkr_hash r = h) rows"
    for n h p y rows by (induction rows) auto
  show thesis
    using assms authorize_target_Inr(1) [OF a] a
    by (auto simp: rotate_token_def st_invert token_found_def tokens_find_def token_revoke_def tokens_rotate_def
        token_is_active_def ex Let_def intro!: that split: if_splits option.splits)
qed

section \<open>Invariants\<close>

lemma token_new_wf:
  assumes "ip_contract lib" and "digest_contract lib"
    and "token_new i u lbl (credential_hash lib pepper c) scopes cidrs ex now = Inr k"
    and "sorted scopes" "distinct scopes" "list_all scope_wf scopes"
    and "list_all (\<lambda>c. cidr_parse lib (cidr_str c) = Inr c) cidrs"
  shows "token_wf lib k"
proof -
  have "length (trim lbl) \<le> 120" if "length lbl \<le> 120" using length_trim [of lbl] that by simp
  then show ?thesis
    using assms by (auto simp: token_new_def token_restore_def token_wf_def trim_idem credential_hash_def
        digest_contract_def split: if_splits)
qed

lemma parse_scopes_wf:
  "parse_scopes xs = Inr scopes \<Longrightarrow> sorted scopes \<and> distinct scopes \<and> list_all scope_wf scopes"
proof -
  assume "parse_scopes xs = Inr scopes"
  then obtain ys where ys: "collect_results scope_parse xs = Inr ys" "scopes = btree_collect ys"
    by (auto simp: parse_scopes_def)
  have "scope_wf y" if "y \<in> set ys" for y
    using collect_results_from [OF ys(1) that] scope_vo.new_valid by blast
  then show ?thesis by (simp add: ys(2) list_all_iff)
qed

lemma parsed_cidrs_wf:
  "ip_contract lib \<Longrightarrow> collect_results (cidr_parse lib) xs = Inr cs \<Longrightarrow>
     list_all (\<lambda>c. cidr_parse lib (cidr_str c) = Inr c) cs"
  by (auto simp: list_all_iff dest!: collect_results_from intro: cidr_parse_idem)

lemma token_wf_updates: "token_wf lib (k\<lparr>at_revoked_at := n\<rparr>) = token_wf lib k" "token_wf lib (token_mark_used now k) = token_wf lib k"
  by (simp_all add: token_wf_def token_mark_used_def)

lemma rotated_token_wf:
  assumes "ip_contract lib" "digest_contract lib" "token_wf lib k" "token_revoke now k = Inr old"
    and "token_new i (at_user_id old) (at_label old) (credential_hash lib pepper c) (at_scopes old)
      (at_cidr_allowlist old) (at_expires_at old) now = Inr new"
  shows "token_wf lib new"
  using assms(3,4) by (intro token_new_wf [OF assms(1,2,5)]) (auto simp: token_revoke_def token_wf_def split: if_splits)

section \<open>Invariants\<close>

text \<open>What an invariant has to allow for the token operations to keep it.\<close>

locale tokens_invariant = store_invariant P for P +
  fixes svc :: token_service
  assumes add_token: "P s \<Longrightarrow> token_wf (tks_lib svc) k \<Longrightarrow> token_to_row (tks_json svc) k = Inr row \<Longrightarrow>
      \<not> list_ex (\<lambda>r. tkr_id r = at_id k \<or> tkr_hash r = at_hash k) (db_api_tokens s) \<Longrightarrow>
      user_exists (at_user_id k) s \<Longrightarrow> P (s\<lparr>db_api_tokens := db_api_tokens s @ [row]\<rparr>)"
    and change_token: "P s \<Longrightarrow> token_wf (tks_lib svc) k \<Longrightarrow> token_to_row (tks_json svc) k = Inr row \<Longrightarrow>
      (\<And>r. r \<in> set (db_api_tokens s) \<Longrightarrow> \<not> token_at (at_id k) (at_user_id k) r \<Longrightarrow> tkr_hash r \<noteq> at_hash k) \<Longrightarrow>
      (\<And>r. r \<in> set (db_api_tokens s) \<Longrightarrow> token_at (at_id k) (at_user_id k) r \<Longrightarrow> tkr_created_at r = at_created_at k) \<Longrightarrow>
      P (s\<lparr>db_api_tokens := update_where (token_at (at_id k) (at_user_id k)) (token_row_set row) (db_api_tokens s)\<rparr>)"
    and end_token: "P s \<Longrightarrow> P (s\<lparr>db_api_tokens :=
      update_where (token_at i u) (\<lambda>r. r\<lparr>tkr_revoked_at := n\<rparr>) (db_api_tokens s)\<rparr>)"
    and bucket_free: "P (s\<lparr>db_buckets := b\<rparr>) = P s"
    and unique_tokens: "P s \<Longrightarrow> distinct (map tkr_id (db_api_tokens s))"
    and libraries: "P s \<Longrightarrow> ip_contract (tks_lib svc) \<and> digest_contract (tks_lib svc)"
begin

lemma keeps_t_wrappers [keeps_intros]:
  "keeps P m \<Longrightarrow> keeps P (t_repo m)" "keeps P (t_audit env e)"
  "keeps P (token_record env now actor act oc i m')" "keeps P (record_token env now act oc i)"
  unfolding token_record_def record_token_def t_repo_def t_audit_def
  by (intro keeps_intros keeps_audit_record; assumption)+

lemma keeps_token_reads [keeps_intros]:
  "keeps P (users_find_by_id env i)" "keeps P (tokens_find env lib js u i)"
  "keeps P (tokens_find_by_hash env lib js h)" "keeps P (tokens_list env lib js u)"
  unfolding tokens_find_def tokens_find_by_hash_def tokens_find_row_def tokens_list_def user_lookup_defs users_find_def
  by (intro keeps_intros tickless_P)+

lemma keeps_token_lookups [keeps_intros]:
  "keeps P (authorize_target env actor i)" "keeps P (token_found env svc' u i)" "keeps P (bearer_token env svc' txt)"
  "keeps P (list_tokens env svc' actor u)"
  unfolding list_tokens_def authorize_target_def token_found_def bearer_token_def
  by (intro keeps_intros)+

lemma keeps_tokens_insert: "token_wf (tks_lib svc) k \<Longrightarrow> keeps P (tokens_insert env (tks_json svc) k)"
  unfolding tokens_insert_def by (intro keeps_slift_bind keeps_write) (auto intro: add_token)

text \<open>The stored row of a token has its creation time: the guard of an update.\<close>

definition made :: "api_token \<Rightarrow> db \<Rightarrow> bool" where
  "made k s \<longleftrightarrow> P s \<and>
     (\<forall>r \<in> set (db_api_tokens s). token_at (at_id k) (at_user_id k) r \<longrightarrow> tkr_created_at r = at_created_at k)"

lemma tickless_made: "tickless (made k)"
  using tickless_P by (simp add: tickless_def made_def)

lemma made_P: "made k s \<Longrightarrow> P s"
  by (simp add: made_def)

lemma made_updates [simp]: "made (k\<lparr>at_revoked_at := n\<rparr>) = made k" "made (token_mark_used now k) = made k"
  by (simp_all add: made_def token_mark_used_def fun_eq_iff)

lemma leads_tokens_update:
  assumes k: "token_wf (tks_lib svc) k"
  shows "leads (made k) P (t_repo (tokens_update env (tks_json svc) k))"
  unfolding t_repo_def tokens_update_def
proof (intro leads_combinators(4) leads_slift_bind made_P, assumption)
  fix row
  assume row: "token_to_row (tks_json svc) k = Inr row"
  have "P (s\<lparr>db_api_tokens := update_where (token_at (at_id k) (at_user_id k)) (token_row_set row) (db_api_tokens s)\<rparr>)"
    if s: "made k s" and ok: "list_ex (token_at (at_id k) (at_user_id k)) (db_api_tokens s) \<longrightarrow>
      \<not> list_ex (\<lambda>r. \<not> token_at (at_id k) (at_user_id k) r \<and> tkr_hash r = at_hash k) (db_api_tokens s)" for s
  proof (cases "list_ex (token_at (at_id k) (at_user_id k)) (db_api_tokens s)")
    case True
    then show ?thesis
      using ok s by (intro change_token [OF made_P [OF s] k row]) (auto simp: list_ex_iff made_def)
  next
    case False
    then have "update_where (token_at (at_id k) (at_user_id k)) (token_row_set row) (db_api_tokens s) = db_api_tokens s"
      by (intro update_where_none) (auto simp: list_ex_iff)
    then show ?thesis using made_P [OF s] by simp
  qed
  then show "leads (made k) P (sql_write env
       (\<lambda>s. list_ex (token_at (at_id k) (at_user_id k)) (db_api_tokens s) \<longrightarrow>
          \<not> list_ex (\<lambda>r. \<not> token_at (at_id k) (at_user_id k) r \<and> tkr_hash r = at_hash k) (db_api_tokens s))
       (\<lambda>s. s\<lparr>db_api_tokens := update_where (token_at (at_id k) (at_user_id k)) (token_row_set row) (db_api_tokens s)\<rparr>))"
    by (auto simp: leads_def sql_write_def tickless_tick [OF tickless_P] made_P split: option.splits)
qed

text \<open>A token that the repository returns is well formed.\<close>

lemma made_found:
  assumes "P s" and "find q (db_api_tokens s) = Some r" and "into_token (tks_lib svc) (tks_json svc) r = Inr k"
  shows "token_wf (tks_lib svc) k" and "made k (tick s)"
proof -
  note f = into_token_wf [OF conjunct1 [OF libraries [OF assms(1)]] assms(3)]
  have r: "r \<in> set (db_api_tokens s)" using find_SomeD [OF assms(2)] by blast
  have "x = r" if "x \<in> set (db_api_tokens s)" "tkr_id x = tkr_id r" for x
    using unique_tokens [OF assms(1)] that r by (auto simp: distinct_map dest: inj_onD)
  then show "made k (tick s)"
    using assms(1) f tickless_tick [OF tickless_P] by (auto simp: made_def token_at_def)
  show "token_wf (tks_lib svc) k" by (rule f(1))
qed

lemma keeps_token_found:
  assumes f: "\<And>k. token_wf (tks_lib svc) k \<Longrightarrow> leads (made k) P (f k)"
  shows "keeps P (sbind (token_found env svc u i) f)" and "keeps P (sbind (bearer_token env svc txt) f)"
proof -
  show "keeps P (sbind (token_found env svc u i) f)"
  proof (intro keeps_sbind_result keeps_intros)
    fix s k t assume s: "P s" and run: "token_found env svc u i s = (Inr k, t)"
    show "P (snd (f k t))"
      using run by (rule token_found_Inr) (use made_found [OF s] leadsD [OF f] in metis)
  qed
  show "keeps P (sbind (bearer_token env svc txt) f)"
  proof (intro keeps_sbind_result keeps_intros)
    fix s k t assume s: "P s" and run: "bearer_token env svc txt s = (Inr k, t)"
    show "P (snd (f k t))"
      using run by (rule bearer_token_Inr) (use made_found [OF s] leadsD [OF f] in metis)
  qed
qed

lemma keeps_create_token: "keeps P (create_token env svc i bytes now actor input)"
proof (rule keepsI)
  fix s assume "P s"
  note lib = libraries [OF this]
  have "keeps P (create_token env svc i bytes now actor input)"
    unfolding create_token_def tokens_create_def
    by (intro keeps_sbind [OF keeps_token_lookups(1)] keeps_slift_bind keeps_let keeps_if keeps_sbind
        keeps_tokens_insert keeps_t_wrappers keeps_combinators)
       (use lib in \<open>auto intro!: token_new_wf dest: parse_scopes_wf parsed_cidrs_wf\<close>)
  then show "P (snd (create_token env svc i bytes now actor input s))" using \<open>P s\<close> by (rule keepsD)
qed

lemma leads_of_keeps: "keeps P m \<Longrightarrow> leads (made k) P m"
  by (auto simp: leads_def keeps_def made_def)

lemma keeps_revoke_token: "keeps P (revoke_token env svc now actor u i)"
  unfolding revoke_token_def
proof (intro keeps_sbind [OF keeps_token_lookups(1)] keeps_token_found leads_slift_bind made_P, assumption)
  fix k new assume k: "token_wf (tks_lib svc) k" and "map_err InvalidApiToken (token_revoke now k) = Inr new"
  then have new: "new = k\<lparr>at_revoked_at := Some now\<rparr>" by (auto simp: token_revoke_def split: if_splits)
  have "leads (made new) P (t_repo (tokens_update env (tks_json svc) new))"
    using k by (intro leads_tokens_update) (simp add: new token_wf_updates)
  then show "leads (made k) P (sbind (t_repo (tokens_update env (tks_json svc) new)) (\<lambda>_.
       token_record env now actor (token_action ''token_revoked'') Success i (JObject [(''token_id'', id_json env i)])))"
    by (intro leads_sbind_after keeps_t_wrappers) (simp add: new)
qed

lemma keeps_rotate_token: "keeps P (rotate_token env svc new_id bytes now actor u i)"
proof (rule keepsI)
  fix s assume "P s"
  note lib = libraries [OF this]
  have rot: "keeps P (tokens_rotate env (tks_json svc) old new)" if "token_wf (tks_lib svc) new" for old new
    unfolding tokens_rotate_def using that by (intro keeps_transaction keeps_sbind keeps_write keeps_tokens_insert end_token)
  have "keeps P (rotate_token env svc new_id bytes now actor u i)"
    unfolding rotate_token_def
    by (intro keeps_sbind [OF keeps_token_lookups(1)] keeps_token_found leads_of_keeps keeps_slift_bind keeps_let keeps_if keeps_sbind
        rot keeps_t_wrappers keeps_combinators)
       (use lib in \<open>auto intro: rotated_token_wf\<close>)
  then show "P (snd (rotate_token env svc new_id bytes now actor u i s))" using \<open>P s\<close> by (rule keepsD)
qed

lemma leads_handled:
  assumes "keeps (made k) m" and "\<And>e. keeps P (g e)" and "\<And>x. leads (made k) P (f x)"
  shows "leads (made k) P (\<lambda>s. case m s of (Inl e, t) \<Rightarrow> g e t | (Inr x, t) \<Rightarrow> f x t)"
  unfolding leads_def
proof (intro allI impI)
  fix s assume "made k s"
  with assms(1) have "made k (snd (m s))" by (rule keepsD)
  then show "P (snd (case m s of (Inl e, t) \<Rightarrow> g e t | (Inr x, t) \<Rightarrow> f x t))"
    using keepsD [OF assms(2) made_P] leadsD [OF assms(3)] by (cases "m s"; cases "fst (m s)") auto
qed

lemma keeps_consume_made: "keeps (made k) (token_consume svc' inst i)"
  by (auto simp: keeps_def token_consume_def made_def bucket_free split: prod.splits)

lemma keeps_token_denied: "keeps P (token_denied env now act k e)"
  unfolding token_denied_def by (intro keeps_intros)

lemma keeps_authenticate: "keeps P (authenticate env svc now inst txt peer sc)"
  unfolding authenticate_def
proof (intro keeps_token_found(2))
  fix k assume k: "token_wf (tks_lib svc) k"
  have upd: "leads (made k) P (t_repo (tokens_update env (tks_json svc) (token_mark_used now k)))"
    using k leads_tokens_update [of "token_mark_used now k"] by (simp add: token_wf_updates)
  have read: "keeps (made k) (t_repo (users_find_by_id env i))" for i
    unfolding t_repo_def user_lookup_defs users_find_def by (intro keeps_intros tickless_made)
  have tail: "leads (made k) P (sbind (t_repo (users_find_by_id env (at_user_id k))) (\<lambda>found.
        sbind (slift (ok_or Unauthorized
            (case found of None \<Rightarrow> None | Some u \<Rightarrow> if user_is_disabled u then None else Some u))) (\<lambda>u.
        sbind (t_repo (tokens_update env (tks_json svc) (token_mark_used now k))) (\<lambda>_.
        sbind (record_token env now (token_action ''token_request'') Success (at_id k)) (\<lambda>_.
          sret \<lparr>bp_user = u, bp_token_id = at_id k\<rparr>)))))" (is "leads _ _ ?tail")
    by (intro leads_sbind_before read made_P leads_slift_bind leads_sbind_after upd keeps_sbind keeps_t_wrappers
        keeps_combinators; assumption?)
  show "leads (made k) P (if at_revoked_at k \<noteq> None then sfail Unauthorized
     else if now \<ge> at_expires_at k then token_denied env now ''token_expired'' k TokenExpired
     else if \<not> allows_ip (tks_lib svc) k peer then token_denied env now ''token_cidr_rejected'' k CidrRejected
     else if \<not> allows_scope k sc then token_denied env now ''token_scope_rejected'' k ScopeRejected
     else (\<lambda>s. case token_consume svc inst (at_id k) s of
       (Inl e, s) \<Rightarrow> token_denied env now ''token_rate_limited'' k e s | (Inr _, s) \<Rightarrow> ?tail s))"
    by (intro leads_combinators(3) leads_of_keeps keeps_token_denied keeps_combinators leads_handled keeps_consume_made tail)
qed

end

text \<open>
  Identifiers and lookup hashes of the tokens are unique, every row is readable and every token
  belongs to an account.
\<close>

definition token_row_ok :: "token_service \<Rightarrow> token_row \<Rightarrow> bool" where
  "token_row_ok svc r \<longleftrightarrow> \<not> isl (into_token (tks_lib svc) (tks_json svc) r)"

definition tokens_ok :: "token_service \<Rightarrow> uuid set \<Rightarrow> token_row list \<Rightarrow> bool" where
  "tokens_ok svc ids rows \<longleftrightarrow>
     ip_contract (tks_lib svc) \<and> digest_contract (tks_lib svc) \<and> text_json_contract (tks_json svc) \<and>
     distinct (map tkr_id rows) \<and> distinct (map tkr_hash rows) \<and> list_all (token_row_ok svc) rows \<and>
     list_all (\<lambda>r. tkr_user_id r \<in> ids) rows"

lemma tokens_ok_add:
  assumes "tokens_ok svc ids rows" and "token_wf (tks_lib svc) k" and "token_to_row (tks_json svc) k = Inr row"
    and "\<not> list_ex (\<lambda>r. tkr_id r = at_id k \<or> tkr_hash r = at_hash k) rows" and "at_user_id k \<in> ids"
  shows "tokens_ok svc ids (rows @ [row])"
proof -
  have "tkr_id row = at_id k" "tkr_hash row = at_hash k" "tkr_user_id row = at_user_id k"
    using assms(3) by (auto simp: token_to_row_def)
  moreover have "token_row_ok svc row"
    using assms(1) token_roundtrip [OF _ assms(2,3)] by (simp add: tokens_ok_def token_row_ok_def)
  ultimately show ?thesis using assms(1,4,5) by (auto simp: tokens_ok_def list_ex_iff)
qed

lemma token_to_row_fields:
  "token_to_row js k = Inr row \<Longrightarrow> tkr_id row = at_id k \<and> tkr_hash row = at_hash k \<and> tkr_user_id row = at_user_id k"
  by (auto simp: token_to_row_def)

text \<open>The row an update leaves is the row of the new value.\<close>

lemma token_row_set_ok:
  assumes "text_json_contract (tks_json svc)" and "token_wf (tks_lib svc) k" and "token_to_row (tks_json svc) k = Inr row"
    and "token_at (at_id k) (at_user_id k) r" and "tkr_created_at r = at_created_at k"
  shows "token_row_ok svc (token_row_set row r)"
proof -
  have "token_row_set row r = row"
    using assms(3-5) by (auto simp: token_to_row_def token_row_set_def token_at_def)
  then show ?thesis
    using token_roundtrip [OF assms(1-3)] by (simp add: token_row_ok_def)
qed

lemma tokens_ok_change:
  assumes ok: "tokens_ok svc ids rows" and k: "token_wf (tks_lib svc) k" "token_to_row (tks_json svc) k = Inr row"
    and hash: "\<And>r. r \<in> set rows \<Longrightarrow> \<not> token_at (at_id k) (at_user_id k) r \<Longrightarrow> tkr_hash r \<noteq> at_hash k"
    and made: "\<And>r. r \<in> set rows \<Longrightarrow> token_at (at_id k) (at_user_id k) r \<Longrightarrow> tkr_created_at r = at_created_at k"
  shows "tokens_ok svc ids (update_where (token_at (at_id k) (at_user_id k)) (token_row_set row) rows)"
proof -
  let ?q = "token_at (at_id k) (at_user_id k)"
  have ids: "map tkr_id (update_where ?q (token_row_set row) rows) = map tkr_id rows"
    by (rule map_update_where) (simp add: token_row_set_def)
  have "distinct (map tkr_hash (update_where ?q (token_row_set row) rows))"
    using ok hash unfolding tokens_ok_def
  proof (induction rows)
    case (Cons r rows)
    have "\<not> ?q x" if "?q r" "x \<in> set rows" for x
      using that Cons.prems(1) by (auto simp: token_at_def) (metis imageI)
    then show ?case
      using Cons token_to_row_fields [OF k(2)]
      by (auto simp: set_update_where token_row_set_def image_iff split: if_splits) blast
  qed simp
  moreover have "token_row_ok svc (token_row_set row r)" if "r \<in> set rows" "?q r" for r
    using token_row_set_ok [OF _ k that(2) made [OF that]] ok by (simp add: tokens_ok_def)
  ultimately show ?thesis
    using ok by (auto simp: tokens_ok_def ids list_all_iff token_row_set_def elim!: update_where_cases)
qed

lemma tokens_ok_end:
  assumes "tokens_ok svc ids rows"
  shows "tokens_ok svc ids (update_where (token_at i u) (\<lambda>r. r\<lparr>tkr_revoked_at := n\<rparr>) rows)"
proof -
  have "map tkr_id (update_where (token_at i u) (\<lambda>r. r\<lparr>tkr_revoked_at := n\<rparr>) rows) = map tkr_id rows"
    "map tkr_hash (update_where (token_at i u) (\<lambda>r. r\<lparr>tkr_revoked_at := n\<rparr>) rows) = map tkr_hash rows"
    by (intro map_update_where; simp)+
  moreover have "token_row_ok svc (r\<lparr>tkr_revoked_at := n\<rparr>) = token_row_ok svc r" for r
    by (cases "tkr_cidr_allowlist r")
       (auto simp: token_row_ok_def into_token_def token_restore_def rbind_def map_err_def guard_def split: sum.splits)
  ultimately show ?thesis
    using assms by (auto simp: tokens_ok_def list_all_iff elim!: update_where_cases)
qed

lemma tokens_ok_refs:
  "tokens_ok svc ids rows \<Longrightarrow> tokens_ok svc (insert i ids) rows"
  "tokens_ok svc ids rows \<Longrightarrow> tokens_ok svc (ids - {i}) (delete_where (\<lambda>r. tkr_user_id r = i) rows)"
  by (auto simp: tokens_ok_def list_all_iff intro: distinct_map_delete_where)

definition tokens_wf :: "token_service \<Rightarrow> db \<Rightarrow> bool" where
  "tokens_wf svc s \<longleftrightarrow> tokens_ok svc (account_ids s) (db_api_tokens s)"

text \<open>The operations on accounts keep the tokens in order: a deleted account takes its own along.\<close>

interpretation account_tokens: account_invariant "\<lambda>s. accounts_wf s \<and> tokens_wf svc s" for svc
proof unfold_locales
  fix s f i assume "accounts_wf s \<and> tokens_wf svc s" and "\<And>r. same_identity r (f r)"
  then show "accounts_wf (s\<lparr>db_users := update_where (\<lambda>r. ur_id r = i) f (db_users s)\<rparr>) \<and>
      tokens_wf svc (s\<lparr>db_users := update_where (\<lambda>r. ur_id r = i) f (db_users s)\<rparr>)"
    using accounts.update_user [of s f i] by (simp add: tokens_wf_def same_identity_def)
next
  fix s p and i :: uuid assume "accounts_wf s \<and> tokens_wf svc s" and "p \<noteq> Some i"
  then show "accounts_wf (s\<lparr>db_users := update_where (\<lambda>r. ur_id r = i) (\<lambda>r. r\<lparr>ur_parent_account_id := p\<rparr>) (db_users s)\<rparr>) \<and>
      tokens_wf svc (s\<lparr>db_users := update_where (\<lambda>r. ur_id r = i) (\<lambda>r. r\<lparr>ur_parent_account_id := p\<rparr>) (db_users s)\<rparr>)"
    using accounts.update_parent [of s p i] by (simp add: tokens_wf_def)
next
  fix s i role assume "accounts_wf s \<and> tokens_wf svc s"
    and "\<And>r. r \<in> set (db_users s) \<Longrightarrow> ur_id r = i \<Longrightarrow> owner_row r \<Longrightarrow> role = Owner"
  then show "accounts_wf (s\<lparr>db_users := update_where (\<lambda>r. ur_id r = i) (\<lambda>r. r\<lparr>ur_role := role_as_str role\<rparr>) (db_users s)\<rparr>) \<and>
      tokens_wf svc (s\<lparr>db_users := update_where (\<lambda>r. ur_id r = i) (\<lambda>r. r\<lparr>ur_role := role_as_str role\<rparr>) (db_users s)\<rparr>)"
    using accounts.update_role [of s i role] by (simp add: tokens_wf_def)
next
  fix s i assume "accounts_wf s \<and> tokens_wf svc s"
  then show "accounts_wf (cascade_user i s) \<and> tokens_wf svc (cascade_user i s)"
    using tokens_ok_refs(2) [of svc "account_ids s" "db_api_tokens s" i]
    by (simp add: tokens_wf_def accounts_wf_cascade) (simp add: cascade_user_def)
qed (auto simp: tokens_wf_def accounts_wf_steps tokens_ok_refs(1),
     auto simp: tickless_def accounts_wf_def user_exists_def)

lemma tokens_invariant_join:
  assumes p: "store_invariant P" and free: "\<And>s x. P (s\<lparr>db_api_tokens := x\<rparr>) = P s" "\<And>s x. P (s\<lparr>db_buckets := x\<rparr>) = P s"
  shows "tokens_invariant (\<lambda>s. P s \<and> tokens_wf svc s) svc"
proof -
  have lib: "tokens_wf svc s \<Longrightarrow> ip_contract (tks_lib svc) \<and> digest_contract (tks_lib svc)"
    "tokens_wf svc s \<Longrightarrow> distinct (map tkr_id (db_api_tokens s))" for s
    by (simp_all add: tokens_wf_def tokens_ok_def)
  have frame: "account_ids (s\<lparr>db_api_tokens := x\<rparr>) = account_ids s" "account_ids (s\<lparr>db_buckets := y\<rparr>) = account_ids s" for s x y
    by (simp_all add: account_ids_def)
  show ?thesis
  proof unfold_locales
    show "tickless (\<lambda>s. P s \<and> tokens_wf svc s)"
      using store_invariant.tickless_P [OF p] by (simp add: tickless_def tokens_wf_def)
  qed (auto simp: store_invariant.audit_free [OF p] free lib tokens_wf_def frame user_exists_ids
         intro!: tokens_ok_add tokens_ok_change tokens_ok_end dest: lib [unfolded tokens_wf_def])
qed

section \<open>The life of a credential\<close>

text \<open>A lookup by hash finds the one row with that hash, or the row an update made of it.\<close>

lemma find_changed_token:
  assumes "distinct (map tkr_hash rows)" and "distinct (map tkr_id rows)" and "r \<in> set rows"
    and "tkr_hash (f r) = tkr_hash r" and "token_at i u r"
  shows "find (\<lambda>x. tkr_hash x = tkr_hash r) (update_where (token_at i u) f rows) = Some (f r)"
  using assms
proof (induction rows)
  case (Cons x rows)
  then show ?case by (auto simp: token_at_def)
qed simp

lemma bearer_token_run:
  assumes "credential_parse (tks_lib svc) plaintext = Inr c" and "env_fault env (db_tick s) = None"
    and "find (\<lambda>r. tkr_hash r = credential_hash (tks_lib svc) (tks_pepper svc) c) (db_api_tokens s) = Some r"
    and "into_token (tks_lib svc) (tks_json svc) r = Inr k" and "ip_contract (tks_lib svc)"
  shows "bearer_token env svc plaintext s = (Inr k, tick s)"
proof -
  have "at_hash k = credential_hash (tks_lib svc) (tks_pepper svc) c"
    using into_token_wf(4) [OF assms(5,4)] find_SomeD [OF assms(3)] by simp
  then show ?thesis
    using assms(1-4)
    by (simp add: bearer_token_def sbind_def slift_def Let_def t_repo_def smap_err_def tokens_find_by_hash_def
        tokens_find_row_def sql_read_def sret_def token_hash_eq_iff)
qed

text \<open>What a row that an update wrote is read back as.\<close>

lemma token_row_set_read:
  assumes "text_json_contract js" and "ip_contract lib" and "into_token lib js r = Inr k"
    and "token_wf lib k'" and "token_to_row js k' = Inr row"
    and "at_id k' = at_id k" and "at_user_id k' = at_user_id k" and "at_created_at k' = at_created_at k"
  shows "token_row_set row r = row" and "into_token lib js (token_row_set row r) = Inr k'"
proof -
  show "token_row_set row r = row"
    using assms(5-8) into_token_wf(2,3,5) [OF assms(2,3)] by (auto simp: token_to_row_def token_row_set_def)
  then show "into_token lib js (token_row_set row r) = Inr k'" using token_roundtrip [OF assms(1,4,5)] by simp
qed

lemma revoked_is_found_revoked:
  assumes "revoke_token env svc now actor u i s = (Inr x, t)" and "tokens_wf svc s"
    and "find (token_at i u) (db_api_tokens s) = Some r"
  shows "\<exists>r'. find (\<lambda>y. tkr_hash y = tkr_hash r) (db_api_tokens t) = Some r' \<and> tkr_revoked_at r' = Some now \<and>
    tkr_created_at r' = tkr_created_at r \<and> tkr_id r' = tkr_id r \<and> tkr_user_id r' = tkr_user_id r"
  using assms(1)
proof (rule revoke_token_Inr)
  fix r1 k row
  assume "find (token_at i u) (db_api_tokens s) = Some r1" and k: "into_token (tks_lib svc) (tks_json svc) r1 = Inr k"
    and row: "token_to_row (tks_json svc) (k\<lparr>at_revoked_at := Some now\<rparr>) = Inr row"
    and t: "db_api_tokens t = update_where (token_at (at_id k) (at_user_id k)) (token_row_set row) (db_api_tokens s)"
  then have r1: "r1 = r" using assms(3) by simp
  have wf: "ip_contract (tks_lib svc)" "distinct (map tkr_hash (db_api_tokens s))" "distinct (map tkr_id (db_api_tokens s))"
    using assms(2) by (simp_all add: tokens_wf_def tokens_ok_def)
  note f = into_token_wf [OF wf(1) k [unfolded r1]]
  have r: "r \<in> set (db_api_tokens s)" using find_SomeD [OF assms(3)] by simp
  have "tkr_hash (token_row_set row r) = tkr_hash r" "tkr_revoked_at (token_row_set row r) = Some now"
    using row f(4) by (auto simp: token_row_set_def token_to_row_def)
  then show ?thesis
    using find_changed_token [OF wf(2,3) r, of "token_row_set row" "at_id k" "at_user_id k"] f(2,3)
    by (simp add: t token_at_def) (simp add: token_row_set_def)
qed

lemma mark_used_fields:
  "at_id (token_mark_used n k) = at_id k" "at_user_id (token_mark_used n k) = at_user_id k"
  "at_created_at (token_mark_used n k) = at_created_at k" "at_hash (token_mark_used n k) = at_hash k"
  by (simp_all add: token_mark_used_def)

lemma revoked_token_denied:
  assumes "find (\<lambda>y. tkr_hash y = h) (db_api_tokens t) = Some r" and "tkr_revoked_at r \<noteq> None"
    and "credential_parse (tks_lib svc) plaintext = Inr c" and "credential_hash (tks_lib svc) (tks_pepper svc) c = h"
    and "ip_contract (tks_lib svc)"
  shows "\<exists>e. fst (authenticate env svc now inst plaintext peer sc t) = Inl e"
proof (rule ccontr)
  assume "\<not> ?thesis"
  then obtain p u where "authenticate env svc now inst plaintext peer sc t = (Inr p, u)"
    by (metis prod.collapse sum.exhaust)
  then show False
  proof (rule authenticate_Inr)
    fix c' r' k
    assume "credential_parse (tks_lib svc) plaintext = Inr c'"
      and "find (\<lambda>r. tkr_hash r = credential_hash (tks_lib svc) (tks_pepper svc) c') (db_api_tokens t) = Some r'"
      and k: "into_token (tks_lib svc) (tks_json svc) r' = Inr k" "at_revoked_at k = None"
    then have "r' = r" using assms(1,3,4) by simp
    then show False using into_token_wf(8) [OF assms(5) k(1)] k(2) assms(2) by simp
  qed
qed

lemma stale_use_restores:
  assumes "bearer_token env svc plaintext s = (Inr k, s1)" and "at_revoked_at k = None" and "tokens_wf svc s"
    and rev: "revoke_token env svc now actor (at_user_id k) (at_id k) s1 = (Inr (), t)"
    and "tokens_update env (tks_json svc) (token_mark_used used k) t = (Inr (), u)" and "env_fault env (db_tick u) = None"
  shows "bearer_token env svc plaintext u = (Inr (token_mark_used used k), tick u)"
  using assms(1)
proof (rule bearer_token_Inr)
  fix c r
  assume c: "credential_parse (tks_lib svc) plaintext = Inr c" and s1: "s1 = tick s"
    and h: "find (\<lambda>r. tkr_hash r = credential_hash (tks_lib svc) (tks_pepper svc) c) (db_api_tokens s) = Some r"
    and k: "into_token (tks_lib svc) (tks_json svc) r = Inr k"
  have wf: "ip_contract (tks_lib svc)" "text_json_contract (tks_json svc)"
    "distinct (map tkr_hash (db_api_tokens s))" "distinct (map tkr_id (db_api_tokens s))"
    using assms(3) by (simp_all add: tokens_wf_def tokens_ok_def)
  note f = into_token_wf [OF wf(1) k]
  have r: "r \<in> set (db_api_tokens s)" and hash: "tkr_hash r = credential_hash (tks_lib svc) (tks_pepper svc) c"
    using find_SomeD [OF h] by simp_all
  have at: "token_at (at_id k) (at_user_id k) r" using f(2,3) by (simp add: token_at_def)
  from rev obtain row where
    row: "token_to_row (tks_json svc) (k\<lparr>at_revoked_at := Some now\<rparr>) = Inr row"
    and t: "db_api_tokens t = update_where (token_at (at_id k) (at_user_id k)) (token_row_set row) (db_api_tokens s)"
  proof (rule revoke_token_Inr)
    fix r1 k1 row
    assume "find (token_at (at_id k) (at_user_id k)) (db_api_tokens s1) = Some r1"
      and k1: "into_token (tks_lib svc) (tks_json svc) r1 = Inr k1"
      "token_to_row (tks_json svc) (k1\<lparr>at_revoked_at := Some now\<rparr>) = Inr row"
      "db_api_tokens t = update_where (token_at (at_id k1) (at_user_id k1)) (token_row_set row) (db_api_tokens s1)"
    then have "r1 \<in> set (db_api_tokens s)" "tkr_id r1 = tkr_id r"
      using f(2) s1 by (auto dest!: find_SomeD simp: token_at_def)
    then have "r1 = r" using wf(4) r by (auto simp: distinct_map inj_on_def)
    then show thesis using that k1 k s1 by simp
  qed
  from assms(5) obtain row' where
    row': "token_to_row (tks_json svc) (token_mark_used used k) = Inr row'"
    and u: "db_api_tokens u = update_where (token_at (at_id k) (at_user_id k)) (token_row_set row') (db_api_tokens t)"
    by (auto simp: tokens_update_Inr token_mark_used_def)
  let ?f = "\<lambda>x. token_row_set row' (token_row_set row x)"
  have "db_api_tokens u = update_where (token_at (at_id k) (at_user_id k)) ?f (db_api_tokens s)"
    unfolding u t by (simp add: update_where_def token_at_def token_row_set_def)
  moreover have read: "token_row_set row r = row" "token_row_set row' r = row'"
    "into_token (tks_lib svc) (tks_json svc) row' = Inr (token_mark_used used k)"
    using token_row_set_read [OF wf(2,1) k _ row] token_row_set_read [OF wf(2,1) k _ row'] f(1)
    by (simp_all add: token_wf_updates mark_used_fields)
  moreover have "token_row_set row' row = row'"
    using row row' by (auto simp: token_to_row_def token_mark_used_def token_row_set_def)
  moreover have "tkr_hash row' = tkr_hash r" using row' f(4) by (auto simp: token_to_row_def token_mark_used_def)
  ultimately have "find (\<lambda>x. tkr_hash x = tkr_hash r) (db_api_tokens u) = Some row'"
    using find_changed_token [OF wf(3,4) r _ at, of ?f] by simp
  then show ?thesis using bearer_token_run [OF c assms(6) _ read(3) wf(1)] hash by simp
qed

text \<open>A readable, active token lets its bearer in and records the use.\<close>

lemma authenticate_accepts:
  assumes c: "credential_parse (tks_lib svc) plaintext = Inr c" and fault: "env_fault env = (\<lambda>_. None)"
    and r: "find (\<lambda>r. tkr_hash r = credential_hash (tks_lib svc) (tks_pepper svc) c) (db_api_tokens s) = Some r"
    and k: "into_token (tks_lib svc) (tks_json svc) r = Inr k" and wf: "tokens_wf svc s"
    and active: "token_is_active k now" and peer: "allows_ip (tks_lib svc) k peer" and sc: "allows_scope k sc"
    and rate: "fst (consume_bucket svc inst (db_buckets s (at_id k))) = Inr ()"
    and q: "find (\<lambda>q. ur_id q = at_user_id k) (db_users s) = Some q" "into_user q = Inr u" "\<not> user_is_disabled u"
  shows "\<exists>t. authenticate env svc now inst plaintext peer sc s = (Inr \<lparr>bp_user = u, bp_token_id = at_id k\<rparr>, t)"
proof -
  have w: "ip_contract (tks_lib svc)" "text_json_contract (tks_json svc)" "distinct (map tkr_hash (db_api_tokens s))"
    using wf by (simp_all add: tokens_wf_def tokens_ok_def)
  note f = into_token_wf [OF w(1) k]
  have hash: "tkr_hash r = at_hash k" "r \<in> set (db_api_tokens s)" using f(4) find_SomeD [OF r] by simp_all
  obtain row where row: "token_to_row (tks_json svc) (token_mark_used now k) = Inr row"
    by (rule token_to_row_total [OF w(2)])
  have free: "\<not> list_ex (\<lambda>x. \<not> token_at (at_id k) (at_user_id k) x \<and> tkr_hash x = at_hash k) (db_api_tokens s)"
  proof -
    have "x = r" if "x \<in> set (db_api_tokens s)" "tkr_hash x = at_hash k" for x
      using w(3) that hash unfolding distinct_map inj_on_def by metis
    then show ?thesis using f(2,3) unfolding list_ex_iff token_at_def by metis
  qed
  obtain b where b: "consume_bucket svc inst (db_buckets s (at_id k)) = (Inr (), b)" using rate by (metis prod.collapse)
  let ?s1 = "tick s\<lparr>db_buckets := (db_buckets s)(at_id k \<mapsto> b)\<rparr>"
  have consume: "token_consume svc inst (at_id k) (tick s) = (Inr (), ?s1)" using b by (simp add: token_consume_def)
  have user: "t_repo (users_find_by_id env (at_user_id k)) ?s1 = (Inr (Some u), tick ?s1)"
    using q(1,2) by (simp add: t_repo_def smap_err_def users_find_by_id_def users_find_def sbind_def slift_def sql_eval(1) [OF fault])
  obtain t where upd: "t_repo (tokens_update env (tks_json svc) (token_mark_used now k)) (tick ?s1) = (Inr (), t)"
    using row free fault by (auto simp: t_repo_Inr tokens_update_Inr mark_used_fields)
  show ?thesis
    using bearer_token_run [OF c _ r k w(1)] fault active peer sc consume user upd q(3)
    by (simp add: authenticate_def token_is_active_def sbind_def slift_def sret_def record_token_def t_audit_def)
qed

lemma created_token_row:
  assumes run: "create_token env svc i bytes now actor input s = (Inr x, t)" and wf: "tokens_wf svc s"
  obtains k row where "x = created_token k (credential_generate (tks_lib svc) bytes)"
    and "at_id k = i" and "at_user_id k = cat_user_id input" and "at_expires_at k = cat_expires_at input"
    and "at_revoked_at k = None" and "into_token (tks_lib svc) (tks_json svc) row = Inr k"
    and "find (\<lambda>r. tkr_hash r = credential_hash (tks_lib svc) (tks_pepper svc) (credential_generate (tks_lib svc) bytes))
        (db_api_tokens t) = Some row"
    and "tokens_wf svc t" and "db_users t = db_users s" and "db_buckets t = db_buckets s"
  using run
proof (rule create_token_Inr)
  fix k row scopes cidrs target
  let ?h = "credential_hash (tks_lib svc) (tks_pepper svc) (credential_generate (tks_lib svc) bytes)"
  assume sc: "parse_scopes (cat_scopes input) = Inr scopes"
    and ci: "collect_results (cidr_parse (tks_lib svc)) (cat_cidr_allowlist input) = Inr cidrs"
    and k: "token_new i (cat_user_id input) (cat_label input) ?h scopes cidrs (cat_expires_at input) now = Inr k"
    and target: "authorize_target env actor (cat_user_id input) s = (Inr target, tick s)"
    and row: "token_to_row (tks_json svc) k = Inr row"
    and new: "\<not> list_ex (\<lambda>r. tkr_id r = at_id k \<or> tkr_hash r = at_hash k) (db_api_tokens s)"
    and t: "db_api_tokens t = db_api_tokens s @ [row]" "db_users t = db_users s" "db_buckets t = db_buckets s"
    and x: "x = created_token k (credential_generate (tks_lib svc) bytes)"
  have lib: "ip_contract (tks_lib svc)" "digest_contract (tks_lib svc)" "text_json_contract (tks_json svc)"
    and ok: "tokens_ok svc (account_ids s) (db_api_tokens s)"
    using wf by (simp_all add: tokens_wf_def tokens_ok_def)
  have kw: "token_wf (tks_lib svc) k"
    using token_new_wf [OF lib(1,2) k] parse_scopes_wf [OF sc] parsed_cidrs_wf [OF lib(1) ci] by blast
  have f: "at_id k = i" "at_user_id k = cat_user_id input" "at_expires_at k = cat_expires_at input" "at_revoked_at k = None"
    "at_hash k = ?h"
    using k by (auto simp: token_new_def token_restore_def split: if_splits)
  have "cat_user_id input \<in> account_ids s"
    using authorize_target_Inr(3) [OF target] by (simp add: user_exists_ids)
  then have "tokens_wf svc t"
    using tokens_ok_add [OF ok kw row new] t(1,2) f(2) by (simp add: tokens_wf_def account_ids_def)
  moreover have "find (\<lambda>r. tkr_hash r = ?h) (db_api_tokens t) = Some row"
    using new token_to_row_fields [OF row] f(5) by (auto simp: t(1) find_append list_ex_iff dest: find_SomeD split: option.splits)
  ultimately show thesis
    using that x f token_roundtrip [OF lib(3) kw row] t(2,3) by blast
qed

end
