(* ===== verification/Collaborator_Domain.thy ===== *)
theory Collaborator_Domain
  imports Common_Values
begin

unbundle bit_operations_syntax

text \<open>
  \<open>openpanel-domain/src/collaborators\<close>: the closed set of site permissions and its bit set,
  collaborators with their life cycle, and site grants.
\<close>

datatype collaborator_error =
    CollabNotFound string
  | GrantMissing string string
  | ScopeNotAllowed string
  | CollabPersistence string
  | NotAuthorised string

section \<open>Permissions\<close>

datatype permission = PermFile | PermDatabase | PermMail | PermCron

definition permission_as_str :: "permission \<Rightarrow> string" where
  "permission_as_str p =
     (case p of PermFile \<Rightarrow> ''file'' | PermDatabase \<Rightarrow> ''database'' | PermMail \<Rightarrow> ''mail'' | PermCron \<Rightarrow> ''cron'')"

definition permission_parse :: "string \<Rightarrow> permission option" where
  "permission_parse s =
     (if s = ''file'' then Some PermFile
      else if s = ''database'' then Some PermDatabase
      else if s = ''mail'' then Some PermMail
      else if s = ''cron'' then Some PermCron
      else None)"

interpretation permission_codec: string_codec permission_as_str "\<lambda>s. ok_or () (permission_parse s)"
proof
  fix v s
  show "ok_or () (permission_parse (permission_as_str v)) = Inr v"
    by (cases v) (simp_all add: permission_parse_def permission_as_str_def)
  show "ok_or () (permission_parse s) = Inr v \<Longrightarrow> permission_as_str v = s"
    by (auto simp: permission_parse_def permission_as_str_def split: if_splits)
qed

definition permission_bit :: "permission \<Rightarrow> nat" where
  "permission_bit p = (case p of PermFile \<Rightarrow> 0 | PermDatabase \<Rightarrow> 1 | PermMail \<Rightarrow> 2 | PermCron \<Rightarrow> 3)"

definition permission_from_bit :: "nat \<Rightarrow> permission" where
  "permission_from_bit i =
     (if i = 0 then PermFile else if i = 1 then PermDatabase else if i = 2 then PermMail
      else if i = 3 then PermCron else PermFile)"

section \<open>Permission sets\<close>

datatype permission_set = PermissionSet u8

primrec ps_bits :: "permission_set \<Rightarrow> u8" where
  "ps_bits (PermissionSet b) = b"

definition ps_empty :: permission_set where
  "ps_empty = PermissionSet 0"

definition ps_single :: "permission \<Rightarrow> permission_set" where
  "ps_single p = PermissionSet (push_bit (permission_bit p) 1)"

definition ps_insert :: "permission \<Rightarrow> permission_set \<Rightarrow> permission_set" where
  "ps_insert p s = PermissionSet (ps_bits s OR push_bit (permission_bit p) 1)"

definition ps_remove :: "permission \<Rightarrow> permission_set \<Rightarrow> permission_set" where
  "ps_remove p s = PermissionSet (ps_bits s AND NOT (push_bit (permission_bit p) 1))"

definition ps_contains :: "permission_set \<Rightarrow> permission \<Rightarrow> bool" where
  "ps_contains s p \<longleftrightarrow> ps_bits s AND push_bit (permission_bit p) 1 \<noteq> 0"

definition ps_is_empty :: "permission_set \<Rightarrow> bool" where
  "ps_is_empty s \<longleftrightarrow> ps_bits s = 0"

definition count_ones :: "u8 \<Rightarrow> nat" where
  "count_ones w = length (filter (bit w) [0..<8])"

definition ps_len :: "permission_set \<Rightarrow> nat" where
  "ps_len s = count_ones (ps_bits s)"

definition ps_union :: "permission_set \<Rightarrow> permission_set \<Rightarrow> permission_set" where
  "ps_union a b = PermissionSet (ps_bits a OR ps_bits b)"

definition ps_intersection :: "permission_set \<Rightarrow> permission_set \<Rightarrow> permission_set" where
  "ps_intersection a b = PermissionSet (ps_bits a AND ps_bits b)"

definition trailing_zeros :: "u8 \<Rightarrow> nat" where
  "trailing_zeros w = length (takeWhile (\<lambda>i. \<not> bit w i) [0..<8])"

text \<open>The iterator clears the lowest bit with \<open>bits & (bits - 1)\<close> until none is left.\<close>

lemma clear_lowest_less: "(w :: 'n::len word) \<noteq> 0 \<Longrightarrow> unat (w AND (w - 1)) < unat w"
proof -
  assume "w \<noteq> 0"
  then have "unat (w - 1) < unat w" by (simp add: unat_minus_one unat_gt_0)
  moreover have "unat (w AND (w - 1)) \<le> unat (w - 1)" using word_and_le1 [of w "w - 1"] by (simp add: word_le_nat_alt)
  ultimately show ?thesis by simp
qed

function ps_iter_bits :: "u8 \<Rightarrow> permission list" where
  "ps_iter_bits bits =
     (if bits = 0 then [] else permission_from_bit (trailing_zeros bits) # ps_iter_bits (bits AND (bits - 1)))"
  by pat_completeness auto
termination by (relation "measure unat") (simp_all add: clear_lowest_less)

declare ps_iter_bits.simps [simp del]

definition ps_iter :: "permission_set \<Rightarrow> permission list" where
  "ps_iter s = ps_iter_bits (ps_bits s)"

definition ps_from_iter :: "permission list \<Rightarrow> permission_set" where
  "ps_from_iter ps = foldl (\<lambda>out p. ps_insert p out) ps_empty ps"

text \<open>
  The bits stand for a set of permissions, and the operations for those on sets. The upper
  four bits of the byte have no permission; \<open>ps_valid\<close> is their absence.
\<close>

definition ps_set :: "permission_set \<Rightarrow> permission set" where
  "ps_set s = {p. bit (ps_bits s) (permission_bit p)}"

definition ps_valid :: "permission_set \<Rightarrow> bool" where
  "ps_valid s \<longleftrightarrow> ps_bits s < 16"

lemma bit_permission:
  "bit (push_bit (permission_bit p) 1 :: u8) n \<longleftrightarrow> n = permission_bit p"
  "bit (2 ^ permission_bit p :: u8) n \<longleftrightarrow> n = permission_bit p"
proof -
  have "permission_bit p < 8" by (cases p) (simp_all add: permission_bit_def)
  then show "bit (2 ^ permission_bit p :: u8) n \<longleftrightarrow> n = permission_bit p"
    by (auto simp: bit_exp_iff)
  then show "bit (push_bit (permission_bit p) 1 :: u8) n \<longleftrightarrow> n = permission_bit p" by simp
qed

lemma permission_bit_inject: "permission_bit p = permission_bit q \<longleftrightarrow> p = q"
  by (cases p; cases q) (simp_all add: permission_bit_def)

lemma ps_contains_iff: "ps_contains s p \<longleftrightarrow> p \<in> ps_set s"
proof -
  have "ps_bits s AND push_bit (permission_bit p) 1 = 0 \<longleftrightarrow> \<not> bit (ps_bits s) (permission_bit p)"
  proof -
    have "w = 0 \<longleftrightarrow> (\<forall>n. \<not> bit w n)" for w :: u8
      by (auto intro: bit_word_eqI)
    then show ?thesis by (auto simp: bit_and_iff bit_permission)
  qed
  then show ?thesis by (simp add: ps_contains_def ps_set_def)
qed

lemma ps_set_ops:
  "ps_set ps_empty = {}" "ps_set (ps_single p) = {p}" "ps_set (ps_insert p s) = insert p (ps_set s)"
  "ps_set (ps_remove p s) = ps_set s - {p}" "ps_set (ps_union s t) = ps_set s \<union> ps_set t"
  "ps_set (ps_intersection s t) = ps_set s \<inter> ps_set t"
proof -
  have small: "permission_bit q < 8" for q by (cases q) (simp_all add: permission_bit_def)
  show "ps_set ps_empty = {}" "ps_set (ps_single p) = {p}" "ps_set (ps_insert p s) = insert p (ps_set s)"
    "ps_set (ps_remove p s) = ps_set s - {p}" "ps_set (ps_union s t) = ps_set s \<union> ps_set t"
    "ps_set (ps_intersection s t) = ps_set s \<inter> ps_set t"
    using small
    by (auto simp: ps_set_def ps_empty_def ps_single_def ps_insert_def ps_remove_def ps_union_def ps_intersection_def
        bit_or_iff bit_and_iff bit_not_iff bit_permission permission_bit_inject)
qed

text \<open>What a client of a set of values relies on, and what it builds from it.\<close>

locale set_value =
  fixes abs :: "'s \<Rightarrow> 'a set"
    and emp :: 's
    and ins :: "'a \<Rightarrow> 's \<Rightarrow> 's"
    and mem :: "'s \<Rightarrow> 'a \<Rightarrow> bool"
  assumes abs_emp: "abs emp = {}"
    and abs_ins: "abs (ins x s) = insert x (abs s)"
    and mem_abs: "mem s x \<longleftrightarrow> x \<in> abs s"
begin

lemma abs_collect: "abs (foldl (\<lambda>out x. ins x out) s xs) = abs s \<union> set xs"
  by (induction xs arbitrary: s) (auto simp: abs_ins)

lemma mem_collect: "mem (foldl (\<lambda>out x. ins x out) emp xs) x \<longleftrightarrow> x \<in> set xs"
  by (simp add: mem_abs abs_collect abs_emp)

end

interpretation perms: set_value ps_set ps_empty ps_insert ps_contains
  by unfold_locales (simp_all add: ps_set_ops ps_contains_iff)

lemma ps_from_iter_set: "ps_set (ps_from_iter xs) = set xs"
  by (simp add: ps_from_iter_def perms.abs_collect ps_set_ops)

lemma ps_valid_cases: "ps_valid s \<Longrightarrow> s \<in> set (map (\<lambda>n. PermissionSet (word_of_nat n)) [0..<16])"
proof -
  assume "ps_valid s"
  then have "unat (ps_bits s) < 16" by (simp add: ps_valid_def word_less_nat_alt)
  moreover have "s = PermissionSet (word_of_nat (unat (ps_bits s)))" by (cases s) simp
  ultimately show ?thesis by (metis atLeastLessThan_iff image_eqI le0 list.set_map set_upt)
qed

text \<open>Iteration visits every permission of the set once, in the order of the enumeration.\<close>

lemma ps_iter_filter:
  assumes "ps_valid s"
  shows "ps_iter s = filter (ps_contains s) [PermFile, PermDatabase, PermMail, PermCron]"
proof -
  have "\<forall>s \<in> set (map (\<lambda>n. PermissionSet (word_of_nat n)) [0..<16]).
      ps_iter s = filter (ps_contains s) [PermFile, PermDatabase, PermMail, PermCron]"
    by code_simp
  then show ?thesis using ps_valid_cases [OF assms] by blast
qed

lemma ps_len_iter: "ps_valid s \<Longrightarrow> ps_len s = length (ps_iter s)"
proof -
  have "\<forall>s \<in> set (map (\<lambda>n. PermissionSet (word_of_nat n)) [0..<16]). ps_len s = length (ps_iter s)"
    by code_simp
  then show "ps_valid s \<Longrightarrow> ?thesis" using ps_valid_cases by blast
qed

lemma ps_iter_set:
  assumes "ps_valid s"
  shows "set (ps_iter s) = ps_set s" and "distinct (ps_iter s)"
proof -
  have all: "set [PermFile, PermDatabase, PermMail, PermCron] = UNIV"
    using permission.exhaust by auto
  show "set (ps_iter s) = ps_set s"
    unfolding ps_iter_filter [OF assms] set_filter all by (simp add: ps_contains_iff)
  show "distinct (ps_iter s)" by (simp add: ps_iter_filter [OF assms])
qed

text \<open>A byte with an upper bit: the iterator reports the file permission for it.\<close>

lemma ps_iter_upper: "ps_iter (PermissionSet 0x10) = [PermFile] \<and> \<not> ps_contains (PermissionSet 0x10) PermFile"
  by code_simp

section \<open>Collaborators and grants\<close>

datatype collab_status = CollabInvited | CollabActive | CollabRevoked

definition collab_status_as_str :: "collab_status \<Rightarrow> string" where
  "collab_status_as_str s =
     (case s of CollabInvited \<Rightarrow> ''invited'' | CollabActive \<Rightarrow> ''active'' | CollabRevoked \<Rightarrow> ''revoked'')"

record collaborator =
  co_collaborator_id :: uuid
  co_account_id :: uuid
  co_email :: email
  co_status :: collab_status
  co_invited_at :: instant
  co_accepted_at :: "instant option"
  co_revoked_at :: "instant option"

definition collaborator_new_invited :: "uuid \<Rightarrow> uuid \<Rightarrow> email \<Rightarrow> instant \<Rightarrow> collaborator" where
  "collaborator_new_invited i account email now =
     \<lparr>co_collaborator_id = i, co_account_id = account, co_email = email, co_status = CollabInvited,
      co_invited_at = now, co_accepted_at = None, co_revoked_at = None\<rparr>"

definition collaborator_accept :: "instant \<Rightarrow> collaborator \<Rightarrow> collaborator" where
  "collaborator_accept now c = c\<lparr>co_status := CollabActive, co_accepted_at := Some now\<rparr>"

definition collaborator_revoke :: "instant \<Rightarrow> collaborator \<Rightarrow> collaborator" where
  "collaborator_revoke now c = c\<lparr>co_status := CollabRevoked, co_revoked_at := Some now\<rparr>"

definition collaborator_is_active :: "collaborator \<Rightarrow> bool" where
  "collaborator_is_active c \<longleftrightarrow> co_status c = CollabActive"

record site_grant =
  sg_collaborator_id :: uuid
  sg_site_id :: uuid
  sg_permissions :: permission_set
  sg_granted_at :: instant

definition site_grant_new :: "uuid \<Rightarrow> uuid \<Rightarrow> permission_set \<Rightarrow> instant \<Rightarrow> site_grant" where
  "site_grant_new c site perms now =
     \<lparr>sg_collaborator_id = c, sg_site_id = site, sg_permissions = perms, sg_granted_at = now\<rparr>"

definition site_grant_allows :: "site_grant \<Rightarrow> permission \<Rightarrow> bool" where
  "site_grant_allows g p \<longleftrightarrow> ps_contains (sg_permissions g) p"

end
