(* ===== verification/Collaborator_Service.thy ===== *)
theory Collaborator_Service
  imports Hierarchy_Service Collaborator_Domain
begin

text \<open>
  Collaborators and site grants: the SQLite adapters of \<open>openpanel-app/src/collaborators/repo.rs\<close>
  and \<open>CollaboratorService\<close> with \<open>GrantResolver\<close> of \<open>service.rs\<close>.
\<close>

section \<open>Rows\<close>

definition parse_collab_status :: "string \<Rightarrow> string + collab_status" where
  "parse_collab_status s =
     (if s = ''invited'' then Inr CollabInvited
      else if s = ''active'' then Inr CollabActive
      else if s = ''revoked'' then Inr CollabRevoked
      else Inl (''unknown collaborator status `'' @ s @ ''`''))"

definition collab_status_str :: "collab_status \<Rightarrow> string" where
  "collab_status_str s =
     (case s of CollabInvited \<Rightarrow> ''invited'' | CollabActive \<Rightarrow> ''active'' | CollabRevoked \<Rightarrow> ''revoked'')"

interpretation collab_status_codec: string_codec collab_status_str parse_collab_status
proof
  fix v s
  show "parse_collab_status (collab_status_str v) = Inr v"
    by (cases v) (simp_all add: parse_collab_status_def collab_status_str_def)
  show "parse_collab_status s = Inr v \<Longrightarrow> collab_status_str v = s"
    by (auto simp: parse_collab_status_def collab_status_str_def split: if_splits)
qed

definition collaborator_to_row :: "collaborator \<Rightarrow> collaborator_row" where
  "collaborator_to_row c =
     \<lparr>cor_collaborator_id = co_collaborator_id c, cor_account_id = co_account_id c,
      cor_email = email_as_str (co_email c), cor_status = collab_status_str (co_status c),
      cor_invited_at = co_invited_at c, cor_accepted_at = co_accepted_at c, cor_revoked_at = co_revoked_at c\<rparr>"

definition row_to_collaborator :: "collaborator_row \<Rightarrow> string + collaborator" where
  "row_to_collaborator r =
     rbind (map_err domain_error_display (email_new (cor_email r))) (\<lambda>email.
     rbind (parse_collab_status (cor_status r)) (\<lambda>status.
       Inr \<lparr>co_collaborator_id = cor_collaborator_id r, co_account_id = cor_account_id r, co_email = email,
         co_status = status, co_invited_at = cor_invited_at r, co_accepted_at = cor_accepted_at r,
         co_revoked_at = cor_revoked_at r\<rparr>))"

interpretation collaborator_codec: row_codec collaborator_to_row row_to_collaborator "\<lambda>c. email_wf (co_email c)"
  by unfold_locales
     (simp add: row_to_collaborator_def collaborator_to_row_def email_vo.new_as_str collab_status_codec.dec_enc)

definition grant_to_row :: "site_grant \<Rightarrow> site_grant_row" where
  "grant_to_row g =
     \<lparr>sgr_collaborator_id = sg_collaborator_id g, sgr_site_id = sg_site_id g,
      sgr_permissions = uint (ps_bits (sg_permissions g)), sgr_granted_at = sg_granted_at g\<rparr>"

text \<open>Reading masks the four bits that have a meaning.\<close>

definition row_to_grant :: "site_grant_row \<Rightarrow> string + site_grant" where
  "row_to_grant r =
     Inr \<lparr>sg_collaborator_id = sgr_collaborator_id r, sg_site_id = sgr_site_id r,
       sg_permissions = PermissionSet (word_of_int (sgr_permissions r) AND 0x0F), sg_granted_at = sgr_granted_at r\<rparr>"

lemma and_0x0F: "(w :: u8) < 16 \<Longrightarrow> w AND 0x0F = w"
proof -
  assume "w < 16"
  then have "take_bit 4 w = w"
    by (simp add: word_unat_eq_iff unsigned_take_bit_eq word_less_nat_alt take_bit_nat_eq_self)
  then show ?thesis by (simp add: take_bit_eq_mask mask_eq_exp_minus_1)
qed

interpretation grant_codec: row_codec grant_to_row row_to_grant "\<lambda>g. ps_valid (sg_permissions g)"
proof
  fix g :: site_grant assume "ps_valid (sg_permissions g)"
  then have "PermissionSet (ps_bits (sg_permissions g) AND 0x0F) = sg_permissions g"
    by (cases "sg_permissions g") (simp add: ps_valid_def and_0x0F)
  then show "row_to_grant (grant_to_row g) = Inr g"
    by (simp add: row_to_grant_def grant_to_row_def)
qed

section \<open>Statements\<close>

definition collaborators_insert :: "env \<Rightarrow> collaborator \<Rightarrow> unit repo" where
  "collaborators_insert env c =
     sql_write env (\<lambda>_. True)
       (\<lambda>s. s\<lparr>db_collaborators :=
          delete_where (\<lambda>r. cor_collaborator_id r = co_collaborator_id c) (db_collaborators s) @
          [collaborator_to_row c]\<rparr>)"

definition collaborators_find :: "env \<Rightarrow> uuid \<Rightarrow> collaborator option repo" where
  "collaborators_find env i =
     sbind (sql_read env (\<lambda>s. find (\<lambda>r. cor_collaborator_id r = i) (db_collaborators s)))
       (\<lambda>row. slift (transpose_opt (map_option row_to_collaborator row)))"

definition collaborators_update_status :: "env \<Rightarrow> uuid \<Rightarrow> collaborator \<Rightarrow> unit repo" where
  "collaborators_update_status env i c =
     sbind (sql_count env (\<lambda>s. length (filter (\<lambda>r. cor_collaborator_id r = i) (db_collaborators s)))
       (\<lambda>s. s\<lparr>db_collaborators := update_where (\<lambda>r. cor_collaborator_id r = i)
          (\<lambda>r. r\<lparr>cor_status := collab_status_str (co_status c), cor_accepted_at := co_accepted_at c,
                 cor_revoked_at := co_revoked_at c\<rparr>) (db_collaborators s)\<rparr>)) (\<lambda>n.
     if n = 0 then sfail (''collaborator '' @ env_uuid_str env i @ '' not found'') else sret ())"

definition collaborators_list_for_account :: "env \<Rightarrow> uuid \<Rightarrow> collaborator list repo" where
  "collaborators_list_for_account env account =
     sbind (sql_read env (\<lambda>s. sort_key cor_invited_at
         (filter (\<lambda>r. cor_account_id r = account) (db_collaborators s))))
       (\<lambda>rows. slift (collect_results row_to_collaborator rows))"

definition grant_at :: "uuid \<Rightarrow> uuid \<Rightarrow> site_grant_row \<Rightarrow> bool" where
  "grant_at c site r \<longleftrightarrow> sgr_collaborator_id r = c \<and> sgr_site_id r = site"

text \<open>\<open>CHECK (permissions >= 0 AND permissions <= 15)\<close> is a constraint of the table.\<close>

definition grants_insert :: "env \<Rightarrow> site_grant \<Rightarrow> unit repo" where
  "grants_insert env g =
     sql_write env (\<lambda>_. sgr_permissions (grant_to_row g) \<le> 15)
       (\<lambda>s. s\<lparr>db_grants := delete_where (grant_at (sg_collaborator_id g) (sg_site_id g)) (db_grants s) @
          [grant_to_row g]\<rparr>)"

definition grants_delete :: "env \<Rightarrow> uuid \<Rightarrow> uuid \<Rightarrow> unit repo" where
  "grants_delete env c site =
     sql_write env (\<lambda>_. True) (\<lambda>s. s\<lparr>db_grants := delete_where (grant_at c site) (db_grants s)\<rparr>)"

definition grants_update_permissions :: "env \<Rightarrow> uuid \<Rightarrow> uuid \<Rightarrow> permission_set \<Rightarrow> unit repo" where
  "grants_update_permissions env c site perms =
     sbind (sql_update env
       (\<lambda>s. list_ex (grant_at c site) (db_grants s) \<longrightarrow> uint (ps_bits perms) \<le> 15)
       (\<lambda>s. length (filter (grant_at c site) (db_grants s)))
       (\<lambda>s. s\<lparr>db_grants := update_where (grant_at c site)
          (\<lambda>r. r\<lparr>sgr_permissions := uint (ps_bits perms)\<rparr>) (db_grants s)\<rparr>)) (\<lambda>n.
     if n = 0
     then sfail (''site grant missing for collaborator '' @ env_uuid_str env c @ '' on site '' @ env_uuid_str env site)
     else sret ())"

definition grants_find :: "env \<Rightarrow> uuid \<Rightarrow> uuid \<Rightarrow> site_grant option repo" where
  "grants_find env c site =
     sbind (sql_read env (\<lambda>s. find (grant_at c site) (db_grants s)))
       (\<lambda>row. slift (transpose_opt (map_option row_to_grant row)))"

definition grants_list_for_collaborator :: "env \<Rightarrow> uuid \<Rightarrow> site_grant list repo" where
  "grants_list_for_collaborator env c =
     sbind (sql_read env (\<lambda>s. sort_key sgr_granted_at (filter (\<lambda>r. sgr_collaborator_id r = c) (db_grants s))))
       (\<lambda>rows. slift (collect_results row_to_grant rows))"

definition grants_list_for_site :: "env \<Rightarrow> uuid \<Rightarrow> site_grant list repo" where
  "grants_list_for_site env site =
     sbind (sql_read env (\<lambda>s. sort_key sgr_granted_at (filter (\<lambda>r. sgr_site_id r = site) (db_grants s))))
       (\<lambda>rows. slift (collect_results row_to_grant rows))"

section \<open>The service\<close>

record invite_request =
  ir_email :: string
  ir_site_id :: uuid
  ir_permissions :: permission_set

datatype invite_error = InviteDomain collaborator_error | InvitePersistence string

type_synonym 'a ccall = "(invite_error, 'a) call"

definition c_repo :: "'a repo \<Rightarrow> 'a ccall" where
  "c_repo m = smap_err InvitePersistence m"

definition c_audit :: "env \<Rightarrow> audit_event \<Rightarrow> unit ccall" where
  "c_audit env e = signore (audit_record env e)"

definition grant_missing :: "env \<Rightarrow> uuid \<Rightarrow> uuid \<Rightarrow> invite_error" where
  "grant_missing env c site = InviteDomain (GrantMissing (env_uuid_str env c) (env_uuid_str env site))"

definition grants_resolve :: "env \<Rightarrow> uuid \<Rightarrow> uuid \<Rightarrow> permission_set ccall" where
  "grants_resolve env c site =
     sbind (c_repo (grants_find env c site)) (\<lambda>found.
     sbind (slift (ok_or (grant_missing env c site) found)) (\<lambda>grant.
       sret (sg_permissions grant)))"

definition grants_allow :: "env \<Rightarrow> uuid \<Rightarrow> uuid \<Rightarrow> permission \<Rightarrow> bool ccall" where
  "grants_allow env c site p =
     sbind (grants_resolve env c site) (\<lambda>perms. sret (ps_contains perms p))"

definition scopes_json :: "permission_set \<Rightarrow> json" where
  "scopes_json perms = JArray (map (\<lambda>p. JString (permission_as_str p)) (ps_iter perms))"

definition invite :: "env \<Rightarrow> uuid \<Rightarrow> instant \<Rightarrow> uuid \<Rightarrow> invite_request \<Rightarrow> string \<Rightarrow> collaborator ccall" where
  "invite env i now account_id request actor =
     sbind (slift (map_err (\<lambda>_. InviteDomain (ScopeNotAllowed ''invalid email'')) (email_new (ir_email request)))) (\<lambda>email.
     if ps_is_empty (ir_permissions request) then sfail (InviteDomain (ScopeNotAllowed ''empty permission set''))
     else
     (let collaborator = collaborator_new_invited i account_id email now in
     sbind (c_repo (collaborators_insert env collaborator)) (\<lambda>_.
     sbind (c_repo (grants_insert env (site_grant_new i (ir_site_id request) (ir_permissions request) now))) (\<lambda>_.
     sbind (c_audit env (with_metadata
         (JObject [(''scopes'', scopes_json (ir_permissions request)), (''site'', id_json env (ir_site_id request))])
         (audit_event_new now actor (OtherAction ''collaborator_invited'') Success))) (\<lambda>_.
       sret collaborator)))))"

definition update_grant_permissions ::
    "env \<Rightarrow> instant \<Rightarrow> uuid \<Rightarrow> uuid \<Rightarrow> permission_set \<Rightarrow> string \<Rightarrow> site_grant ccall" where
  "update_grant_permissions env now c site perms actor =
     sbind (c_repo (grants_update_permissions env c site perms)) (\<lambda>_.
     sbind (c_repo (grants_find env c site)) (\<lambda>found.
     sbind (slift (ok_or (grant_missing env c site) found)) (\<lambda>grant.
     sbind (c_audit env (with_metadata
         (JObject [(''scopes'', scopes_json (sg_permissions grant)), (''site'', id_json env site)])
         (audit_event_new now actor (OtherAction ''collaborator_updated'') Success))) (\<lambda>_.
       sret grant))))"

definition revoke_collaborator :: "env \<Rightarrow> instant \<Rightarrow> uuid \<Rightarrow> uuid \<Rightarrow> string \<Rightarrow> unit ccall" where
  "revoke_collaborator env now c site actor =
     sbind (c_repo (grants_delete env c site)) (\<lambda>_.
     sbind (c_repo (collaborators_find env c)) (\<lambda>found.
     sbind (case found of
         None \<Rightarrow> sret ()
       | Some co \<Rightarrow>
           sbind (c_repo (grants_list_for_collaborator env c)) (\<lambda>remaining.
           if length remaining = 0
           then c_repo (collaborators_update_status env c (collaborator_revoke now co))
           else sret ())) (\<lambda>_.
       c_audit env (with_metadata (JObject [(''site'', id_json env site)])
         (audit_event_new now actor (OtherAction ''collaborator_revoked'') Success)))))"

definition find_collaborator :: "env \<Rightarrow> uuid \<Rightarrow> collaborator option ccall" where
  "find_collaborator env i = c_repo (collaborators_find env i)"

definition collaborators_of_account :: "env \<Rightarrow> uuid \<Rightarrow> collaborator list ccall" where
  "collaborators_of_account env account = c_repo (collaborators_list_for_account env account)"

definition grants_for_site :: "env \<Rightarrow> uuid \<Rightarrow> site_grant list ccall" where
  "grants_for_site env site = c_repo (grants_list_for_site env site)"

section \<open>Invariants\<close>

text \<open>What an invariant has to allow for the collaborator operations to keep it.\<close>

locale collaborators_invariant = store_invariant P for P +
  assumes put_collaborator: "P s \<Longrightarrow> email_wf (co_email c) \<Longrightarrow>
      P (s\<lparr>db_collaborators := delete_where (\<lambda>r. cor_collaborator_id r = co_collaborator_id c) (db_collaborators s) @
          [collaborator_to_row c]\<rparr>)"
    and change_status: "P s \<Longrightarrow> P (s\<lparr>db_collaborators := update_where (\<lambda>r. cor_collaborator_id r = i)
          (\<lambda>r. r\<lparr>cor_status := collab_status_str st, cor_accepted_at := a, cor_revoked_at := b\<rparr>) (db_collaborators s)\<rparr>)"
    and put_grant: "P s \<Longrightarrow> sgr_permissions (grant_to_row g) \<le> 15 \<Longrightarrow>
      P (s\<lparr>db_grants := delete_where (grant_at (sg_collaborator_id g) (sg_site_id g)) (db_grants s) @ [grant_to_row g]\<rparr>)"
    and change_grant: "P s \<Longrightarrow> (list_ex (grant_at ci site) (db_grants s) \<Longrightarrow> uint (n :: u8) \<le> 15) \<Longrightarrow>
      P (s\<lparr>db_grants := update_where (grant_at ci site) (\<lambda>r. r\<lparr>sgr_permissions := uint n\<rparr>) (db_grants s)\<rparr>)"
    and drop_grant: "P s \<Longrightarrow> P (s\<lparr>db_grants := delete_where (grant_at ci site) (db_grants s)\<rparr>)"
begin

lemma keeps_c_wrappers [keeps_intros]:
  "keeps P m \<Longrightarrow> keeps P (c_repo m)" "keeps P (c_audit env e)"
  unfolding c_repo_def c_audit_def by (intro keeps_intros keeps_audit_record; assumption)+

lemma keeps_collaborator_reads [keeps_intros]:
  "keeps P (collaborators_find env i)" "keeps P (collaborators_list_for_account env i)" "keeps P (grants_find env c i)"
  "keeps P (grants_list_for_collaborator env c)" "keeps P (grants_list_for_site env i)"
  unfolding collaborators_find_def collaborators_list_for_account_def grants_find_def grants_list_for_collaborator_def
    grants_list_for_site_def
  by (intro keeps_intros tickless_P)+

lemma keeps_collaborator_writes [keeps_intros]:
  "email_wf (co_email co) \<Longrightarrow> keeps P (collaborators_insert env co)"
  "keeps P (collaborators_update_status env i co')" "keeps P (grants_insert env g)" "keeps P (grants_delete env c site)"
  "keeps P (grants_update_permissions env c site ps)"
  unfolding collaborators_insert_def collaborators_update_status_def grants_insert_def grants_delete_def
    grants_update_permissions_def
  by (intro keeps_intros keeps_write keeps_count keeps_sql_update tickless_P;
      simp add: put_collaborator change_status put_grant change_grant drop_grant)+

lemma keeps_invite: "keeps P (invite env i now account req actor)"
  unfolding invite_def
  by (intro keeps_slift_bind keeps_if keeps_let keeps_sbind keeps_combinators keeps_c_wrappers keeps_collaborator_writes)
     (auto simp: collaborator_new_invited_def dest: email_vo.new_valid)

lemma keeps_collaborator_ops:
  "keeps P (update_grant_permissions env now c site ps actor)" "keeps P (revoke_collaborator env now c site actor)"
  "keeps P (grants_resolve env c site)" "keeps P (grants_allow env c site p)"
  unfolding update_grant_permissions_def revoke_collaborator_def grants_allow_def grants_resolve_def
  by (intro keeps_intros)+

end

definition grants_ok :: "collaborator_row list \<Rightarrow> site_grant_row list \<Rightarrow> bool" where
  "grants_ok cs gs \<longleftrightarrow>
     distinct (map cor_collaborator_id cs) \<and>
     list_all (\<lambda>r. \<not> isl (row_to_collaborator r)) cs \<and>
     distinct (map (\<lambda>r. (sgr_collaborator_id r, sgr_site_id r)) gs) \<and>
     list_all (\<lambda>r. 0 \<le> sgr_permissions r \<and> sgr_permissions r \<le> 15) gs"

lemma collaborator_row_ok:
  "email_wf (co_email c) \<Longrightarrow> \<not> isl (row_to_collaborator (collaborator_to_row c))"
  "\<not> isl (row_to_collaborator r) \<Longrightarrow>
     \<not> isl (row_to_collaborator (r\<lparr>cor_status := collab_status_str st, cor_accepted_at := a, cor_revoked_at := b\<rparr>))"
  by (simp add: collaborator_codec.roundtrip)
     (auto simp: row_to_collaborator_def collab_status_codec.dec_enc rbind_def map_err_def split: sum.splits)

lemma collaborators_invariant_join:
  assumes p: "store_invariant P" and free: "\<And>s x. P (s\<lparr>db_collaborators := x\<rparr>) = P s" "\<And>s x. P (s\<lparr>db_grants := x\<rparr>) = P s"
  shows "collaborators_invariant (\<lambda>s. P s \<and> grants_ok (db_collaborators s) (db_grants s))"
proof unfold_locales
  show "tickless (\<lambda>s. P s \<and> grants_ok (db_collaborators s) (db_grants s))"
    using store_invariant.tickless_P [OF p] by (simp add: tickless_def)
  show "(P (s\<lparr>db_audit := l\<rparr>) \<and> grants_ok (db_collaborators (s\<lparr>db_audit := l\<rparr>)) (db_grants (s\<lparr>db_audit := l\<rparr>))) =
      (P s \<and> grants_ok (db_collaborators s) (db_grants s))" for s l
    by (simp add: store_invariant.audit_free [OF p])
next
  fix s and c :: collaborator assume "P s \<and> grants_ok (db_collaborators s) (db_grants s)" "email_wf (co_email c)"
  then show "P (s\<lparr>db_collaborators := delete_where (\<lambda>r. cor_collaborator_id r = co_collaborator_id c) (db_collaborators s) @
          [collaborator_to_row c]\<rparr>) \<and> grants_ok (db_collaborators (s\<lparr>db_collaborators :=
          delete_where (\<lambda>r. cor_collaborator_id r = co_collaborator_id c) (db_collaborators s) @ [collaborator_to_row c]\<rparr>))
        (db_grants (s\<lparr>db_collaborators := delete_where (\<lambda>r. cor_collaborator_id r = co_collaborator_id c) (db_collaborators s) @
          [collaborator_to_row c]\<rparr>))"
    using collaborator_row_ok(1) [of c]
    by (auto simp: free grants_ok_def list_all_iff collaborator_to_row_def intro: distinct_map_delete_where)
qed (auto simp: free grants_ok_def list_all_iff map_update_where grant_to_row_def grant_at_def list_ex_iff
       intro!: distinct_map_delete_where elim!: update_where_cases, use collaborator_row_ok(2) in blast, blast)

section \<open>What each operation does\<close>

lemma c_repo_outcome [st_invert]:
  "c_repo m s = (Inr x, t) \<longleftrightarrow> m s = (Inr x, t)"
  "c_repo m s = (Inl e, t) \<longleftrightarrow> (\<exists>d. m s = (Inl d, t) \<and> e = InvitePersistence d)"
  by (simp_all add: c_repo_def st_invert)

lemma c_audit_outcome [st_invert]:
  "c_audit env e s = (r, t) \<longleftrightarrow> r = Inr () \<and> t = snd (audit_record env e s)"
  by (auto simp: c_audit_def)

lemma audit_record_collaborators [simp]:
  "db_collaborators (snd (audit_record env e s)) = db_collaborators s" "db_grants (snd (audit_record env e s)) = db_grants s"
  using audit_record_frame [of env e s] by (metis (no_types, lifting) db.simps db.surjective prod.collapse tick_fields)+

lemma grants_find_Inr [st_invert]:
  "grants_find env c site s = (Inr x, t) \<longleftrightarrow> env_fault env (db_tick s) = None \<and> t = tick s \<and>
     (case find (grant_at c site) (db_grants s) of None \<Rightarrow> x = None | Some r \<Rightarrow> x = Some (projr (row_to_grant r)))"
  by (cases "find (grant_at c site) (db_grants s)"; cases x) (auto simp: grants_find_def st_invert row_to_grant_def)

lemma invite_Inr:
  assumes "invite env i now account req actor s = (Inr co, t)"
  shows "email_new (ir_email req) = Inr (co_email co)" and "co_collaborator_id co = i" and "co_status co = CollabInvited"
    and "ps_bits (ir_permissions req) \<noteq> 0" and "ps_valid (ir_permissions req)"
    and "db_grants t = delete_where (grant_at i (ir_site_id req)) (db_grants s) @
      [grant_to_row (site_grant_new i (ir_site_id req) (ir_permissions req) now)]"
    and "db_collaborators t = delete_where (\<lambda>r. cor_collaborator_id r = i) (db_collaborators s) @ [collaborator_to_row co]"
  using assms
  by (auto simp: invite_def st_invert Let_def collaborators_insert_def grants_insert_def collaborator_new_invited_def
      site_grant_new_def grant_to_row_def ps_is_empty_def ps_valid_def word_less_def split: if_splits)

lemma find_after_put:
  "find (grant_at c site) (delete_where (grant_at c site) rows @ [r]) = (if grant_at c site r then Some r else None)"
  "find (grant_at c site) (delete_where (grant_at c site) rows) = None"
  by (induction rows) auto

text \<open>The permissions that are resolved are those of the stored grant, whatever the state of its holder.\<close>

lemma grants_allow_run:
  assumes "env_fault env (db_tick s) = None"
  shows "grants_allow env c site p s =
     (case find (grant_at c site) (db_grants s) of
        None \<Rightarrow> (Inl (grant_missing env c site), tick s)
      | Some r \<Rightarrow> (Inr (p \<in> ps_set (PermissionSet (word_of_int (sgr_permissions r) AND 0x0F))), tick s))"
  using assms
  by (auto simp: grants_allow_def grants_resolve_def grants_find_def sbind_def c_repo_def smap_err_def sql_read_def
      row_to_grant_def ps_contains_iff split: option.splits)

lemma invited_may_act:
  assumes "invite env i now account req actor s = (Inr co, t)" and "env_fault env (db_tick t) = None"
  shows "grants_allow env i (ir_site_id req) p t = (Inr (p \<in> ps_set (ir_permissions req)), tick t)"
proof -
  note run = invite_Inr [OF assms(1)]
  have "ps_bits (ir_permissions req) AND 0x0F = ps_bits (ir_permissions req)"
    using run(5) by (intro and_0x0F) (simp add: ps_valid_def)
  then have "PermissionSet (ps_bits (ir_permissions req) AND 0x0F) = ir_permissions req"
    by (cases "ir_permissions req") simp
  then show ?thesis
    unfolding grants_allow_run [OF assms(2)] run(6) find_after_put
    by (simp add: grant_to_row_def site_grant_new_def grant_at_def)
qed

lemma revoke_collaborator_Inr:
  assumes "revoke_collaborator env now c site actor s = (Inr u, t)"
  shows "db_grants t = delete_where (grant_at c site) (db_grants s)"
    and "(\<forall>r \<in> set (db_grants t). sgr_collaborator_id r \<noteq> c) \<Longrightarrow>
      r \<in> set (db_collaborators t) \<Longrightarrow> cor_collaborator_id r = c \<Longrightarrow> cor_status r = ''revoked''"
    and "\<not> (\<forall>r \<in> set (db_grants t). sgr_collaborator_id r \<noteq> c) \<Longrightarrow> db_collaborators t = db_collaborators s"
proof -
  let ?gs = "delete_where (grant_at c site) (db_grants s)"
  let ?held = "filter (\<lambda>r. sgr_collaborator_id r = c) ?gs"
  have len: "length gs = length rows" if "collect_results row_to_grant rows = Inr gs" for rows gs
    using that by (simp add: collect_results_Inr list_all2_lengthD)
  have run: "db_grants t = ?gs \<and>
      (find (\<lambda>r. cor_collaborator_id r = c) (db_collaborators s) = None \<and> db_collaborators t = db_collaborators s \<or>
       ?held \<noteq> [] \<and> db_collaborators t = db_collaborators s \<or>
       ?held = [] \<and> (\<forall>r \<in> set (db_collaborators t). cor_collaborator_id r = c \<longrightarrow> cor_status r = ''revoked''))"
  proof -
    from assms obtain found s2 s3 where f: "collaborators_find env c (tick (s\<lparr>db_grants := ?gs\<rparr>)) = (Inr found, s2)"
      and step: "(case found of None \<Rightarrow> sret () | Some co \<Rightarrow>
           sbind (c_repo (grants_list_for_collaborator env c)) (\<lambda>remaining.
           if length remaining = 0 then c_repo (collaborators_update_status env c (collaborator_revoke now co))
           else sret ())) s2 = (Inr (), s3)"
      and t: "t = snd (audit_record env (with_metadata (JObject [(''site'', id_json env site)])
         (audit_event_new now actor (OtherAction ''collaborator_revoked'') Success)) s3)"
      by (auto simp: revoke_collaborator_def st_invert grants_delete_def)
    have s2: "db_grants s2 = ?gs" "db_collaborators s2 = db_collaborators s"
      and found: "found = None \<Longrightarrow> find (\<lambda>r. cor_collaborator_id r = c) (db_collaborators s) = None"
      using f by (auto simp: collaborators_find_def st_invert)
    show ?thesis
    proof (cases found)
      case None
      then show ?thesis using step found t s2 by simp
    next
      case (Some co)
      then obtain gs where gs: "collect_results row_to_grant (sort_key sgr_granted_at ?held) = Inr gs"
        and rest: "(if length gs = 0 then c_repo (collaborators_update_status env c (collaborator_revoke now co))
           else sret ()) (tick s2) = (Inr (), s3)"
        using step s2 by (auto simp: st_invert grants_list_for_collaborator_def)
      show ?thesis
      proof (cases "?held = []")
        case True
        then have "length gs = 0" using len [OF gs] by simp
        then have s3: "db_grants s3 = db_grants s2" "db_collaborators s3 = update_where (\<lambda>r. cor_collaborator_id r = c)
            (\<lambda>r. r\<lparr>cor_status := ''revoked'', cor_accepted_at := co_accepted_at co, cor_revoked_at := Some now\<rparr>)
            (db_collaborators s2)"
          using rest by (auto simp: collaborators_update_status_def st_invert collaborator_revoke_def
              collab_status_str_def split: if_splits)
        have "\<forall>r \<in> set (db_collaborators s3). cor_collaborator_id r = c \<longrightarrow> cor_status r = ''revoked''"
          unfolding s3(2) by (intro ballI impI, erule update_where_cases) simp_all
        then show ?thesis using True by (simp add: t s2(1) s3(1))
      next
        case False
        then have "gs \<noteq> []" using len [OF gs] by (metis length_0_conv length_sort)
        then have "s3 = tick s2" using rest by simp
        then show ?thesis using False s2 by (simp add: t)
      qed
    qed
  qed
  then show "db_grants t = ?gs" by blast
  have held: "(\<forall>r \<in> set (db_grants t). sgr_collaborator_id r \<noteq> c) \<longleftrightarrow> ?held = []"
    using run by (simp add: filter_empty_conv)
  show "cor_status r = ''revoked''" if "\<forall>r \<in> set (db_grants t). sgr_collaborator_id r \<noteq> c"
    "r \<in> set (db_collaborators t)" "cor_collaborator_id r = c"
    using run that held by (auto simp: find_None_iff)
  show "db_collaborators t = db_collaborators s" if "\<not> (\<forall>r \<in> set (db_grants t). sgr_collaborator_id r \<noteq> c)"
    using run that held by blast
qed

end
