(* ===== verification/Paths.thy ===== *)
theory Paths
  imports Token_Domain
begin

text \<open>
  The part of \<open>std::path\<close> and \<open>str\<close> that the file and cron components use, for Unix: the
  components of a path, absolute paths and prefixes of whole components.
\<close>

datatype path_component = RootDir | CurDir | ParentDir | Normal string

definition path_part :: "string \<Rightarrow> path_component" where
  "path_part p = (if p = ''..'' then ParentDir else Normal p)"

text \<open>Empty parts and inner dots vanish; a leading slash or a leading dot is a component.\<close>

definition components :: "string \<Rightarrow> path_component list" where
  "components s =
     (let parts = split_on CHR ''/'' s in
      (if hd parts = [] \<and> s \<noteq> [] then [RootDir] else if hd parts = ''.'' then [CurDir] else []) @
      map path_part (filter (\<lambda>p. p \<noteq> [] \<and> p \<noteq> ''.'') parts))"

definition is_absolute :: "string \<Rightarrow> bool" where
  "is_absolute s \<longleftrightarrow> (case s of c # _ \<Rightarrow> c = CHR ''/'' | [] \<Rightarrow> False)"

definition path_starts_with :: "string \<Rightarrow> string \<Rightarrow> bool" where
  "path_starts_with p root \<longleftrightarrow> take (length (components root)) (components p) = components root"

lemma components_root: "RootDir \<in> set (components s) \<longleftrightarrow> is_absolute s"
proof -
  have "RootDir \<notin> set (map path_part ps)" for ps by (auto simp: path_part_def)
  moreover have "hd (split_on CHR ''/'' s) = [] \<and> s \<noteq> [] \<longleftrightarrow> is_absolute s"
    using split_on_ne [of "CHR ''/''" "tl s"] by (cases s) (auto simp: is_absolute_def split: list.splits)
  ultimately show ?thesis by (auto simp: components_def Let_def)
qed

section \<open>Words\<close>

fun skip_word :: "string \<Rightarrow> string" where
  "skip_word (c # d # e # s) = (if ws1 c \<or> ws2 c d \<or> ws3 c d e then c # d # e # s else skip_word (d # e # s))"
| "skip_word [c, d] = (if ws1 c \<or> ws2 c d then [c, d] else skip_word [d])"
| "skip_word [c] = (if ws1 c then [c] else [])"
| "skip_word [] = []"

lemma length_skip_word: "length (skip_word s) \<le> length s"
  by (induction s rule: skip_word.induct) auto

lemma skip_word_less: "no_leading_ws ws2 ws3 s \<Longrightarrow> s \<noteq> [] \<Longrightarrow> length (skip_word s) < length s"
proof (cases s rule: skip_word.cases)
  case (1 c d e t)
  assume "no_leading_ws ws2 ws3 s"
  then show ?thesis using 1 length_skip_word [of "d # e # t"] by simp
qed (auto simp: le_imp_less_Suc)

text \<open>\<open>s.split_whitespace().count()\<close>\<close>

function word_count :: "string \<Rightarrow> nat" where
  "word_count s = (case trim_start s of [] \<Rightarrow> 0 | c # t \<Rightarrow> Suc (word_count (skip_word (c # t))))"
  by pat_completeness auto
termination
proof (relation "measure length")
  fix s t :: string and c assume "trim_start s = c # t"
  then have "length (skip_word (c # t)) < length (trim_start s)"
    using skip_word_less [OF trim_start_result [of s]] by simp
  moreover have "length (trim_start t) \<le> length t" for t by (induction t rule: trim_start.induct) auto
  ultimately show "(skip_word (c # t), s) \<in> measure length"
    by (simp add: less_le_trans)
qed simp

text \<open>Graphic characters belong to words, and a space ends one.\<close>

lemma graphic_no_ws: "is_ascii_graphic c \<Longrightarrow> \<not> ws1 c \<and> \<not> ws2 c d \<and> \<not> ws3 c d e"
  by (auto simp: is_ascii_graphic_def ws1_def ws2_def ws3_def)

lemma word_steps [simp]:
  "is_ascii_graphic c \<Longrightarrow> skip_word (c # s) = skip_word s" "skip_word (CHR '' '' # s) = CHR '' '' # s"
  "is_ascii_graphic c \<Longrightarrow> trim_start (c # s) = c # s" "trim_start (CHR '' '' # s) = trim_start s"
proof -
  have sp: "ws1 CHR '' ''" by (simp add: ws1_def)
  show "is_ascii_graphic c \<Longrightarrow> skip_word (c # s) = skip_word s" "is_ascii_graphic c \<Longrightarrow> trim_start (c # s) = c # s"
    by (cases "c # s" rule: skip_word.cases; simp add: graphic_no_ws)+
  show "skip_word (CHR '' '' # s) = CHR '' '' # s" "trim_start (CHR '' '' # s) = trim_start s"
    by (cases "CHR '' '' # s" rule: skip_word.cases; simp add: sp)+
qed

lemma skip_word_append: "list_all is_ascii_graphic w \<Longrightarrow> skip_word (w @ s) = skip_word s"
  by (induction w) simp_all

lemma nat_str_graphic: "list_all is_ascii_graphic (nat_str n)"
proof (induction n rule: nat_str.induct)
  case (1 n)
  have "is_ascii_graphic (char_of (48 + k))" if "k < 10" for k :: nat
    using that by (simp add: is_ascii_graphic_def)
  then show ?case using 1 by (cases "n < 10") (simp_all add: nat_str.simps [of n])
qed

declare word_count.simps [simp del]

lemma word_count_step:
  "word_count [] = 0" "word_count (CHR '' '' # s) = word_count s"
  "is_ascii_graphic c \<Longrightarrow> word_count (c # s) = Suc (word_count (skip_word s))"
  by (subst word_count.simps; simp; fail | subst (1 2) word_count.simps, simp)+

lemma graphic_chars:
  "is_ascii_graphic CHR ''*''" "is_ascii_graphic CHR ''/''" "is_ascii_graphic CHR ''0''" "is_ascii_graphic CHR ''1''"
  "is_ascii_graphic CHR ''2''"
  by (simp_all add: is_ascii_graphic_def)

lemmas word_rules = word_count_step word_steps graphic_chars skip_word_append nat_str_graphic

end
