(* ===== verification/Cron_Domain.thy ===== *)
theory Cron_Domain
  imports Paths Identity_Domain
begin

text \<open>
  \<open>openpanel-domain/src/cron\<close>: schedules, working directories, jobs and their runs
  (\<open>mod.rs\<close>), scopes and quotas (\<open>scope.rs\<close>), presets and chains (\<open>preset.rs\<close>). The \<open>cron\<close> and
  \<open>chrono_tz\<close> crates and Unicode case mapping are \<open>cron_lib\<close>; serde\_json is \<open>cron_json\<close>.
\<close>

datatype cron_error =
    InvalidSchedule string
  | InvalidTimezone string
  | InvalidWorkingDirectory
  | InvalidExecutable
  | InvalidJob string
  | RunTerminal
  | InvalidRunTransition

definition cron_error_display :: "cron_error \<Rightarrow> string" where
  "cron_error_display e =
     (case e of
        InvalidSchedule x \<Rightarrow> ''invalid cron schedule: '' @ x
      | InvalidTimezone x \<Rightarrow> ''unknown timezone: '' @ x
      | InvalidWorkingDirectory \<Rightarrow> ''invalid working directory''
      | InvalidExecutable \<Rightarrow> ''invalid executable''
      | InvalidJob x \<Rightarrow> ''invalid job: '' @ x
      | RunTerminal \<Rightarrow> ''run is already terminal''
      | InvalidRunTransition \<Rightarrow> ''invalid run transition'')"

section \<open>Schedules\<close>

text \<open>
  \<open>cl_timezone\<close> tells whether a name is a time zone, \<open>cl_schedule\<close> reads an expression with a
  field for the seconds, and \<open>cl_next\<close> is the first occurrence after an instant in a zone.
\<close>

record cron_lib =
  cl_timezone :: "string \<Rightarrow> bool"
  cl_schedule :: "string \<Rightarrow> string + unit"
  cl_next :: "string \<Rightarrow> string \<Rightarrow> instant \<Rightarrow> instant option"
  cl_to_uppercase :: "string \<Rightarrow> string"

definition cron_lib_contract :: "cron_lib \<Rightarrow> bool" where
  "cron_lib_contract lib \<longleftrightarrow> (\<forall>e tz after u. cl_next lib e tz after = Some u \<longrightarrow> after < u)"

record cron_schedule =
  cs_expression :: string
  cs_timezone :: string

definition schedule_parse :: "cron_lib \<Rightarrow> string \<Rightarrow> string \<Rightarrow> cron_error + cron_schedule" where
  "schedule_parse lib expression timezone =
     (if word_count expression \<noteq> 5 then Inl (InvalidSchedule expression)
      else if \<not> cl_timezone lib timezone then Inl (InvalidTimezone timezone)
      else rbind (map_err InvalidSchedule (cl_schedule lib (''0 '' @ expression))) (\<lambda>_.
        Inr \<lparr>cs_expression = expression, cs_timezone = timezone\<rparr>))"

definition next_after :: "cron_lib \<Rightarrow> cron_schedule \<Rightarrow> instant \<Rightarrow> cron_error + instant" where
  "next_after lib sch after =
     (if \<not> cl_timezone lib (cs_timezone sch) then Inl (InvalidTimezone (cs_timezone sch))
      else rbind (map_err InvalidSchedule (cl_schedule lib (''0 '' @ cs_expression sch))) (\<lambda>_.
        ok_or (InvalidSchedule ''schedule has no future occurrence'')
          (cl_next lib (''0 '' @ cs_expression sch) (cs_timezone sch) after)))"

definition schedule_wf :: "cron_lib \<Rightarrow> cron_schedule \<Rightarrow> bool" where
  "schedule_wf lib sch \<longleftrightarrow> word_count (cs_expression sch) = 5 \<and> cl_timezone lib (cs_timezone sch) \<and>
     \<not> isl (cl_schedule lib (''0 '' @ cs_expression sch))"

lemma schedule_parse_Inr:
  "schedule_parse lib e tz = Inr sch \<longleftrightarrow> sch = \<lparr>cs_expression = e, cs_timezone = tz\<rparr> \<and> schedule_wf lib sch"
  by (auto simp: schedule_parse_def schedule_wf_def rbind_def map_err_def split: sum.splits)

lemma next_after_later: "cron_lib_contract lib \<Longrightarrow> next_after lib sch t = Inr u \<Longrightarrow> t < u"
  by (auto simp: next_after_def cron_lib_contract_def ok_or_def rbind_def map_err_def
      split: if_splits sum.splits option.splits)

section \<open>Work\<close>

datatype owned_working_directory = OwnedWorkingDirectory (wd_path: string)

definition working_directory_new :: "string \<Rightarrow> string list \<Rightarrow> cron_error + owned_working_directory" where
  "working_directory_new path owned_roots =
     (if \<not> is_absolute path \<or> list_ex (\<lambda>part. part = ParentDir) (components path)
      then Inl InvalidWorkingDirectory
      else if \<not> list_ex (\<lambda>root. is_absolute root \<and> path_starts_with path root) owned_roots
      then Inl InvalidWorkingDirectory
      else Inr (OwnedWorkingDirectory path))"

datatype job_kind =
    Command (jk_executable: string) (jk_arguments: "string list") (jk_working_directory: owned_working_directory)
  | Http (jk_url: string) (jk_method: string)

definition job_command :: "string \<Rightarrow> string list \<Rightarrow> owned_working_directory \<Rightarrow> cron_error + job_kind" where
  "job_command executable arguments dir =
     (if \<not> is_absolute executable \<or> executable = [] then Inl InvalidExecutable
      else Inr (Command executable arguments dir))"

definition job_http :: "cron_lib \<Rightarrow> string \<Rightarrow> string \<Rightarrow> cron_error + job_kind" where
  "job_http lib url method =
     (if \<not> (starts_with ''http://'' url \<or> starts_with ''https://'' url)
      then Inl (InvalidJob ''HTTP URL must use http or https'')
      else Inr (Http url (cl_to_uppercase lib method)))"

text \<open>A directory that was accepted lies below one of the roots and does not climb.\<close>

definition kind_wf :: "string list \<Rightarrow> job_kind \<Rightarrow> bool" where
  "kind_wf roots k \<longleftrightarrow>
     (case k of
        Command executable args dir \<Rightarrow>
          is_absolute executable \<and> ParentDir \<notin> set (components (wd_path dir)) \<and>
          list_ex (\<lambda>root. is_absolute root \<and> path_starts_with (wd_path dir) root) roots
      | Http url method \<Rightarrow> starts_with ''http://'' url \<or> starts_with ''https://'' url)"

lemma path_starts_with_iff: "path_starts_with p root \<longleftrightarrow> (\<exists>rest. components p = components root @ rest)"
proof
  assume "path_starts_with p root"
  then have "components p = components root @ drop (length (components root)) (components p)"
    unfolding path_starts_with_def by (metis append_take_drop_id)
  then show "\<exists>rest. components p = components root @ rest" ..
qed (auto simp: path_starts_with_def)

lemma working_directory_Inr:
  assumes "working_directory_new path roots = Inr d"
  shows "wd_path d = path" and "is_absolute path" and "ParentDir \<notin> set (components path)"
    and "list_ex (\<lambda>root. is_absolute root \<and> path_starts_with path root) roots"
  using assms by (auto simp: working_directory_new_def list_ex_iff split: if_splits)

lemma job_kind_new_wf:
  "working_directory_new path roots = Inr d \<Longrightarrow> job_command executable args d = Inr k \<Longrightarrow> kind_wf roots k"
  "job_http lib url m = Inr k' \<Longrightarrow> kind_wf roots k'"
  using working_directory_Inr [of path roots d]
  by (auto simp: job_command_def job_http_def kind_wf_def split: if_splits)

section \<open>Jobs\<close>

datatype overlap_policy = Skip

record cron_job =
  cj_id :: uuid
  cj_owner_id :: uuid
  cj_name :: string
  cj_schedule :: cron_schedule
  cj_kind :: job_kind
  cj_timeout_secs :: u64
  cj_overlap_policy :: overlap_policy
  cj_enabled :: bool
  cj_next_run_at :: instant
  cj_created_at :: instant
  cj_updated_at :: instant

definition job_fields_invalid :: "string \<Rightarrow> u64 \<Rightarrow> bool" where
  "job_fields_invalid name timeout \<longleftrightarrow> trim name = [] \<or> timeout = 0 \<or> timeout > 86400"

definition job_new ::
    "cron_lib \<Rightarrow> uuid \<Rightarrow> uuid \<Rightarrow> string \<Rightarrow> cron_schedule \<Rightarrow> job_kind \<Rightarrow> u64 \<Rightarrow> overlap_policy \<Rightarrow> instant \<Rightarrow>
     cron_error + cron_job" where
  "job_new lib i owner_id name sch kind timeout overlap now =
     (if job_fields_invalid name timeout then Inl (InvalidJob ''name and timeout must be valid'')
      else rbind (next_after lib sch now) (\<lambda>next_run_at.
        Inr \<lparr>cj_id = i, cj_owner_id = owner_id, cj_name = name, cj_schedule = sch, cj_kind = kind,
          cj_timeout_secs = timeout, cj_overlap_policy = overlap, cj_enabled = True,
          cj_next_run_at = next_run_at, cj_created_at = now, cj_updated_at = now\<rparr>))"

definition job_disable :: "instant \<Rightarrow> cron_job \<Rightarrow> cron_job" where
  "job_disable now j = j\<lparr>cj_enabled := False, cj_updated_at := now\<rparr>"

definition job_enable :: "cron_lib \<Rightarrow> instant \<Rightarrow> cron_job \<Rightarrow> cron_error + cron_job" where
  "job_enable lib now j =
     rbind (next_after lib (cj_schedule j) now) (\<lambda>next_run_at.
       Inr (j\<lparr>cj_enabled := True, cj_next_run_at := next_run_at, cj_updated_at := now\<rparr>))"

definition job_update ::
    "cron_lib \<Rightarrow> string \<Rightarrow> cron_schedule \<Rightarrow> job_kind \<Rightarrow> u64 \<Rightarrow> instant \<Rightarrow> cron_job \<Rightarrow> cron_error + cron_job" where
  "job_update lib name sch kind timeout now j =
     (if job_fields_invalid name timeout then Inl (InvalidJob ''name and timeout must be valid'')
      else rbind (next_after lib sch now) (\<lambda>next_run_at.
        Inr (j\<lparr>cj_name := name, cj_schedule := sch, cj_kind := kind, cj_timeout_secs := timeout,
          cj_next_run_at := next_run_at, cj_updated_at := now\<rparr>)))"

definition job_advance :: "cron_lib \<Rightarrow> instant \<Rightarrow> cron_job \<Rightarrow> cron_error + cron_job" where
  "job_advance lib after j =
     rbind (next_after lib (cj_schedule j) after) (\<lambda>next_run_at.
       Inr (j\<lparr>cj_next_run_at := next_run_at, cj_updated_at := after\<rparr>))"

definition job_wf :: "cron_lib \<Rightarrow> string list \<Rightarrow> cron_job \<Rightarrow> bool" where
  "job_wf lib roots j \<longleftrightarrow> \<not> job_fields_invalid (cj_name j) (cj_timeout_secs j) \<and>
     schedule_wf lib (cj_schedule j) \<and> kind_wf roots (cj_kind j)"

lemma job_new_Inr:
  "job_new lib i owner name sch kind timeout ov now = Inr j \<longleftrightarrow> \<not> job_fields_invalid name timeout \<and>
     (\<exists>n. next_after lib sch now = Inr n \<and> j = \<lparr>cj_id = i, cj_owner_id = owner, cj_name = name, cj_schedule = sch,
        cj_kind = kind, cj_timeout_secs = timeout, cj_overlap_policy = ov, cj_enabled = True, cj_next_run_at = n,
        cj_created_at = now, cj_updated_at = now\<rparr>)"
  by (auto simp: job_new_def)

lemma job_changes_Inr:
  "job_enable lib now j = Inr j' \<longleftrightarrow> (\<exists>n. next_after lib (cj_schedule j) now = Inr n \<and>
     j' = j\<lparr>cj_enabled := True, cj_next_run_at := n, cj_updated_at := now\<rparr>)"
  "job_advance lib now j = Inr j' \<longleftrightarrow> (\<exists>n. next_after lib (cj_schedule j) now = Inr n \<and>
     j' = j\<lparr>cj_next_run_at := n, cj_updated_at := now\<rparr>)"
  "job_update lib name sch kind timeout now j = Inr j' \<longleftrightarrow> \<not> job_fields_invalid name timeout \<and>
     (\<exists>n. next_after lib sch now = Inr n \<and> j' = j\<lparr>cj_name := name, cj_schedule := sch, cj_kind := kind,
        cj_timeout_secs := timeout, cj_next_run_at := n, cj_updated_at := now\<rparr>)"
  by (auto simp: job_enable_def job_advance_def job_update_def rbind_def split: sum.splits)

lemma job_wf_changes:
  "job_wf lib roots j \<Longrightarrow> job_wf lib roots (job_disable now j)"
  "job_wf lib roots j \<Longrightarrow> job_enable lib now j = Inr j' \<Longrightarrow> job_wf lib roots j'"
  "job_wf lib roots j \<Longrightarrow> job_advance lib now j = Inr j' \<Longrightarrow> job_wf lib roots j'"
  "job_wf lib roots j \<Longrightarrow> schedule_wf lib sch \<Longrightarrow> job_update lib name sch (cj_kind j) timeout now j = Inr j' \<Longrightarrow>
     job_wf lib roots j'"
  by (auto simp: job_wf_def job_changes_Inr job_disable_def)

lemma job_ids:
  "cj_id (job_disable now j) = cj_id j" "cj_owner_id (job_disable now j) = cj_owner_id j"
  "job_enable lib now j = Inr j' \<Longrightarrow> cj_id j' = cj_id j \<and> cj_owner_id j' = cj_owner_id j"
  "job_advance lib now j = Inr j' \<Longrightarrow> cj_id j' = cj_id j \<and> cj_owner_id j' = cj_owner_id j"
  "job_update lib name sch kind timeout now j = Inr j' \<Longrightarrow> cj_id j' = cj_id j \<and> cj_owner_id j' = cj_owner_id j"
  by (auto simp: job_disable_def job_changes_Inr)

section \<open>Runs\<close>

datatype run_state = Leased | Running | Succeeded | Failed | TimedOut | Skipped | Interrupted

definition state_terminal :: "run_state \<Rightarrow> bool" where
  "state_terminal st \<longleftrightarrow> st \<noteq> Leased \<and> st \<noteq> Running"

record job_run =
  jr_id :: uuid
  jr_job_id :: uuid
  jr_state :: run_state
  jr_leased_at :: instant
  jr_lease_until :: instant
  jr_started_at :: "instant option"
  jr_finished_at :: "instant option"
  jr_exit_code :: "int option"
  jr_stdout :: "byte list"
  jr_stderr :: "byte list"

definition run_leased :: "uuid \<Rightarrow> uuid \<Rightarrow> instant \<Rightarrow> instant \<Rightarrow> job_run" where
  "run_leased i job_id now lease_until =
     \<lparr>jr_id = i, jr_job_id = job_id, jr_state = Leased, jr_leased_at = now, jr_lease_until = lease_until,
      jr_started_at = None, jr_finished_at = None, jr_exit_code = None, jr_stdout = [], jr_stderr = []\<rparr>"

definition run_skipped :: "uuid \<Rightarrow> uuid \<Rightarrow> instant \<Rightarrow> job_run" where
  "run_skipped i job_id now =
     \<lparr>jr_id = i, jr_job_id = job_id, jr_state = Skipped, jr_leased_at = now, jr_lease_until = now,
      jr_started_at = None, jr_finished_at = Some now, jr_exit_code = None, jr_stdout = [], jr_stderr = []\<rparr>"

definition run_start :: "instant \<Rightarrow> job_run \<Rightarrow> cron_error + job_run" where
  "run_start now r =
     (if jr_state r \<noteq> Leased then Inl InvalidRunTransition
      else Inr (r\<lparr>jr_state := Running, jr_started_at := Some now\<rparr>))"

definition run_is_terminal :: "job_run \<Rightarrow> bool" where
  "run_is_terminal r = state_terminal (jr_state r)"

definition ensure_active :: "job_run \<Rightarrow> cron_error + unit" where
  "ensure_active r = (if state_terminal (jr_state r) then Inl RunTerminal else Inr ())"

definition run_complete :: "instant \<Rightarrow> int \<Rightarrow> byte list \<Rightarrow> byte list \<Rightarrow> job_run \<Rightarrow> cron_error + job_run" where
  "run_complete now exit_code out err r =
     rbind (ensure_active r) (\<lambda>_.
       Inr (r\<lparr>jr_state := (if exit_code = 0 then Succeeded else Failed), jr_finished_at := Some now,
         jr_exit_code := Some exit_code, jr_stdout := out, jr_stderr := err\<rparr>))"

definition run_finish :: "run_state \<Rightarrow> instant \<Rightarrow> job_run \<Rightarrow> cron_error + job_run" where
  "run_finish st now r =
     rbind (ensure_active r) (\<lambda>_. Inr (r\<lparr>jr_state := st, jr_finished_at := Some now\<rparr>))"

definition run_timeout :: "instant \<Rightarrow> job_run \<Rightarrow> cron_error + job_run" where
  "run_timeout now r = run_finish TimedOut now r"

definition run_interrupt :: "instant \<Rightarrow> job_run \<Rightarrow> cron_error + job_run" where
  "run_interrupt now r = run_finish Interrupted now r"

text \<open>The transitions of a run, one rule per method that changes its state.\<close>

inductive run_step :: "job_run \<Rightarrow> job_run \<Rightarrow> bool" where
  start: "run_start now r = Inr r' \<Longrightarrow> run_step r r'"
| complete: "run_complete now code out err r = Inr r' \<Longrightarrow> run_step r r'"
| timeout: "run_timeout now r = Inr r' \<Longrightarrow> run_step r r'"
| interrupt: "run_interrupt now r = Inr r' \<Longrightarrow> run_step r r'"

lemmas run_method_defs = run_start_def run_complete_def run_timeout_def run_interrupt_def run_finish_def
  ensure_active_def run_is_terminal_def state_terminal_def rbind_def

lemma run_ids:
  assumes "run_step r r'"
  shows "jr_id r' = jr_id r \<and> jr_job_id r' = jr_job_id r \<and> jr_lease_until r' = jr_lease_until r"
  using assms by cases (auto simp: run_method_defs split: if_splits)

text \<open>Only one path leads from a lease: to a start, and from there to an end.\<close>

lemma run_step_shape:
  assumes "run_step r r'"
  shows "jr_state r = Leased \<and> jr_state r' = Running \<or>
     \<not> run_is_terminal r \<and> jr_state r' \<in> {Succeeded, Failed, TimedOut, Interrupted} \<and> jr_finished_at r' \<noteq> None"
  using assms by cases (auto simp: run_method_defs split: if_splits)

lemma run_terminal_final: "run_is_terminal r \<Longrightarrow> \<not> run_step r r'"
  by (auto simp: run_method_defs elim!: run_step.cases split: if_splits)

section \<open>Scopes and quotas\<close>

datatype job_scope = SystemScope | PerSite | PerUser

record cron_quota =
  cq_max_concurrent :: u32
  cq_max_due_per_minute :: u32
  cq_max_total :: u32

definition quota_default_for_user :: cron_quota where
  "quota_default_for_user = \<lparr>cq_max_concurrent = 4, cq_max_due_per_minute = 30, cq_max_total = 100\<rparr>"

record global_default =
  gd_max_concurrent :: u32
  gd_max_due_per_minute :: u32
  gd_max_total :: u32

definition panel_default :: global_default where
  "panel_default = \<lparr>gd_max_concurrent = 4, gd_max_due_per_minute = 30, gd_max_total = 100\<rparr>"

definition as_cron_quota :: "global_default \<Rightarrow> cron_quota" where
  "as_cron_quota g = \<lparr>cq_max_concurrent = gd_max_concurrent g, cq_max_due_per_minute = gd_max_due_per_minute g,
     cq_max_total = gd_max_total g\<rparr>"

definition quota_effective :: "global_default \<Rightarrow> cron_quota \<Rightarrow> cron_quota" where
  "quota_effective global user =
     \<lparr>cq_max_concurrent = max (gd_max_concurrent global) (cq_max_concurrent user),
      cq_max_due_per_minute = max (gd_max_due_per_minute global) (cq_max_due_per_minute user),
      cq_max_total = max (gd_max_total global) (cq_max_total user)\<rparr>"

datatype cron_scope_error =
    RoleNotAllowed role job_scope
  | QuotaExceededTotal
  | QuotaExceededConcurrent
  | QuotaExceededPerMinute
  | WorkingDirectoryOutOfOwned
  | ExecutableNotAllowed
  | ScopePersistence string

definition role_allows_scope :: "role \<Rightarrow> job_scope \<Rightarrow> bool" where
  "role_allows_scope r sc =
     (case (r, sc) of
        (Owner, _) \<Rightarrow> True
      | (Admin, _) \<Rightarrow> True
      | (RoleUser, SystemScope) \<Rightarrow> False
      | (RoleUser, _) \<Rightarrow> True)"

definition is_under_owned_site :: "string \<Rightarrow> string list \<Rightarrow> bool" where
  "is_under_owned_site workdir owned_roots \<longleftrightarrow> list_ex (path_starts_with workdir) owned_roots"

definition is_executable_allowed :: "string \<Rightarrow> string list \<Rightarrow> bool" where
  "is_executable_allowed executable allow_list \<longleftrightarrow> list_ex (\<lambda>allowed. allowed = executable) allow_list"

definition check_quota :: "cron_quota \<Rightarrow> u32 \<Rightarrow> u32 \<Rightarrow> u32 \<Rightarrow> cron_scope_error + unit" where
  "check_quota q total_active concurrent_active recently_due =
     (if total_active \<ge> cq_max_total q then Inl QuotaExceededTotal
      else if concurrent_active \<ge> cq_max_concurrent q then Inl QuotaExceededConcurrent
      else if recently_due \<ge> cq_max_due_per_minute q then Inl QuotaExceededPerMinute
      else Inr ())"

text \<open>A raised quota never refuses what a lower one grants.\<close>

lemma check_quota_Inr:
  "check_quota q t c d = Inr () \<longleftrightarrow> t < cq_max_total q \<and> c < cq_max_concurrent q \<and> d < cq_max_due_per_minute q"
  by (auto simp: check_quota_def not_le)

lemma check_quota_effective:
  "check_quota (quota_effective g q) t c d = Inr () \<longleftrightarrow>
     t < max (gd_max_total g) (cq_max_total q) \<and> c < max (gd_max_concurrent g) (cq_max_concurrent q) \<and>
     d < max (gd_max_due_per_minute g) (cq_max_due_per_minute q)"
  by (simp add: check_quota_Inr quota_effective_def)

end
