(* ===== verification/Cron_Service.thy ===== *)
theory Cron_Service
  imports Identity_Repo Cron_Domain
begin

text \<open>
  \<open>CronService\<close> of \<open>openpanel-app/src/cron/service.rs\<close> with the statements it issues itself.
  Jobs and runs are stored as JSON, written and read by serde\_json, which is \<open>cron_json\<close>.
  A run takes time: \<open>run_now\<close> is the composition of \<open>begin_run\<close>, which claims the run,
  the work itself, which is the answer of the outside world, and \<open>end_run\<close>, which stores its outcome;
  other operations happen in between.
\<close>

record cron_json =
  cjs_job_to :: "cron_job \<Rightarrow> string + string"
  cjs_job_from :: "string \<Rightarrow> string + cron_job"
  cjs_run_to :: "job_run \<Rightarrow> string + string"
  cjs_run_from :: "string \<Rightarrow> string + job_run"

definition cron_json_contract :: "cron_json \<Rightarrow> bool" where
  "cron_json_contract js \<longleftrightarrow>
     (\<forall>j x. cjs_job_to js j = Inr x \<longrightarrow> cjs_job_from js x = Inr j) \<and>
     (\<forall>r x. cjs_run_to js r = Inr x \<longrightarrow> cjs_run_from js x = Inr r)"

record cron_service =
  crs_lib :: cron_lib
  crs_json :: cron_json
  crs_allowed_roots :: "string list"

record cron_input =
  ci_name :: string
  ci_schedule :: string
  ci_timezone :: string
  ci_kind :: string
  ci_executable :: "string option"
  ci_arguments :: "string list"
  ci_working_directory :: "string option"
  ci_url :: "string option"
  ci_method :: "string option"
  ci_timeout_secs :: u64
  ci_overlap_policy :: string

record cron_update =
  cu_name :: "string option"
  cu_schedule :: "string option"
  cu_timezone :: "string option"
  cu_timeout_secs :: "u64 option"
  cu_overlap_policy :: "string option"

datatype cron_service_error = CronValidation string | CronNotFound | CronPersistence string

type_synonym u16 = "16 word"
type_synonym 'a cron_call = "(cron_service_error, 'a) call"

definition validation :: "cron_error + 'a \<Rightarrow> cron_service_error + 'a" where
  "validation r = map_err (\<lambda>e. CronValidation (cron_error_display e)) r"

lemma validation_Inr [simp]: "validation r = Inr x \<longleftrightarrow> r = Inr x"
  by (simp add: validation_def)

definition cron_db :: "'a repo \<Rightarrow> 'a cron_call" where
  "cron_db m = smap_err CronPersistence m"

definition job_to_json :: "cron_service \<Rightarrow> cron_job \<Rightarrow> cron_error + string" where
  "job_to_json svc j = map_err InvalidJob (cjs_job_to (crs_json svc) j)"

definition job_restore :: "cron_service \<Rightarrow> string \<Rightarrow> cron_error + cron_job" where
  "job_restore svc x = map_err InvalidJob (cjs_job_from (crs_json svc) x)"

definition run_to_json :: "cron_service \<Rightarrow> job_run \<Rightarrow> cron_service_error + string" where
  "run_to_json svc r = map_err CronPersistence (cjs_run_to (crs_json svc) r)"

definition run_restore :: "cron_service \<Rightarrow> string \<Rightarrow> cron_service_error + job_run" where
  "run_restore svc x = map_err CronPersistence (cjs_run_from (crs_json svc) x)"

definition cron_audit :: "env \<Rightarrow> audit_event \<Rightarrow> unit cron_call" where
  "cron_audit env e = signore (audit_record env e)"

definition audit_change :: "env \<Rightarrow> instant \<Rightarrow> uuid \<Rightarrow> uuid \<Rightarrow> string \<Rightarrow> unit cron_call" where
  "audit_change env now actor target operation =
     cron_audit env (with_metadata (JObject [(''operation'', JString operation)])
       (with_target (env_uuid_str env target)
         (audit_event_new now (env_uuid_str env actor) (OtherAction ''cron_changed'') Success)))"

section \<open>Jobs\<close>

definition build :: "cron_service \<Rightarrow> uuid \<Rightarrow> instant \<Rightarrow> uuid \<Rightarrow> cron_input \<Rightarrow> cron_service_error + cron_job" where
  "build svc i now owner_id input =
     (if ci_overlap_policy input \<noteq> ''skip'' then Inl (CronValidation ''overlap_policy must be skip'')
      else
      rbind (validation (schedule_parse (crs_lib svc) (ci_schedule input) (ci_timezone input))) (\<lambda>sch.
      rbind
        (if ci_kind input = ''command'' then
           rbind (ok_or (CronValidation ''working_directory is required'') (ci_working_directory input)) (\<lambda>directory.
           rbind (validation (working_directory_new directory (crs_allowed_roots svc))) (\<lambda>directory.
             validation (job_command (case ci_executable input of None \<Rightarrow> [] | Some x \<Rightarrow> x)
               (ci_arguments input) directory)))
         else if ci_kind input = ''http'' then
           validation (job_http (crs_lib svc) (case ci_url input of None \<Rightarrow> [] | Some x \<Rightarrow> x)
             (case ci_method input of None \<Rightarrow> ''GET'' | Some x \<Rightarrow> x))
         else Inl (CronValidation ''kind must be command or http'')) (\<lambda>kind.
      validation (job_new (crs_lib svc) i owner_id (ci_name input) sch kind (ci_timeout_secs input) Skip now))))"

definition cron_create ::
    "env \<Rightarrow> cron_service \<Rightarrow> uuid \<Rightarrow> instant \<Rightarrow> uuid \<Rightarrow> cron_input \<Rightarrow> cron_job cron_call" where
  "cron_create env svc i now owner_id input =
     sbind (slift (build svc i now owner_id input)) (\<lambda>job.
     sbind (slift (validation (job_to_json svc job))) (\<lambda>payload.
     sbind (cron_db (sql_write env (\<lambda>s. cj_id job \<notin> cjr_id ` set (db_cron_jobs s))
       (\<lambda>s. s\<lparr>db_cron_jobs := db_cron_jobs s @
          [\<lparr>cjr_id = cj_id job, cjr_owner_id = owner_id, cjr_payload = payload\<rparr>]\<rparr>))) (\<lambda>_.
     sbind (audit_change env now owner_id (cj_id job) ''created'') (\<lambda>_.
       sret job))))"

text \<open>\<open>ORDER BY id\<close> compares the text forms.\<close>

definition cron_list :: "env \<Rightarrow> cron_service \<Rightarrow> uuid \<Rightarrow> bool \<Rightarrow> cron_job list cron_call" where
  "cron_list env svc owner_id all =
     sbind (cron_db (sql_read env (\<lambda>s. sort_key (\<lambda>r. env_uuid_str env (cjr_id r))
       (filter (\<lambda>r. all \<or> cjr_owner_id r = owner_id) (db_cron_jobs s))))) (\<lambda>rows.
     slift (collect_results (\<lambda>r. validation (job_restore svc (cjr_payload r))) rows))"

definition cron_get :: "env \<Rightarrow> cron_service \<Rightarrow> uuid \<Rightarrow> bool \<Rightarrow> uuid \<Rightarrow> cron_job cron_call" where
  "cron_get env svc owner_id all i =
     sbind (cron_db (sql_read env (\<lambda>s.
       find (\<lambda>r. cjr_id r = i \<and> (all \<or> cjr_owner_id r = owner_id)) (db_cron_jobs s)))) (\<lambda>row.
     sbind (slift (ok_or CronNotFound row)) (\<lambda>row.
       slift (validation (job_restore svc (cjr_payload row)))))"

definition cron_save :: "env \<Rightarrow> cron_service \<Rightarrow> cron_job \<Rightarrow> unit cron_call" where
  "cron_save env svc job =
     sbind (slift (validation (job_to_json svc job))) (\<lambda>payload.
       cron_db (sql_write env (\<lambda>_. True) (\<lambda>s. s\<lparr>db_cron_jobs :=
         update_where (\<lambda>r. cjr_id r = cj_id job) (\<lambda>r. r\<lparr>cjr_payload := payload\<rparr>) (db_cron_jobs s)\<rparr>)))"

text \<open>The overlap policy of the update is not looked at.\<close>

definition update_job ::
    "env \<Rightarrow> cron_service \<Rightarrow> instant \<Rightarrow> uuid \<Rightarrow> bool \<Rightarrow> uuid \<Rightarrow> cron_update \<Rightarrow> cron_job cron_call" where
  "update_job env svc now owner_id all i update =
     sbind (cron_get env svc owner_id all i) (\<lambda>job.
     sbind (slift (validation (schedule_parse (crs_lib svc)
         (case cu_schedule update of None \<Rightarrow> cs_expression (cj_schedule job) | Some x \<Rightarrow> x)
         (case cu_timezone update of None \<Rightarrow> cs_timezone (cj_schedule job) | Some x \<Rightarrow> x)))) (\<lambda>sch.
     sbind (slift (validation (job_update (crs_lib svc)
         (case cu_name update of None \<Rightarrow> cj_name job | Some x \<Rightarrow> x) sch (cj_kind job)
         (case cu_timeout_secs update of None \<Rightarrow> cj_timeout_secs job | Some x \<Rightarrow> x) now job))) (\<lambda>job.
     sbind (cron_save env svc job) (\<lambda>_.
     sbind (audit_change env now owner_id i ''updated'') (\<lambda>_.
       sret job)))))"

definition set_enabled ::
    "env \<Rightarrow> cron_service \<Rightarrow> instant \<Rightarrow> uuid \<Rightarrow> bool \<Rightarrow> uuid \<Rightarrow> bool \<Rightarrow> cron_job cron_call" where
  "set_enabled env svc now owner_id all i enabled =
     sbind (cron_get env svc owner_id all i) (\<lambda>job.
     sbind (slift (if enabled then validation (job_enable (crs_lib svc) now job)
                   else Inr (job_disable now job))) (\<lambda>job.
     sbind (cron_save env svc job) (\<lambda>_.
     sbind (audit_change env now owner_id i (if enabled then ''enabled'' else ''disabled'')) (\<lambda>_.
       sret job))))"

text \<open>The runs of a deleted job go with it (\<open>ON DELETE CASCADE\<close>).\<close>

definition cron_delete :: "env \<Rightarrow> cron_service \<Rightarrow> instant \<Rightarrow> uuid \<Rightarrow> bool \<Rightarrow> uuid \<Rightarrow> unit cron_call" where
  "cron_delete env svc now owner_id all i =
     sbind (cron_get env svc owner_id all i) (\<lambda>_.
     sbind (cron_db (sql_write env (\<lambda>_. True) (\<lambda>s. s\<lparr>
         db_cron_jobs := delete_where (\<lambda>r. cjr_id r = i) (db_cron_jobs s),
         db_cron_runs := delete_where (\<lambda>r. crr_job_id r = i) (db_cron_runs s)\<rparr>))) (\<lambda>_.
       audit_change env now owner_id i ''deleted''))"

section \<open>Runs\<close>

text \<open>
  The constraints on a new run: a fresh key, a stored job, and the partial index
  \<open>idx_cron_one_active_run\<close>, one active run for each job.
\<close>

definition run_insertable :: "job_run \<Rightarrow> db \<Rightarrow> bool" where
  "run_insertable r s \<longleftrightarrow>
     jr_id r \<notin> crr_id ` set (db_cron_runs s) \<and> jr_job_id r \<in> cjr_id ` set (db_cron_jobs s) \<and>
     (run_is_terminal r \<or> \<not> list_ex (\<lambda>x. crr_job_id x = jr_job_id r \<and> crr_active x) (db_cron_runs s))"

definition insert_run :: "env \<Rightarrow> cron_service \<Rightarrow> uuid \<Rightarrow> job_run \<Rightarrow> instant \<Rightarrow> unit cron_call" where
  "insert_run env svc owner_id r now =
     sbind (slift (run_to_json svc r)) (\<lambda>payload.
       cron_db (sql_write env (run_insertable r)
         (\<lambda>s. s\<lparr>db_cron_runs := db_cron_runs s @
            [\<lparr>crr_id = jr_id r, crr_job_id = jr_job_id r, crr_owner_id = owner_id, crr_payload = payload,
              crr_active = (\<not> run_is_terminal r), crr_created_at = now\<rparr>]\<rparr>)))"

text \<open>The same index can refuse an update that makes a run active.\<close>

definition run_updatable :: "job_run \<Rightarrow> db \<Rightarrow> bool" where
  "run_updatable r s \<longleftrightarrow> run_is_terminal r \<or>
     list_all (\<lambda>x. crr_id x = jr_id r \<longrightarrow>
       \<not> list_ex (\<lambda>y. crr_id y \<noteq> jr_id r \<and> crr_job_id y = crr_job_id x \<and> crr_active y) (db_cron_runs s))
       (db_cron_runs s)"

definition update_run :: "env \<Rightarrow> cron_service \<Rightarrow> job_run \<Rightarrow> unit cron_call" where
  "update_run env svc r =
     sbind (slift (run_to_json svc r)) (\<lambda>payload.
       cron_db (sql_write env (run_updatable r)
         (\<lambda>s. s\<lparr>db_cron_runs := update_where (\<lambda>x. crr_id x = jr_id r)
            (\<lambda>x. x\<lparr>crr_payload := payload, crr_active := (\<not> run_is_terminal r)\<rparr>) (db_cron_runs s)\<rparr>)))"

definition cap :: "byte list \<Rightarrow> byte list" where
  "cap bytes = take (64 * 1024) bytes"

text \<open>
  A run that another process has claimed in the meantime is refused by the index and recorded as
  skipped. The result is the run that was skipped, or the job with the run that was started.
\<close>

definition claim_run ::
    "env \<Rightarrow> cron_service \<Rightarrow> cron_job \<Rightarrow> job_run \<Rightarrow> job_run \<Rightarrow> instant \<Rightarrow> (job_run + cron_job \<times> job_run) cron_call" where
  "claim_run env svc job r skipped now s =
     (case insert_run env svc (cj_owner_id job) r now s of
        (Inl (CronPersistence message), t) \<Rightarrow>
          if contains ''UNIQUE constraint failed'' message
          then sbind (insert_run env svc (cj_owner_id job) skipped now) (\<lambda>_. sret (Inl skipped)) t
          else (Inl (CronPersistence message), t)
      | (_, t) \<Rightarrow> (Inr (Inr (job, r)), t))"

text \<open>\<open>run_id\<close> and \<open>skip_id\<close> are the identifiers that are drawn.\<close>

definition run_is_active :: "cron_service \<Rightarrow> cron_run_row \<Rightarrow> bool" where
  "run_is_active svc row \<longleftrightarrow>
     (case cjs_run_from (crs_json svc) (crr_payload row) of Inl _ \<Rightarrow> False | Inr r \<Rightarrow> \<not> run_is_terminal r)"

definition begin_run ::
    "env \<Rightarrow> cron_service \<Rightarrow> uuid \<Rightarrow> uuid \<Rightarrow> instant \<Rightarrow> uuid \<Rightarrow> bool \<Rightarrow> uuid \<Rightarrow> (job_run + cron_job \<times> job_run) cron_call" where
  "begin_run env svc run_id skip_id now owner_id all i =
     sbind (cron_get env svc owner_id all i) (\<lambda>job.
     sbind (cron_audit env (with_target (env_uuid_str env i)
         (audit_event_new now (env_uuid_str env owner_id) (OtherAction ''cron_run'') Success))) (\<lambda>_.
     sbind (cron_db (sql_read env (\<lambda>s. filter (\<lambda>r. crr_job_id r = i) (db_cron_runs s)))) (\<lambda>rows.
     if list_ex (run_is_active svc) rows
     then sbind (insert_run env svc (cj_owner_id job) (run_skipped run_id i now) now) (\<lambda>_.
            sret (Inl (run_skipped run_id i now)))
     else
     sbind (slift (validation (run_start now (run_leased run_id i now (now + seconds 30))))) (\<lambda>r.
       claim_run env svc job r (run_skipped skip_id i now) now))))"

text \<open>
  The work of a job, done by the operating system and the HTTP client. A command ends with its
  exit status, which is missing after a signal, or cannot be started; a request is answered with
  a status and a body, whose reading may fail, or fails. Either may run out of its time.
\<close>

datatype command_outcome =
    CommandExited "int option" "byte list" "byte list"
  | CommandFailed string
  | CommandTimedOut

datatype http_outcome =
    HttpResponse u16 "byte list option"
  | HttpFailed string
  | HttpTimedOut

record cron_world =
  cw_command :: "string \<Rightarrow> string list \<Rightarrow> string \<Rightarrow> u64 \<Rightarrow> command_outcome"
  cw_http_setup :: "string \<Rightarrow> string + unit"
  cw_http :: "string \<Rightarrow> string \<Rightarrow> u64 \<Rightarrow> http_outcome"

definition http_is_success :: "u16 \<Rightarrow> bool" where
  "http_is_success status \<longleftrightarrow> 200 \<le> status \<and> status \<le> 299"

definition execute ::
    "cron_world \<Rightarrow> instant \<Rightarrow> cron_job \<Rightarrow> job_run \<Rightarrow> cron_service_error + job_run" where
  "execute w now job r =
     (case cj_kind job of
        Command executable arguments dir \<Rightarrow>
          (case cw_command w executable arguments (wd_path dir) (cj_timeout_secs job) of
             CommandExited code out err \<Rightarrow>
               validation (run_complete now (case code of None \<Rightarrow> - 1 | Some c \<Rightarrow> c) (cap out) (cap err) r)
           | CommandFailed e \<Rightarrow> validation (run_complete now (- 1) [] (cap (as_bytes e)) r)
           | CommandTimedOut \<Rightarrow> validation (run_timeout now r))
      | Http url method \<Rightarrow>
          rbind (map_err CronValidation (cw_http_setup w method)) (\<lambda>_.
          case cw_http w url method (cj_timeout_secs job) of
             HttpResponse status body \<Rightarrow>
               validation (run_complete now (if http_is_success status then 0 else uint status)
                 (case body of None \<Rightarrow> [] | Some b \<Rightarrow> cap b) [] r)
           | HttpFailed e \<Rightarrow> validation (run_complete now (- 1) [] (cap (as_bytes e)) r)
           | HttpTimedOut \<Rightarrow> validation (run_timeout now r)))"

definition end_run ::
    "env \<Rightarrow> cron_service \<Rightarrow> cron_world \<Rightarrow> instant \<Rightarrow> cron_job \<Rightarrow> job_run \<Rightarrow> job_run cron_call" where
  "end_run env svc w now job r =
     sbind (slift (execute w now job r)) (\<lambda>r.
     sbind (update_run env svc r) (\<lambda>_.
       sret r))"

record run_draw =
  rd_run_id :: uuid
  rd_skip_id :: uuid
  rd_begin :: instant
  rd_end :: instant

definition run_now ::
    "env \<Rightarrow> cron_service \<Rightarrow> cron_world \<Rightarrow> run_draw \<Rightarrow> uuid \<Rightarrow> bool \<Rightarrow> uuid \<Rightarrow> job_run cron_call" where
  "run_now env svc w d owner_id all i =
     sbind (begin_run env svc (rd_run_id d) (rd_skip_id d) (rd_begin d) owner_id all i) (\<lambda>begun.
       case begun of
         Inl r \<Rightarrow> sret r
       | Inr (job, r) \<Rightarrow> end_run env svc w (rd_end d) job r)"

section \<open>The scheduler\<close>

fun recover_rows :: "env \<Rightarrow> cron_service \<Rightarrow> instant \<Rightarrow> cron_run_row list \<Rightarrow> unit cron_call" where
  "recover_rows env svc now [] = sret ()"
| "recover_rows env svc now (row # rows) =
     sbind (slift (run_restore svc (crr_payload row))) (\<lambda>r.
     sbind (if \<not> run_is_terminal r \<and> jr_lease_until r < now
            then sbind (slift (validation (run_interrupt now r))) (update_run env svc)
            else sret ()) (\<lambda>_.
       recover_rows env svc now rows))"

definition recover_expired :: "env \<Rightarrow> cron_service \<Rightarrow> instant \<Rightarrow> unit cron_call" where
  "recover_expired env svc now =
     sbind (cron_db (sql_read env db_cron_runs)) (recover_rows env svc now)"

fun run_due ::
    "env \<Rightarrow> cron_service \<Rightarrow> cron_world \<Rightarrow> (uuid \<Rightarrow> run_draw) \<Rightarrow> instant \<Rightarrow> cron_job list \<Rightarrow> unit cron_call" where
  "run_due env svc w d now [] = sret ()"
| "run_due env svc w d now (job # jobs) =
     sbind (slift (validation (job_advance (crs_lib svc) now job))) (\<lambda>job.
     sbind (cron_save env svc job) (\<lambda>_.
     sbind (run_now env svc w (d (cj_id job)) (cj_owner_id job) True (cj_id job)) (\<lambda>_.
       run_due env svc w d now jobs)))"

fun prune_rows :: "env \<Rightarrow> cron_service \<Rightarrow> cron_run_row list \<Rightarrow> unit cron_call" where
  "prune_rows env svc [] = sret ()"
| "prune_rows env svc (row # rows) =
     sbind (slift (run_restore svc (crr_payload row))) (\<lambda>r.
     sbind (if run_is_terminal r
            then cron_db (sql_write env (\<lambda>_. True)
              (\<lambda>s. s\<lparr>db_cron_runs := delete_where (\<lambda>x. crr_id x = crr_id row) (db_cron_runs s)\<rparr>))
            else sret ()) (\<lambda>_.
       prune_rows env svc rows))"

definition is_due :: "instant \<Rightarrow> cron_job \<Rightarrow> bool" where
  "is_due now job \<longleftrightarrow> cj_enabled job \<and> cj_next_run_at job \<le> now"

text \<open>The draws of a run are a function of its job, which occurs once in the list.\<close>

definition cron_tick ::
    "env \<Rightarrow> cron_service \<Rightarrow> cron_world \<Rightarrow> (uuid \<Rightarrow> run_draw) \<Rightarrow> instant \<Rightarrow> int \<Rightarrow> nat cron_call" where
  "cron_tick env svc w d now retention_days =
     sbind (recover_expired env svc now) (\<lambda>_.
     sbind (cron_list env svc 0 True) (\<lambda>jobs.
     (let due = filter (is_due now) jobs in
     sbind (run_due env svc w d now due) (\<lambda>_.
     sbind (if retention_days > 0
            then sbind (cron_db (sql_read env (\<lambda>s.
                   filter (\<lambda>r. crr_created_at r < now - days retention_days) (db_cron_runs s))))
                 (prune_rows env svc)
            else sret ()) (\<lambda>_.
       sret (length due))))))"

section \<open>History\<close>

definition cron_runs ::
    "env \<Rightarrow> cron_service \<Rightarrow> uuid \<Rightarrow> bool \<Rightarrow> uuid option \<Rightarrow> job_run list cron_call" where
  "cron_runs env svc owner_id all job_id =
     sbind (cron_list env svc owner_id all) (\<lambda>jobs.
     sbind (cron_db (sql_read env (\<lambda>s. sort_key (\<lambda>r. - crr_created_at r) (db_cron_runs s)))) (\<lambda>rows.
       slift (collect_results (\<lambda>r. run_restore svc (crr_payload r))
         (filter (\<lambda>r. crr_job_id r \<in> cj_id ` set jobs \<and>
            (case job_id of None \<Rightarrow> True | Some i \<Rightarrow> crr_job_id r = i)) rows))))"

definition get_run :: "env \<Rightarrow> cron_service \<Rightarrow> uuid \<Rightarrow> bool \<Rightarrow> uuid \<Rightarrow> job_run cron_call" where
  "get_run env svc owner_id all i =
     sbind (cron_runs env svc owner_id all None) (\<lambda>rs.
       slift (ok_or CronNotFound (find (\<lambda>r. jr_id r = i) rs)))"


section \<open>Invariants\<close>

definition job_row_ok :: "cron_service \<Rightarrow> cron_job_row \<Rightarrow> bool" where
  "job_row_ok svc r \<longleftrightarrow>
     (case cjs_job_from (crs_json svc) (cjr_payload r) of
        Inl _ \<Rightarrow> False
      | Inr j \<Rightarrow> cj_id j = cjr_id r \<and> job_wf (crs_lib svc) (crs_allowed_roots svc) j)"

definition run_row_ok :: "cron_service \<Rightarrow> cron_run_row \<Rightarrow> bool" where
  "run_row_ok svc r \<longleftrightarrow>
     (case cjs_run_from (crs_json svc) (crr_payload r) of
        Inl _ \<Rightarrow> False
      | Inr x \<Rightarrow> jr_id x = crr_id r \<and> crr_active r = (\<not> run_is_terminal x))"

definition active_jobs :: "cron_run_row list \<Rightarrow> uuid list" where
  "active_jobs rows = map crr_job_id (filter crr_active rows)"

definition cron_ok :: "cron_service \<Rightarrow> cron_job_row list \<Rightarrow> cron_run_row list \<Rightarrow> bool" where
  "cron_ok svc jobs runs \<longleftrightarrow>
     distinct (map cjr_id jobs) \<and> list_all (job_row_ok svc) jobs \<and>
     distinct (map crr_id runs) \<and> list_all (run_row_ok svc) runs \<and>
     list_all (\<lambda>r. crr_job_id r \<in> cjr_id ` set jobs) runs \<and> distinct (active_jobs runs)"

definition cron_wf :: "cron_service \<Rightarrow> db \<Rightarrow> bool" where
  "cron_wf svc s \<longleftrightarrow> cron_json_contract (crs_json svc) \<and> cron_ok svc (db_cron_jobs s) (db_cron_runs s)"

text \<open>What an invariant has to allow for the cron operations to keep it.\<close>

locale cron_invariant = store_invariant P for P +
  fixes svc :: cron_service
  assumes add_job: "P s \<Longrightarrow> cj_id j \<notin> cjr_id ` set (db_cron_jobs s) \<Longrightarrow>
      job_wf (crs_lib svc) (crs_allowed_roots svc) j \<Longrightarrow> cjs_job_to (crs_json svc) j = Inr x \<Longrightarrow>
      P (s\<lparr>db_cron_jobs := db_cron_jobs s @ [\<lparr>cjr_id = cj_id j, cjr_owner_id = owner, cjr_payload = x\<rparr>]\<rparr>)"
    and put_job: "P s \<Longrightarrow> job_wf (crs_lib svc) (crs_allowed_roots svc) j \<Longrightarrow> cjs_job_to (crs_json svc) j = Inr x \<Longrightarrow>
      P (s\<lparr>db_cron_jobs := update_where (\<lambda>r. cjr_id r = cj_id j) (\<lambda>r. r\<lparr>cjr_payload := x\<rparr>) (db_cron_jobs s)\<rparr>)"
    and drop_job: "P s \<Longrightarrow>
      P (s\<lparr>db_cron_jobs := delete_where (\<lambda>r. cjr_id r = i) (db_cron_jobs s),
           db_cron_runs := delete_where (\<lambda>r. crr_job_id r = i) (db_cron_runs s)\<rparr>)"
    and add_run: "P s \<Longrightarrow> run_insertable r s \<Longrightarrow> cjs_run_to (crs_json svc) r = Inr y \<Longrightarrow>
      P (s\<lparr>db_cron_runs := db_cron_runs s @
            [\<lparr>crr_id = jr_id r, crr_job_id = jr_job_id r, crr_owner_id = owner, crr_payload = y,
              crr_active = (\<not> run_is_terminal r), crr_created_at = now\<rparr>]\<rparr>)"
    and put_run: "P s \<Longrightarrow> run_updatable r s \<Longrightarrow> cjs_run_to (crs_json svc) r = Inr y \<Longrightarrow>
      P (s\<lparr>db_cron_runs := update_where (\<lambda>x. crr_id x = jr_id r)
            (\<lambda>x. x\<lparr>crr_payload := y, crr_active := (\<not> run_is_terminal r)\<rparr>) (db_cron_runs s)\<rparr>)"
    and drop_run: "P s \<Longrightarrow> P (s\<lparr>db_cron_runs := delete_where (\<lambda>x. crr_id x = i) (db_cron_runs s)\<rparr>)"
    and jobs_readable: "P s \<Longrightarrow> row \<in> set (db_cron_jobs s) \<Longrightarrow> job_row_ok svc row"
begin

lemma keeps_cron_wrappers [keeps_intros]:
  "keeps P m \<Longrightarrow> keeps P (cron_db m)" "keeps P (cron_audit env e)" "keeps P (audit_change env now a b op)"
  unfolding cron_db_def cron_audit_def audit_change_def by (intro keeps_intros keeps_audit_record; assumption)+

lemma keeps_cron_reads [keeps_intros]:
  "keeps P (cron_list env svc owner all)" "keeps P (cron_get env svc owner all i)"
  "keeps P (cron_runs env svc owner all j)" "keeps P (get_run env svc owner all i)"
  unfolding cron_list_def cron_get_def cron_runs_def get_run_def
  by (intro keeps_intros tickless_P)+

abbreviation good :: "cron_job \<Rightarrow> bool" where
  "good j \<equiv> job_wf (crs_lib svc) (crs_allowed_roots svc) j"

lemma json_Inr:
  "job_to_json svc j = Inr x \<longleftrightarrow> cjs_job_to (crs_json svc) j = Inr x"
  "run_to_json svc r = Inr x \<longleftrightarrow> cjs_run_to (crs_json svc) r = Inr x"
  by (simp_all add: job_to_json_def run_to_json_def)

lemma keeps_cron_save: "good j \<Longrightarrow> keeps P (cron_save env svc j)"
  unfolding cron_save_def
  by (intro keeps_slift_bind keeps_cron_wrappers keeps_write put_job) (simp_all add: json_Inr)

lemma keeps_run_writes [keeps_intros]:
  "keeps P (insert_run env svc owner r now)" "keeps P (update_run env svc r)"
  unfolding insert_run_def update_run_def
  by (intro keeps_slift_bind keeps_cron_wrappers keeps_write; simp add: json_Inr add_run put_run)+

lemma restored_good:
  "P s \<Longrightarrow> row \<in> set (db_cron_jobs s) \<Longrightarrow> job_restore svc (cjr_payload row) = Inr j \<Longrightarrow>
     good j \<and> cj_id j = cjr_id row"
  using jobs_readable [of s row]
  by (auto simp: job_row_ok_def validation_def job_restore_def map_err_def split: sum.splits)

lemma cron_get_good: "P s \<Longrightarrow> cron_get env svc owner all i s = (Inr j, t) \<Longrightarrow> good j \<and> cj_id j = i"
  by (auto simp: cron_get_def cron_db_def st_invert ok_or_Inr dest!: find_SomeD dest: restored_good)

lemma keeps_cron_get_bind:
  "(\<And>j. good j \<Longrightarrow> cj_id j = i \<Longrightarrow> keeps P (f j)) \<Longrightarrow> keeps P (sbind (cron_get env svc owner all i) f)"
  by (rule keeps_sbind_result) (auto intro: keeps_intros dest: cron_get_good keepsD)


lemma built_good: "build svc i now owner input = Inr j \<Longrightarrow> good j \<and> cj_id j = i"
  by (auto simp: build_def schedule_parse_Inr job_wf_def job_new_Inr intro: job_kind_new_wf split: if_splits)

lemma keeps_cron_create: "keeps P (cron_create env svc i now owner input)"
  unfolding cron_create_def
  by (intro keeps_slift_bind keeps_sbind keeps_cron_wrappers keeps_write keeps_combinators add_job)
     (use json_Inr in \<open>auto dest: built_good\<close>)

lemma keeps_update_job: "keeps P (update_job env svc now owner all i upd)"
  unfolding update_job_def
  by (intro keeps_cron_get_bind keeps_slift_bind keeps_sbind keeps_cron_wrappers keeps_combinators keeps_cron_save)
     (simp add: schedule_parse_Inr job_wf_changes(4))

lemma keeps_set_enabled: "keeps P (set_enabled env svc now owner all i b)"
  unfolding set_enabled_def
  by (intro keeps_cron_get_bind keeps_slift_bind keeps_sbind keeps_cron_wrappers keeps_combinators keeps_cron_save)
     (auto simp: job_wf_changes(1) dest: job_wf_changes(2) split: if_splits)

lemma keeps_cron_delete: "keeps P (cron_delete env svc now owner all i)"
  unfolding cron_delete_def
  by (intro keeps_sbind keeps_cron_reads keeps_cron_wrappers keeps_write drop_job) assumption

lemma keeps_claim_run: "keeps P (claim_run env svc job r r' now)"
proof (rule keepsI)
  fix s assume "P s"
  then have "P (snd (insert_run env svc (cj_owner_id job) r now s))" by (intro keepsD [OF keeps_run_writes(1)])
  moreover have "keeps P (sbind (insert_run env svc (cj_owner_id job) r' now) (\<lambda>_. sret (Inl r' :: job_run + cron_job \<times> job_run)))"
    by (intro keeps_intros)
  ultimately show "P (snd (claim_run env svc job r r' now s))"
    by (auto simp: claim_run_def dest: keepsD split: prod.splits sum.splits cron_service_error.splits)
qed

lemma keeps_begin_run: "keeps P (begin_run env svc a b now owner all i)"
  unfolding begin_run_def
  by (intro keeps_sbind keeps_if keeps_cron_reads keeps_cron_wrappers keeps_run_writes keeps_read keeps_combinators keeps_claim_run)

lemma keeps_end_run: "keeps P (end_run env svc w now job r)"
  unfolding end_run_def by (intro keeps_intros)

lemma keeps_run_now: "keeps P (run_now env svc w d owner all i)"
  unfolding run_now_def by (intro keeps_intros keeps_begin_run keeps_end_run)

lemma keeps_recover: "keeps P (recover_rows env svc now rows)"
  by (induction rows) (auto intro!: keeps_intros)

lemma keeps_run_due: "list_all good jobs \<Longrightarrow> keeps P (run_due env svc w d now jobs)"
proof (induction jobs)
  case (Cons j js)
  then show ?case unfolding run_due.simps
    by (intro keeps_slift_bind keeps_sbind keeps_cron_save keeps_run_now) (auto intro: job_wf_changes(3))
qed (simp add: keeps_combinators)

lemma keeps_prune: "keeps P (prune_rows env svc rows)"
  by (induction rows) (auto intro!: keeps_intros keeps_write drop_run)

lemma cron_list_good: "P s \<Longrightarrow> cron_list env svc owner all s = (Inr js, t) \<Longrightarrow> list_all good js"
  by (fastforce simp: cron_list_def cron_db_def st_invert list_all_iff dest: collect_results_from restored_good)

lemma keeps_cron_list_bind:
  "(\<And>js. list_all good js \<Longrightarrow> keeps P (f js)) \<Longrightarrow> keeps P (sbind (cron_list env svc owner all) f)"
  by (rule keeps_sbind_result) (auto intro: keeps_intros dest: cron_list_good keepsD)

lemma keeps_cron_tick: "keeps P (cron_tick env svc w d now retention)"
proof -
  have "list_all good (filter p js)" if "list_all good js" for p js
    using that by (simp add: list_all_iff)
  then show ?thesis
    unfolding cron_tick_def recover_expired_def Let_def
    by (intro keeps_cron_list_bind keeps_sbind keeps_if keeps_cron_wrappers keeps_read keeps_recover keeps_run_due keeps_prune
        keeps_combinators)
qed

end

lemma active_jobs_simps [simp]:
  "active_jobs [] = []" "active_jobs (r # rs) = (if crr_active r then [crr_job_id r] else []) @ active_jobs rs"
  "active_jobs (xs @ ys) = active_jobs xs @ active_jobs ys"
  by (simp_all add: active_jobs_def)

lemma set_active_jobs: "set (active_jobs rows) = crr_job_id ` {r \<in> set rows. crr_active r}"
  by (auto simp: active_jobs_def)

lemma active_jobs_update:
  assumes "distinct (active_jobs rows)" and "distinct (map crr_id rows)"
    and "\<And>r z. b \<Longrightarrow> r \<in> set rows \<Longrightarrow> crr_id r = i \<Longrightarrow> z \<in> set rows \<Longrightarrow> crr_id z \<noteq> i \<Longrightarrow> crr_active z \<Longrightarrow>
      crr_job_id z \<noteq> crr_job_id r"
  shows "distinct (active_jobs (update_where (\<lambda>x. crr_id x = i) (\<lambda>x. x\<lparr>crr_payload := y, crr_active := b\<rparr>) rows))"
  using assms
proof (induction rows)
  case (Cons r rs)
  let ?f = "\<lambda>x. x\<lparr>crr_payload := y, crr_active := b\<rparr>"
  have IH: "distinct (active_jobs (update_where (\<lambda>x. crr_id x = i) ?f rs))"
    using Cons.prems by (intro Cons.IH) (auto split: if_splits)
  show ?case
  proof (cases "crr_id r = i")
    case True
    have "update_where (\<lambda>x. crr_id x = i) ?f rs = rs"
      using Cons.prems(2) True by (intro update_where_none) (auto simp: image_iff)
    moreover have "b \<Longrightarrow> crr_job_id r \<notin> set (active_jobs rs)"
      using Cons.prems(2) Cons.prems(3) [of r] True by (fastforce simp: set_active_jobs image_iff)
    ultimately show ?thesis using IH True by simp
  next
    case False
    have "crr_job_id r \<notin> set (active_jobs (update_where (\<lambda>x. crr_id x = i) ?f rs))" if "crr_active r"
    proof
      assume "crr_job_id r \<in> set (active_jobs (update_where (\<lambda>x. crr_id x = i) ?f rs))"
      then obtain x where x: "x \<in> set (update_where (\<lambda>x. crr_id x = i) ?f rs)" "crr_active x" "crr_job_id x = crr_job_id r"
        by (auto simp: set_active_jobs)
      from x(1) show False
      proof (cases rule: update_where_cases)
        case (1 z)
        then show ?thesis using x Cons.prems(3) [of z r] False that by auto
      next
        case 2
        then show ?thesis using x Cons.prems(1) that by (auto simp: set_active_jobs image_iff)
      qed
    qed
    then show ?thesis using IH False by simp
  qed
qed simp

lemma distinct_active_delete: "distinct (active_jobs rows) \<Longrightarrow> distinct (active_jobs (delete_where p rows))"
  by (induction rows) (auto simp: set_active_jobs)

lemma cron_ok_jobs:
  assumes "cron_ok svc jobs runs" and "cron_json_contract (crs_json svc)"
    and "job_wf (crs_lib svc) (crs_allowed_roots svc) j" and "cjs_job_to (crs_json svc) j = Inr x"
  shows "cj_id j \<notin> cjr_id ` set jobs \<Longrightarrow>
      cron_ok svc (jobs @ [\<lparr>cjr_id = cj_id j, cjr_owner_id = owner, cjr_payload = x\<rparr>]) runs"
    and "cron_ok svc (update_where (\<lambda>r. cjr_id r = cj_id j) (\<lambda>r. r\<lparr>cjr_payload := x\<rparr>) jobs) runs"
proof -
  have x: "cjs_job_from (crs_json svc) x = Inr j" using assms(2,4) by (simp add: cron_json_contract_def)
  show "cron_ok svc (jobs @ [\<lparr>cjr_id = cj_id j, cjr_owner_id = owner, cjr_payload = x\<rparr>]) runs"
    if "cj_id j \<notin> cjr_id ` set jobs"
    using that assms(1,3) x by (auto simp: cron_ok_def job_row_ok_def list_all_iff)
  have ids: "map cjr_id (update_where (\<lambda>r. cjr_id r = cj_id j) (\<lambda>r. r\<lparr>cjr_payload := x\<rparr>) jobs) = map cjr_id jobs"
    by (simp add: map_update_where)
  then have "cjr_id ` set (update_where (\<lambda>r. cjr_id r = cj_id j) (\<lambda>r. r\<lparr>cjr_payload := x\<rparr>) jobs) = cjr_id ` set jobs"
    by (metis list.set_map)
  moreover have "list_all (job_row_ok svc) (update_where (\<lambda>r. cjr_id r = cj_id j) (\<lambda>r. r\<lparr>cjr_payload := x\<rparr>) jobs)"
    using assms(1,3) x by (auto simp: cron_ok_def list_all_iff job_row_ok_def elim!: update_where_cases)
  ultimately show "cron_ok svc (update_where (\<lambda>r. cjr_id r = cj_id j) (\<lambda>r. r\<lparr>cjr_payload := x\<rparr>) jobs) runs"
    using assms(1) ids by (simp add: cron_ok_def)
qed

lemma cron_ok_runs:
  assumes "cron_ok svc (db_cron_jobs s) (db_cron_runs s)" and "cron_json_contract (crs_json svc)"
    and "cjs_run_to (crs_json svc) r = Inr y"
  shows "run_insertable r s \<Longrightarrow> cron_ok svc (db_cron_jobs s) (db_cron_runs s @
      [\<lparr>crr_id = jr_id r, crr_job_id = jr_job_id r, crr_owner_id = owner, crr_payload = y,
        crr_active = (\<not> run_is_terminal r), crr_created_at = now\<rparr>])"
    and "run_updatable r s \<Longrightarrow> cron_ok svc (db_cron_jobs s) (update_where (\<lambda>x. crr_id x = jr_id r)
      (\<lambda>x. x\<lparr>crr_payload := y, crr_active := (\<not> run_is_terminal r)\<rparr>) (db_cron_runs s))"
proof -
  have y: "cjs_run_from (crs_json svc) y = Inr r" using assms(2,3) by (simp add: cron_json_contract_def)
  show "cron_ok svc (db_cron_jobs s) (db_cron_runs s @
      [\<lparr>crr_id = jr_id r, crr_job_id = jr_job_id r, crr_owner_id = owner, crr_payload = y,
        crr_active = (\<not> run_is_terminal r), crr_created_at = now\<rparr>])" if "run_insertable r s"
    using that assms(1) y by (auto simp: cron_ok_def run_insertable_def run_row_ok_def set_active_jobs list_ex_iff)
  let ?rows = "update_where (\<lambda>x. crr_id x = jr_id r)
      (\<lambda>x. x\<lparr>crr_payload := y, crr_active := (\<not> run_is_terminal r)\<rparr>) (db_cron_runs s)"
  assume up: "run_updatable r s"
  have "map crr_id ?rows = map crr_id (db_cron_runs s)" by (simp add: map_update_where)
  moreover have "list_all (run_row_ok svc) ?rows"
    using assms(1) y by (auto simp: cron_ok_def list_all_iff run_row_ok_def elim!: update_where_cases)
  moreover have "list_all (\<lambda>r. crr_job_id r \<in> cjr_id ` set (db_cron_jobs s)) ?rows"
    using assms(1) by (auto simp: cron_ok_def list_all_iff elim!: update_where_cases)
  moreover have "distinct (active_jobs ?rows)"
    using assms(1) up
    by (intro active_jobs_update) (auto simp: cron_ok_def run_updatable_def list_all_iff list_ex_iff)
  ultimately show "cron_ok svc (db_cron_jobs s) ?rows"
    using assms(1) by (simp add: cron_ok_def)
qed

lemma cron_ok_drops:
  "cron_ok svc jobs runs \<Longrightarrow>
     cron_ok svc (delete_where (\<lambda>r. cjr_id r = i) jobs) (delete_where (\<lambda>r. crr_job_id r = i) runs)"
  "cron_ok svc jobs runs \<Longrightarrow> cron_ok svc jobs (delete_where (\<lambda>r. crr_id r = i) runs)"
  by (auto simp: cron_ok_def list_all_iff distinct_map_delete_where distinct_active_delete)

lemma cron_invariant_join:
  assumes p: "store_invariant P" and free: "\<And>s x. P (s\<lparr>db_cron_jobs := x\<rparr>) = P s" "\<And>s x. P (s\<lparr>db_cron_runs := x\<rparr>) = P s"
  shows "cron_invariant (\<lambda>s. P s \<and> cron_wf svc s) svc"
proof unfold_locales
  show "tickless (\<lambda>s. P s \<and> cron_wf svc s)"
    using store_invariant.tickless_P [OF p] by (simp add: tickless_def cron_wf_def)
qed (auto simp: store_invariant.audit_free [OF p] free cron_wf_def
       intro!: cron_ok_jobs cron_ok_runs cron_ok_drops, auto simp: cron_ok_def list_all_iff)


section \<open>What each operation does\<close>

lemma cron_db_outcome [st_invert]:
  "cron_db m s = (Inr x, t) \<longleftrightarrow> m s = (Inr x, t)"
  "cron_db m s = (Inl e, t) \<longleftrightarrow> (\<exists>d. m s = (Inl d, t) \<and> e = CronPersistence d)"
  by (simp_all add: cron_db_def st_invert)

lemma cron_audit_outcome [st_invert]:
  "cron_audit env e s = (r, t) \<longleftrightarrow> r = Inr () \<and> t = snd (audit_record env e s)"
  by (auto simp: cron_audit_def)

lemma audit_record_cron [simp]:
  "db_cron_jobs (snd (audit_record env e s)) = db_cron_jobs s" "db_cron_runs (snd (audit_record env e s)) = db_cron_runs s"
  using audit_record_frame [of env e s] by (metis (no_types, lifting) db.simps db.surjective prod.collapse tick_fields)+

lemma audit_change_outcome [st_invert]:
  "audit_change env now a b op s = (r, t) \<Longrightarrow> r = Inr () \<and> db_cron_jobs t = db_cron_jobs s \<and> db_cron_runs t = db_cron_runs s"
  by (auto simp: audit_change_def st_invert)

lemma restore_Inr [simp]:
  "job_restore svc x = Inr j \<longleftrightarrow> cjs_job_from (crs_json svc) x = Inr j"
  "run_restore svc x = Inr r \<longleftrightarrow> cjs_run_from (crs_json svc) x = Inr r"
  "job_to_json svc j = Inr x \<longleftrightarrow> cjs_job_to (crs_json svc) j = Inr x"
  "run_to_json svc r = Inr x \<longleftrightarrow> cjs_run_to (crs_json svc) r = Inr x"
  by (simp_all add: job_restore_def run_restore_def job_to_json_def run_to_json_def)

lemma cron_get_Inr:
  "cron_get env svc owner all i s = (Inr j, t) \<longleftrightarrow>
     env_fault env (db_tick s) = None \<and> t = tick s \<and>
     (\<exists>row. find (\<lambda>r. cjr_id r = i \<and> (all \<or> cjr_owner_id r = owner)) (db_cron_jobs s) = Some row \<and>
        cjs_job_from (crs_json svc) (cjr_payload row) = Inr j)"
  by (auto simp: cron_get_def st_invert)

lemma insert_run_Inr:
  "insert_run env svc owner r now s = (Inr u, t) \<longleftrightarrow>
     (\<exists>y. cjs_run_to (crs_json svc) r = Inr y \<and> env_fault env (db_tick s) = None \<and> run_insertable r s \<and>
        t = tick (s\<lparr>db_cron_runs := db_cron_runs s @
            [\<lparr>crr_id = jr_id r, crr_job_id = jr_job_id r, crr_owner_id = owner, crr_payload = y,
              crr_active = (\<not> run_is_terminal r), crr_created_at = now\<rparr>]\<rparr>))"
  by (auto simp: insert_run_def st_invert)

lemma insert_run_Inl:
  "insert_run env svc owner r now s = (Inl e, t) \<Longrightarrow> \<exists>d. e = CronPersistence d"
  by (auto simp: insert_run_def st_invert run_to_json_def map_err_def split: sum.splits)

lemma update_run_Inr:
  "update_run env svc r s = (Inr u, t) \<longleftrightarrow>
     (\<exists>y. cjs_run_to (crs_json svc) r = Inr y \<and> env_fault env (db_tick s) = None \<and> run_updatable r s \<and>
        t = tick (s\<lparr>db_cron_runs := update_where (\<lambda>x. crr_id x = jr_id r)
            (\<lambda>x. x\<lparr>crr_payload := y, crr_active := (\<not> run_is_terminal r)\<rparr>) (db_cron_runs s)\<rparr>))"
  by (auto simp: update_run_def st_invert)

lemma cron_save_Inr:
  "cron_save env svc j s = (Inr u, t) \<longleftrightarrow>
     (\<exists>x. cjs_job_to (crs_json svc) j = Inr x \<and> env_fault env (db_tick s) = None \<and>
        t = tick (s\<lparr>db_cron_jobs :=
          update_where (\<lambda>r. cjr_id r = cj_id j) (\<lambda>r. r\<lparr>cjr_payload := x\<rparr>) (db_cron_jobs s)\<rparr>))"
  by (auto simp: cron_save_def st_invert)

lemma claim_run_started:
  "claim_run env svc job r r' now s = (Inr (Inr (j, x)), t) \<Longrightarrow>
     j = job \<and> x = r \<and> insert_run env svc (cj_owner_id job) r now s = (Inr (), t)"
  by (auto simp: claim_run_def st_invert split: prod.splits sum.splits cron_service_error.splits if_splits
      dest: insert_run_Inl)

text \<open>A run that begins was refused by no active run, and is the only active run of its job.\<close>

lemma begin_run_started:
  assumes "begin_run env svc run_id skip_id now owner all i s = (Inr (Inr (job, r)), t)"
  shows "r = (run_leased run_id i now (now + seconds 30))\<lparr>jr_state := Running, jr_started_at := Some now\<rparr>"
    and "cron_get env svc owner all i s = (Inr job, tick s)"
    and "\<forall>x \<in> set (db_cron_runs s). crr_job_id x = i \<longrightarrow> \<not> crr_active x"
    and "\<exists>y. cjs_run_to (crs_json svc) r = Inr y \<and> db_cron_runs t = db_cron_runs s @
      [\<lparr>crr_id = run_id, crr_job_id = i, crr_owner_id = cj_owner_id job, crr_payload = y,
        crr_active = True, crr_created_at = now\<rparr>]"
    and "db_cron_jobs t = db_cron_jobs s"
proof -
  let ?r = "(run_leased run_id i now (now + seconds 30))\<lparr>jr_state := Running, jr_started_at := Some now\<rparr>"
  let ?e = "with_target (env_uuid_str env i) (audit_event_new now (env_uuid_str env owner) (OtherAction ''cron_run'') Success)"
  have start: "run_start now (run_leased run_id i now (now + seconds 30)) = Inr ?r"
    by (simp add: run_start_def run_leased_def)
  let ?s2 = "\<lambda>s1. tick (snd (audit_record env ?e s1))"
  from assms obtain s1 job' where get: "cron_get env svc owner all i s = (Inr job', s1)"
    and claim: "claim_run env svc job' ?r (run_skipped skip_id i now) now (?s2 s1) = (Inr (Inr (job, r)), t)"
    unfolding begin_run_def by (auto simp: st_invert start)
  from claim have started: "r = ?r" and job: "job' = job"
    and ins: "insert_run env svc (cj_owner_id job) ?r now (?s2 s1) = (Inr (), t)"
    using claim_run_started by blast+
  have s1: "s1 = tick s" using get by (simp add: cron_get_Inr)
  show "r = ?r" by (rule started)
  show "cron_get env svc owner all i s = (Inr job, tick s)" using get job s1 by simp
  have t: "\<not> run_is_terminal ?r" "jr_id ?r = run_id" "jr_job_id ?r = i"
    by (simp_all add: run_is_terminal_def state_terminal_def run_leased_def)
  show "\<forall>x \<in> set (db_cron_runs s). crr_job_id x = i \<longrightarrow> \<not> crr_active x"
    using ins t by (auto simp: insert_run_Inr s1 run_insertable_def list_ex_iff)
  show "\<exists>y. cjs_run_to (crs_json svc) r = Inr y \<and> db_cron_runs t = db_cron_runs s @
      [\<lparr>crr_id = run_id, crr_job_id = i, crr_owner_id = cj_owner_id job, crr_payload = y,
        crr_active = True, crr_created_at = now\<rparr>]" "db_cron_jobs t = db_cron_jobs s"
    using ins t started by (auto simp: insert_run_Inr s1)
qed


text \<open>With an active run of the job, none is started: what is recorded is a skipped one.\<close>

lemma active_row_decodes:
  assumes "cron_wf svc s" and "x \<in> set (db_cron_runs s)"
  shows "run_is_active svc x = crr_active x"
  using assms by (auto simp: cron_wf_def cron_ok_def list_all_iff run_row_ok_def run_is_active_def split: sum.splits)

lemma claim_run_skipped:
  assumes "claim_run env svc job r' skipped now s = (Inr (Inl x), t)"
  shows "\<exists>s'. x = skipped \<and> insert_run env svc (cj_owner_id job) skipped now s' = (Inr (), t) \<and>
      db_cron_runs s' = db_cron_runs s \<and> db_cron_jobs s' = db_cron_jobs s"
proof -
  obtain o1 s' where ins: "insert_run env svc (cj_owner_id job) r' now s = (o1, s')" by force
  with assms obtain m where m: "o1 = Inl (CronPersistence m)"
    by (auto simp: claim_run_def split: sum.splits cron_service_error.splits)
  then have "x = skipped" "insert_run env svc (cj_owner_id job) skipped now s' = (Inr (), t)"
    using assms ins by (auto simp: claim_run_def sbind_Inr split: if_splits)
  moreover have "s' = s \<or> s' = tick s"
    using ins m by (auto simp: insert_run_def sbind_Inl cron_db_outcome sql_write_Inl)
  ultimately show ?thesis by auto
qed

lemma begin_run_skips:
  assumes "begin_run env svc run_id skip_id now owner all i s = (Inr (Inl r), t)"
  shows "jr_state r = Skipped \<and> jr_job_id r = i \<and> db_cron_jobs t = db_cron_jobs s \<and>
    (\<exists>row. db_cron_runs t = db_cron_runs s @ [row] \<and> crr_id row = jr_id r \<and> crr_job_id row = i \<and> \<not> crr_active row)"
proof -
  let ?e = "with_target (env_uuid_str env i) (audit_event_new now (env_uuid_str env owner) (OtherAction ''cron_run'') Success)"
  have skip: "jr_state (run_skipped a i now) = Skipped" "jr_id (run_skipped a i now) = a"
    "jr_job_id (run_skipped a i now) = i" "run_is_terminal (run_skipped a i now)" for a
    by (simp_all add: run_skipped_def run_is_terminal_def state_terminal_def)
  have start: "run_start now (run_leased run_id i now (now + seconds 30)) =
      Inr ((run_leased run_id i now (now + seconds 30))\<lparr>jr_state := Running, jr_started_at := Some now\<rparr>)"
    by (simp add: run_start_def run_leased_def)
  from assms obtain s1 job where get: "cron_get env svc owner all i s = (Inr job, s1)"
    and or: "insert_run env svc (cj_owner_id job) (run_skipped run_id i now) now (tick (snd (audit_record env ?e s1))) = (Inr (), t) \<and>
        r = run_skipped run_id i now \<or>
      (\<exists>x. claim_run env svc job x (run_skipped skip_id i now) now (tick (snd (audit_record env ?e s1))) = (Inr (Inl r), t))"
    unfolding begin_run_def by (auto simp: st_invert start)
  have s1: "s1 = tick s" using get by (simp add: cron_get_Inr)
  from or obtain a s' where "r = run_skipped a i now" and "insert_run env svc (cj_owner_id job) r now s' = (Inr (), t)"
    and "db_cron_runs s' = db_cron_runs s" "db_cron_jobs s' = db_cron_jobs s"
    using claim_run_skipped by (fastforce simp: s1)
  then show ?thesis using skip by (auto simp: insert_run_Inr)
qed

lemma begin_run_no_overlap:
  assumes "cron_wf svc s" and "x \<in> set (db_cron_runs s)" and "crr_job_id x = i" and "crr_active x"
    and "begin_run env svc run_id skip_id now owner all i s = (Inr begun, t)"
  shows "\<exists>r. begun = Inl r \<and> jr_state r = Skipped"
proof (cases begun)
  case (Inl r)
  then show ?thesis using begin_run_skips assms(5) by blast
next
  case (Inr b)
  then show ?thesis using assms begin_run_started(3) [of env svc run_id skip_id now owner all i s "fst b" "snd b" t] by simp
qed

section \<open>Recovery\<close>

text \<open>A row is settled at an instant when its run is over or its lease lasts.\<close>

definition settled :: "cron_service \<Rightarrow> instant \<Rightarrow> cron_run_row \<Rightarrow> bool" where
  "settled svc now row \<longleftrightarrow>
     (case cjs_run_from (crs_json svc) (crr_payload row) of
        Inl _ \<Rightarrow> False
      | Inr r \<Rightarrow> run_is_terminal r \<or> \<not> jr_lease_until r < now)"

lemma run_interrupt_Inr:
  "run_interrupt now r = Inr r' \<longleftrightarrow> \<not> run_is_terminal r \<and> r' = r\<lparr>jr_state := Interrupted, jr_finished_at := Some now\<rparr>"
  by (auto simp: run_method_defs)

text \<open>The cron tables alone are in order after every cron operation.\<close>

interpretation cron: cron_invariant "\<lambda>s. True \<and> cron_wf svc s" svc for svc
  by (rule cron_invariant_join) (simp_all add: store_invariant_def tickless_def)

lemma cron_wf_kept: "keeps (\<lambda>s. True \<and> cron_wf svc s) m \<Longrightarrow> m s = (r, t) \<Longrightarrow> cron_wf svc s \<Longrightarrow> cron_wf svc t"
  using keeps_run [of "\<lambda>s. True \<and> cron_wf svc s" m s r t] by simp

lemma update_where_settled:
  assumes "cron_wf svc s" and "cjs_run_to (crs_json svc) r = Inr y" and "run_is_terminal r" and "crr_id row = jr_id r"
    and "\<And>x. x \<in> set (db_cron_runs s) \<Longrightarrow> x \<in> set (row # rows) \<or> settled svc now x"
    and "x \<in> set (update_where (\<lambda>x. crr_id x = jr_id r) (\<lambda>x. x\<lparr>crr_payload := y, crr_active := b\<rparr>) (db_cron_runs s))"
  shows "x \<in> set rows \<or> settled svc now x"
  using assms(6)
proof (cases rule: update_where_cases)
  case (1 z)
  have "cjs_run_from (crs_json svc) y = Inr r" using assms(1,2) by (simp add: cron_wf_def cron_json_contract_def)
  then show ?thesis using 1 assms(3) by (simp add: settled_def)
next
  case 2
  then show ?thesis using assms(4) assms(5) [of x] by auto
qed

lemma recover_step:
  assumes "(if \<not> run_is_terminal r \<and> jr_lease_until r < now
            then sbind (slift (validation (run_interrupt now r))) (update_run env svc) else sret ()) s = (Inr (), s')"
    and "cron_wf svc s" and "cjs_run_from (crs_json svc) (crr_payload row) = Inr r" and "jr_id r = crr_id row"
    and "\<And>x. x \<in> set (db_cron_runs s) \<Longrightarrow> x \<in> set (row # rows) \<or> settled svc now x"
  shows "cron_wf svc s'" and "x \<in> set (db_cron_runs s') \<Longrightarrow> x \<in> set rows \<or> settled svc now x"
    and "x \<in> set (db_cron_runs s') \<Longrightarrow> crr_active x \<Longrightarrow> x \<in> set (db_cron_runs s)"
    and "db_cron_jobs s' = db_cron_jobs s" and "map crr_job_id (db_cron_runs s') = map crr_job_id (db_cron_runs s)"
    and "map crr_id (db_cron_runs s') = map crr_id (db_cron_runs s)"
proof -
  let ?r = "r\<lparr>jr_state := Interrupted, jr_finished_at := Some now\<rparr>"
  have over: "run_is_terminal ?r" "jr_id ?r = jr_id r" by (simp_all add: run_is_terminal_def state_terminal_def)
  consider (fine) "run_is_terminal r \<or> \<not> jr_lease_until r < now" "s' = s"
    | (expired) y where "cjs_run_to (crs_json svc) ?r = Inr y" "update_run env svc ?r s = (Inr (), s')"
        "s' = tick (s\<lparr>db_cron_runs := update_where (\<lambda>x. crr_id x = jr_id r)
            (\<lambda>x. x\<lparr>crr_payload := y, crr_active := False\<rparr>) (db_cron_runs s)\<rparr>)"
    using assms(1) by (auto simp: st_invert update_run_Inr run_interrupt_Inr over)
  then have "cron_wf svc s' \<and> (x \<in> set (db_cron_runs s') \<longrightarrow> x \<in> set rows \<or> settled svc now x) \<and>
      (x \<in> set (db_cron_runs s') \<longrightarrow> crr_active x \<longrightarrow> x \<in> set (db_cron_runs s)) \<and>
      db_cron_jobs s' = db_cron_jobs s \<and> map crr_job_id (db_cron_runs s') = map crr_job_id (db_cron_runs s) \<and>
      map crr_id (db_cron_runs s') = map crr_id (db_cron_runs s)"
  proof cases
    case fine
    from fine have "settled svc now row" using assms(3) by (simp add: settled_def)
    then show ?thesis using fine(2) assms(2) assms(5) by auto
  next
    case expired
    have "cron_wf svc s'" using cron_wf_kept [OF cron.keeps_run_writes(2) expired(2) assms(2)] .
    then show ?thesis
      using update_where_settled [OF assms(2) expired(1) over(1) _ assms(5), of x False] assms(4)
      by (auto simp: expired(3) map_update_where elim!: update_where_cases)
  qed
  then show "cron_wf svc s'" "x \<in> set (db_cron_runs s') \<Longrightarrow> x \<in> set rows \<or> settled svc now x"
    "x \<in> set (db_cron_runs s') \<Longrightarrow> crr_active x \<Longrightarrow> x \<in> set (db_cron_runs s)"
    "db_cron_jobs s' = db_cron_jobs s" "map crr_job_id (db_cron_runs s') = map crr_job_id (db_cron_runs s)"
    "map crr_id (db_cron_runs s') = map crr_id (db_cron_runs s)" by blast+
qed

lemma recover_rows_settles:
  assumes "recover_rows env svc now rows s = (Inr u, t)" and "cron_wf svc s"
    and "\<And>x. x \<in> set (db_cron_runs s) \<Longrightarrow> x \<in> set rows \<or> settled svc now x"
    and "list_all (run_row_ok svc) rows"
  shows "(\<forall>x \<in> set (db_cron_runs t). settled svc now x \<and> (crr_active x \<longrightarrow> x \<in> set (db_cron_runs s))) \<and> db_cron_jobs t = db_cron_jobs s \<and>
    map crr_job_id (db_cron_runs t) = map crr_job_id (db_cron_runs s) \<and>
    map crr_id (db_cron_runs t) = map crr_id (db_cron_runs s) \<and> cron_wf svc t"
  using assms
proof (induction rows arbitrary: s)
  case (Cons row rows)
  obtain r s' where dec: "cjs_run_from (crs_json svc) (crr_payload row) = Inr r"
    and step: "(if \<not> run_is_terminal r \<and> jr_lease_until r < now
            then sbind (slift (validation (run_interrupt now r))) (update_run env svc) else sret ()) s = (Inr (), s')"
    and rest: "recover_rows env svc now rows s' = (Inr u, t)"
    using Cons.prems(1) by (auto simp: sbind_Inr)
  have ident: "jr_id r = crr_id row" using Cons.prems(4) dec by (simp add: run_row_ok_def)
  note s' = recover_step [OF step Cons.prems(2) dec ident Cons.prems(3)]
  show ?case
    using Cons.IH [OF rest s'(1)] s'(2-6) Cons.prems(4) by simp
qed simp

lemma recover_expired_settles:
  assumes "recover_expired env svc now s = (Inr u, t)" and "cron_wf svc s"
  shows "x \<in> set (db_cron_runs t) \<Longrightarrow> settled svc now x"
    and "x \<in> set (db_cron_runs t) \<Longrightarrow> crr_active x \<Longrightarrow> x \<in> set (db_cron_runs s)" and "db_cron_jobs t = db_cron_jobs s"
    and "map crr_job_id (db_cron_runs t) = map crr_job_id (db_cron_runs s)"
    and "map crr_id (db_cron_runs t) = map crr_id (db_cron_runs s)" and "cron_wf svc t"
proof -
  have "cron_wf svc (tick s)" using assms(2) by (simp add: cron_wf_def)
  moreover have "recover_rows env svc now (db_cron_runs s) (tick s) = (Inr u, t)"
    using assms(1) by (auto simp: recover_expired_def st_invert)
  moreover have "list_all (run_row_ok svc) (db_cron_runs s)" using assms(2) by (simp add: cron_wf_def cron_ok_def)
  ultimately show "x \<in> set (db_cron_runs t) \<Longrightarrow> settled svc now x"
    "x \<in> set (db_cron_runs t) \<Longrightarrow> crr_active x \<Longrightarrow> x \<in> set (db_cron_runs s)" "db_cron_jobs t = db_cron_jobs s"
    "map crr_job_id (db_cron_runs t) = map crr_job_id (db_cron_runs s)"
    "map crr_id (db_cron_runs t) = map crr_id (db_cron_runs s)" "cron_wf svc t"
    using recover_rows_settles [of env svc now "db_cron_runs s" "tick s" u t] by auto
qed


section \<open>The scheduler\<close>

text \<open>A run does not touch the jobs.\<close>

lemma run_now_jobs: "run_now env svc w d owner all i s = (Inr r, t) \<Longrightarrow> db_cron_jobs t = db_cron_jobs s"
proof -
  assume "run_now env svc w d owner all i s = (Inr r, t)"
  then obtain begun s1 where b: "begin_run env svc (rd_run_id d) (rd_skip_id d) (rd_begin d) owner all i s = (Inr begun, s1)"
    and e: "(case begun of Inl r \<Rightarrow> sret r | Inr (job, r) \<Rightarrow> end_run env svc w (rd_end d) job r) s1 = (Inr r, t)"
    by (auto simp: run_now_def sbind_Inr)
  show ?thesis
  proof (cases begun)
    case (Inl x)
    then show ?thesis using b e begin_run_skips by fastforce
  next
    case (Inr p)
    then obtain job x where "begun = Inr (job, x)" by (cases p) simp
    then have "db_cron_jobs s1 = db_cron_jobs s" and "end_run env svc w (rd_end d) job x s1 = (Inr r, t)"
      using b e begin_run_started(5) by (fastforce, simp)
    then show ?thesis by (auto simp: end_run_def st_invert update_run_Inr)
  qed
qed

definition due_row :: "cron_service \<Rightarrow> instant \<Rightarrow> cron_job_row \<Rightarrow> bool" where
  "due_row svc now row \<longleftrightarrow>
     (case cjs_job_from (crs_json svc) (cjr_payload row) of Inl _ \<Rightarrow> False | Inr j \<Rightarrow> is_due now j)"

lemma advanced_row_not_due:
  assumes "cron_lib_contract (crs_lib svc)" and "cron_json_contract (crs_json svc)"
    and "job_advance (crs_lib svc) now j = Inr j'" and "cjs_job_to (crs_json svc) j' = Inr x"
  shows "\<not> due_row svc now (r\<lparr>cjr_payload := x\<rparr>)"
proof -
  have "cjs_job_from (crs_json svc) x = Inr j'" using assms(2,4) by (simp add: cron_json_contract_def)
  moreover have "now < cj_next_run_at j'"
    using assms(1,3) by (auto simp: job_changes_Inr dest: next_after_later)
  ultimately show ?thesis by (simp add: due_row_def is_due_def)
qed

lemma run_due_advances:
  assumes "run_due env svc w d now jobs s = (Inr u, t)" and "cron_lib_contract (crs_lib svc)"
    and "cron_json_contract (crs_json svc)"
    and "\<And>row. row \<in> set (db_cron_jobs s) \<Longrightarrow> due_row svc now row \<Longrightarrow> cjr_id row \<in> cj_id ` set jobs"
  shows "(\<forall>row \<in> set (db_cron_jobs t). \<not> due_row svc now row) \<and> map cjr_id (db_cron_jobs t) = map cjr_id (db_cron_jobs s)"
  using assms(1,4)
proof (induction jobs arbitrary: s)
  case (Cons j js)
  from Cons.prems(1) obtain j' x s1 r s2 where adv: "job_advance (crs_lib svc) now j = Inr j'"
    and x: "cjs_job_to (crs_json svc) j' = Inr x"
    and s1: "s1 = tick (s\<lparr>db_cron_jobs :=
          update_where (\<lambda>r. cjr_id r = cj_id j') (\<lambda>r. r\<lparr>cjr_payload := x\<rparr>) (db_cron_jobs s)\<rparr>)"
    and run: "run_now env svc w (d (cj_id j')) (cj_owner_id j') True (cj_id j') s1 = (Inr r, s2)"
    and rest: "run_due env svc w d now js s2 = (Inr u, t)"
    by (auto simp: sbind_Inr cron_save_Inr)
  have ids: "cj_id j' = cj_id j" using job_ids(4) [OF adv] by simp
  have s2: "db_cron_jobs s2 = update_where (\<lambda>r. cjr_id r = cj_id j) (\<lambda>r. r\<lparr>cjr_payload := x\<rparr>) (db_cron_jobs s)"
    using run_now_jobs [OF run] ids by (simp add: s1)
  have "cjr_id row \<in> cj_id ` set js" if "row \<in> set (db_cron_jobs s2)" "due_row svc now row" for row
    using that(1) unfolding s2
  proof (cases rule: update_where_cases)
    case (1 r)
    then show ?thesis using that(2) advanced_row_not_due [OF assms(2,3) adv x] by simp
  next
    case 2
    then show ?thesis using Cons.prems(2) [of row] that(2) by auto
  qed
  from Cons.IH [OF rest this] show ?case by (simp add: s2 map_update_where)
qed auto

lemma prune_rows_jobs: "prune_rows env svc rows s = (Inr u, t) \<Longrightarrow> db_cron_jobs t = db_cron_jobs s"
  by (induction rows arbitrary: s) (auto simp: sbind_Inr st_invert split: if_splits)

text \<open>After a tick that succeeds no job is due, and it has counted the jobs that were.\<close>

lemma cron_tick_advances:
  assumes "cron_tick env svc w d now retention s = (Inr n, t)" and "cron_lib_contract (crs_lib svc)" and "cron_wf svc s"
  shows "\<forall>row \<in> set (db_cron_jobs t). \<not> due_row svc now row"
    and "n = length (filter (due_row svc now) (db_cron_jobs s))"
proof -
  from assms(1) obtain s1 jobs s2 s3 where rec: "recover_expired env svc now s = (Inr (), s1)"
    and l: "cron_list env svc 0 True s1 = (Inr jobs, s2)"
    and due: "run_due env svc w d now (filter (is_due now) jobs) s2 = (Inr (), s3)"
    and prune: "(if retention > 0
            then sbind (cron_db (sql_read env (\<lambda>s.
                   filter (\<lambda>r. crr_created_at r < now - days retention) (db_cron_runs s)))) (prune_rows env svc)
            else sret ()) s3 = (Inr (), t)"
    and n: "n = length (filter (is_due now) jobs)"
    by (auto simp: cron_tick_def sbind_Inr Let_def)
  have jobs1: "db_cron_jobs s1 = db_cron_jobs s" using recover_expired_settles(3) [OF rec assms(3)] .
  let ?rows = "sort_key (\<lambda>r. env_uuid_str env (cjr_id r)) (db_cron_jobs s)"
  have rows: "collect_results (\<lambda>r. validation (job_restore svc (cjr_payload r))) ?rows = Inr jobs" "s2 = tick s1"
    using l by (auto simp: cron_list_def st_invert jobs1)
  then have all2: "list_all2 (\<lambda>r j. cjs_job_from (crs_json svc) (cjr_payload r) = Inr j) ?rows jobs"
    by (simp add: collect_results_Inr)
  have ids: "cj_id j = cjr_id row" if "cjs_job_from (crs_json svc) (cjr_payload row) = Inr j" "row \<in> set (db_cron_jobs s)" for row j
    using assms(3) that by (auto simp: cron_wf_def cron_ok_def list_all_iff job_row_ok_def)
  have "cjr_id row \<in> cj_id ` set (filter (is_due now) jobs)" if "row \<in> set (db_cron_jobs s2)" "due_row svc now row" for row
  proof -
    have "row \<in> set (db_cron_jobs s)" using that(1) rows(2) jobs1 by simp
    moreover then obtain j where j: "j \<in> set jobs" "cjs_job_from (crs_json svc) (cjr_payload row) = Inr j"
      using collect_results_to [OF rows(1), of row] by auto
    ultimately show ?thesis using that(2) ids [of row j] by (force simp: due_row_def)
  qed
  from run_due_advances [OF due assms(2) _ this] assms(3)
  have "\<forall>row \<in> set (db_cron_jobs s3). \<not> due_row svc now row" by (simp add: cron_wf_def)
  moreover have "db_cron_jobs t = db_cron_jobs s3"
    using prune by (auto simp: st_invert dest: prune_rows_jobs split: if_splits)
  ultimately show "\<forall>row \<in> set (db_cron_jobs t). \<not> due_row svc now row" by simp
  have "length (filter (is_due now) jobs) = length (filter (due_row svc now) ?rows)"
    using all2 by (induction rule: list_all2_induct) (auto simp: due_row_def)
  also have "\<dots> = length (filter (due_row svc now) (db_cron_jobs s))"
    by (simp add: filter_sort)
  finally show "n = length (filter (due_row svc now) (db_cron_jobs s))" using n by simp
qed

section \<open>Concurrent operations\<close>

text \<open>The outcome of a run is an end state with bounded output, and it is what is stored.\<close>

lemma execute_Inr:
  assumes "execute w now job r = Inr r'"
  shows "run_step r r'" and "run_is_terminal r'" and "jr_state r' \<noteq> Skipped \<and> jr_state r' \<noteq> Interrupted"
    and "length (jr_stdout r') \<le> max 65536 (length (jr_stdout r))" and "length (jr_stderr r') \<le> max 65536 (length (jr_stderr r))"
proof -
  have cap: "length (cap x) \<le> 65536" "cap [] = []" for x by (simp_all add: cap_def)
  let ?done = "\<lambda>c out err. length out \<le> 65536 \<and> length err \<le> 65536 \<and> run_complete now c out err r = Inr r'"
  have "(\<exists>c out err. length out \<le> 65536 \<and> length err \<le> 65536 \<and> run_complete now c out err r = Inr r') \<or>
      run_timeout now r = Inr r'"
  proof (cases "cj_kind job")
    case (Command a b c)
    show ?thesis
    proof (cases "cw_command w a b (wd_path c) (cj_timeout_secs job)")
      case (CommandExited code out err)
      then show ?thesis using assms Command cap(1) [of out] cap(1) [of err] by (auto simp: execute_def)
    next
      case (CommandFailed e)
      then have "?done (- 1) [] (cap (as_bytes e))" using assms Command cap(1) [of "as_bytes e"] by (simp add: execute_def)
      then show ?thesis by blast
    qed (use assms Command in \<open>auto simp: execute_def\<close>)
  next
    case (Http a b)
    show ?thesis
    proof (cases "cw_http w a b (cj_timeout_secs job)")
      case (HttpResponse st body)
      then have "run_complete now (if http_is_success st then 0 else uint st)
          (case body of None \<Rightarrow> [] | Some b \<Rightarrow> cap b) [] r = Inr r'" using assms Http by (auto simp: execute_def)
      moreover have "length (case body of None \<Rightarrow> [] | Some b \<Rightarrow> cap b) \<le> 65536" by (simp add: cap split: option.splits)
      ultimately have "?done (if http_is_success st then 0 else uint st) (case body of None \<Rightarrow> [] | Some b \<Rightarrow> cap b) []"
        by simp
      then show ?thesis by blast
    next
      case (HttpFailed e)
      then have "?done (- 1) [] (cap (as_bytes e))" using assms Http cap(1) [of "as_bytes e"] by (simp add: execute_def)
      then show ?thesis by blast
    qed (use assms Http in \<open>auto simp: execute_def\<close>)
  qed
  then show "run_step r r'" "run_is_terminal r'" "jr_state r' \<noteq> Skipped \<and> jr_state r' \<noteq> Interrupted"
    "length (jr_stdout r') \<le> max 65536 (length (jr_stdout r))" "length (jr_stderr r') \<le> max 65536 (length (jr_stderr r))"
    by (auto intro: run_step.intros simp: run_method_defs cap_def split: if_splits)
qed

text \<open>
  The lease of a run lasts 30 seconds, its work up to the timeout of the job. Once the lease is
  over, recovery ends the run in the store while its work goes on, and the job can begin again.
\<close>

lemma begin_run_free:
  assumes "cron_wf svc s" and "env_fault env = (\<lambda>_. None)" and "\<And>r. \<not> isl (cjs_run_to (crs_json svc) r)"
    and "cron_get env svc owner all i s = (Inr job, s1)"
    and "\<forall>x \<in> set (db_cron_runs s). crr_job_id x = i \<longrightarrow> \<not> crr_active x"
    and "run_id \<notin> crr_id ` set (db_cron_runs s)"
  shows "\<exists>r t. begin_run env svc run_id skip_id now owner all i s = (Inr (Inr (job, r)), t) \<and> jr_state r = Running"
proof -
  let ?r = "(run_leased run_id i now (now + seconds 30))\<lparr>jr_state := Running, jr_started_at := Some now\<rparr>"
  let ?e = "with_target (env_uuid_str env i) (audit_event_new now (env_uuid_str env owner) (OtherAction ''cron_run'') Success)"
  let ?s2 = "tick (snd (audit_record env ?e s1))"
  have s1: "s1 = tick s" using assms(4) by (simp add: cron_get_Inr)
  have start: "run_start now (run_leased run_id i now (now + seconds 30)) = Inr ?r"
    by (simp add: run_start_def run_leased_def)
  have idle: "\<not> list_ex (run_is_active svc) (filter (\<lambda>r. crr_job_id r = i) (db_cron_runs s))"
    using active_row_decodes [OF assms(1)] assms(5) by (auto simp: list_ex_iff)
  obtain y where y: "cjs_run_to (crs_json svc) ?r = Inr y" using assms(3) [of ?r] sum.collapse(2) by metis
  have "i \<in> cjr_id ` set (db_cron_jobs s)" using assms(4) by (auto simp: cron_get_Inr dest!: find_SomeD)
  then have ok: "run_insertable ?r ?s2"
    using assms(5,6) by (auto simp: run_insertable_def s1 run_leased_def list_ex_iff)
  obtain t where ins: "insert_run env svc (cj_owner_id job) ?r now ?s2 = (Inr (), t)"
    using y ok assms(2) insert_run_Inr [of env svc "cj_owner_id job" ?r now ?s2 "()"] by auto
  then have "claim_run env svc job ?r (run_skipped skip_id i now) now ?s2 = (Inr (Inr (job, ?r)), t)"
    by (simp add: claim_run_def)
  moreover have "begin_run env svc run_id skip_id now owner all i s =
      claim_run env svc job ?r (run_skipped skip_id i now) now ?s2"
    using assms(2,4) idle by (simp add: begin_run_def sbind_def cron_audit_def cron_db_def smap_err_def sql_read_def validation_def start s1)
  ultimately show ?thesis by auto
qed

lemma expired_lease_begins_again:
  assumes "cron_wf svc s" and "env_fault env = (\<lambda>_. None)" and "\<And>r. \<not> isl (cjs_run_to (crs_json svc) r)"
    and "begin_run env svc a b now owner all i s = (Inr (Inr (job, r)), t)"
    and "recover_expired env svc later t = (Inr (), u)" and "now + seconds 30 < later"
    and "c \<notin> crr_id ` set (db_cron_runs u)"
  shows "\<exists>r' v. begin_run env svc c d later owner all i u = (Inr (Inr (job, r')), v) \<and>
    jr_state r = Running \<and> jr_state r' = Running"
proof -
  have t: "cron_wf svc t" using cron_wf_kept [OF cron.keeps_begin_run assms(4,1)] .
  note begun = begin_run_started [OF assms(4)]
  note rec = recover_expired_settles [OF assms(5) t]
  obtain y where y: "cjs_run_to (crs_json svc) r = Inr y" and rows: "db_cron_runs t = db_cron_runs s @
      [\<lparr>crr_id = a, crr_job_id = i, crr_owner_id = cj_owner_id job, crr_payload = y, crr_active = True, crr_created_at = now\<rparr>]"
    using begun(4) by blast
  have dec: "cjs_run_from (crs_json svc) y = Inr r" using y t by (simp add: cron_wf_def cron_json_contract_def)
  have r: "jr_lease_until r = now + seconds 30" "\<not> run_is_terminal r" "jr_state r = Running"
    by (simp_all add: begun(1) run_leased_def run_is_terminal_def state_terminal_def)
  have "\<not> crr_active x" if "x \<in> set (db_cron_runs u)" "crr_job_id x = i" for x
  proof
    assume act: "crr_active x"
    then have "x \<in> set (db_cron_runs t)" by (rule rec(2) [OF that(1)])
    then consider "x \<in> set (db_cron_runs s)" | "crr_payload x = y" by (fastforce simp: rows)
    then have "crr_payload x = y" using begun(3) act that(2) by cases auto
    then show False using rec(1) [OF that(1)] dec r assms(6) by (simp add: settled_def)
  qed
  moreover have "cron_get env svc owner all i u = (Inr job, tick u)"
    using assms(2) rec(3) begun(2,5) by (simp add: cron_get_Inr)
  ultimately show ?thesis
    using begin_run_free [OF rec(6) assms(2,3) _ _ assms(7), of owner all i job "tick u" d later] r(3) by fastforce
qed

text \<open>The copy that was begun is then written over the interrupted one: an end state changes.\<close>

lemma end_run_overwrites:
  assumes "cron_wf svc u" and "end_run env svc w now job r u = (Inr r', v)"
    and "x \<in> set (db_cron_runs u)" and "crr_id x = jr_id r"
  shows "run_is_terminal r'" and "jr_state r' \<in> {Succeeded, Failed, TimedOut}"
    and "\<exists>z \<in> set (db_cron_runs v). crr_id z = crr_id x \<and> cjs_run_from (crs_json svc) (crr_payload z) = Inr r'"
proof -
  from assms(2) obtain y where ex: "execute w now job r = Inr r'" and y: "cjs_run_to (crs_json svc) r' = Inr y"
    and v: "db_cron_runs v = update_where (\<lambda>x. crr_id x = jr_id r')
            (\<lambda>x. x\<lparr>crr_payload := y, crr_active := (\<not> run_is_terminal r')\<rparr>) (db_cron_runs u)"
    by (auto simp: end_run_def st_invert update_run_Inr)
  note ex' = execute_Inr [OF ex]
  show "run_is_terminal r'" by (rule ex'(2))
  show "jr_state r' \<in> {Succeeded, Failed, TimedOut}"
    using ex'(2,3) by (cases "jr_state r'") (simp_all add: run_is_terminal_def state_terminal_def)
  have "jr_id r' = jr_id r" using run_ids [OF ex'(1)] by simp
  moreover have "cjs_run_from (crs_json svc) y = Inr r'"
    using y assms(1) by (simp add: cron_wf_def cron_json_contract_def)
  ultimately have "x\<lparr>crr_payload := y, crr_active := (\<not> run_is_terminal r')\<rparr> \<in> set (db_cron_runs v)"
    using assms(3,4) by (force simp: v set_update_where)
  then show "\<exists>z \<in> set (db_cron_runs v). crr_id z = crr_id x \<and> cjs_run_from (crs_json svc) (crr_payload z) = Inr r'"
    using \<open>cjs_run_from (crs_json svc) y = Inr r'\<close> by (intro bexI) simp_all
qed

text \<open>
  A tick saves the job it has read before the runs of the jobs ahead of it. A job that was
  switched off in the meantime is switched on again.
\<close>

lemma find_update_payload:
  "find (\<lambda>r. cjr_id r = i \<and> p (cjr_owner_id r)) (update_where (\<lambda>r. cjr_id r = i) (\<lambda>r. r\<lparr>cjr_payload := x\<rparr>) rows) =
     map_option (\<lambda>r. r\<lparr>cjr_payload := x\<rparr>) (find (\<lambda>r. cjr_id r = i \<and> p (cjr_owner_id r)) rows)"
  by (induction rows) auto

lemma stale_save_enables:
  assumes "cron_wf svc s" and "cron_get env svc owner all i s = (Inr job, s1)" and "cj_enabled job"
    and "set_enabled env svc now owner all i False s1 = (Inr off, t)"
    and "job_advance (crs_lib svc) due job = Inr job'" and "cron_save env svc job' t = (Inr (), u)"
    and "env_fault env (db_tick u) = None"
  shows "\<not> cj_enabled off" and "cron_get env svc owner all i u = (Inr job', tick u)" and "cj_enabled job'"
proof -
  have good: "cj_id job = i"
    using cron.cron_get_good [of svc s env owner all i job s1] assms(1,2) by simp
  then have job': "cj_id job' = i" "cj_enabled job'" using assms(3,5) by (auto simp: job_changes_Inr)
  show "cj_enabled job'" by (rule job'(2))
  have s1: "s1 = tick s" using assms(2) by (simp add: cron_get_Inr)
  from assms(4) obtain x t1 where off: "off = job_disable now job" and x: "cjs_job_to (crs_json svc) off = Inr x"
    and t1: "t1 = tick (tick s1\<lparr>db_cron_jobs :=
        update_where (\<lambda>r. cjr_id r = cj_id off) (\<lambda>r. r\<lparr>cjr_payload := x\<rparr>) (db_cron_jobs s1)\<rparr>)"
    and t: "db_cron_jobs t = db_cron_jobs t1"
    using assms(2) by (auto simp: set_enabled_def sbind_Inr cron_save_Inr cron_get_Inr s1 dest!: audit_change_outcome)
  show "\<not> cj_enabled off" by (simp add: off job_disable_def)
  from assms(6) obtain x' where x': "cjs_job_to (crs_json svc) job' = Inr x'"
    and u: "db_cron_jobs u = update_where (\<lambda>r. cjr_id r = i) (\<lambda>r. r\<lparr>cjr_payload := x'\<rparr>) (db_cron_jobs t)"
    by (auto simp: cron_save_Inr job')
  have "cjs_job_from (crs_json svc) x' = Inr job'"
    using x' assms(1) by (simp add: cron_wf_def cron_json_contract_def)
  moreover have "cj_id off = i" using good by (simp add: off job_disable_def)
  ultimately show "cron_get env svc owner all i u = (Inr job', tick u)"
    using assms(2,7) by (auto simp: cron_get_Inr u t t1 s1 find_update_payload [where p = "\<lambda>o1. all \<or> o1 = owner"])
qed

section \<open>Ownership\<close>

text \<open>Without \<open>all\<close>, the job of another owner is not found, and nothing happens.\<close>

lemma foreign_job_hidden:
  assumes "\<And>row. row \<in> set (db_cron_jobs s) \<Longrightarrow> cjr_id row = i \<Longrightarrow> cjr_owner_id row \<noteq> owner"
    and "env_fault env (db_tick s) = None"
  shows "cron_get env svc owner False i s = (Inl CronNotFound, tick s)"
    and "update_job env svc now owner False i upd s = (Inl CronNotFound, tick s)"
    and "set_enabled env svc now owner False i b s = (Inl CronNotFound, tick s)"
    and "cron_delete env svc now owner False i s = (Inl CronNotFound, tick s)"
    and "run_now env svc w d owner False i s = (Inl CronNotFound, tick s)"
proof -
  have "find (\<lambda>r. cjr_id r = i \<and> (False \<or> cjr_owner_id r = owner)) (db_cron_jobs s) = None"
    using assms(1) by (auto simp: find_None_iff)
  then show get: "cron_get env svc owner False i s = (Inl CronNotFound, tick s)"
    using assms(2) by (simp add: cron_get_def sbind_def cron_db_def smap_err_def sql_read_def)
  show "update_job env svc now owner False i upd s = (Inl CronNotFound, tick s)"
    "set_enabled env svc now owner False i b s = (Inl CronNotFound, tick s)"
    "cron_delete env svc now owner False i s = (Inl CronNotFound, tick s)"
    "run_now env svc w d owner False i s = (Inl CronNotFound, tick s)"
    by (simp_all add: update_job_def set_enabled_def cron_delete_def run_now_def begin_run_def sbind_def get)
qed

text \<open>A created job is found by its owner.\<close>

lemma created_job_found:
  assumes "cron_create env svc i now owner input s = (Inr job, t)" and "cron_wf svc s" and "env_fault env (db_tick t) = None"
  shows "cron_get env svc owner False i t = (Inr job, tick t)" and "cj_owner_id job = owner" and "cj_enabled job"
    and "job_wf (crs_lib svc) (crs_allowed_roots svc) job"
proof -
  from assms(1) obtain x where b: "build svc i now owner input = Inr job" and x: "cjs_job_to (crs_json svc) job = Inr x"
    and new: "cj_id job \<notin> cjr_id ` set (db_cron_jobs s)"
    and t: "db_cron_jobs t = db_cron_jobs s @ [\<lparr>cjr_id = cj_id job, cjr_owner_id = owner, cjr_payload = x\<rparr>]"
    by (auto simp: cron_create_def st_invert dest!: audit_change_outcome)
  have good: "job_wf (crs_lib svc) (crs_allowed_roots svc) job" "cj_id job = i"
    using cron.built_good [OF b] by simp_all
  show "job_wf (crs_lib svc) (crs_allowed_roots svc) job" by (rule good(1))
  show "cj_owner_id job = owner" "cj_enabled job" using b by (auto simp: build_def job_new_Inr split: if_splits)
  have "find (\<lambda>r. cjr_id r = i \<and> cjr_owner_id r = owner) (db_cron_jobs s) = None"
    using new good(2) by (auto simp: find_None_iff image_iff)
  moreover have "cjs_job_from (crs_json svc) x = Inr job"
    using x assms(2) by (simp add: cron_wf_def cron_json_contract_def)
  ultimately show "cron_get env svc owner False i t = (Inr job, tick t)"
    using assms(3) good(2) by (auto simp: cron_get_Inr t find_append)
qed

end
