(* ===== verification/Notification_Domain.thy ===== *)
theory Notification_Domain
  imports Token_Domain
begin

text \<open>
  Notification policy and the life of a delivery, \<open>openpanel-domain/src/notifications/mod.rs\<close>:
  channels with their allow-lists, events with redacted details, subscriptions with their
  filters, and the delivery record with its lease and retry schedule.
\<close>

datatype notification_error =
    InvalidChannel string
  | InvalidSubscription string
  | InvalidEvent string
  | InvalidDeliveryTransition
  | NotificationNotFound
  | NotificationForbidden
  | NotificationPersistence string

fun notification_error_display :: "notification_error \<Rightarrow> string" where
  "notification_error_display (InvalidChannel e) = ''invalid notification channel: '' @ e"
| "notification_error_display (InvalidSubscription e) = ''invalid notification subscription: '' @ e"
| "notification_error_display (InvalidEvent e) = ''invalid notification event: '' @ e"
| "notification_error_display InvalidDeliveryTransition = ''invalid delivery transition''"
| "notification_error_display NotificationNotFound = ''notification entity not found''"
| "notification_error_display NotificationForbidden = ''notification operation forbidden''"
| "notification_error_display (NotificationPersistence e) = ''notification persistence failed: '' @ e"

text \<open>
  The libraries: URLs as the parser of the \<open>url\<close> crate sees them, addresses, hashes, the
  serialiser of JSON values, which does not fail on a value, and the text form of an instant.
\<close>

record url =
  url_scheme :: string
  url_host :: "string option"
  url_username :: string
  url_password :: "string option"
  url_port_or_default :: "16 word option"

record notif_lib =
  nl_url :: "string \<Rightarrow> url option"
  nl_parse_ip :: "string \<Rightarrow> ip_addr option"
  nl_hex :: "byte list \<Rightarrow> string"
  nl_sha256 :: "byte list \<Rightarrow> byte list"
  nl_hmac :: "byte list \<Rightarrow> byte list \<Rightarrow> byte list"
  nl_json_str :: "json \<Rightarrow> string"
  nl_json_parse :: "string \<Rightarrow> string + json"
  nl_ts :: "instant \<Rightarrow> string"

section \<open>Text\<close>

text \<open>
  \<open>str::chars\<close> as the bytes of each character, and \<open>char::is_control\<close>: the ASCII control
  characters and the second block, which UTF-8 writes as C2 80 to C2 9F. In UTF-8 text a byte
  below 128 is a character of its own and C2 is always a first byte, so whether a text has a
  control character can be read off its bytes.
\<close>

definition utf8_len :: "char \<Rightarrow> nat" where
  "utf8_len c = (let n = of_char c :: int in if n < 128 then 1 else if n < 224 then 2 else if n < 240 then 3 else 4)"

function utf8_chars :: "string \<Rightarrow> string list" where
  "utf8_chars [] = []"
| "utf8_chars (c # s) = (c # take (utf8_len c - 1) s) # utf8_chars (drop (utf8_len c - 1) s)"
  by pat_completeness auto
termination by (relation "measure length") auto

definition control1 :: "char \<Rightarrow> bool" where
  "control1 c \<longleftrightarrow> (let n = of_char c :: int in n < 32 \<or> n = 127)"

definition control2 :: "char \<Rightarrow> char \<Rightarrow> bool" where
  "control2 c d \<longleftrightarrow> (of_char c :: int) = 194 \<and> (let n = of_char d :: int in 128 \<le> n \<and> n \<le> 159)"

definition is_control_char :: "string \<Rightarrow> bool" where
  "is_control_char ch = (case ch of [c] \<Rightarrow> control1 c | [c, d] \<Rightarrow> control2 c d | _ \<Rightarrow> False)"

fun has_control :: "string \<Rightarrow> bool" where
  "has_control [] = False"
| "has_control [c] = control1 c"
| "has_control (c # d # s) = (control1 c \<or> control2 c d \<or> has_control (d # s))"

definition to_ascii_lowercase :: "string \<Rightarrow> string" where
  "to_ascii_lowercase s = map to_ascii_lower s"

section \<open>Channels\<close>

datatype channel_kind = KindSmtp | KindWebhook

datatype tls_mode = Tls | StartTls | TlsNone

record smtp_channel =
  sm_host :: string
  sm_port :: "16 word"
  sm_username :: string
  sm_password_enc :: string
  sm_from_addr :: string
  sm_tls_mode :: tls_mode
  sm_allowlist :: "string list"

record webhook_channel =
  wb_url :: string
  wb_secret_enc :: string
  wb_allowlist :: "string list"

datatype channel_config = SmtpConfig smtp_channel | WebhookConfig webhook_channel

record channel =
  ch_id :: uuid
  ch_name :: string
  ch_config :: channel_config
  ch_created_at :: instant
  ch_disabled_at :: "instant option"

record channel_metadata =
  cm_id :: uuid
  cm_name :: string
  cm_kind :: channel_kind
  cm_endpoint :: string
  cm_allowlist :: "string list"
  cm_created_at :: instant
  cm_disabled_at :: "instant option"

definition validate_name :: "string \<Rightarrow> notification_error + unit" where
  "validate_name name =
     (if trim name = [] \<or> length name > 120 \<or> has_control name then Inl (InvalidChannel ''name'') else Inr ())"

definition valid_host :: "string \<Rightarrow> bool" where
  "valid_host host \<longleftrightarrow> host \<noteq> [] \<and> length host \<le> 253 \<and>
     list_all (\<lambda>c. is_ascii_alphanumeric c \<or> c = CHR ''.'' \<or> c = CHR ''-'' \<or> c = CHR '':'') host"

definition valid_email :: "string \<Rightarrow> bool" where
  "valid_email v \<longleftrightarrow> length v \<le> 254 \<and> \<not> has_control v \<and>
     (case split_once CHR ''@'' v of
        None \<Rightarrow> False
      | Some (local_part, domain) \<Rightarrow> local_part \<noteq> [] \<and> valid_host domain \<and> CHR '':'' \<notin> set domain)"

definition validate_cidr :: "notif_lib \<Rightarrow> string \<Rightarrow> notification_error + unit" where
  "validate_cidr lib v =
     rbind (ok_or (InvalidChannel ''webhook CIDR'') (split_once CHR ''/'' v)) (\<lambda>(address, prefix).
     rbind (ok_or (InvalidChannel ''webhook CIDR'') (nl_parse_ip lib address)) (\<lambda>a.
     rbind (ok_or (InvalidChannel ''webhook CIDR'') (parse_u8 prefix)) (\<lambda>p.
       if p > (if is_ipv4 a then 32 else 128) then Inl (InvalidChannel ''webhook CIDR'') else Inr ())))"

text \<open>The comparison under a mask is the one of \<open>prefix_match_v4\<close>, written out again in this module.\<close>

definition channel_cidr_contains :: "notif_lib \<Rightarrow> string \<Rightarrow> ip_addr \<Rightarrow> bool" where
  "channel_cidr_contains lib v address =
     (case split_once CHR ''/'' v of
        None \<Rightarrow> False
      | Some (network, prefix) \<Rightarrow>
          (case (nl_parse_ip lib network, parse_u8 prefix) of
             (Some n, Some p) \<Rightarrow>
               (case (n, address) of
                  (V4 n, V4 x) \<Rightarrow> p \<le> 32 \<and> prefix_match_v4 n x p
                | (V6 n, V6 x) \<Rightarrow> p \<le> 128 \<and> prefix_match_v6 n x p
                | _ \<Rightarrow> False)
           | _ \<Rightarrow> False))"

definition smtp_address :: "string \<Rightarrow> notification_error + string" where
  "smtp_address address =
     (let normalized = to_ascii_lowercase (trim address)
      in if valid_email normalized then Inr normalized else Inl (InvalidChannel ''SMTP allowlist address''))"

definition channel_smtp ::
    "uuid \<Rightarrow> string \<Rightarrow> string \<Rightarrow> 16 word \<Rightarrow> string \<Rightarrow> string \<Rightarrow> string \<Rightarrow> tls_mode \<Rightarrow> string list \<Rightarrow> instant \<Rightarrow>
     notification_error + channel" where
  "channel_smtp i name host port username password_enc from_addr tls allowlist created_at =
     rbind (validate_name name) (\<lambda>_.
     if \<not> valid_host host \<or> port = 0 \<or> username = [] \<or> password_enc = []
     then Inl (InvalidChannel ''SMTP endpoint or credentials'')
     else if \<not> valid_email from_addr then Inl (InvalidChannel ''SMTP from address'')
     else
     rbind (collect_results smtp_address allowlist) (\<lambda>addresses.
     if addresses = [] then Inl (InvalidChannel ''empty SMTP allowlist'')
     else Inr \<lparr>ch_id = i, ch_name = trim name,
       ch_config = SmtpConfig \<lparr>sm_host = host, sm_port = port, sm_username = username, sm_password_enc = password_enc,
         sm_from_addr = to_ascii_lowercase from_addr, sm_tls_mode = tls, sm_allowlist = btree_collect addresses\<rparr>,
       ch_created_at = created_at, ch_disabled_at = None\<rparr>))"

definition webhook_network :: "notif_lib \<Rightarrow> string \<Rightarrow> notification_error + string" where
  "webhook_network lib v = rbind (validate_cidr lib v) (\<lambda>_. Inr v)"

definition channel_webhook ::
    "notif_lib \<Rightarrow> uuid \<Rightarrow> string \<Rightarrow> string \<Rightarrow> string \<Rightarrow> string list \<Rightarrow> instant \<Rightarrow> notification_error + channel" where
  "channel_webhook lib i name u secret_enc allowlist created_at =
     rbind (validate_name name) (\<lambda>_.
     rbind (ok_or (InvalidChannel ''webhook URL'') (nl_url lib u)) (\<lambda>parsed.
     if url_scheme parsed \<noteq> ''https'' \<or> url_host parsed = None \<or> url_username parsed \<noteq> [] \<or>
        url_password parsed \<noteq> None \<or> secret_enc = []
     then Inl (InvalidChannel ''secure webhook endpoint'')
     else
     rbind (collect_results (webhook_network lib) allowlist) (\<lambda>networks.
     if networks = [] then Inl (InvalidChannel ''empty webhook allowlist'')
     else Inr \<lparr>ch_id = i, ch_name = trim name,
       ch_config = WebhookConfig \<lparr>wb_url = u, wb_secret_enc = secret_enc, wb_allowlist = btree_collect networks\<rparr>,
       ch_created_at = created_at, ch_disabled_at = None\<rparr>)))"

definition channel_restore_disabled_at :: "instant option \<Rightarrow> channel \<Rightarrow> channel" where
  "channel_restore_disabled_at d c = c\<lparr>ch_disabled_at := d\<rparr>"

definition channel_disable :: "instant \<Rightarrow> channel \<Rightarrow> channel" where
  "channel_disable now c = c\<lparr>ch_disabled_at := Some now\<rparr>"

definition channel_is_enabled :: "channel \<Rightarrow> bool" where
  "channel_is_enabled c \<longleftrightarrow> ch_disabled_at c = None"

definition channel_kind_of :: "channel \<Rightarrow> channel_kind" where
  "channel_kind_of c = (case ch_config c of SmtpConfig _ \<Rightarrow> KindSmtp | WebhookConfig _ \<Rightarrow> KindWebhook)"

definition channel_kind_str :: "channel_kind \<Rightarrow> string" where
  "channel_kind_str k = (case k of KindSmtp \<Rightarrow> ''smtp'' | KindWebhook \<Rightarrow> ''webhook'')"

definition smtp_config :: "channel \<Rightarrow> smtp_channel option" where
  "smtp_config c = (case ch_config c of SmtpConfig x \<Rightarrow> Some x | WebhookConfig _ \<Rightarrow> None)"

definition webhook_config :: "channel \<Rightarrow> webhook_channel option" where
  "webhook_config c = (case ch_config c of WebhookConfig x \<Rightarrow> Some x | SmtpConfig _ \<Rightarrow> None)"

definition channel_metadata_of :: "channel \<Rightarrow> channel_metadata" where
  "channel_metadata_of c =
     \<lparr>cm_id = ch_id c, cm_name = ch_name c, cm_kind = channel_kind_of c,
      cm_endpoint = (case ch_config c of
          SmtpConfig x \<Rightarrow> sm_host x @ '':'' @ nat_str (unat (sm_port x)) | WebhookConfig x \<Rightarrow> wb_url x),
      cm_allowlist = (case ch_config c of SmtpConfig x \<Rightarrow> sm_allowlist x | WebhookConfig x \<Rightarrow> wb_allowlist x),
      cm_created_at = ch_created_at c, cm_disabled_at = ch_disabled_at c\<rparr>"

definition allows_recipient :: "smtp_channel \<Rightarrow> string \<Rightarrow> bool" where
  "allows_recipient x recipient \<longleftrightarrow> List.member (sm_allowlist x) (to_ascii_lowercase (trim recipient))"

definition webhook_allows_ip :: "notif_lib \<Rightarrow> webhook_channel \<Rightarrow> ip_addr \<Rightarrow> bool" where
  "webhook_allows_ip lib x address \<longleftrightarrow> list_ex (\<lambda>v. channel_cidr_contains lib v address) (wb_allowlist x)"

section \<open>Events\<close>

datatype event_kind = Alert | AuditEmitted | JobTerminal

definition event_kind_as_str :: "event_kind \<Rightarrow> string" where
  "event_kind_as_str k =
     (case k of Alert \<Rightarrow> ''alert.fired'' | AuditEmitted \<Rightarrow> ''audit.emitted'' | JobTerminal \<Rightarrow> ''job.terminal'')"

datatype severity = Info | Warning | Critical

definition severity_rank :: "severity \<Rightarrow> nat" where
  "severity_rank x = (case x of Info \<Rightarrow> 0 | Warning \<Rightarrow> 1 | Critical \<Rightarrow> 2)"

text \<open>The derived order of the enumeration.\<close>

instantiation severity :: linorder
begin

definition less_eq_severity :: "severity \<Rightarrow> severity \<Rightarrow> bool" where
  "less_eq_severity a b \<longleftrightarrow> severity_rank a \<le> severity_rank b"

definition less_severity :: "severity \<Rightarrow> severity \<Rightarrow> bool" where
  "less_severity a b \<longleftrightarrow> severity_rank a < severity_rank b"

instance
proof
  show "a = b" if "a \<le> b" "b \<le> a" for a b :: severity
    using that by (cases a; cases b) (simp_all add: less_eq_severity_def severity_rank_def)
qed (auto simp: less_eq_severity_def less_severity_def)

end

definition severity_str :: "severity \<Rightarrow> string" where
  "severity_str x = (case x of Info \<Rightarrow> ''info'' | Warning \<Rightarrow> ''warning'' | Critical \<Rightarrow> ''critical'')"

record notification_event =
  ev_id :: uuid
  ev_kind :: event_kind
  ev_subject :: string
  ev_severity :: severity
  ev_details :: json
  ev_occurred_at :: instant

definition sensitive_key :: "string \<Rightarrow> bool" where
  "sensitive_key key \<longleftrightarrow>
     list_ex (\<lambda>needle. contains needle (to_ascii_lowercase key))
       [''password'', ''secret'', ''token'', ''credential'', ''private_key'']"

fun redact_json :: "json \<Rightarrow> json" and redact_json_fields :: "(string \<times> json) list \<Rightarrow> (string \<times> json) list"
    and redact_json_items :: "json list \<Rightarrow> json list" where
  "redact_json (JObject m) = JObject (redact_json_fields m)"
| "redact_json (JArray xs) = JArray (redact_json_items xs)"
| "redact_json (JString s) = JString s"
| "redact_json (JNumber n) = JNumber n"
| "redact_json (JBool b) = JBool b"
| "redact_json JNull = JNull"
| "redact_json_fields [] = []"
| "redact_json_fields ((k, v) # m) =
     (if sensitive_key k then (k, JString ''[REDACTED]'') else (k, redact_json v)) # redact_json_fields m"
| "redact_json_items [] = []"
| "redact_json_items (v # xs) = redact_json v # redact_json_items xs"

definition MAX_DETAILS :: nat where
  "MAX_DETAILS = 16 * 1024"

definition event_new ::
    "notif_lib \<Rightarrow> uuid \<Rightarrow> event_kind \<Rightarrow> string \<Rightarrow> severity \<Rightarrow> json \<Rightarrow> instant \<Rightarrow> notification_error + notification_event" where
  "event_new lib i kind subject sev details occurred_at =
     (if trim subject = [] \<or> length subject > 240 \<or> has_control subject then Inl (InvalidEvent ''subject'')
      else if length (nl_json_str lib (redact_json details)) > MAX_DETAILS then Inl (InvalidEvent ''details too large'')
      else Inr \<lparr>ev_id = i, ev_kind = kind, ev_subject = subject, ev_severity = sev, ev_details = redact_json details,
        ev_occurred_at = occurred_at\<rparr>)"

text \<open>The keys of an object are kept in order.\<close>

definition webhook_body ::
    "notif_lib \<Rightarrow> (uuid \<Rightarrow> string) \<Rightarrow> notification_event \<Rightarrow> uuid \<Rightarrow> nat \<Rightarrow> notification_error + byte list" where
  "webhook_body lib uid e delivery_id max_bytes =
     (let body = as_bytes (nl_json_str lib (JObject
        [(''delivery_id'', JString (uid delivery_id)), (''details'', ev_details e),
         (''event'', JString (event_kind_as_str (ev_kind e))), (''event_id'', JString (uid (ev_id e))),
         (''severity'', JString (severity_str (ev_severity e))), (''subject'', JString (ev_subject e)),
         (''ts'', JString (nl_ts lib (ev_occurred_at e)))]))
      in if length body > max_bytes then Inl (InvalidEvent ''payload too large'') else Inr body)"

section \<open>Filters and subscriptions\<close>

record event_filter =
  ef_metrics :: "string list"
  ef_actions :: "string list"
  ef_kinds :: "string list"
  ef_outcome :: "string option"
  ef_severity_at_least :: "severity option"

definition json_get :: "string \<Rightarrow> json \<Rightarrow> json option" where
  "json_get k v = (case v of JObject m \<Rightarrow> map_of m k | _ \<Rightarrow> None)"

definition json_as_str :: "json \<Rightarrow> string option" where
  "json_as_str v = (case v of JString s \<Rightarrow> Some s | _ \<Rightarrow> None)"

definition filter_item :: "json \<Rightarrow> notification_error + string" where
  "filter_item v =
     (case json_as_str v of
        Some s \<Rightarrow> if s \<noteq> [] \<and> length s \<le> 80 then Inr s else Inl (InvalidSubscription ''filter item'')
      | None \<Rightarrow> Inl (InvalidSubscription ''filter item''))"

definition string_set :: "json option \<Rightarrow> notification_error + string list" where
  "string_set v =
     (case v of
        None \<Rightarrow> Inr []
      | Some (JArray xs) \<Rightarrow> rbind (collect_results filter_item xs) (\<lambda>items. Inr (btree_collect items))
      | Some _ \<Rightarrow> Inl (InvalidSubscription ''filter list''))"

definition filter_parse_severity :: "string \<Rightarrow> notification_error + severity" where
  "filter_parse_severity v =
     (if v = ''info'' then Inr Info else if v = ''warning'' then Inr Warning
      else if v = ''critical'' then Inr Critical else Inl (InvalidSubscription ''severity''))"

definition filter_allowed :: "event_kind \<Rightarrow> string list" where
  "filter_allowed kind =
     (case kind of
        Alert \<Rightarrow> [''metrics'', ''threshold_direction'', ''severity_at_least'']
      | AuditEmitted \<Rightarrow> [''actions'']
      | JobTerminal \<Rightarrow> [''kinds'', ''outcome''])"

definition filter_from_json :: "event_kind \<Rightarrow> json \<Rightarrow> notification_error + event_filter" where
  "filter_from_json kind v =
     (case v of
        JObject m \<Rightarrow>
          if list_ex (\<lambda>(key, _). \<not> List.member (filter_allowed kind) key) m
          then Inl (InvalidSubscription ''unknown filter field'')
          else
          rbind (string_set (json_get ''metrics'' v)) (\<lambda>metrics.
          rbind (string_set (json_get ''actions'' v)) (\<lambda>actions.
          rbind (string_set (json_get ''kinds'' v)) (\<lambda>kinds.
          (let outcome = Option.bind (json_get ''outcome'' v) json_as_str in
          if (case outcome of None \<Rightarrow> False | Some x \<Rightarrow> \<not> (x = ''any'' \<or> x = ''success'' \<or> x = ''failure''))
          then Inl (InvalidSubscription ''outcome'')
          else
          rbind (transpose_opt (map_option filter_parse_severity
              (Option.bind (json_get ''severity_at_least'' v) json_as_str))) (\<lambda>sev.
            Inr \<lparr>ef_metrics = metrics, ef_actions = actions, ef_kinds = kinds, ef_outcome = outcome,
              ef_severity_at_least = sev\<rparr>)))))
      | _ \<Rightarrow> Inl (InvalidSubscription ''filter must be an object''))"

definition detail :: "string \<Rightarrow> notification_event \<Rightarrow> string option" where
  "detail k e = Option.bind (json_get k (ev_details e)) json_as_str"

definition listed :: "string option \<Rightarrow> string list \<Rightarrow> bool" where
  "listed x xs = (case x of None \<Rightarrow> False | Some s \<Rightarrow> List.member xs s)"

definition filter_matches :: "event_filter \<Rightarrow> notification_event \<Rightarrow> bool" where
  "filter_matches f e =
     (case ev_kind e of
        Alert \<Rightarrow> ef_metrics f \<noteq> [] \<and> listed (detail ''metric'' e) (ef_metrics f) \<and>
          (case ef_severity_at_least f of None \<Rightarrow> True | Some minimum \<Rightarrow> minimum \<le> ev_severity e)
      | AuditEmitted \<Rightarrow> ef_actions f \<noteq> [] \<and> listed (detail ''action'' e) (ef_actions f)
      | JobTerminal \<Rightarrow> ef_kinds f \<noteq> [] \<and> listed (detail ''kind'' e) (ef_kinds f) \<and>
          (case ef_outcome f of None \<Rightarrow> True | Some x \<Rightarrow> x = ''any'' \<or> detail ''outcome'' e = Some x))"

text \<open>Empty sets and missing options are left out.\<close>

definition filter_to_json :: "event_filter \<Rightarrow> json" where
  "filter_to_json f =
     (let strings = (\<lambda>k xs. if xs = [] then [] else [(k, JArray (map JString xs))]) in
      JObject (strings ''actions'' (ef_actions f) @ strings ''kinds'' (ef_kinds f) @ strings ''metrics'' (ef_metrics f) @
        (case ef_outcome f of None \<Rightarrow> [] | Some x \<Rightarrow> [(''outcome'', JString x)]) @
        (case ef_severity_at_least f of None \<Rightarrow> [] | Some x \<Rightarrow> [(''severity_at_least'', JString (severity_str x))])))"

record subscription =
  sub_id :: uuid
  sub_user_id :: uuid
  sub_channel_id :: uuid
  sub_destination :: string
  sub_kind :: event_kind
  sub_filter :: event_filter
  sub_enabled :: bool
  sub_created_at :: instant

definition subscription_new ::
    "uuid \<Rightarrow> uuid \<Rightarrow> uuid \<Rightarrow> string \<Rightarrow> event_kind \<Rightarrow> event_filter \<Rightarrow> instant \<Rightarrow> notification_error + subscription" where
  "subscription_new i user_id channel_id destination kind f created_at =
     (if trim destination = [] \<or> length destination > 2048 \<or> has_control destination
      then Inl (InvalidSubscription ''destination'')
      else Inr \<lparr>sub_id = i, sub_user_id = user_id, sub_channel_id = channel_id, sub_destination = destination,
        sub_kind = kind, sub_filter = f, sub_enabled = True, sub_created_at = created_at\<rparr>)"

definition subscription_disable :: "subscription \<Rightarrow> subscription" where
  "subscription_disable x = x\<lparr>sub_enabled := False\<rparr>"

definition subscription_restore_enabled :: "bool \<Rightarrow> subscription \<Rightarrow> subscription" where
  "subscription_restore_enabled b x = x\<lparr>sub_enabled := b\<rparr>"

definition subscription_matches :: "subscription \<Rightarrow> notification_event \<Rightarrow> bool" where
  "subscription_matches x e \<longleftrightarrow> sub_enabled x \<and> sub_kind x = ev_kind e \<and> filter_matches (sub_filter x) e"

section \<open>Deliveries\<close>

datatype delivery_status = DPending | DLeased | DRetry | TerminalSuccess | TerminalFailure

record delivery =
  dl_id :: uuid
  dl_event_id :: uuid
  dl_channel_id :: uuid
  dl_subscription_id :: uuid
  dl_payload_digest :: string
  dl_status :: delivery_status
  dl_attempt_n :: u32
  dl_next_retry_at :: "instant option"
  dl_lease_until :: "instant option"
  dl_last_error_redacted :: "string option"
  dl_created_at :: instant
  dl_completed_at :: "instant option"

definition delivery_pending :: "uuid \<Rightarrow> uuid \<Rightarrow> uuid \<Rightarrow> uuid \<Rightarrow> string \<Rightarrow> instant \<Rightarrow> delivery" where
  "delivery_pending i event channel subscr digest created_at =
     \<lparr>dl_id = i, dl_event_id = event, dl_channel_id = channel, dl_subscription_id = subscr, dl_payload_digest = digest,
      dl_status = DPending, dl_attempt_n = 0, dl_next_retry_at = None, dl_lease_until = None,
      dl_last_error_redacted = None, dl_created_at = created_at, dl_completed_at = None\<rparr>"

definition delivery_restore :: "delivery \<Rightarrow> notification_error + delivery" where
  "delivery_restore d =
     (if dl_payload_digest d = [] \<or> length (dl_payload_digest d) > 128 then Inl (InvalidEvent ''payload digest'') else Inr d)"

definition delivery_due :: "instant \<Rightarrow> delivery \<Rightarrow> bool" where
  "delivery_due now d \<longleftrightarrow> dl_status d = DPending \<or>
     dl_status d = DRetry \<and> (case dl_next_retry_at d of None \<Rightarrow> False | Some retry \<Rightarrow> retry \<le> now)"

definition delivery_lease :: "instant \<Rightarrow> duration \<Rightarrow> delivery \<Rightarrow> notification_error + delivery" where
  "delivery_lease now period d =
     (if \<not> delivery_due now d \<or> period \<le> 0 then Inl InvalidDeliveryTransition
      else Inr (d\<lparr>dl_status := DLeased, dl_lease_until := Some (now + period)\<rparr>))"

definition recover_expired_lease :: "instant \<Rightarrow> delivery \<Rightarrow> bool \<times> delivery" where
  "recover_expired_lease now d =
     (if dl_status d = DLeased \<and> (case dl_lease_until d of None \<Rightarrow> False | Some until \<Rightarrow> until < now)
      then (True, d\<lparr>dl_status := DPending, dl_lease_until := None\<rparr>) else (False, d))"

definition record_success :: "instant \<Rightarrow> delivery \<Rightarrow> notification_error + delivery" where
  "record_success now d =
     (if dl_status d \<noteq> DLeased then Inl InvalidDeliveryTransition
      else Inr (d\<lparr>dl_status := TerminalSuccess, dl_completed_at := Some now, dl_lease_until := None\<rparr>))"

definition redact_error :: "string \<Rightarrow> string" where
  "redact_error e =
     (let bounded = concat (take 240 (filter (\<lambda>ch. \<not> is_control_char ch) (utf8_chars e)))
      in if list_ex (\<lambda>needle. contains needle (to_ascii_lowercase bounded)) [''secret'', ''password'', ''token'']
         then ''[REDACTED DELIVERY ERROR]'' else bounded)"

definition retry_delay :: "u32 \<Rightarrow> duration" where
  "retry_delay attempt =
     (if attempt = 1 then minutes 1 else if attempt = 2 then minutes 5 else if attempt = 3 then minutes 30
      else if attempt = 4 then hours 2 else hours 12)"

definition record_transient_failure :: "instant \<Rightarrow> string \<Rightarrow> delivery \<Rightarrow> notification_error + delivery" where
  "record_transient_failure now e d =
     (if dl_status d \<noteq> DLeased then Inl InvalidDeliveryTransition
      else
      (let n = saturating_add (dl_attempt_n d) 1;
           d = d\<lparr>dl_attempt_n := n, dl_last_error_redacted := Some (redact_error e), dl_lease_until := None\<rparr> in
       if n \<ge> 6 then Inr (d\<lparr>dl_status := TerminalFailure, dl_completed_at := Some now, dl_next_retry_at := None\<rparr>)
       else Inr (d\<lparr>dl_status := DRetry, dl_next_retry_at := Some (now + retry_delay n)\<rparr>)))"

definition record_permanent_failure :: "instant \<Rightarrow> string \<Rightarrow> delivery \<Rightarrow> notification_error + delivery" where
  "record_permanent_failure now e d =
     (if dl_status d \<noteq> DLeased then Inl InvalidDeliveryTransition
      else Inr (d\<lparr>dl_attempt_n := saturating_add (dl_attempt_n d) 1, dl_status := TerminalFailure,
        dl_last_error_redacted := Some (redact_error e), dl_completed_at := Some now, dl_lease_until := None,
        dl_next_retry_at := None\<rparr>))"

definition sign_webhook :: "notif_lib \<Rightarrow> byte list \<Rightarrow> byte list \<Rightarrow> string" where
  "sign_webhook lib secret body = ''sha256='' @ nl_hex lib (nl_hmac lib secret body)"

definition payload_digest :: "notif_lib \<Rightarrow> byte list \<Rightarrow> string" where
  "payload_digest lib body = nl_hex lib (nl_sha256 lib body)"

record channel_health =
  hl_channel_id :: uuid
  hl_delivered :: nat
  hl_failed :: nat
  hl_pending :: nat
  hl_oldest_pending_at :: "instant option"
  hl_next_retry_at :: "instant option"
  hl_degraded :: bool

section \<open>The life of a delivery\<close>

text \<open>The steps a delivery record can take.\<close>

inductive delivery_step :: "delivery \<Rightarrow> delivery \<Rightarrow> bool" where
  lease: "delivery_lease now period d = Inr d' \<Longrightarrow> delivery_step d d'"
| recover: "recover_expired_lease now d = (True, d') \<Longrightarrow> delivery_step d d'"
| success: "record_success now d = Inr d' \<Longrightarrow> delivery_step d d'"
| transient: "record_transient_failure now e d = Inr d' \<Longrightarrow> delivery_step d d'"
| permanent: "record_permanent_failure now e d = Inr d' \<Longrightarrow> delivery_step d d'"

definition delivery_terminal :: "delivery \<Rightarrow> bool" where
  "delivery_terminal d \<longleftrightarrow> dl_status d = TerminalSuccess \<or> dl_status d = TerminalFailure"

lemmas delivery_ops = delivery_lease_def delivery_due_def recover_expired_lease_def record_success_def
  record_transient_failure_def record_permanent_failure_def

lemma delivery_terminal_final: "delivery_terminal d \<Longrightarrow> \<not> delivery_step d d'"
  by (auto simp: delivery_step.simps delivery_ops delivery_terminal_def)

text \<open>
  A record that is not finished has failed at most five times, a finished one at most six times; a
  retry has its time, a lease its end and a finished record its completion.
\<close>

definition delivery_wf :: "delivery \<Rightarrow> bool" where
  "delivery_wf d \<longleftrightarrow> dl_attempt_n d \<le> (if delivery_terminal d then 6 else 5) \<and>
     (dl_status d = DRetry \<longrightarrow> dl_next_retry_at d \<noteq> None) \<and>
     (dl_status d = DLeased \<longleftrightarrow> dl_lease_until d \<noteq> None) \<and>
     (delivery_terminal d \<longleftrightarrow> dl_completed_at d \<noteq> None)"

lemma attempt_bound:
  assumes "n \<le> (5 :: u32)"
  shows "saturating_add n 1 = n + 1" and "n + 1 \<le> 6" and "\<not> 6 \<le> n + 1 \<Longrightarrow> n + 1 \<le> 5" and "n \<le> 6"
proof -
  have "unat n \<le> 5" using assms by (simp add: word_le_nat_alt)
  then have u: "unat (n + 1) = unat n + 1" "unat (saturating_add n 1) = unat n + 1"
    by (simp_all add: unat_word_ariths unat_saturating_add)
  then show "saturating_add n 1 = n + 1" by (simp add: word_unat_eq_iff)
  show "n + 1 \<le> 6" "\<not> 6 \<le> n + 1 \<Longrightarrow> n + 1 \<le> 5" "n \<le> 6" using u(1) \<open>unat n \<le> 5\<close> by (simp_all add: word_le_nat_alt)
qed

lemma delivery_step_wf:
  assumes "delivery_step d d'" and "delivery_wf d"
  shows "delivery_wf d'"
  using assms(1)
proof cases
  case (transient now e)
  then have n: "dl_attempt_n d \<le> 5" using assms(2) by (auto simp: delivery_ops delivery_wf_def delivery_terminal_def split: if_splits)
  from transient assms(2) show ?thesis
    using attempt_bound [OF n]
    by (auto simp: record_transient_failure_def Let_def delivery_wf_def delivery_terminal_def split: if_splits)
next
  case (permanent now e)
  then have n: "dl_attempt_n d \<le> 5" using assms(2) by (auto simp: delivery_ops delivery_wf_def delivery_terminal_def split: if_splits)
  from permanent assms(2) show ?thesis
    using attempt_bound [OF n] by (auto simp: record_permanent_failure_def delivery_wf_def delivery_terminal_def split: if_splits)
next
  case success
  then show ?thesis
    using assms(2) by (auto simp: record_success_def delivery_wf_def delivery_terminal_def intro: attempt_bound(4) split: if_splits)
qed (use assms(2) in \<open>auto simp: delivery_ops delivery_wf_def delivery_terminal_def split: if_splits option.splits\<close>)

lemma pending_wf: "delivery_wf (delivery_pending i e c x digest now)"
  by (simp add: delivery_pending_def delivery_wf_def delivery_terminal_def)

text \<open>The keys of a record do not change.\<close>

lemma delivery_step_keys:
  "delivery_step d d' \<Longrightarrow> dl_id d' = dl_id d \<and> dl_event_id d' = dl_event_id d \<and> dl_channel_id d' = dl_channel_id d \<and>
     dl_subscription_id d' = dl_subscription_id d \<and> dl_payload_digest d' = dl_payload_digest d \<and> dl_created_at d' = dl_created_at d"
  by (auto simp: delivery_step.simps delivery_ops Let_def split: if_splits)

section \<open>Filters\<close>

definition items_ok :: "string list \<Rightarrow> bool" where
  "items_ok xs \<longleftrightarrow> sorted xs \<and> distinct xs \<and> list_all (\<lambda>x. x \<noteq> [] \<and> length x \<le> 80) xs"

definition filter_wf :: "event_kind \<Rightarrow> event_filter \<Rightarrow> bool" where
  "filter_wf kind f \<longleftrightarrow> items_ok (ef_metrics f) \<and> items_ok (ef_actions f) \<and> items_ok (ef_kinds f) \<and>
     (kind \<noteq> Alert \<longrightarrow> ef_metrics f = [] \<and> ef_severity_at_least f = None) \<and>
     (kind \<noteq> AuditEmitted \<longrightarrow> ef_actions f = []) \<and>
     (kind \<noteq> JobTerminal \<longrightarrow> ef_kinds f = [] \<and> ef_outcome f = None) \<and>
     ef_outcome f \<in> {None, Some ''any'', Some ''success'', Some ''failure''}"

lemma btree_strings: "items_ok xs \<Longrightarrow> btree_collect xs = xs"
  by (simp add: items_ok_def btree_collect_def distinct_remdups_id sorted_sort_id)

lemma filter_items: "list_all (\<lambda>x. x \<noteq> [] \<and> length x \<le> 80) xs \<Longrightarrow> collect_results filter_item (map JString xs) = Inr xs"
  by (induction xs) (simp_all add: filter_item_def json_as_str_def)

lemma string_set_array: "items_ok xs \<Longrightarrow> string_set (Some (JArray (map JString xs))) = Inr xs"
  using btree_strings [of xs] by (simp add: string_set_def filter_items items_ok_def)

lemma string_set_wf: "string_set v = Inr xs \<Longrightarrow> items_ok xs" and string_set_None: "string_set None = Inr []"
proof -
  assume "string_set v = Inr xs"
  then consider "xs = []" | vs items where "collect_results filter_item vs = Inr items" "xs = btree_collect items"
    by (auto simp: string_set_def split: option.splits json.splits)
  then show "items_ok xs"
  proof cases
    case (2 vs items)
    have "x \<noteq> [] \<and> length x \<le> 80" if "x \<in> set items" for x
      using collect_results_from [OF 2(1) that] by (auto simp: filter_item_def split: option.splits if_splits)
    then show ?thesis by (simp add: 2(2) items_ok_def btree_collect_def list_all_iff)
  qed (simp add: items_ok_def)
qed (simp add: string_set_def)

lemma list_ex_pairs: "list_ex (\<lambda>(k, _). P k) m \<longleftrightarrow> (\<exists>k \<in> fst ` set m. P k)"
  by (force simp: list_ex_iff)

lemma filter_from_json_wf:
  assumes "filter_from_json kind v = Inr f"
  shows "filter_wf kind f"
proof -
  from assms obtain m where v: "v = JObject m"
    and allowed: "\<not> list_ex (\<lambda>(key, _). \<not> List.member (filter_allowed kind) key) m"
    and sets: "string_set (json_get ''metrics'' v) = Inr (ef_metrics f)" "string_set (json_get ''actions'' v) = Inr (ef_actions f)"
      "string_set (json_get ''kinds'' v) = Inr (ef_kinds f)"
    and out: "ef_outcome f = Option.bind (json_get ''outcome'' v) json_as_str"
      "ef_outcome f \<in> {None, Some ''any'', Some ''success'', Some ''failure''}"
    and sev: "transpose_opt (map_option filter_parse_severity (Option.bind (json_get ''severity_at_least'' v) json_as_str)) =
      Inr (ef_severity_at_least f)"
    by (auto simp: filter_from_json_def Let_def split: json.splits if_splits option.splits)
  have absent: "json_get k v = None" if "\<not> List.member (filter_allowed kind) k" for k
    using allowed that by (auto simp: v json_get_def list_ex_pairs map_of_eq_None_iff)
  have "ef_metrics f = [] \<and> ef_severity_at_least f = None" if "kind \<noteq> Alert"
    using that sets(1) sev absent [of "''metrics''"] absent [of "''severity_at_least''"]
    by (cases kind) (auto simp: filter_allowed_def string_set_None)
  moreover have "ef_actions f = []" if "kind \<noteq> AuditEmitted"
    using that sets(2) absent [of "''actions''"] by (cases kind) (auto simp: filter_allowed_def string_set_None)
  moreover have "ef_kinds f = [] \<and> ef_outcome f = None" if "kind \<noteq> JobTerminal"
    using that sets(3) out(1) absent [of "''kinds''"] absent [of "''outcome''"]
    by (cases kind) (auto simp: filter_allowed_def string_set_None)
  ultimately show ?thesis using sets out(2) by (simp add: filter_wf_def string_set_wf)
qed

lemma parse_severity_str: "filter_parse_severity (severity_str x) = Inr x"
  by (cases x) (simp_all add: filter_parse_severity_def severity_str_def)

text \<open>A filter that was accepted is read back from its JSON form.\<close>

lemma filter_roundtrip:
  assumes "filter_wf kind f"
  shows "filter_from_json kind (filter_to_json f) = Inr f"
proof (cases kind)
  case Alert
  then show ?thesis
    using assms string_set_array [of "ef_metrics f"]
    by (cases "ef_severity_at_least f"; cases "ef_metrics f = []")
       (auto simp: filter_wf_def filter_from_json_def filter_to_json_def Let_def json_get_def json_as_str_def filter_allowed_def
         string_set_None parse_severity_str)
next
  case AuditEmitted
  then show ?thesis
    using assms string_set_array [of "ef_actions f"]
    by (cases "ef_actions f = []")
       (auto simp: filter_wf_def filter_from_json_def filter_to_json_def Let_def json_get_def json_as_str_def filter_allowed_def
         string_set_None)
next
  case JobTerminal
  then show ?thesis
    using assms string_set_array [of "ef_kinds f"]
    by (cases "ef_outcome f"; cases "ef_kinds f = []")
       (auto simp: filter_wf_def filter_from_json_def filter_to_json_def Let_def json_get_def json_as_str_def filter_allowed_def
         string_set_None)
qed

section \<open>Redaction\<close>

lemma redact_json_idem:
  "redact_json (redact_json v) = redact_json v" "redact_json_fields (redact_json_fields m) = redact_json_fields m"
  "redact_json_items (redact_json_items xs) = redact_json_items xs"
  by (induction v and m and xs rule: redact_json_redact_json_fields_redact_json_items.induct) auto

section \<open>Channels are normal forms\<close>

text \<open>Lower-casing touches letters only, so it leaves white space, control characters and separators alone.\<close>

lemma ascii_lower_int:
  "(of_char (to_ascii_lower c) :: int) =
     (if 65 \<le> (of_char c :: int) \<and> (of_char c :: int) \<le> 90 then of_char c + 32 else of_char c)"
proof -
  have "(of_char (to_ascii_lower c) :: nat) = (if 65 \<le> (of_char c :: nat) \<and> (of_char c :: nat) \<le> 90 then of_char c + 32 else of_char c)"
    by (auto simp: to_ascii_lower_def is_ascii_uppercase_def)
  then show ?thesis unfolding of_char_int by (auto simp del: of_nat_of_char)
qed

lemma lower_chars:
  "ws1 (to_ascii_lower c) = ws1 c" "ws2 (to_ascii_lower c) (to_ascii_lower d) = ws2 c d"
  "ws3 (to_ascii_lower c) (to_ascii_lower d) (to_ascii_lower e) = ws3 c d e"
  "control1 (to_ascii_lower c) = control1 c" "control2 (to_ascii_lower c) (to_ascii_lower d) = control2 c d"
  "is_ascii_alphanumeric (to_ascii_lower c) = is_ascii_alphanumeric c"
  by (auto simp: is_ascii_alphanumeric_def ascii_code ws2_code ws3_code control1_def control2_def ascii_lower_int Let_def)

lemma lower_idem: "to_ascii_lower (to_ascii_lower c) = to_ascii_lower c"
proof -
  have "\<not> is_ascii_uppercase (to_ascii_lower c)" by (auto simp: ascii_code ascii_lower_int Let_def)
  then show ?thesis by (simp add: to_ascii_lower_def [of "to_ascii_lower c"])
qed

lemma lower_sep:
  assumes "\<not> is_ascii_uppercase k" and "\<not> is_ascii_lowercase k"
  shows "to_ascii_lower c = k \<longleftrightarrow> c = k"
proof (cases "is_ascii_uppercase c")
  case True
  then have "is_ascii_lowercase (to_ascii_lower c)" by (auto simp: ascii_code ascii_lower_int Let_def)
  then show ?thesis using True assms by blast
qed (simp add: to_ascii_lower_def)

lemma lower_seps:
  "to_ascii_lower c = CHR ''@'' \<longleftrightarrow> c = CHR ''@''" "to_ascii_lower c = CHR ''.'' \<longleftrightarrow> c = CHR ''.''"
  "to_ascii_lower c = CHR ''-'' \<longleftrightarrow> c = CHR ''-''" "to_ascii_lower c = CHR '':'' \<longleftrightarrow> c = CHR '':''"
  by (rule lower_sep; simp add: ascii_code Let_def)+

lemma has_control_lower: "has_control (map to_ascii_lower s) = has_control s"
  by (induction s rule: has_control.induct) (simp_all add: lower_chars)

lemma trim_lower: "trim (map to_ascii_lower s) = map to_ascii_lower (trim s)"
proof -
  have "trim_start (map to_ascii_lower t) = map to_ascii_lower (trim_start t)" for t
    by (induction t rule: trim_start.induct) (simp_all add: lower_chars)
  moreover have "trim_start_rev (map to_ascii_lower t) = map to_ascii_lower (trim_start_rev t)" for t
    by (induction t rule: trim_start_rev.induct) (simp_all add: lower_chars)
  ultimately show ?thesis by (simp add: trim_def rev_map)
qed

lemma valid_host_lower: "valid_host (map to_ascii_lower s) = valid_host s"
  by (simp add: valid_host_def list_all_iff lower_chars lower_seps)

lemma split_once_lower:
  "split_once CHR ''@'' (map to_ascii_lower s) =
     map_option (\<lambda>(a, b). (map to_ascii_lower a, map to_ascii_lower b)) (split_once CHR ''@'' s)"
proof -
  have "find_char CHR ''@'' (map to_ascii_lower s) = find_char CHR ''@'' s"
    by (induction s) (simp_all add: lower_seps)
  then show ?thesis by (cases "find_char CHR ''@'' s") (simp_all add: split_once_def take_map drop_map)
qed

lemma valid_email_lower: "valid_email (to_ascii_lowercase s) = valid_email s"
proof -
  have "CHR '':'' \<in> to_ascii_lower ` X \<longleftrightarrow> CHR '':'' \<in> X" for X
    by (metis imageE imageI lower_seps(4))
  then show ?thesis
    by (auto simp: valid_email_def to_ascii_lowercase_def has_control_lower split_once_lower valid_host_lower split: option.splits)
qed

lemma smtp_address_Inr:
  assumes "smtp_address x = Inr a"
  shows "smtp_address a = Inr a"
proof -
  have a: "a = to_ascii_lowercase (trim x)" "valid_email a" using assms by (auto simp: smtp_address_def Let_def split: if_splits)
  have "to_ascii_lowercase (trim a) = a"
    by (simp add: a(1) to_ascii_lowercase_def trim_lower trim_idem comp_def lower_idem)
  then show ?thesis using a(2) by (simp add: smtp_address_def)
qed

text \<open>Trimming a name cannot bring in a control character.\<close>

lemma has_control_append: "has_control a \<or> has_control b \<Longrightarrow> has_control (a @ b)"
proof (induction a rule: has_control.induct)
  case (2 c)
  then show ?case by (cases b) auto
qed auto

lemma trim_part: "\<exists>a b. s = a @ trim s @ b"
proof -
  have "\<exists>a. t = a @ trim_start t" for t
    by (induction t rule: trim_start.induct) (auto, (metis append_Cons)+)
  then obtain a where "s = a @ trim_start s" by blast
  moreover obtain b where "rev (trim_start s) = b @ trim_start_rev (rev (trim_start s))" using trim_rev_suffix by blast
  then have "trim_start s = trim s @ rev b" unfolding trim_def by (metis rev_append rev_rev_ident)
  ultimately show ?thesis by metis
qed

lemma validate_name_trim: "validate_name n = Inr () \<Longrightarrow> validate_name (trim n) = Inr ()"
proof -
  assume n: "validate_name n = Inr ()"
  obtain a b where "n = a @ trim n @ b" using trim_part by blast
  then have "has_control (trim n) \<Longrightarrow> has_control n" by (metis has_control_append)
  then show ?thesis using n length_trim [of n] by (auto simp: validate_name_def trim_idem split: if_splits)
qed

text \<open>The state of a channel that its constructors accept again.\<close>

definition config_wf :: "notif_lib \<Rightarrow> channel_config \<Rightarrow> bool" where
  "config_wf lib k \<longleftrightarrow>
     (case k of
        SmtpConfig x \<Rightarrow> valid_host (sm_host x) \<and> sm_port x \<noteq> 0 \<and> sm_username x \<noteq> [] \<and> sm_password_enc x \<noteq> [] \<and>
          valid_email (sm_from_addr x) \<and> to_ascii_lowercase (sm_from_addr x) = sm_from_addr x \<and>
          sm_allowlist x \<noteq> [] \<and> sorted (sm_allowlist x) \<and> distinct (sm_allowlist x) \<and>
          list_all (\<lambda>a. smtp_address a = Inr a) (sm_allowlist x)
      | WebhookConfig x \<Rightarrow>
          (case nl_url lib (wb_url x) of
             None \<Rightarrow> False
           | Some u \<Rightarrow> url_scheme u = ''https'' \<and> url_host u \<noteq> None \<and> url_username u = [] \<and> url_password u = None) \<and>
          wb_secret_enc x \<noteq> [] \<and> wb_allowlist x \<noteq> [] \<and> sorted (wb_allowlist x) \<and> distinct (wb_allowlist x) \<and>
          list_all (\<lambda>v. validate_cidr lib v = Inr ()) (wb_allowlist x))"

definition channel_wf :: "notif_lib \<Rightarrow> channel \<Rightarrow> bool" where
  "channel_wf lib c \<longleftrightarrow> validate_name (ch_name c) = Inr () \<and> trim (ch_name c) = ch_name c \<and> config_wf lib (ch_config c)"

lemma btree_strings_facts: "sorted (btree_collect xs)" "distinct (btree_collect xs)" "set (btree_collect xs) = set xs"
  "btree_collect xs = [] \<longleftrightarrow> xs = []" for xs :: "string list"
  by (simp_all add: btree_collect_def) (metis remdups_eq_nil_iff length_sort length_0_conv)

lemma channel_smtp_wf:
  assumes "channel_smtp i name host port username pw from tls al now = Inr c"
  shows "channel_wf lib c"
proof -
  from assms obtain as where n: "validate_name name = Inr ()" and as: "collect_results smtp_address al = Inr as" "as \<noteq> []"
    and v: "valid_host host" "port \<noteq> 0" "username \<noteq> []" "pw \<noteq> []" "valid_email from"
    and c: "ch_name c = trim name" "ch_config c = SmtpConfig \<lparr>sm_host = host, sm_port = port, sm_username = username,
         sm_password_enc = pw, sm_from_addr = to_ascii_lowercase from, sm_tls_mode = tls, sm_allowlist = btree_collect as\<rparr>"
    by (auto simp: channel_smtp_def split: if_splits)
  have "smtp_address a = Inr a" if "a \<in> set as" for a
    using collect_results_from [OF as(1) that] smtp_address_Inr by blast
  then show ?thesis
    using v as(2) validate_name_trim [OF n]
    by (simp add: channel_wf_def config_wf_def c trim_idem btree_strings_facts list_all_iff valid_email_lower)
       (simp add: to_ascii_lowercase_def lower_idem)
qed

lemma channel_webhook_wf:
  assumes "channel_webhook lib i name u secret al now = Inr c"
  shows "channel_wf lib c"
proof -
  from assms obtain p vs where n: "validate_name name = Inr ()" and p: "nl_url lib u = Some p" "url_scheme p = ''https''"
      "url_host p \<noteq> None" "url_username p = []" "url_password p = None" "secret \<noteq> []"
    and vs: "collect_results (webhook_network lib) al = Inr vs" "vs \<noteq> []"
    and c: "ch_name c = trim name" "ch_config c = WebhookConfig \<lparr>wb_url = u, wb_secret_enc = secret, wb_allowlist = btree_collect vs\<rparr>"
    by (auto simp: channel_webhook_def ok_or_Inr split: if_splits)
  have "validate_cidr lib v = Inr ()" if "v \<in> set vs" for v
    using collect_results_from [OF vs(1) that] by (auto simp: webhook_network_def)
  then show ?thesis
    using p vs(2) validate_name_trim [OF n]
    by (simp add: channel_wf_def config_wf_def c trim_idem btree_strings_facts list_all_iff)
qed

end
