(* ===== verification/Notification_Repo.thy ===== *)
theory Notification_Repo
  imports Token_Repo Notification_Domain
begin

text \<open>
  The SQLite adapter of the notifications, \<open>openpanel-app/src/notifications/repo.rs\<close>: rows of the
  four tables and the statements over them, with the lease of due deliveries.
\<close>

section \<open>Rows\<close>

definition kind_name :: "event_kind \<Rightarrow> string" where
  "kind_name k = (case k of Alert \<Rightarrow> ''alert'' | AuditEmitted \<Rightarrow> ''audit'' | JobTerminal \<Rightarrow> ''job_terminal'')"

definition parse_kind :: "string \<Rightarrow> string + event_kind" where
  "parse_kind v =
     (if v = ''alert'' then Inr Alert else if v = ''audit'' then Inr AuditEmitted
      else if v = ''job_terminal'' then Inr JobTerminal else Inl ''invalid event kind'')"

definition parse_severity :: "string \<Rightarrow> string + severity" where
  "parse_severity v =
     (if v = ''info'' then Inr Info else if v = ''warning'' then Inr Warning
      else if v = ''critical'' then Inr Critical else Inl ''invalid severity'')"

definition status_name :: "delivery_status \<Rightarrow> string" where
  "status_name x =
     (case x of
        DPending \<Rightarrow> ''pending'' | DLeased \<Rightarrow> ''leased'' | DRetry \<Rightarrow> ''retry''
      | TerminalSuccess \<Rightarrow> ''terminal_success'' | TerminalFailure \<Rightarrow> ''terminal_failure'')"

definition parse_status :: "string \<Rightarrow> string + delivery_status" where
  "parse_status v =
     (if v = ''pending'' then Inr DPending else if v = ''leased'' then Inr DLeased
      else if v = ''retry'' then Inr DRetry else if v = ''terminal_success'' then Inr TerminalSuccess
      else if v = ''terminal_failure'' then Inr TerminalFailure else Inl ''invalid delivery status'')"

definition tls_name :: "tls_mode \<Rightarrow> string" where
  "tls_name x = (case x of Tls \<Rightarrow> ''tls'' | StartTls \<Rightarrow> ''start_tls'' | TlsNone \<Rightarrow> ''none'')"

definition parse_tls :: "string \<Rightarrow> string + tls_mode" where
  "parse_tls v =
     (if v = ''tls'' then Inr Tls else if v = ''start_tls'' then Inr StartTls
      else if v = ''none'' then Inr TlsNone else Inl ''invalid TLS mode'')"

interpretation event_kind_codec: string_codec kind_name parse_kind
proof unfold_locales
  fix v show "parse_kind (kind_name v) = Inr v" by (cases v) (simp_all add: parse_kind_def kind_name_def)
qed (auto simp: parse_kind_def kind_name_def split: if_splits)

interpretation severity_codec: string_codec severity_str parse_severity
proof unfold_locales
  fix v show "parse_severity (severity_str v) = Inr v" by (cases v) (simp_all add: parse_severity_def severity_str_def)
qed (auto simp: parse_severity_def severity_str_def split: if_splits)

interpretation delivery_status_codec: string_codec status_name parse_status
proof unfold_locales
  fix v show "parse_status (status_name v) = Inr v" by (cases v) (simp_all add: parse_status_def status_name_def)
qed (auto simp: parse_status_def status_name_def split: if_splits)

interpretation tls_codec: string_codec tls_name parse_tls
proof unfold_locales
  fix v show "parse_tls (tls_name v) = Inr v" by (cases v) (simp_all add: parse_tls_def tls_name_def)
qed (auto simp: parse_tls_def tls_name_def split: if_splits)

definition channel_to_row :: "text_json \<Rightarrow> channel \<Rightarrow> string + channel_row" where
  "channel_to_row js c =
     (case ch_config c of
        SmtpConfig x \<Rightarrow>
          rbind (texts_to_json js (sm_allowlist x)) (\<lambda>j.
            Inr \<lparr>chr_id = ch_id c, chr_name = ch_name c, chr_kind = channel_kind_str (channel_kind_of c),
              chr_endpoint = sm_host x, chr_port = Some (uint (sm_port x)), chr_username = Some (sm_username x),
              chr_credential_enc = sm_password_enc x, chr_from_addr = Some (sm_from_addr x),
              chr_tls_mode = Some (tls_name (sm_tls_mode x)), chr_allowlist_json = j,
              chr_created_at = ch_created_at c, chr_disabled_at = ch_disabled_at c\<rparr>)
      | WebhookConfig x \<Rightarrow>
          rbind (texts_to_json js (wb_allowlist x)) (\<lambda>j.
            Inr \<lparr>chr_id = ch_id c, chr_name = ch_name c, chr_kind = channel_kind_str (channel_kind_of c),
              chr_endpoint = wb_url x, chr_port = None, chr_username = None,
              chr_credential_enc = wb_secret_enc x, chr_from_addr = None, chr_tls_mode = None, chr_allowlist_json = j,
              chr_created_at = ch_created_at c, chr_disabled_at = ch_disabled_at c\<rparr>))"

text \<open>
  Reading a missing column of an SMTP channel panics; no statement writes such a row, and the model
  has an error in its place.
\<close>

definition column :: "'a option \<Rightarrow> string + 'a" where
  "column x = ok_or ''NULL column'' x"

definition row_channel :: "notif_lib \<Rightarrow> text_json \<Rightarrow> channel_row \<Rightarrow> string + channel" where
  "row_channel lib js r =
     rbind (texts_from_json js (chr_allowlist_json r)) (\<lambda>allowlist.
     rbind
       (if chr_kind r = ''smtp'' then
          rbind (column (chr_port r)) (\<lambda>port.
          rbind (column (chr_username r)) (\<lambda>username.
          rbind (column (chr_from_addr r)) (\<lambda>from_addr.
          rbind (column (chr_tls_mode r)) (\<lambda>tls_text.
          rbind (parse_tls tls_text) (\<lambda>tls.
            map_err notification_error_display
              (channel_smtp (chr_id r) (chr_name r) (chr_endpoint r) (word_of_int port) username (chr_credential_enc r)
                from_addr tls allowlist (chr_created_at r)))))))
        else if chr_kind r = ''webhook'' then
          map_err notification_error_display
            (channel_webhook lib (chr_id r) (chr_name r) (chr_endpoint r) (chr_credential_enc r) allowlist (chr_created_at r))
        else Inl ''invalid channel kind'') (\<lambda>c.
       Inr (channel_restore_disabled_at (chr_disabled_at r) c)))"

definition subscription_to_row :: "notif_lib \<Rightarrow> subscription \<Rightarrow> subscription_row" where
  "subscription_to_row lib x =
     \<lparr>sbr_id = sub_id x, sbr_user_id = sub_user_id x, sbr_channel_id = sub_channel_id x,
      sbr_destination = sub_destination x, sbr_kind = kind_name (sub_kind x),
      sbr_filter_json = nl_json_str lib (filter_to_json (sub_filter x)), sbr_enabled = sub_enabled x,
      sbr_failure_count = 0, sbr_created_at = sub_created_at x\<rparr>"

definition row_subscription :: "notif_lib \<Rightarrow> subscription_row \<Rightarrow> string + subscription" where
  "row_subscription lib r =
     rbind (parse_kind (sbr_kind r)) (\<lambda>kind.
     rbind (nl_json_parse lib (sbr_filter_json r)) (\<lambda>v.
     rbind (map_err notification_error_display (filter_from_json kind v)) (\<lambda>f.
     rbind (map_err notification_error_display (subscription_new (sbr_id r) (sbr_user_id r) (sbr_channel_id r)
         (sbr_destination r) kind f (sbr_created_at r))) (\<lambda>x.
       Inr (subscription_restore_enabled (sbr_enabled r) x)))))"

definition event_to_row :: "notif_lib \<Rightarrow> notification_event \<Rightarrow> event_row" where
  "event_to_row lib e =
     \<lparr>evr_id = ev_id e, evr_kind = kind_name (ev_kind e), evr_subject = ev_subject e,
      evr_severity = severity_str (ev_severity e), evr_details_json = nl_json_str lib (ev_details e),
      evr_occurred_at = ev_occurred_at e\<rparr>"

definition row_event :: "notif_lib \<Rightarrow> event_row \<Rightarrow> string + notification_event" where
  "row_event lib r =
     rbind (parse_kind (evr_kind r)) (\<lambda>kind.
     rbind (parse_severity (evr_severity r)) (\<lambda>sev.
     rbind (nl_json_parse lib (evr_details_json r)) (\<lambda>details.
       map_err notification_error_display
         (event_new lib (evr_id r) kind (evr_subject r) sev details (evr_occurred_at r)))))"

definition delivery_to_row :: "delivery \<Rightarrow> delivery_row" where
  "delivery_to_row d =
     \<lparr>dlr_id = dl_id d, dlr_event_id = dl_event_id d, dlr_channel_id = dl_channel_id d,
      dlr_subscription_id = dl_subscription_id d, dlr_payload_digest = dl_payload_digest d,
      dlr_status = status_name (dl_status d), dlr_attempt_n = uint (dl_attempt_n d),
      dlr_next_retry_at = dl_next_retry_at d, dlr_lease_until = dl_lease_until d,
      dlr_last_error_redacted = dl_last_error_redacted d, dlr_created_at = dl_created_at d,
      dlr_completed_at = dl_completed_at d\<rparr>"

definition row_delivery :: "delivery_row \<Rightarrow> string + delivery" where
  "row_delivery r =
     rbind (parse_status (dlr_status r)) (\<lambda>status.
       map_err notification_error_display (delivery_restore
         \<lparr>dl_id = dlr_id r, dl_event_id = dlr_event_id r, dl_channel_id = dlr_channel_id r,
          dl_subscription_id = dlr_subscription_id r, dl_payload_digest = dlr_payload_digest r, dl_status = status,
          dl_attempt_n = word_of_int (dlr_attempt_n r), dl_next_retry_at = dlr_next_retry_at r,
          dl_lease_until = dlr_lease_until r, dl_last_error_redacted = dlr_last_error_redacted r,
          dl_created_at = dlr_created_at r, dl_completed_at = dlr_completed_at r\<rparr>))"

section \<open>Channels, subscriptions and events\<close>

definition channels_create :: "env \<Rightarrow> text_json \<Rightarrow> channel \<Rightarrow> unit repo" where
  "channels_create env js c =
     sbind (slift (channel_to_row js c)) (\<lambda>row.
       sql_write env (\<lambda>s. \<not> list_ex (\<lambda>r. chr_id r = ch_id c) (db_channels s))
         (\<lambda>s. s\<lparr>db_channels := db_channels s @ [row]\<rparr>))"

definition channel_credential :: "channel \<Rightarrow> string" where
  "channel_credential c = (case ch_config c of SmtpConfig x \<Rightarrow> sm_password_enc x | WebhookConfig x \<Rightarrow> wb_secret_enc x)"

definition channels_update :: "env \<Rightarrow> channel \<Rightarrow> unit repo" where
  "channels_update env c =
     sql_write env (\<lambda>_. True) (\<lambda>s. s\<lparr>db_channels := update_where (\<lambda>r. chr_id r = ch_id c)
       (\<lambda>r. r\<lparr>chr_name := ch_name c, chr_credential_enc := channel_credential c, chr_disabled_at := ch_disabled_at c\<rparr>)
       (db_channels s)\<rparr>)"

definition channels_find :: "env \<Rightarrow> notif_lib \<Rightarrow> text_json \<Rightarrow> uuid \<Rightarrow> channel option repo" where
  "channels_find env lib js i =
     sbind (sql_read env (\<lambda>s. find (\<lambda>r. chr_id r = i) (db_channels s)))
       (\<lambda>row. slift (transpose_opt (map_option (row_channel lib js) row)))"

definition channels_list :: "env \<Rightarrow> notif_lib \<Rightarrow> text_json \<Rightarrow> channel list repo" where
  "channels_list env lib js =
     sbind (sql_read env (\<lambda>s. sort_key (\<lambda>r. - chr_created_at r) (db_channels s)))
       (\<lambda>rows. slift (collect_results (row_channel lib js) rows))"

definition subscriptions_create :: "env \<Rightarrow> notif_lib \<Rightarrow> subscription \<Rightarrow> unit repo" where
  "subscriptions_create env lib x =
     sql_write env
       (\<lambda>s. \<not> list_ex (\<lambda>r. sbr_id r = sub_id x) (db_subscriptions s) \<and>
            list_ex (\<lambda>r. chr_id r = sub_channel_id x) (db_channels s))
       (\<lambda>s. s\<lparr>db_subscriptions := db_subscriptions s @ [subscription_to_row lib x]\<rparr>)"

definition subscriptions_update :: "env \<Rightarrow> subscription \<Rightarrow> unit repo" where
  "subscriptions_update env x =
     sql_write env (\<lambda>_. True) (\<lambda>s. s\<lparr>db_subscriptions := update_where (\<lambda>r. sbr_id r = sub_id x \<and> sbr_user_id r = sub_user_id x)
       (\<lambda>r. r\<lparr>sbr_enabled := sub_enabled x\<rparr>) (db_subscriptions s)\<rparr>)"

definition subscriptions_find :: "env \<Rightarrow> notif_lib \<Rightarrow> uuid \<Rightarrow> subscription option repo" where
  "subscriptions_find env lib i =
     sbind (sql_read env (\<lambda>s. find (\<lambda>r. sbr_id r = i) (db_subscriptions s)))
       (\<lambda>row. slift (transpose_opt (map_option (row_subscription lib) row)))"

definition subscriptions_list :: "env \<Rightarrow> notif_lib \<Rightarrow> uuid \<Rightarrow> subscription list repo" where
  "subscriptions_list env lib u =
     sbind (sql_read env (\<lambda>s. sort_key (\<lambda>r. - sbr_created_at r) (filter (\<lambda>r. sbr_user_id r = u) (db_subscriptions s))))
       (\<lambda>rows. slift (collect_results (row_subscription lib) rows))"

definition matching_subscriptions :: "env \<Rightarrow> notif_lib \<Rightarrow> event_kind \<Rightarrow> subscription list repo" where
  "matching_subscriptions env lib kind =
     sbind (sql_read env (\<lambda>s. filter (\<lambda>r. sbr_kind r = kind_name kind \<and> sbr_enabled r) (db_subscriptions s)))
       (\<lambda>rows. slift (collect_results (row_subscription lib) rows))"

text \<open>\<open>INSERT OR IGNORE\<close> leaves an event that is already stored as it is.\<close>

definition events_create :: "env \<Rightarrow> notif_lib \<Rightarrow> notification_event \<Rightarrow> unit repo" where
  "events_create env lib e =
     sql_write env (\<lambda>_. True) (\<lambda>s.
       if list_ex (\<lambda>r. evr_id r = ev_id e) (db_events s) then s
       else s\<lparr>db_events := db_events s @ [event_to_row lib e]\<rparr>)"

definition events_find :: "env \<Rightarrow> notif_lib \<Rightarrow> uuid \<Rightarrow> notification_event option repo" where
  "events_find env lib i =
     sbind (sql_read env (\<lambda>s. find (\<lambda>r. evr_id r = i) (db_events s)))
       (\<lambda>row. slift (transpose_opt (map_option (row_event lib) row)))"

section \<open>Deliveries\<close>

text \<open>A delivery with the identifier, or the event and subscription, of a stored one is ignored.\<close>

definition delivery_conflict :: "delivery \<Rightarrow> db \<Rightarrow> bool" where
  "delivery_conflict d s =
     list_ex (\<lambda>r. dlr_id r = dl_id d \<or> dlr_event_id r = dl_event_id d \<and> dlr_subscription_id r = dl_subscription_id d)
       (db_deliveries s)"

definition delivery_references :: "delivery \<Rightarrow> db \<Rightarrow> bool" where
  "delivery_references d s \<longleftrightarrow>
     list_ex (\<lambda>r. evr_id r = dl_event_id d) (db_events s) \<and> list_ex (\<lambda>r. chr_id r = dl_channel_id d) (db_channels s) \<and>
     list_ex (\<lambda>r. sbr_id r = dl_subscription_id d) (db_subscriptions s)"

definition deliveries_create :: "env \<Rightarrow> delivery \<Rightarrow> bool repo" where
  "deliveries_create env d =
     sbind (sql_update env (\<lambda>s. delivery_conflict d s \<or> delivery_references d s)
         (\<lambda>s. if delivery_conflict d s then 0 else 1)
         (\<lambda>s. if delivery_conflict d s then s else s\<lparr>db_deliveries := db_deliveries s @ [delivery_to_row d]\<rparr>))
       (\<lambda>n. sret (n = 1))"

definition lease_expired :: "instant \<Rightarrow> delivery_row \<Rightarrow> bool" where
  "lease_expired now r \<longleftrightarrow>
     dlr_status r = ''leased'' \<and> (case dlr_lease_until r of None \<Rightarrow> False | Some until \<Rightarrow> until < now)"

definition row_due :: "instant \<Rightarrow> delivery_row \<Rightarrow> bool" where
  "row_due now r \<longleftrightarrow> dlr_status r = ''pending'' \<or>
     dlr_status r = ''retry'' \<and> (case dlr_next_retry_at r of None \<Rightarrow> False | Some retry \<Rightarrow> retry \<le> now)"

fun lease_rows :: "env \<Rightarrow> instant \<Rightarrow> duration \<Rightarrow> uuid list \<Rightarrow> uuid list repo" where
  "lease_rows env now lease_for [] = sret []"
| "lease_rows env now lease_for (i # is) =
     sbind (sql_count env
         (\<lambda>s. length (filter (\<lambda>r. dlr_id r = i \<and> row_due now r) (db_deliveries s)))
         (\<lambda>s. s\<lparr>db_deliveries := update_where (\<lambda>r. dlr_id r = i \<and> row_due now r)
            (\<lambda>r. r\<lparr>dlr_status := ''leased'', dlr_lease_until := Some (now + lease_for)\<rparr>) (db_deliveries s)\<rparr>)) (\<lambda>n.
     sbind (lease_rows env now lease_for is) (\<lambda>ids.
       sret (if n = 1 then i # ids else ids)))"

fun fetch_deliveries :: "env \<Rightarrow> uuid list \<Rightarrow> delivery list repo" where
  "fetch_deliveries env [] = sret []"
| "fetch_deliveries env (i # is) =
     sbind (sql_read env (\<lambda>s. find (\<lambda>r. dlr_id r = i) (db_deliveries s))) (\<lambda>row.
     sbind (slift (ok_or ''no rows returned by a query that expected to return at least one row'' row)) (\<lambda>r.
     sbind (slift (row_delivery r)) (\<lambda>d.
     sbind (fetch_deliveries env is) (\<lambda>ds.
       sret (d # ds)))))"

definition lease_due :: "env \<Rightarrow> instant \<Rightarrow> u32 \<Rightarrow> duration \<Rightarrow> delivery list repo" where
  "lease_due env now limit lease_for =
     sbind (sql_transaction env (\<lambda>e. e) (\<lambda>e. e)
       (sbind (sql_write env (\<lambda>_. True) (\<lambda>s. s\<lparr>db_deliveries := update_where (lease_expired now)
            (\<lambda>r. r\<lparr>dlr_status := ''pending'', dlr_lease_until := None\<rparr>) (db_deliveries s)\<rparr>)) (\<lambda>_.
        sbind (sql_read env (\<lambda>s. take (unat limit) (map dlr_id
            (sort_key dlr_created_at (filter (row_due now) (db_deliveries s)))))) (\<lambda>ids.
          lease_rows env now lease_for ids)))) (\<lambda>ids.
       fetch_deliveries env ids)"

definition delivery_row_set :: "delivery \<Rightarrow> delivery_row \<Rightarrow> delivery_row" where
  "delivery_row_set d r =
     r\<lparr>dlr_status := status_name (dl_status d), dlr_attempt_n := uint (dl_attempt_n d),
       dlr_next_retry_at := dl_next_retry_at d, dlr_lease_until := dl_lease_until d,
       dlr_last_error_redacted := dl_last_error_redacted d, dlr_completed_at := dl_completed_at d\<rparr>"

definition deliveries_update :: "env \<Rightarrow> delivery \<Rightarrow> unit repo" where
  "deliveries_update env d =
     sql_write env (\<lambda>_. True) (\<lambda>s. s\<lparr>db_deliveries := update_where (\<lambda>r. dlr_id r = dl_id d) (delivery_row_set d) (db_deliveries s)\<rparr>)"

definition deliveries_find :: "env \<Rightarrow> uuid \<Rightarrow> delivery option repo" where
  "deliveries_find env i =
     sbind (sql_read env (\<lambda>s. find (\<lambda>r. dlr_id r = i) (db_deliveries s)))
       (\<lambda>row. slift (transpose_opt (map_option row_delivery row)))"

definition increment_failure_count :: "env \<Rightarrow> uuid \<Rightarrow> unit repo" where
  "increment_failure_count env i =
     sql_write env (\<lambda>_. True) (\<lambda>s. s\<lparr>db_subscriptions := update_where (\<lambda>r. sbr_id r = i)
       (\<lambda>r. r\<lparr>sbr_failure_count := sbr_failure_count r + 1\<rparr>) (db_subscriptions s)\<rparr>)"

definition min_option :: "instant list \<Rightarrow> instant option" where
  "min_option xs = (case xs of [] \<Rightarrow> None | x # ys \<Rightarrow> Some (foldl min x ys))"

definition row_open :: "delivery_row \<Rightarrow> bool" where
  "row_open r \<longleftrightarrow> dlr_status r = ''pending'' \<or> dlr_status r = ''retry'' \<or> dlr_status r = ''leased''"

definition row_completed :: "string \<Rightarrow> instant \<Rightarrow> delivery_row \<Rightarrow> bool" where
  "row_completed status since r \<longleftrightarrow>
     dlr_status r = status \<and> (case dlr_completed_at r of None \<Rightarrow> False | Some x \<Rightarrow> since \<le> x)"

definition channel_health_of :: "env \<Rightarrow> uuid \<Rightarrow> instant \<Rightarrow> channel_health repo" where
  "channel_health_of env i since =
     sbind (sql_read env (\<lambda>s. filter (\<lambda>r. dlr_channel_id r = i) (db_deliveries s))) (\<lambda>rows.
     sbind (sql_read env (\<lambda>s. length (filter (\<lambda>r. sbr_channel_id r = i \<and> sbr_enabled r) (db_subscriptions s)))) (\<lambda>subs.
     (let delivered = length (filter (row_completed ''terminal_success'' since) rows) in
       sret \<lparr>hl_channel_id = i, hl_delivered = delivered,
         hl_failed = length (filter (row_completed ''terminal_failure'' since) rows),
         hl_pending = length (filter row_open rows),
         hl_oldest_pending_at = min_option (map dlr_created_at (filter row_open rows)),
         hl_next_retry_at = min_option (List.map_filter dlr_next_retry_at (filter (\<lambda>r. dlr_status r = ''retry'') rows)),
         hl_degraded = (subs > 0 \<and> delivered = 0)\<rparr>)))"

section \<open>Rows are read back\<close>

definition digest_ok :: "string \<Rightarrow> bool" where
  "digest_ok x \<longleftrightarrow> x \<noteq> [] \<and> length x \<le> 128"

interpretation delivery_codec: row_codec delivery_to_row row_delivery "\<lambda>d. digest_ok (dl_payload_digest d)"
  by unfold_locales
     (simp add: delivery_to_row_def row_delivery_def delivery_restore_def digest_ok_def delivery_status_codec.dec_enc)

lemma channel_roundtrip:
  assumes "text_json_contract js" and "channel_wf lib c" and "channel_to_row js c = Inr row"
  shows "row_channel lib js row = Inr c"
proof -
  have js: "texts_from_json js s = Inr x" if "texts_to_json js x = Inr s" for x s
    using assms(1) that by (metis text_json_contract_def sum.inject(2))
  have same: "collect_results f xs = Inr xs" if "list_all (\<lambda>x. f x = Inr x) xs" for f :: "string \<Rightarrow> 'e + string" and xs
    using that by (induction xs) auto
  have set: "btree_collect xs = xs" if "sorted xs" "distinct xs" for xs :: "string list"
    using that by (simp add: btree_collect_def distinct_remdups_id sorted_sort_id)
  show ?thesis
  proof (cases "ch_config c")
    case (SmtpConfig x)
    with assms(2) have a: "collect_results smtp_address (sm_allowlist x) = Inr (sm_allowlist x)"
        "btree_collect (sm_allowlist x) = sm_allowlist x"
      using same [of smtp_address] set by (auto simp: channel_wf_def config_wf_def)
    then have "channel_smtp (ch_id c) (ch_name c) (sm_host x) (sm_port x) (sm_username x) (sm_password_enc x)
        (sm_from_addr x) (sm_tls_mode x) (sm_allowlist x) (ch_created_at c) = Inr (c\<lparr>ch_disabled_at := None\<rparr>)"
      using assms(2) SmtpConfig by (simp add: channel_smtp_def channel_wf_def config_wf_def del: rbind_Inr)
    then show ?thesis
      using assms(3) SmtpConfig
      by (auto simp: channel_to_row_def row_channel_def js column_def channel_kind_str_def channel_kind_of_def
        tls_codec.dec_enc channel_restore_disabled_at_def)
  next
    case (WebhookConfig x)
    have "list_all (\<lambda>v. webhook_network lib v = Inr v) (wb_allowlist x)"
      using assms(2) by (simp add: WebhookConfig channel_wf_def config_wf_def webhook_network_def list_all_iff)
    with assms(2) have a: "collect_results (webhook_network lib) (wb_allowlist x) = Inr (wb_allowlist x)"
        "btree_collect (wb_allowlist x) = wb_allowlist x"
      using same [of "webhook_network lib"] set WebhookConfig by (auto simp: channel_wf_def config_wf_def)
    then have "channel_webhook lib (ch_id c) (ch_name c) (wb_url x) (wb_secret_enc x) (wb_allowlist x) (ch_created_at c) =
        Inr (c\<lparr>ch_disabled_at := None\<rparr>)"
      using assms(2) WebhookConfig
      by (auto simp: channel_webhook_def channel_wf_def config_wf_def simp del: rbind_Inr split: option.splits)
    then show ?thesis
      using assms(3) WebhookConfig
      by (auto simp: channel_to_row_def row_channel_def js channel_kind_str_def channel_kind_of_def
        channel_restore_disabled_at_def)
  qed
qed

text \<open>A subscription and an event, where the serialiser reads back what it wrote for them.\<close>

definition destination_ok :: "string \<Rightarrow> bool" where
  "destination_ok x \<longleftrightarrow> trim x \<noteq> [] \<and> length x \<le> 2048 \<and> \<not> has_control x"

lemma subscription_roundtrip:
  assumes "nl_json_parse lib (nl_json_str lib (filter_to_json (sub_filter x))) = Inr (filter_to_json (sub_filter x))"
    and "filter_wf (sub_kind x) (sub_filter x)" and "destination_ok (sub_destination x)"
  shows "row_subscription lib (subscription_to_row lib x) = Inr x"
  using assms
  by (simp add: row_subscription_def subscription_to_row_def event_kind_codec.dec_enc filter_roundtrip subscription_new_def
    destination_ok_def subscription_restore_enabled_def)

lemma event_roundtrip:
  assumes "event_new lib i kind subject sev details now = Inr e"
    and "nl_json_parse lib (nl_json_str lib (ev_details e)) = Inr (ev_details e)"
  shows "row_event lib (event_to_row lib e) = Inr e"
  using assms
  by (auto simp: row_event_def event_to_row_def event_kind_codec.dec_enc severity_codec.dec_enc event_new_def redact_json_idem
    split: if_splits)

section \<open>The table of deliveries\<close>

text \<open>A row is in order when it is the row of a delivery in order.\<close>

definition delivery_row_ok :: "delivery_row \<Rightarrow> bool" where
  "delivery_row_ok r \<longleftrightarrow>
     (case row_delivery r of Inl _ \<Rightarrow> False | Inr d \<Rightarrow> delivery_wf d \<and> digest_ok (dl_payload_digest d) \<and> delivery_to_row d = r)"

lemma delivery_row_okE:
  assumes "delivery_row_ok r"
  obtains d where "row_delivery r = Inr d" "delivery_wf d" "digest_ok (dl_payload_digest d)" "r = delivery_to_row d"
  using assms by (auto simp: delivery_row_ok_def split: sum.splits)

lemma delivery_row_okI: "delivery_wf d \<Longrightarrow> digest_ok (dl_payload_digest d) \<Longrightarrow> delivery_row_ok (delivery_to_row d)"
  by (simp add: delivery_row_ok_def delivery_codec.roundtrip)

lemma delivery_row_of: "delivery_row_ok r \<Longrightarrow> row_delivery r = Inr d \<Longrightarrow>
    r = delivery_to_row d \<and> delivery_wf d \<and> digest_ok (dl_payload_digest d)"
  by (auto elim: delivery_row_okE)

text \<open>Writing a record that has made a step gives the row of the new record.\<close>

lemma row_set_step: "delivery_step d d' \<Longrightarrow> delivery_row_set d' (delivery_to_row d) = delivery_to_row d'"
  by (auto simp: delivery_row_set_def delivery_to_row_def dest: delivery_step_keys)

text \<open>
  The effect of a statement on the rows: every row stays or moves to what one step of its record
  gives.
\<close>

definition row_step :: "delivery_row \<Rightarrow> delivery_row \<Rightarrow> bool" where
  "row_step r r' \<longleftrightarrow> r' = r \<or> (\<exists>d d'. r = delivery_to_row d \<and> delivery_step d d' \<and> r' = delivery_to_row d')"

lemma row_step_to: "r = delivery_to_row d \<Longrightarrow> delivery_step d d' \<Longrightarrow> row_step r (delivery_to_row d')"
  by (auto simp: row_step_def)

lemma row_step_ok:
  assumes "row_step r r'" and "delivery_row_ok r"
  shows "delivery_row_ok r'" and "dlr_id r' = dlr_id r" and "dlr_event_id r' = dlr_event_id r"
    and "dlr_channel_id r' = dlr_channel_id r" and "dlr_subscription_id r' = dlr_subscription_id r"
    and "dlr_created_at r' = dlr_created_at r"
proof -
  obtain d0 where d0: "r = delivery_to_row d0" "delivery_wf d0" "digest_ok (dl_payload_digest d0)"
    using assms(2) by (rule delivery_row_okE)
  have "delivery_row_ok r' \<and> dlr_id r' = dlr_id r \<and> dlr_event_id r' = dlr_event_id r \<and>
    dlr_channel_id r' = dlr_channel_id r \<and> dlr_subscription_id r' = dlr_subscription_id r \<and> dlr_created_at r' = dlr_created_at r"
  proof (cases "r' = r")
    case False
    then obtain d d' where s: "r = delivery_to_row d" "delivery_step d d'" "r' = delivery_to_row d'"
      using assms(1) by (auto simp: row_step_def)
    have "dl_payload_digest d = dl_payload_digest d0" using s(1) d0(1) by (simp add: delivery_to_row_def)
    then have "d = d0" using s(1) d0 delivery_codec.to_row_inject by metis
    then show ?thesis
      using s d0 delivery_step_keys [OF s(2)] delivery_step_wf [OF s(2)]
      by (simp add: delivery_row_okI) (simp add: delivery_to_row_def)
  qed (use assms(2) in simp)
  then show "delivery_row_ok r'" "dlr_id r' = dlr_id r" "dlr_event_id r' = dlr_event_id r"
    "dlr_channel_id r' = dlr_channel_id r" "dlr_subscription_id r' = dlr_subscription_id r"
    "dlr_created_at r' = dlr_created_at r" by simp_all
qed

text \<open>The statements of the lease make such steps.\<close>

lemma lease_row_step:
  assumes "delivery_row_ok r" and "row_due now r" and "0 < period"
  shows "row_step r (r\<lparr>dlr_status := ''leased'', dlr_lease_until := Some (now + period)\<rparr>)"
proof -
  obtain d where r: "r = delivery_to_row d" using assms(1) by (rule delivery_row_okE)
  have "delivery_due now d"
    using assms(2) r
    by (cases "dl_status d") (auto simp: row_due_def delivery_due_def delivery_to_row_def status_name_def)
  then have "delivery_step d (d\<lparr>dl_status := DLeased, dl_lease_until := Some (now + period)\<rparr>)"
    using assms(3) by (intro delivery_step.lease [of now period]) (simp add: delivery_lease_def)
  from row_step_to [OF r this] show ?thesis by (simp add: r delivery_to_row_def status_name_def)
qed

lemma recover_row_step:
  assumes "delivery_row_ok r" and "lease_expired now r"
  shows "row_step r (r\<lparr>dlr_status := ''pending'', dlr_lease_until := None\<rparr>)"
proof -
  obtain d where r: "r = delivery_to_row d" using assms(1) by (rule delivery_row_okE)
  have "dl_status d = DLeased \<and> (case dl_lease_until d of None \<Rightarrow> False | Some until \<Rightarrow> until < now)"
    using assms(2) r
    by (cases "dl_status d") (auto simp: lease_expired_def delivery_to_row_def status_name_def)
  then have "delivery_step d (d\<lparr>dl_status := DPending, dl_lease_until := None\<rparr>)"
    by (intro delivery_step.recover [of now]) (simp add: recover_expired_lease_def)
  from row_step_to [OF r this] show ?thesis by (simp add: r delivery_to_row_def status_name_def)
qed

end
