(* ===== verification/Notification_Service.thy ===== *)
theory Notification_Service
  imports Notification_Repo Secret_Store
begin

text \<open>
  \<open>NotificationService\<close> with its transports and its dispatcher task,
  \<open>openpanel-app/src/notifications/{service,adapter,task}.rs\<close>. What the network answers is the
  record \<open>notif_world\<close>, indexed by the entity the call is made for; identifiers and nonces drawn
  at random are arguments, in \<open>publish\<close> one identifier for every subscription.
\<close>

section \<open>Transports\<close>

datatype adapter_outcome = Accepted | TransientFailure string | PermanentFailure string

record smtp_session =
  ss_host :: string
  ss_port :: "16 word"
  ss_tls :: tls_mode
  ss_username :: string
  ss_password :: string

record http_request =
  hr_url :: string
  hr_headers :: "(string \<times> string) list"
  hr_body :: "byte list"

datatype smtp_answer = SmtpSent | SmtpError (smtp_is_transient: bool) string

datatype http_answer =
    HttpStatus nat
  | HttpError (http_is_timeout: bool) (http_is_connect: bool) string

record notif_world =
  nw_lookup :: "uuid \<Rightarrow> string \<Rightarrow> 16 word \<Rightarrow> ip_addr list option"
  nw_mailbox :: "string \<Rightarrow> string option"
  nw_message :: "string \<Rightarrow> string \<Rightarrow> string \<Rightarrow> string \<Rightarrow> string + string"
  nw_relay_error :: "tls_mode \<Rightarrow> string \<Rightarrow> string option"
  nw_send :: "uuid \<Rightarrow> smtp_session \<Rightarrow> string \<Rightarrow> smtp_answer"
  nw_post :: "uuid \<Rightarrow> http_request \<Rightarrow> http_answer"

definition smtp_outcome :: "smtp_answer \<Rightarrow> adapter_outcome" where
  "smtp_outcome a =
     (case a of
        SmtpSent \<Rightarrow> Accepted
      | SmtpError transient e \<Rightarrow> if transient then TransientFailure e else PermanentFailure e)"

text \<open>Only the two encrypted modes look up a relay that can be refused.\<close>

definition relay_error :: "notif_world \<Rightarrow> smtp_channel \<Rightarrow> string option" where
  "relay_error w c =
     (case sm_tls_mode c of
        Tls \<Rightarrow> nw_relay_error w Tls (sm_host c)
      | StartTls \<Rightarrow> nw_relay_error w StartTls (sm_host c)
      | TlsNone \<Rightarrow> None)"

definition adapter_smtp ::
    "notif_lib \<Rightarrow> notif_world \<Rightarrow> uuid \<Rightarrow> smtp_channel \<Rightarrow> string \<Rightarrow> string \<Rightarrow> notification_event \<Rightarrow> adapter_outcome" where
  "adapter_smtp lib w i c password recipient e =
     (case nw_mailbox w (sm_from_addr c) of
        None \<Rightarrow> PermanentFailure ''invalid sender''
      | Some from_box \<Rightarrow>
     (case nw_mailbox w recipient of
        None \<Rightarrow> PermanentFailure ''invalid recipient''
      | Some to_box \<Rightarrow>
     (case nw_message w from_box to_box (ev_subject e) (nl_json_str lib (ev_details e)) of
        Inl err \<Rightarrow> PermanentFailure err
      | Inr message \<Rightarrow>
     (case relay_error w c of
        Some err \<Rightarrow> PermanentFailure err
      | None \<Rightarrow> smtp_outcome (nw_send w i
          \<lparr>ss_host = sm_host c, ss_port = sm_port c, ss_tls = sm_tls_mode c, ss_username = sm_username c,
           ss_password = password\<rparr> message)))))"

definition webhook_request ::
    "env \<Rightarrow> notif_lib \<Rightarrow> webhook_channel \<Rightarrow> string \<Rightarrow> uuid \<Rightarrow> notification_event \<Rightarrow> byte list \<Rightarrow> http_request" where
  "webhook_request env lib c secret i e body =
     \<lparr>hr_url = wb_url c,
      hr_headers = [(''content-type'', ''application/json''),
        (''x-openpanel-signature'', sign_webhook lib (as_bytes secret) body),
        (''x-openpanel-delivery'', env_uuid_str env i),
        (''x-openpanel-event'', event_kind_as_str (ev_kind e))],
      hr_body = body\<rparr>"

definition webhook_outcome :: "http_answer \<Rightarrow> adapter_outcome" where
  "webhook_outcome a =
     (case a of
        HttpStatus n \<Rightarrow>
          if 200 \<le> n \<and> n \<le> 299 then Accepted
          else if 500 \<le> n \<and> n \<le> 599 \<or> n = 408 \<or> n = 429 then TransientFailure (''HTTP '' @ nat_str n)
          else PermanentFailure (''HTTP '' @ nat_str n)
      | HttpError timed_out connecting err \<Rightarrow>
          if timed_out \<or> connecting then TransientFailure err else PermanentFailure err)"

definition adapter_webhook ::
    "env \<Rightarrow> notif_lib \<Rightarrow> notif_world \<Rightarrow> webhook_channel \<Rightarrow> string \<Rightarrow> uuid \<Rightarrow> notification_event \<Rightarrow> byte list \<Rightarrow>
     adapter_outcome" where
  "adapter_webhook env lib w c secret i e body = webhook_outcome (nw_post w i (webhook_request env lib c secret i e body))"

section \<open>The service\<close>

record notif_service =
  ns_lib :: notif_lib
  ns_json :: text_json
  ns_crypto :: crypto
  ns_master_key :: "byte list"
  ns_max_payload_bytes :: nat
  ns_calls_per_minute :: nat

definition notif_service_new :: "notif_lib \<Rightarrow> text_json \<Rightarrow> crypto \<Rightarrow> byte list \<Rightarrow> notif_service" where
  "notif_service_new lib js cr master_key =
     \<lparr>ns_lib = lib, ns_json = js, ns_crypto = cr, ns_master_key = master_key,
      ns_max_payload_bytes = 16 * 1024, ns_calls_per_minute = 60\<rparr>"

record create_smtp_channel =
  cs_name :: string
  cs_host :: string
  cs_port :: "16 word"
  cs_username :: string
  cs_password :: string
  cs_from_addr :: string
  cs_tls_mode :: tls_mode
  cs_allowlist :: "string list"

record create_webhook_channel =
  cw_name :: string
  cw_url :: string
  cw_signing_secret :: string
  cw_allowlist :: "string list"

record create_subscription_input =
  csi_channel_id :: uuid
  csi_destination :: string
  csi_kind :: event_kind
  csi_filter :: json

record subscription_view =
  sv_id :: uuid
  sv_user_id :: uuid
  sv_channel_id :: uuid
  sv_destination :: string
  sv_kind :: event_kind
  sv_filter :: json
  sv_enabled :: bool

record delivery_view =
  dv_id :: uuid
  dv_event_id :: uuid
  dv_channel_id :: uuid
  dv_subscription_id :: uuid
  dv_status :: delivery_status
  dv_attempt_n :: u32
  dv_next_retry_at :: "instant option"
  dv_last_error :: "string option"

datatype notif_service_error =
    NotifForbidden
  | NotifNotFound
  | NotifInvalid notification_error
  | DestinationRejected
  | NotifInternal string

type_synonym 'a notif_call = "(notif_service_error, 'a) call"

definition notif_db :: "'a repo \<Rightarrow> 'a notif_call" where
  "notif_db m = smap_err NotifInternal m"

definition invalid :: "notification_error + 'a \<Rightarrow> 'a notif_call" where
  "invalid r = slift (map_err NotifInvalid r)"

definition secret_result :: "secret_error + 'a \<Rightarrow> 'a notif_call" where
  "secret_result r = slift (map_err (\<lambda>e. NotifInternal (secret_error_display e)) r)"

definition notif_owner :: "user \<Rightarrow> unit notif_call" where
  "notif_owner actor = (if u_role actor = Owner then sret () else sfail NotifForbidden)"

definition notif_audit_change :: "env \<Rightarrow> instant \<Rightarrow> user \<Rightarrow> uuid \<Rightarrow> unit notif_call" where
  "notif_audit_change env now actor target =
     signore (audit_record env (with_target (env_uuid_str env target)
       (audit_event_new now (username_as_str (u_username actor)) (OtherAction ''notification_changed'') Success)))"

definition audit_delivery :: "env \<Rightarrow> instant \<Rightarrow> string \<Rightarrow> audit_outcome \<Rightarrow> uuid \<Rightarrow> uuid \<Rightarrow> unit notif_call" where
  "audit_delivery env now action outcome delivery_id channel_id =
     signore (audit_record env
       (with_metadata (JObject [(''channel_id'', JString (env_uuid_str env channel_id)),
           (''delivery_id'', JString (env_uuid_str env delivery_id))])
         (with_target (env_uuid_str env delivery_id)
           (audit_event_new now ''notification-dispatcher'' (OtherAction action) outcome))))"

text \<open>A destination is refused when every address of its host is outside the allow-list.\<close>

definition ensure_destination ::
    "notif_service \<Rightarrow> notif_world \<Rightarrow> uuid \<Rightarrow> channel \<Rightarrow> string \<Rightarrow> notif_service_error + unit" where
  "ensure_destination svc w i c destination =
     (case smtp_config c of
        Some config \<Rightarrow> if allows_recipient config destination then Inr () else Inl DestinationRejected
      | None \<Rightarrow>
     rbind (ok_or DestinationRejected (webhook_config c)) (\<lambda>config.
     if destination \<noteq> wb_url config then Inl DestinationRejected
     else
     rbind (ok_or DestinationRejected (nl_url (ns_lib svc) destination)) (\<lambda>u.
     rbind (ok_or DestinationRejected (url_host u)) (\<lambda>host.
     rbind (ok_or DestinationRejected (url_port_or_default u)) (\<lambda>port.
     rbind (ok_or DestinationRejected (nw_lookup w i host port)) (\<lambda>addresses.
     if list_all (\<lambda>a. \<not> webhook_allows_ip (ns_lib svc) config a) addresses then Inl DestinationRejected
     else Inr ()))))))"

section \<open>Channels and subscriptions\<close>

definition create_smtp ::
    "env \<Rightarrow> notif_service \<Rightarrow> uuid \<Rightarrow> byte list \<Rightarrow> instant \<Rightarrow> user \<Rightarrow> create_smtp_channel \<Rightarrow> channel_metadata notif_call" where
  "create_smtp env svc i nonce now actor input =
     sbind (notif_owner actor) (\<lambda>_.
     sbind (secret_result (encrypt_to_storage (ns_crypto svc) (ns_master_key svc) nonce (cs_password input))) (\<lambda>encrypted.
     sbind (invalid (channel_smtp i (cs_name input) (cs_host input) (cs_port input) (cs_username input) encrypted
         (cs_from_addr input) (cs_tls_mode input) (cs_allowlist input) now)) (\<lambda>channel.
     sbind (notif_db (channels_create env (ns_json svc) channel)) (\<lambda>_.
     sbind (notif_audit_change env now actor (ch_id channel)) (\<lambda>_.
       sret (channel_metadata_of channel))))))"

definition create_webhook ::
    "env \<Rightarrow> notif_service \<Rightarrow> notif_world \<Rightarrow> uuid \<Rightarrow> byte list \<Rightarrow> instant \<Rightarrow> user \<Rightarrow> create_webhook_channel \<Rightarrow>
     channel_metadata notif_call" where
  "create_webhook env svc w i nonce now actor input =
     sbind (notif_owner actor) (\<lambda>_.
     sbind (secret_result (encrypt_to_storage (ns_crypto svc) (ns_master_key svc) nonce (cw_signing_secret input))) (\<lambda>encrypted.
     sbind (invalid (channel_webhook (ns_lib svc) i (cw_name input) (cw_url input) encrypted (cw_allowlist input) now)) (\<lambda>channel.
     sbind (slift (ensure_destination svc w i channel
         (case webhook_config channel of None \<Rightarrow> [] | Some config \<Rightarrow> wb_url config))) (\<lambda>_.
     sbind (notif_db (channels_create env (ns_json svc) channel)) (\<lambda>_.
     sbind (notif_audit_change env now actor (ch_id channel)) (\<lambda>_.
       sret (channel_metadata_of channel)))))))"

definition notif_channels :: "env \<Rightarrow> notif_service \<Rightarrow> user \<Rightarrow> channel_metadata list notif_call" where
  "notif_channels env svc actor =
     sbind (notif_owner actor) (\<lambda>_.
     sbind (notif_db (channels_list env (ns_lib svc) (ns_json svc))) (\<lambda>cs.
       sret (map channel_metadata_of cs)))"

definition disable_channel :: "env \<Rightarrow> notif_service \<Rightarrow> instant \<Rightarrow> user \<Rightarrow> uuid \<Rightarrow> unit notif_call" where
  "disable_channel env svc now actor i =
     sbind (notif_owner actor) (\<lambda>_.
     sbind (notif_db (channels_find env (ns_lib svc) (ns_json svc) i)) (\<lambda>found.
     sbind (slift (ok_or NotifNotFound found)) (\<lambda>channel.
     sbind (notif_db (channels_update env (channel_disable now channel))) (\<lambda>_.
       notif_audit_change env now actor i))))"

definition enabled_channel :: "channel option \<Rightarrow> channel option" where
  "enabled_channel found = (case found of None \<Rightarrow> None | Some c \<Rightarrow> if channel_is_enabled c then Some c else None)"

definition test_event :: "notif_service \<Rightarrow> uuid \<Rightarrow> instant \<Rightarrow> notification_error + notification_event" where
  "test_event svc event_id now =
     event_new (ns_lib svc) event_id AuditEmitted ''OpenPanel notification test'' Info
       (JObject [(''action'', JString ''notification.test'')]) now"

definition test_channel ::
    "env \<Rightarrow> notif_service \<Rightarrow> notif_world \<Rightarrow> uuid \<Rightarrow> uuid \<Rightarrow> instant \<Rightarrow> user \<Rightarrow> uuid \<Rightarrow> string \<Rightarrow> unit notif_call" where
  "test_channel env svc w event_id delivery_id now actor i destination =
     sbind (notif_owner actor) (\<lambda>_.
     sbind (notif_db (channels_find env (ns_lib svc) (ns_json svc) i)) (\<lambda>found.
     sbind (slift (ok_or NotifNotFound (enabled_channel found))) (\<lambda>channel.
     sbind (slift (ensure_destination svc w delivery_id channel destination)) (\<lambda>_.
     sbind (invalid (test_event svc event_id now)) (\<lambda>event.
     sbind
       (case ch_config channel of
          SmtpConfig config \<Rightarrow>
            sbind (secret_result (decrypt_from_storage (ns_crypto svc) (ns_master_key svc) (sm_password_enc config))) (\<lambda>password.
              sret (adapter_smtp (ns_lib svc) w delivery_id config password destination event))
        | WebhookConfig config \<Rightarrow>
            sbind (secret_result (decrypt_from_storage (ns_crypto svc) (ns_master_key svc) (wb_secret_enc config))) (\<lambda>secret.
            sbind (invalid (webhook_body (ns_lib svc) (env_uuid_str env) event delivery_id (ns_max_payload_bytes svc))) (\<lambda>body.
              sret (adapter_webhook env (ns_lib svc) w config secret delivery_id event body)))) (\<lambda>outcome.
     (case outcome of
        Accepted \<Rightarrow> sret ()
      | TransientFailure e \<Rightarrow> sfail (NotifInternal e)
      | PermanentFailure e \<Rightarrow> sfail (NotifInternal e))))))))"

definition subscription_view_of :: "subscription \<Rightarrow> subscription_view" where
  "subscription_view_of x =
     \<lparr>sv_id = sub_id x, sv_user_id = sub_user_id x, sv_channel_id = sub_channel_id x,
      sv_destination = sub_destination x, sv_kind = sub_kind x, sv_filter = filter_to_json (sub_filter x),
      sv_enabled = sub_enabled x\<rparr>"

definition create_subscription ::
    "env \<Rightarrow> notif_service \<Rightarrow> notif_world \<Rightarrow> uuid \<Rightarrow> instant \<Rightarrow> user \<Rightarrow> create_subscription_input \<Rightarrow>
     subscription_view notif_call" where
  "create_subscription env svc w i now actor input =
     sbind (notif_db (channels_find env (ns_lib svc) (ns_json svc) (csi_channel_id input))) (\<lambda>found.
     sbind (slift (ok_or NotifNotFound (enabled_channel found))) (\<lambda>channel.
     sbind (slift (ensure_destination svc w i channel (csi_destination input))) (\<lambda>_.
     sbind (invalid (filter_from_json (csi_kind input) (csi_filter input))) (\<lambda>f.
     sbind (invalid (subscription_new i (u_id actor) (csi_channel_id input) (csi_destination input) (csi_kind input) f now)) (\<lambda>x.
     sbind (notif_db (subscriptions_create env (ns_lib svc) x)) (\<lambda>_.
     sbind (notif_audit_change env now actor (sub_id x)) (\<lambda>_.
       sret (subscription_view_of x))))))))"

definition notif_subscriptions :: "env \<Rightarrow> notif_service \<Rightarrow> user \<Rightarrow> subscription_view list notif_call" where
  "notif_subscriptions env svc actor =
     sbind (notif_db (subscriptions_list env (ns_lib svc) (u_id actor))) (\<lambda>xs. sret (map subscription_view_of xs))"

definition disable_subscription :: "env \<Rightarrow> notif_service \<Rightarrow> instant \<Rightarrow> user \<Rightarrow> uuid \<Rightarrow> unit notif_call" where
  "disable_subscription env svc now actor i =
     sbind (notif_db (subscriptions_find env (ns_lib svc) i)) (\<lambda>found.
     sbind (slift (ok_or NotifNotFound found)) (\<lambda>x.
     if sub_user_id x \<noteq> u_id actor \<and> u_role actor \<noteq> Owner then sfail NotifForbidden
     else
     sbind (notif_db (subscriptions_update env (subscription_disable x))) (\<lambda>_.
       notif_audit_change env now actor i)))"

section \<open>Fan-out\<close>

definition publish_to ::
    "env \<Rightarrow> notif_service \<Rightarrow> notif_world \<Rightarrow> (uuid \<Rightarrow> uuid) \<Rightarrow> instant \<Rightarrow> notification_event \<Rightarrow> subscription \<Rightarrow>
     uuid list notif_call" where
  "publish_to env svc w fresh now event x =
     sbind (notif_db (channels_find env (ns_lib svc) (ns_json svc) (sub_channel_id x))) (\<lambda>found.
     (case found of
        None \<Rightarrow> sret []
      | Some channel \<Rightarrow>
          if \<not> channel_is_enabled channel \<or> isl (ensure_destination svc w (sub_id x) channel (sub_destination x))
          then sbind (audit_delivery env now ''delivery_rejected'' Denied (fresh (sub_id x)) (ch_id channel)) (\<lambda>_. sret [])
          else
          (let i = fresh (sub_id x) in
          sbind (invalid (webhook_body (ns_lib svc) (env_uuid_str env) event i (ns_max_payload_bytes svc))) (\<lambda>body.
          sbind (notif_db (deliveries_create env (delivery_pending i (ev_id event) (ch_id channel) (sub_id x)
              (payload_digest (ns_lib svc) body) now))) (\<lambda>created.
            sret (if created then [i] else []))))))"

fun publish_all ::
    "env \<Rightarrow> notif_service \<Rightarrow> notif_world \<Rightarrow> (uuid \<Rightarrow> uuid) \<Rightarrow> instant \<Rightarrow> notification_event \<Rightarrow> subscription list \<Rightarrow>
     uuid list notif_call" where
  "publish_all env svc w fresh now event [] = sret []"
| "publish_all env svc w fresh now event (x # xs) =
     sbind (publish_to env svc w fresh now event x) (\<lambda>a.
     sbind (publish_all env svc w fresh now event xs) (\<lambda>b. sret (a @ b)))"

definition publish ::
    "env \<Rightarrow> notif_service \<Rightarrow> notif_world \<Rightarrow> (uuid \<Rightarrow> uuid) \<Rightarrow> instant \<Rightarrow> notification_event \<Rightarrow> uuid list notif_call" where
  "publish env svc w fresh now event =
     sbind (notif_db (events_create env (ns_lib svc) event)) (\<lambda>_.
     sbind (notif_db (matching_subscriptions env (ns_lib svc) (ev_kind event))) (\<lambda>xs.
       publish_all env svc w fresh now event (filter (\<lambda>x. subscription_matches x event) xs)))"

section \<open>Dispatch\<close>

definition take_rate_slot :: "notif_service \<Rightarrow> uuid \<Rightarrow> instant \<Rightarrow> bool notif_call" where
  "take_rate_slot svc i now s =
     (let calls = dropWhile (\<lambda>c. c \<le> now - minutes 1) (db_channel_calls s i) in
      if length calls \<ge> ns_calls_per_minute svc
      then (Inr False, s\<lparr>db_channel_calls := (db_channel_calls s)(i := calls)\<rparr>)
      else (Inr True, s\<lparr>db_channel_calls := (db_channel_calls s)(i := calls @ [now])\<rparr>))"

definition finish_failure :: "env \<Rightarrow> instant \<Rightarrow> delivery \<Rightarrow> unit notif_call" where
  "finish_failure env now d =
     sbind (notif_db (deliveries_update env d)) (\<lambda>_.
     sbind (notif_db (increment_failure_count env (dl_subscription_id d))) (\<lambda>_.
       audit_delivery env now ''delivery_failed'' Failure (dl_id d) (dl_channel_id d)))"

definition attempt_delivery ::
    "env \<Rightarrow> notif_service \<Rightarrow> notif_world \<Rightarrow> instant \<Rightarrow> delivery \<Rightarrow> notification_event \<Rightarrow> subscription \<Rightarrow> channel \<Rightarrow>
     adapter_outcome notif_call" where
  "attempt_delivery env svc w now d event x channel =
     (if \<not> channel_is_enabled channel \<or> \<not> sub_enabled x \<or>
         isl (ensure_destination svc w (dl_id d) channel (sub_destination x))
      then
        sbind (audit_delivery env now ''delivery_rejected'' Denied (dl_id d) (ch_id channel)) (\<lambda>_.
          sret (PermanentFailure ''destination rejected''))
      else
      sbind (take_rate_slot svc (ch_id channel) now) (\<lambda>slot.
      if \<not> slot then sret (TransientFailure ''channel rate limited'')
      else
      (case ch_config channel of
         SmtpConfig config \<Rightarrow>
           sbind (secret_result (decrypt_from_storage (ns_crypto svc) (ns_master_key svc) (sm_password_enc config))) (\<lambda>secret.
             sret (adapter_smtp (ns_lib svc) w (dl_id d) config secret (sub_destination x) event))
       | WebhookConfig config \<Rightarrow>
           sbind (secret_result (decrypt_from_storage (ns_crypto svc) (ns_master_key svc) (wb_secret_enc config))) (\<lambda>secret.
           sbind (invalid (webhook_body (ns_lib svc) (env_uuid_str env) event (dl_id d) (ns_max_payload_bytes svc))) (\<lambda>body.
             sret (if payload_digest (ns_lib svc) body \<noteq> dl_payload_digest d
                   then PermanentFailure ''payload digest mismatch''
                   else adapter_webhook env (ns_lib svc) w config secret (dl_id d) event body))))))"

definition settle :: "env \<Rightarrow> instant \<Rightarrow> delivery \<Rightarrow> channel \<Rightarrow> adapter_outcome \<Rightarrow> unit notif_call" where
  "settle env now d channel outcome =
     (case outcome of
        Accepted \<Rightarrow>
          sbind (invalid (record_success now d)) (\<lambda>d.
          sbind (notif_db (deliveries_update env d)) (\<lambda>_.
            audit_delivery env now ''delivery_succeeded'' Success (dl_id d) (ch_id channel)))
      | TransientFailure e \<Rightarrow>
          sbind (invalid (record_transient_failure now e d)) (\<lambda>d.
          sbind (notif_db (deliveries_update env d)) (\<lambda>_.
            if dl_status d = TerminalFailure then finish_failure env now d else sret ()))
      | PermanentFailure e \<Rightarrow>
          sbind (invalid (record_permanent_failure now e d)) (\<lambda>d. finish_failure env now d))"

definition fail_missing :: "env \<Rightarrow> instant \<Rightarrow> delivery \<Rightarrow> string \<Rightarrow> unit notif_call" where
  "fail_missing env now d e =
     sbind (invalid (record_permanent_failure now e d)) (\<lambda>d. finish_failure env now d)"

definition dispatch_delivery :: "env \<Rightarrow> notif_service \<Rightarrow> notif_world \<Rightarrow> instant \<Rightarrow> delivery \<Rightarrow> unit notif_call" where
  "dispatch_delivery env svc w now d =
     sbind (notif_db (events_find env (ns_lib svc) (dl_event_id d))) (\<lambda>found.
     (case found of
        None \<Rightarrow> fail_missing env now d ''event missing''
      | Some event \<Rightarrow>
     sbind (notif_db (subscriptions_find env (ns_lib svc) (dl_subscription_id d))) (\<lambda>found.
     (case found of
        None \<Rightarrow> fail_missing env now d ''subscription missing''
      | Some x \<Rightarrow>
     sbind (notif_db (channels_find env (ns_lib svc) (ns_json svc) (dl_channel_id d))) (\<lambda>found.
     (case found of
        None \<Rightarrow> fail_missing env now d ''channel missing''
      | Some channel \<Rightarrow>
          sbind (attempt_delivery env svc w now d event x channel) (\<lambda>outcome.
            settle env now d channel outcome)))))))"

fun dispatch_all :: "env \<Rightarrow> notif_service \<Rightarrow> notif_world \<Rightarrow> instant \<Rightarrow> delivery list \<Rightarrow> unit notif_call" where
  "dispatch_all env svc w now [] = sret ()"
| "dispatch_all env svc w now (d # ds) =
     sbind (dispatch_delivery env svc w now d) (\<lambda>_. dispatch_all env svc w now ds)"

definition dispatch_once :: "env \<Rightarrow> notif_service \<Rightarrow> notif_world \<Rightarrow> instant \<Rightarrow> u32 \<Rightarrow> nat notif_call" where
  "dispatch_once env svc w now limit =
     sbind (notif_db (lease_due env now limit (seconds 30))) (\<lambda>ds.
     sbind (dispatch_all env svc w now ds) (\<lambda>_.
       sret (length ds)))"

text \<open>One tick of the background task: a failure is logged.\<close>

definition dispatcher_tick :: "env \<Rightarrow> notif_service \<Rightarrow> notif_world \<Rightarrow> instant \<Rightarrow> unit notif_call" where
  "dispatcher_tick env svc w now = signore (dispatch_once env svc w now 100)"

section \<open>Inspection\<close>

fun health_all :: "env \<Rightarrow> instant \<Rightarrow> channel list \<Rightarrow> channel_health list notif_call" where
  "health_all env since [] = sret []"
| "health_all env since (c # cs) =
     sbind (notif_db (channel_health_of env (ch_id c) since)) (\<lambda>h.
     sbind (health_all env since cs) (\<lambda>hs. sret (h # hs)))"

definition health :: "env \<Rightarrow> notif_service \<Rightarrow> instant \<Rightarrow> user \<Rightarrow> channel_health list notif_call" where
  "health env svc now actor =
     sbind (notif_owner actor) (\<lambda>_.
     sbind (notif_db (channels_list env (ns_lib svc) (ns_json svc))) (\<lambda>cs.
       health_all env (now - hours 1) cs))"

definition delivery_view_from :: "delivery \<Rightarrow> delivery_view" where
  "delivery_view_from d =
     \<lparr>dv_id = dl_id d, dv_event_id = dl_event_id d, dv_channel_id = dl_channel_id d,
      dv_subscription_id = dl_subscription_id d, dv_status = dl_status d, dv_attempt_n = dl_attempt_n d,
      dv_next_retry_at = dl_next_retry_at d, dv_last_error = dl_last_error_redacted d\<rparr>"

definition inspect_delivery :: "env \<Rightarrow> notif_service \<Rightarrow> user \<Rightarrow> uuid \<Rightarrow> delivery_view notif_call" where
  "inspect_delivery env svc actor i =
     sbind (notif_owner actor) (\<lambda>_.
     sbind (notif_db (deliveries_find env i)) (\<lambda>found.
     sbind (slift (ok_or NotifNotFound found)) (\<lambda>d.
       sret (delivery_view_from d))))"

section \<open>The invariant\<close>

text \<open>
  Every delivery is in order and has its event, channel and subscription; no two deliveries carry
  the same event to the same subscription. The digests are hexadecimal texts of a hash of 32 bytes.
\<close>

definition hash_text_contract :: "notif_lib \<Rightarrow> bool" where
  "hash_text_contract lib \<longleftrightarrow> (\<forall>body. length (nl_hex lib (nl_sha256 lib body)) = 64)"

definition deliveries_ok :: "channel_row list \<Rightarrow> subscription_row list \<Rightarrow> event_row list \<Rightarrow> delivery_row list \<Rightarrow> bool" where
  "deliveries_ok channels subs events rows \<longleftrightarrow>
     distinct (map dlr_id rows) \<and> distinct (map (\<lambda>r. (dlr_event_id r, dlr_subscription_id r)) rows) \<and>
     list_all delivery_row_ok rows \<and>
     list_all (\<lambda>r. dlr_event_id r \<in> evr_id ` set events \<and> dlr_channel_id r \<in> chr_id ` set channels \<and>
       dlr_subscription_id r \<in> sbr_id ` set subs) rows"

definition notif_wf :: "notif_service \<Rightarrow> db \<Rightarrow> bool" where
  "notif_wf svc s \<longleftrightarrow> hash_text_contract (ns_lib svc) \<and>
     deliveries_ok (db_channels s) (db_subscriptions s) (db_events s) (db_deliveries s)"

text \<open>The rows that delivery records can become, whatever the statements in between.\<close>

definition row_life :: "delivery_row \<Rightarrow> delivery_row \<Rightarrow> bool" where
  "row_life r r' \<longleftrightarrow> row_step\<^sup>*\<^sup>* r r'"

definition rows_live :: "delivery_row list \<Rightarrow> delivery_row list \<Rightarrow> bool" where
  "rows_live rows rows' \<longleftrightarrow> (\<forall>r \<in> set rows. \<exists>r' \<in> set rows'. row_life r r')"

context store_invariant
begin

lemma keeps_notif_wrappers [keeps_intros]:
  "keeps P m \<Longrightarrow> keeps P (notif_db m)" "keeps P (invalid r)" "keeps P (secret_result r')" "keeps P (notif_owner actor)"
  "keeps P (notif_audit_change env now actor i)" "keeps P (audit_delivery env now action out i j)"
  unfolding notif_db_def invalid_def secret_result_def notif_owner_def notif_audit_change_def audit_delivery_def
  by (intro keeps_intros keeps_audit_record; assumption)+

lemma keeps_notif_reads [keeps_intros]:
  "keeps P (channels_find env lib js i)" "keeps P (channels_list env lib js)" "keeps P (subscriptions_find env lib i)"
  "keeps P (subscriptions_list env lib i)" "keeps P (matching_subscriptions env lib kind)" "keeps P (events_find env lib i)"
  "keeps P (deliveries_find env i)" "keeps P (channel_health_of env i since)"
  unfolding channels_find_def channels_list_def subscriptions_find_def subscriptions_list_def matching_subscriptions_def
    events_find_def deliveries_find_def channel_health_of_def Let_def
  by (intro keeps_intros tickless_P)+

end

text \<open>What an invariant has to allow for the notification operations to keep it.\<close>

locale notif_invariant = store_invariant P for P +
  fixes svc :: notif_service
  assumes deliveries: "P s \<Longrightarrow> notif_wf svc s"
    and put_channels: "P s \<Longrightarrow> chr_id ` set (db_channels s) \<subseteq> chr_id ` set xs \<Longrightarrow> P (s\<lparr>db_channels := xs\<rparr>)"
    and put_subscriptions: "P s \<Longrightarrow> sbr_id ` set (db_subscriptions s) \<subseteq> sbr_id ` set ys \<Longrightarrow> P (s\<lparr>db_subscriptions := ys\<rparr>)"
    and put_events: "P s \<Longrightarrow> evr_id ` set (db_events s) \<subseteq> evr_id ` set zs \<Longrightarrow> P (s\<lparr>db_events := zs\<rparr>)"
    and add_delivery: "P s \<Longrightarrow> \<not> delivery_conflict d s \<Longrightarrow> delivery_references d s \<Longrightarrow>
      delivery_row_ok (delivery_to_row d) \<Longrightarrow> P (s\<lparr>db_deliveries := db_deliveries s @ [delivery_to_row d]\<rparr>)"
    and step_deliveries: "P s \<Longrightarrow> (\<And>r. r \<in> set (db_deliveries s) \<Longrightarrow> row_step r (f r)) \<Longrightarrow>
      P (s\<lparr>db_deliveries := map f (db_deliveries s)\<rparr>)"
    and calls_free: "P (s\<lparr>db_channel_calls := x\<rparr>) = P s"
begin

lemma rows_ok: "P s \<Longrightarrow> r \<in> set (db_deliveries s) \<Longrightarrow> delivery_row_ok r"
  using deliveries [of s] by (auto simp: notif_wf_def deliveries_ok_def list_all_iff)

lemma keeps_notif_writes [keeps_intros]:
  "keeps P (channels_create env js c)" "keeps P (channels_update env c)" "keeps P (subscriptions_create env lib x)"
  "keeps P (subscriptions_update env x)" "keeps P (events_create env lib e)" "keeps P (increment_failure_count env i)"
  unfolding channels_create_def channels_update_def subscriptions_create_def subscriptions_update_def events_create_def
    increment_failure_count_def
  by (intro keeps_intros keeps_write; auto simp: keys_update_where intro!: put_channels put_subscriptions put_events)+

lemma keeps_deliveries_create:
  "delivery_row_ok (delivery_to_row d) \<Longrightarrow> keeps P (deliveries_create env d)"
  unfolding deliveries_create_def
  by (intro keeps_intros keeps_sql_update tickless_P) (auto intro: add_delivery)

lemma keeps_channel_ops:
  "keeps P (create_smtp env svc i nonce now actor input1)" "keeps P (create_webhook env svc w i nonce now actor input2)"
  "keeps P (notif_channels env svc actor)" "keeps P (disable_channel env svc now actor i)"
  "keeps P (test_channel env svc w event_id delivery_id now actor i destination)"
  unfolding create_smtp_def create_webhook_def notif_channels_def disable_channel_def test_channel_def
  by (auto intro!: keeps_intros split: channel_config.splits adapter_outcome.splits)

lemma keeps_subscription_ops:
  "keeps P (create_subscription env svc w i now actor input)" "keeps P (notif_subscriptions env svc actor)"
  "keeps P (disable_subscription env svc now actor i)"
  unfolding create_subscription_def notif_subscriptions_def disable_subscription_def
  by (intro keeps_intros)+

lemma keeps_inspection:
  "keeps P (health env svc now actor)" "keeps P (inspect_delivery env svc actor i)"
proof -
  have "keeps P (health_all env since cs)" for since cs
    by (induction cs) (auto intro!: keeps_intros)
  then show "keeps P (health env svc now actor)" "keeps P (inspect_delivery env svc actor i)"
    unfolding health_def inspect_delivery_def by (intro keeps_intros; assumption?)+
qed

lemma keeps_publish: "keeps P (publish env svc w fresh now event)"
proof (rule keepsI)
  fix s assume "P s"
  then have d: "hash_text_contract (ns_lib svc)" using deliveries by (simp add: notif_wf_def)
  have new: "delivery_row_ok (delivery_to_row (delivery_pending i e c x (payload_digest (ns_lib svc) body) now))" for i e c x body
    by (intro delivery_row_okI pending_wf)
       (use d in \<open>simp add: delivery_pending_def digest_ok_def payload_digest_def hash_text_contract_def flip: length_greater_0_conv\<close>)
  have "keeps P (publish_to env svc w fresh now event x)" for x
    unfolding publish_to_def Let_def by (intro keeps_intros keeps_deliveries_create new)
  then have "keeps P (publish_all env svc w fresh now event xs)" for xs
    by (induction xs) (auto intro!: keeps_intros)
  then have "keeps P (publish env svc w fresh now event)" unfolding publish_def by (intro keeps_intros)
  then show "P (snd (publish env svc w fresh now event s))" using \<open>P s\<close> by (rule keepsD)
qed

end

text \<open>
  A batch under way: the deliveries that were leased and not yet tried are still as they were read.
\<close>

definition current :: "delivery list \<Rightarrow> db \<Rightarrow> bool" where
  "current ds s \<longleftrightarrow> list_all (\<lambda>d. delivery_to_row d \<in> set (db_deliveries s)) ds"

sublocale notif_invariant \<subseteq> batch: store_invariant "\<lambda>s. P s \<and> current ds s" for ds
  using tickless_P audit_free by unfold_locales (simp_all add: tickless_def current_def)

context notif_invariant
begin

lemma current_put:
  assumes "P s" and "current (d # ds) s" and "delivery_step d d' \<or> d' = d" and "dl_id d \<notin> dl_id ` set ds"
  shows "let t = s\<lparr>db_deliveries := update_where (\<lambda>r. dlr_id r = dl_id d') (delivery_row_set d') (db_deliveries s)\<rparr>
    in P t \<and> current (d' # ds) t"
proof -
  let ?f = "\<lambda>r. if dlr_id r = dl_id d' then delivery_row_set d' r else r"
  have d: "delivery_to_row d \<in> set (db_deliveries s)" using assms(2) by (simp add: current_def)
  have keys: "dl_id d' = dl_id d" using assms(3) delivery_step_keys by blast
  have inj: "inj_on dlr_id (set (db_deliveries s))"
    using deliveries [OF assms(1)] by (simp add: notif_wf_def deliveries_ok_def distinct_map)
  have set_row: "delivery_row_set d' (delivery_to_row d) = delivery_to_row d'"
    using assms(3) row_set_step by (auto simp: delivery_row_set_def delivery_to_row_def)
  have at: "r = delivery_to_row d" if "r \<in> set (db_deliveries s)" "dlr_id r = dl_id d'" for r
    using inj_onD [OF inj _ that(1) d] that(2) keys by (simp add: delivery_to_row_def)
  have step: "row_step r (?f r)" if "r \<in> set (db_deliveries s)" for r
    using at [OF that] set_row assms(3) by (auto simp: row_step_def)
  have P: "P (s\<lparr>db_deliveries := map ?f (db_deliveries s)\<rparr>)"
    using assms(1) step by (rule step_deliveries)
  have same: "?f (delivery_to_row e) = delivery_to_row e" if "e \<in> set ds" for e
  proof -
    have "dl_id e \<noteq> dl_id d'" using that assms(4) keys by (metis imageI)
    then show ?thesis by (simp add: delivery_to_row_def)
  qed
  have "?f (delivery_to_row d) = delivery_to_row d'" using set_row keys by (simp add: delivery_to_row_def)
  then have "delivery_to_row d' \<in> ?f ` set (db_deliveries s)" using d by (metis (lifting) imageI)
  moreover have "delivery_to_row e \<in> ?f ` set (db_deliveries s)" if "e \<in> set ds" for e
    using imageI [of "delivery_to_row e" "set (db_deliveries s)" ?f] same [OF that] assms(2) that
    by (simp add: current_def list_all_iff)
  ultimately have "current (d' # ds) (s\<lparr>db_deliveries := map ?f (db_deliveries s)\<rparr>)"
    by (simp add: current_def list_all_iff)
  with P show ?thesis by (simp add: update_where_def)
qed

lemma current_Cons: "current (d # ds) s \<Longrightarrow> current ds s"
  by (simp add: current_def)

lemma update_current:
  assumes "deliveries_update env d' s = (r, t)" and "P s" and "current (d # ds) s" and "delivery_step d d' \<or> d' = d"
    and "dl_id d \<notin> dl_id ` set ds"
  shows "P t" and "current ds t" and "isl r \<or> current (d' # ds) t"
proof -
  have "P t \<and> current ds t \<and> (isl r \<or> current (d' # ds) t)"
  proof (cases "env_fault env (db_tick s)")
    case None
    then have t: "t = tick (s\<lparr>db_deliveries := update_where (\<lambda>r. dlr_id r = dl_id d') (delivery_row_set d') (db_deliveries s)\<rparr>)"
      using assms(1) by (auto simp: deliveries_update_def sql_write_def)
    show ?thesis
      using current_put [OF assms(2-)] tickless_tick [OF tickless_P] by (simp add: t Let_def current_def)
  next
    case (Some e)
    then show ?thesis
      using assms tickless_tick [OF tickless_P] by (auto simp: deliveries_update_def sql_write_def current_def)
  qed
  then show "P t" "current ds t" "isl r \<or> current (d' # ds) t" by simp_all
qed

lemma keeps_batch_writes [keeps_intros]:
  "keeps (\<lambda>s. P s \<and> current ds s) (increment_failure_count env i)"
  "keeps (\<lambda>s. P s \<and> current ds s) (take_rate_slot svc' i now)"
proof -
  show "keeps (\<lambda>s. P s \<and> current ds s) (increment_failure_count env i)"
    unfolding increment_failure_count_def
    by (rule batch.keeps_write) (auto simp: keys_update_where current_def intro: put_subscriptions)
  show "keeps (\<lambda>s. P s \<and> current ds s) (take_rate_slot svc' i now)"
    by (rule keepsI) (simp add: take_rate_slot_def Let_def calls_free current_def)
qed

lemma leads_finish_failure:
  assumes "delivery_step d d' \<or> d' = d" and "dl_id d \<notin> dl_id ` set ds"
  shows "leads (\<lambda>s. P s \<and> current (d # ds) s) (\<lambda>s. P s \<and> current ds s) (finish_failure env now d')"
  unfolding finish_failure_def
proof (rule leads_sbind_after)
  show "leads (\<lambda>s. P s \<and> current (d # ds) s) (\<lambda>s. P s \<and> current ds s) (notif_db (deliveries_update env d'))"
    unfolding leads_def notif_db_def smap_err_def
    using update_current [OF _ _ _ assms] by (auto split: prod.splits)
qed (intro keeps_intros)

lemma leads_settle:
  assumes "dl_id d \<notin> dl_id ` set ds"
  shows "leads (\<lambda>s. P s \<and> current (d # ds) s) (\<lambda>s. P s \<and> current ds s) (settle env now d channel outcome)"
proof -
  let ?Q = "\<lambda>ds s. P s \<and> current ds s"
  have up: "leads (?Q (d # ds)) (?Q ds) (notif_db (deliveries_update env d'))" if "delivery_step d d'" for d'
    unfolding leads_def notif_db_def smap_err_def
    using update_current [OF _ _ _ _ assms] that by (auto split: prod.splits)
  have two: "leads (?Q (d # ds)) (?Q ds) (sbind (notif_db (deliveries_update env d')) (\<lambda>_.
      if b then finish_failure env now d' else sret ()))" if "delivery_step d d'" for d' b
  proof (rule leads_sbind)
    show "?Q ds t" if "?Q (d # ds) s" "notif_db (deliveries_update env d') s = (Inl e, t)" for s e t
      using leadsD [OF up [OF \<open>delivery_step d d'\<close>] that(1)] that(2) by simp
    show "?Q (d' # ds) t" if "?Q (d # ds) s" "notif_db (deliveries_update env d') s = (Inr x, t)" for s x t
      using update_current [OF _ _ _ _ assms, of env d' s "Inr x" t] that \<open>delivery_step d d'\<close> by (auto simp: notif_db_def st_invert)
    show "leads (?Q (d' # ds)) (?Q ds) (if b then finish_failure env now d' else sret ())" for x :: unit
    proof (cases b)
      case True
      have "dl_id d' = dl_id d" using that delivery_step_keys by blast
      then have "dl_id d' \<notin> dl_id ` set ds" using assms by simp
      then show ?thesis using True leads_finish_failure [of d' d' ds] by simp
    qed (simp add: leads_def current_def)
  qed
  have drop: "?Q (d # ds) s \<Longrightarrow> ?Q ds s" for s by (simp add: current_def)
  show ?thesis
  proof (cases outcome)
    case Accepted
    have "leads (?Q (d # ds)) (?Q ds) (sbind (notif_db (deliveries_update env d'))
        (\<lambda>_. audit_delivery env now ''delivery_succeeded'' Success (dl_id d') (ch_id channel)))" if "delivery_step d d'" for d'
      using that by (intro leads_sbind_after up keeps_intros)
    with Accepted show ?thesis
      by (simp only: settle_def invalid_def adapter_outcome.case, intro leads_slift_bind drop) (auto intro: delivery_step.success)
  next
    case (TransientFailure e)
    then show ?thesis
      by (simp only: settle_def invalid_def adapter_outcome.case, intro leads_slift_bind drop two)
         (auto intro: delivery_step.transient)
  next
    case (PermanentFailure e)
    then show ?thesis
      by (simp only: settle_def invalid_def adapter_outcome.case, intro leads_slift_bind drop leads_finish_failure assms)
         (auto intro: delivery_step.permanent)
  qed
qed

lemma keeps_attempt_delivery: "keeps (\<lambda>s. P s \<and> current ds s) (attempt_delivery env svc' w now d event x channel)"
  unfolding attempt_delivery_def by (auto intro!: keeps_intros split: channel_config.splits)

lemma leads_dispatch_delivery:
  assumes "dl_id d \<notin> dl_id ` set ds"
  shows "leads (\<lambda>s. P s \<and> current (d # ds) s) (\<lambda>s. P s \<and> current ds s) (dispatch_delivery env svc' w now d)"
proof -
  have drop: "P s \<and> current (d # ds) s \<Longrightarrow> P s \<and> current ds s" for s by (simp add: current_def)
  have missing: "leads (\<lambda>s. P s \<and> current (d # ds) s) (\<lambda>s. P s \<and> current ds s) (fail_missing env now d e)" for e
    unfolding fail_missing_def invalid_def
    by (intro leads_slift_bind drop leads_finish_failure assms) (auto intro: delivery_step.permanent)
  have opt: "leads Q R (case y of None \<Rightarrow> m | Some z \<Rightarrow> f z)" if "leads Q R m" "\<And>z. leads Q R (f z)"
    for Q R :: "db \<Rightarrow> bool" and y :: "'z option" and m :: "('e, unit) call" and f
    using that by (cases y) simp_all
  show ?thesis
    unfolding dispatch_delivery_def
    by (intro leads_sbind_before drop opt missing leads_settle assms keeps_attempt_delivery keeps_intros)
qed

lemma leads_dispatch_all:
  "distinct (map dl_id ds) \<Longrightarrow> leads (\<lambda>s. P s \<and> current ds s) P (dispatch_all env svc' w now ds)"
proof (induction ds)
  case (Cons d ds)
  then have d: "dl_id d \<notin> dl_id ` set ds" by simp
  have rest: "leads (\<lambda>s. P s \<and> current ds s) P (dispatch_all env svc' w now ds)" using Cons by simp
  show ?case
    unfolding dispatch_all.simps
  proof (rule leads_sbind)
    show "P t" if "P s \<and> current (d # ds) s" "dispatch_delivery env svc' w now d s = (Inl e, t)" for s e t
      using leadsD [OF leads_dispatch_delivery [OF d] that(1), of env svc' w now] that(2) by simp
    show "P t \<and> current ds t" if "P s \<and> current (d # ds) s" "dispatch_delivery env svc' w now d s = (Inr x, t)" for s x t
      using leadsD [OF leads_dispatch_delivery [OF d] that(1), of env svc' w now] that(2) by simp
  qed (rule rest)
qed (simp add: leads_def)

lemma keeps_lease_rows: "0 < period \<Longrightarrow> keeps P (lease_rows env now period ids)"
proof (induction ids)
  case (Cons i ids)
  have "P (s\<lparr>db_deliveries := update_where (\<lambda>r. dlr_id r = i \<and> row_due now r)
      (\<lambda>r. r\<lparr>dlr_status := ''leased'', dlr_lease_until := Some (now + period)\<rparr>) (db_deliveries s)\<rparr>)" if "P s" for s
    unfolding update_where_def using that
    by (rule step_deliveries) (auto simp: row_step_def [of r r for r] intro: lease_row_step rows_ok [OF that] Cons.prems)
  then show ?case
    unfolding lease_rows.simps by (intro keeps_intros keeps_count Cons.IH Cons.prems)
qed (simp add: keeps_intros)

lemma keeps_lease_batch:
  "0 < period \<Longrightarrow> keeps P (sql_transaction env b c
     (sbind (sql_write env (\<lambda>_. True) (\<lambda>s. s\<lparr>db_deliveries := update_where (lease_expired now)
          (\<lambda>r. r\<lparr>dlr_status := ''pending'', dlr_lease_until := None\<rparr>) (db_deliveries s)\<rparr>)) (\<lambda>_.
      sbind (sql_read env q) (\<lambda>ids. lease_rows env now period ids))))"
proof -
  assume p: "0 < period"
  have "P (s\<lparr>db_deliveries := update_where (lease_expired now)
      (\<lambda>r. r\<lparr>dlr_status := ''pending'', dlr_lease_until := None\<rparr>) (db_deliveries s)\<rparr>)" if "P s" for s
    unfolding update_where_def using that
    by (rule step_deliveries) (auto simp: row_step_def [of r r for r] intro: recover_row_step rows_ok [OF that])
  then show ?thesis
    by (intro keeps_transaction keeps_intros keeps_write keeps_lease_rows p tickless_P)
qed

lemma fetch_current:
  "P s \<Longrightarrow> fetch_deliveries env ids s = (Inr ds, t) \<Longrightarrow> P t \<and> current ds t \<and> map dl_id ds = ids \<and> db_deliveries t = db_deliveries s"
proof (induction ids arbitrary: s ds)
  case Nil
  then show ?case by (simp add: current_def)
next
  case (Cons i ids)
  from Cons.prems(2) obtain r d ds' where r: "find (\<lambda>r. dlr_id r = i) (db_deliveries s) = Some r" "row_delivery r = Inr d"
    and rest: "fetch_deliveries env ids (tick s) = (Inr ds', t)" "ds = d # ds'"
    by (auto simp: st_invert ok_or_Inr)
  have P: "P (tick s)" using Cons.prems(1) tickless_tick [OF tickless_P] by blast
  have "r \<in> set (db_deliveries s)" "dlr_id r = i" using find_SomeD [OF r(1)] by auto
  then have "r = delivery_to_row d" using delivery_row_of [OF rows_ok [OF Cons.prems(1)] r(2)] by blast
  then show ?case
    using Cons.IH [OF P rest(1)] \<open>r \<in> _\<close> \<open>dlr_id r = i\<close> rest(2) by (auto simp: current_def delivery_to_row_def)
qed

lemma lease_rows_subset:
  "lease_rows env now period ids s = (Inr out, t) \<Longrightarrow> set out \<subseteq> set ids \<and> (distinct ids \<longrightarrow> distinct out)"
  by (induction ids arbitrary: s out) (auto simp: st_invert split: if_splits, blast+)

lemma keeps_fetch: "keeps P (fetch_deliveries env ids)"
  by (induction ids) (auto intro!: keeps_intros tickless_P)

lemma keeps_lease_due: "0 < period \<Longrightarrow> keeps P (lease_due env now limit period)"
  unfolding lease_due_def by (intro keeps_sbind keeps_lease_batch keeps_fetch)

lemma lease_due_current:
  assumes "P s" and "lease_due env now limit period s = (Inr ds, t)" and "0 < period"
  shows "P t \<and> current ds t \<and> distinct (map dl_id ds)"
proof -
  let ?set = "\<lambda>s. s\<lparr>db_deliveries := update_where (lease_expired now)
    (\<lambda>r. r\<lparr>dlr_status := ''pending'', dlr_lease_until := None\<rparr>) (db_deliveries s)\<rparr>"
  let ?ids = "\<lambda>s. take (unat limit) (map dlr_id (sort_key dlr_created_at (filter (row_due now) (db_deliveries s))))"
  let ?batch = "sbind (sql_write env (\<lambda>_. True) ?set) (\<lambda>_. sbind (sql_read env ?ids) (\<lambda>ids. lease_rows env now period ids))"
  from assms(2) obtain ids u where b: "sql_transaction env (\<lambda>e. e) (\<lambda>e. e) ?batch s = (Inr ids, u)"
    and f: "fetch_deliveries env ids u = (Inr ds, t)"
    by (auto simp: lease_due_def sbind_Inr)
  have "P u" using keeps_run [OF keeps_lease_batch [OF assms(3)] assms(1) b] .
  then have t: "P t" "current ds t" "map dl_id ds = ids" using fetch_current [OF _ f] by auto
  have "distinct ids"
  proof -
    from b obtain v t' where l: "lease_rows env now period (?ids (?set s)) v = (Inr ids, t')"
      by (auto simp: st_invert)
    have "map dlr_id (db_deliveries (?set s)) = map dlr_id (db_deliveries s)" by (simp add: map_update_where)
    then have "distinct (map dlr_id (db_deliveries (?set s)))"
      using deliveries [OF assms(1)] by (simp add: notif_wf_def deliveries_ok_def)
    then have "distinct (?ids (?set s))"
      unfolding distinct_map by (intro distinct_take) (auto simp: distinct_map intro: inj_on_subset)
    then show ?thesis using lease_rows_subset [OF l] by blast
  qed
  with t show ?thesis by simp
qed

lemma keeps_dispatch_once: "keeps P (dispatch_once env svc' w now limit)"
proof (rule keepsI)
  fix s assume "P s"
  let ?lease = "lease_due env now limit (seconds 30)"
  have period: "0 < seconds 30" by (simp add: seconds_def)
  have lease: "keeps P ?lease"
    unfolding lease_due_def by (intro keeps_sbind keeps_lease_batch period keeps_fetch)
  show "P (snd (dispatch_once env svc' w now limit s))"
  proof (cases "?lease s")
    case (Pair r t)
    show ?thesis
    proof (cases r)
      case (Inl e)
      then show ?thesis
        using Pair keepsD [OF lease \<open>P s\<close>] by (simp add: dispatch_once_def notif_db_def smap_err_def sbind_def)
    next
      case (Inr ds)
      have "P t \<and> current ds t \<and> distinct (map dl_id ds)" using Pair \<open>P s\<close> Inr lease_due_current period by blast
      then have "P (snd (dispatch_all env svc' w now ds t))"
        by (intro leadsD [OF leads_dispatch_all]) auto
      then show ?thesis
        using Pair Inr by (auto simp: dispatch_once_def notif_db_def smap_err_def sbind_def split: prod.splits sum.splits)
    qed
  qed
qed

end

section \<open>The laws of the model\<close>

lemma notif_wf_mono:
  assumes "deliveries_ok channels subs events rows" and "chr_id ` set channels \<subseteq> chr_id ` set channels'"
    and "sbr_id ` set subs \<subseteq> sbr_id ` set subs'" and "evr_id ` set events \<subseteq> evr_id ` set events'"
  shows "deliveries_ok channels' subs' events' rows"
  using assms by (auto simp: deliveries_ok_def list_all_iff)

lemma deliveries_ok_step:
  assumes "deliveries_ok channels subs events rows" and step: "\<And>r. r \<in> set rows \<Longrightarrow> row_step r (f r)"
  shows "deliveries_ok channels subs events (map f rows)"
proof -
  have r: "delivery_row_ok (f r)" "dlr_id (f r) = dlr_id r" "dlr_event_id (f r) = dlr_event_id r"
      "dlr_channel_id (f r) = dlr_channel_id r" "dlr_subscription_id (f r) = dlr_subscription_id r" if "r \<in> set rows" for r
    using row_step_ok [OF step [OF that]] assms(1) that by (auto simp: deliveries_ok_def list_all_iff)
  have maps: "map (\<lambda>r. dlr_id (f r)) rows = map dlr_id rows"
      "map (\<lambda>r. (dlr_event_id (f r), dlr_subscription_id (f r))) rows = map (\<lambda>r. (dlr_event_id r, dlr_subscription_id r)) rows"
    by (simp_all add: r)
  show ?thesis using assms(1) r by (auto simp: deliveries_ok_def list_all_iff comp_def maps)
qed

lemma deliveries_ok_add:
  assumes "deliveries_ok (db_channels s) (db_subscriptions s) (db_events s) (db_deliveries s)"
    and "\<not> delivery_conflict d s" and "delivery_references d s" and "delivery_row_ok (delivery_to_row d)"
  shows "deliveries_ok (db_channels s) (db_subscriptions s) (db_events s) (db_deliveries s @ [delivery_to_row d])"
proof -
  have "dl_event_id d \<in> evr_id ` set (db_events s)" "dl_channel_id d \<in> chr_id ` set (db_channels s)"
      "dl_subscription_id d \<in> sbr_id ` set (db_subscriptions s)"
    using assms(3) by (force simp: delivery_references_def list_ex_iff)+
  then show ?thesis
    using assms(1,2,4) by (auto simp: deliveries_ok_def delivery_conflict_def list_ex_iff delivery_to_row_def)
qed

lemma rows_live_refl: "rows_live rows rows"
  by (auto simp: rows_live_def row_life_def)

lemma rows_live_step:
  assumes "rows_live rows0 rows" and "\<And>r. r \<in> set rows \<Longrightarrow> row_step r (f r)"
  shows "rows_live rows0 (map f rows)"
  unfolding rows_live_def row_life_def
proof
  fix r assume "r \<in> set rows0"
  then obtain r' where r': "r' \<in> set rows" "row_step\<^sup>*\<^sup>* r r'" using assms(1) by (auto simp: rows_live_def row_life_def)
  then have "row_step\<^sup>*\<^sup>* r (f r')" using assms(2) by (meson rtranclp.rtrancl_into_rtrancl)
  then show "\<exists>r' \<in> set (map f rows). row_step\<^sup>*\<^sup>* r r'" using r'(1) by auto
qed

lemma rows_live_add: "rows_live rows0 rows \<Longrightarrow> rows_live rows0 (rows @ [r])"
  by (auto simp: rows_live_def)

lemma notif_invariant_join:
  assumes p: "store_invariant P"
    and free: "\<And>s x. P (s\<lparr>db_channels := x\<rparr>) = P s" "\<And>s x. P (s\<lparr>db_subscriptions := x\<rparr>) = P s"
      "\<And>s x. P (s\<lparr>db_events := x\<rparr>) = P s" "\<And>s x. P (s\<lparr>db_deliveries := x\<rparr>) = P s"
      "\<And>s x. P (s\<lparr>db_channel_calls := x\<rparr>) = P s"
  shows "notif_invariant (\<lambda>s. P s \<and> notif_wf svc s \<and> rows_live rows (db_deliveries s)) svc"
proof unfold_locales
  show "tickless (\<lambda>s. P s \<and> notif_wf svc s \<and> rows_live rows (db_deliveries s))"
    using store_invariant.tickless_P [OF p] by (simp add: tickless_def notif_wf_def)
qed (auto simp: store_invariant.audit_free [OF p] free notif_wf_def
      intro: notif_wf_mono deliveries_ok_add deliveries_ok_step rows_live_step rows_live_add)

interpretation notif_rows: notif_invariant "\<lambda>s. True \<and> notif_wf svc s \<and> rows_live rows (db_deliveries s)" svc for svc rows
  by (rule notif_invariant_join) (simp_all add: store_invariant_def tickless_def)

end
