(* ===== verification/Panel.thy ===== *)
theory Panel
  imports Quota_Service Token_Service Collaborator_Service Cron_Service Notification_Service
begin

text \<open>
  The services composed: every operation of the identity, two-factor, hierarchy, plan, quota,
  API token, collaborator, cron and notification services is a step on the shared state, with any arguments, any random draws and
  whatever its outcome, a failed statement included. Invariants of the whole panel are
  proved once per step and hold in every state that is reached.
\<close>

record panel =
  pn_env :: env
  pn_tf :: tf_service
  pn_plan_json :: plan_json
  pn_usage_json :: usage_json
  pn_tokens :: token_service
  pn_cron :: cron_service
  pn_notifications :: notif_service

section \<open>Steps\<close>

text \<open>
  \<open>ok\<close> bounds the totals of the pools that are declared. A cron run is two steps, its beginning and
  its end, with any steps in between; a run that is made to end need not be one that was begun.
\<close>

inductive panel_step :: "panel \<Rightarrow> (u64 \<Rightarrow> bool) \<Rightarrow> db \<Rightarrow> db \<Rightarrow> bool" for c ok where
  create_user: "panel_step c ok s (snd (create_user_with_parents (pn_env c) (tf_crypto (pn_tf c)) salt1 salt2 i now
    username email plaintext role parent plan actor s))"
| set_parent: "panel_step c ok s (snd (update_parent_account_id (pn_env c) now i parent actor s))"
| set_plan: "panel_step c ok s (snd (update_hosting_plan_id (pn_env c) now i plan actor s))"
| list_users: "panel_step c ok s (snd (list_users (pn_env c) s))"
| change_role: "panel_step c ok s (snd (change_role (pn_env c) now i role actor s))"
| disable_user: "panel_step c ok s (snd (disable_user (pn_env c) now i actor s))"
| enable_user: "panel_step c ok s (snd (enable_user (pn_env c) now i actor s))"
| delete_user: "panel_step c ok s (snd (delete_user (pn_env c) now i actor s))"
| change_password: "panel_step c ok s (snd (change_password (pn_env c) (tf_crypto (pn_tf c)) salt now i plaintext actor s))"
| login: "panel_step c ok s (snd (login (pn_env c) (pn_tf c) d now name plaintext ip ua cookie s))"
| verify_login: "panel_step c ok s (snd (verify_login_factor_with_factor (pn_env c) (pn_tf c) d now cid token resp ip ua s))"
| logout: "panel_step c ok s (snd (logout (pn_env c) (tf_crypto (pn_tf c)) now tok actor s))"
| resolve: "panel_step c ok s (snd (resolve_session (pn_env c) (tf_crypto (pn_tf c)) now tok s))"
| enroll: "panel_step c ok s (snd (enroll_totp (pn_env c) (pn_tf c) u sb nonce eid account now s))"
| verify_enroll: "panel_step c ok s (snd (verify_totp_enrollment (pn_env c) (pn_tf c) actor u eid code now fid draws salts s))"
| revoke: "panel_step c ok s (snd (revoke_factor (pn_env c) actor u fid now s))"
| regenerate: "panel_step c ok s (snd (regenerate_recovery_codes (pn_env c) (pn_tf c) actor u now draws salts s))"
| issue_challenge: "panel_step c ok s (snd (issue_login_challenge (pn_env c) (pn_tf c) salt cid buf u ip ua now s))"
| verify_challenge: "panel_step c ok s (snd (verify_login_challenge_with_factor (pn_env c) (pn_tf c) actor cid token resp now s))"
| begin_register: "panel_step c ok s (snd (persist_webauthn_register (pn_env c) (pn_tf c) cid u st now s))"
| finish_register: "panel_step c ok s (snd (finish_webauthn_register (pn_env c) (pn_tf c) actor cid u response now fid rid draws salts s))"
| begin_assert: "panel_step c ok s (snd (begin_webauthn_assert (pn_env c) (pn_tf c) u cid now s))"
| finish_assert: "panel_step c ok s (snd (finish_webauthn_assert (pn_env c) (pn_tf c) actor cid response now s))"
| begin_login: "panel_step c ok s (snd (begin_webauthn_login (pn_env c) (pn_tf c) lid token cid now s))"
| accept_device: "panel_step c ok s (snd (accept_remember_device (pn_env c) (pn_tf c) cookie uastr ipstr now s))"
| attach: "panel_step c ok s (snd (attach_child (pn_env c) now p i actor actor_id s))"
| detach: "panel_step c ok s (snd (detach_child (pn_env c) now p i actor s))"
| children: "panel_step c ok s (snd (hierarchy_children (pn_env c) p s))"
| tree: "panel_step c ok s (snd (hierarchy_tree (pn_env c) n p s))"
| set_pool: "ok tot \<Longrightarrow> panel_step c ok s (snd (set_pool (pn_env c) now p axis tot actor s))"
| claim: "panel_step c ok s (snd (claim_pool (pn_env c) now p i axis share actor s))"
| release: "panel_step c ok s (snd (release_claim (pn_env c) now p i axis actor s))"
| usage: "panel_step c ok s (snd (pool_usage (pn_env c) p s))"
| create_child: "panel_step c ok s (snd (create_child (pn_env c) (tf_crypto (pn_tf c)) salt new_id now p req actor actor_id s))"
| create_plan: "panel_step c ok s (snd (create_plan (pn_env c) (pn_plan_json c) i now name desc caps actor s))"
| update_plan: "panel_step c ok s (snd (update_plan (pn_env c) (pn_plan_json c) now i caps fs actor s))"
| disable_plan: "panel_step c ok s (snd (disable_plan (pn_env c) (pn_plan_json c) now i actor s))"
| enable_plan: "panel_step c ok s (snd (enable_plan (pn_env c) (pn_plan_json c) now i actor s))"
| clone_plan: "panel_step c ok s (snd (clone_plan (pn_env c) (pn_plan_json c) i now source name actor s))"
| delete_plan: "panel_step c ok s (snd (delete_plan (pn_env c) now i actor s))"
| assign_plan: "panel_step c ok s (snd (assign_plan (pn_env c) (pn_plan_json c) now i u actor actor_id s))"
| unassign_plan: "panel_step c ok s (snd (unassign_plan (pn_env c) now u actor s))"
| effective: "panel_step c ok s (snd (effective (pn_env c) (pn_plan_json c) now u s))"
| effective_async: "panel_step c ok s (snd (effective_async now u s))"
| set_policy: "panel_step c ok s (snd (set_user_policy (pn_env c) now u policy actor s))"
| delete_policy: "panel_step c ok s (snd (quota_delete (pn_env c) now i actor s))"
| sample: "panel_step c ok s (snd (sample (pn_env c) (pn_usage_json c) now policy disk inodes bw actor s))"
| create_token: "panel_step c ok s (snd (create_token (pn_env c) (pn_tokens c) i bytes now actor_user token_input s))"
| list_tokens: "panel_step c ok s (snd (list_tokens (pn_env c) (pn_tokens c) actor_user u s))"
| revoke_token: "panel_step c ok s (snd (revoke_token (pn_env c) (pn_tokens c) now actor_user u i s))"
| rotate_token: "panel_step c ok s (snd (rotate_token (pn_env c) (pn_tokens c) new_id bytes now actor_user u i s))"
| authenticate: "panel_step c ok s (snd (authenticate (pn_env c) (pn_tokens c) now inst txt peer sc s))"
| invite: "panel_step c ok s (snd (invite (pn_env c) i now u invite_req actor s))"
| update_grant: "panel_step c ok s (snd (update_grant_permissions (pn_env c) now i site perms actor s))"
| revoke_collaborator: "panel_step c ok s (snd (revoke_collaborator (pn_env c) now i site actor s))"
| resolve_grant: "panel_step c ok s (snd (grants_allow (pn_env c) i site perm s))"
| cron_create: "panel_step c ok s (snd (cron_create (pn_env c) (pn_cron c) i now u cron_in s))"
| cron_read: "panel_step c ok s (snd (cron_runs (pn_env c) (pn_cron c) u all job s))"
| cron_update: "panel_step c ok s (snd (update_job (pn_env c) (pn_cron c) now u all i cron_upd s))"
| cron_enable: "panel_step c ok s (snd (set_enabled (pn_env c) (pn_cron c) now u all i b s))"
| cron_delete: "panel_step c ok s (snd (cron_delete (pn_env c) (pn_cron c) now u all i s))"
| cron_begin: "panel_step c ok s (snd (begin_run (pn_env c) (pn_cron c) i skip_id now u all job_id s))"
| cron_end: "panel_step c ok s (snd (end_run (pn_env c) (pn_cron c) w now the_job r s))"
| cron_tick: "panel_step c ok s (snd (cron_tick (pn_env c) (pn_cron c) w d' now retention s))"
| create_smtp: "panel_step c ok s (snd (create_smtp (pn_env c) (pn_notifications c) i nonce now actor_user smtp_in s))"
| create_webhook: "panel_step c ok s (snd (create_webhook (pn_env c) (pn_notifications c) net i nonce now actor_user hook_in s))"
| list_channels: "panel_step c ok s (snd (notif_channels (pn_env c) (pn_notifications c) actor_user s))"
| disable_channel: "panel_step c ok s (snd (disable_channel (pn_env c) (pn_notifications c) now actor_user i s))"
| test_channel: "panel_step c ok s (snd (test_channel (pn_env c) (pn_notifications c) net eid i now actor_user cid dest s))"
| subscribe: "panel_step c ok s (snd (create_subscription (pn_env c) (pn_notifications c) net i now actor_user sub_in s))"
| list_subscriptions: "panel_step c ok s (snd (notif_subscriptions (pn_env c) (pn_notifications c) actor_user s))"
| unsubscribe: "panel_step c ok s (snd (disable_subscription (pn_env c) (pn_notifications c) now actor_user i s))"
| publish: "panel_step c ok s (snd (publish (pn_env c) (pn_notifications c) net fresh now event s))"
| dispatch: "panel_step c ok s (snd (dispatch_once (pn_env c) (pn_notifications c) net now limit s))"
| health: "panel_step c ok s (snd (health (pn_env c) (pn_notifications c) now actor_user s))"
| inspect: "panel_step c ok s (snd (inspect_delivery (pn_env c) (pn_notifications c) actor_user i s))"

section \<open>Invariants\<close>

locale panel_invariant =
  hierarchy_invariant P pool_ok + plans_invariant P "pn_plan_json c" + quota_invariant P +
  tokens_invariant P "pn_tokens c" + collaborators_invariant P + cron_invariant P "pn_cron c" +
  notif_invariant P "pn_notifications c"
  for P pool_ok and c :: panel
begin

lemmas step_keeps = keeps_create_user_with_parents keeps_update_parent_account_id keeps_change_role keeps_delete_user
  keeps_identity_methods keeps_login
  keeps_tf_methods keeps_tf_composed keeps_verify_login_challenge
  keeps_attach_child keeps_detach_child keeps_hierarchy_reads keeps_claim_pool keeps_release_claim keeps_create_child
  keeps_create_plan keeps_update_plan keeps_toggle_plan keeps_clone_plan keeps_delete_plan keeps_assign_plan
  keeps_unassign_plan keeps_set_user_policy keeps_quota_delete keeps_sample
  keeps_create_token keeps_token_lookups(4) keeps_revoke_token keeps_rotate_token keeps_authenticate
  keeps_invite keeps_collaborator_ops
  keeps_cron_create keeps_cron_reads keeps_update_job keeps_set_enabled keeps_cron_delete keeps_begin_run
  keeps_end_run keeps_cron_tick
  keeps_channel_ops keeps_subscription_ops keeps_publish keeps_dispatch_once keeps_inspection

lemma step_keeps_P:
  assumes "panel_step c pool_ok s t" and "P s"
  shows "P t"
proof -
  note k = step_keeps [THEN keepsD] keeps_effective keeps_effective_async keeps_set_pool [THEN keepsD]
  show ?thesis
    using assms by (induction rule: panel_step.induct) (rule k; assumption)+
qed

lemma reachable_keeps_P:
  assumes "(panel_step c pool_ok)\<^sup>*\<^sup>* s t" and "P s"
  shows "P t"
  using assms(1) by (induction rule: rtranclp_induct) (use assms(2) step_keeps_P in blast)+

end

text \<open>
  What every service keeps in order, beside the accounts and the hierarchy: the catalogue of
  plans, quota policies, API tokens, collaborators with their grants, cron jobs with their runs, and
  notifications with their deliveries.
\<close>

definition panel_data :: "panel \<Rightarrow> db \<Rightarrow> bool" where
  "panel_data c s \<longleftrightarrow>
     (json_roundtrips (pn_plan_json c) \<and> plans_wf (pn_plan_json c) s) \<and> policies_wf (db_policies s) \<and>
     tokens_wf (pn_tokens c) s \<and> grants_ok (db_collaborators s) (db_grants s) \<and> cron_wf (pn_cron c) s \<and>
     notif_wf (pn_notifications c) s"

text \<open>
  The tables that the operations on accounts leave alone. \<open>rows\<close> are deliveries that were stored at some
  earlier moment.
\<close>

type_synonym side_tables = "channel_row list \<times> subscription_row list \<times> event_row list \<times> delivery_row list"

definition side_notif :: "panel \<Rightarrow> delivery_row list \<Rightarrow> side_tables \<Rightarrow> bool" where
  "side_notif c rows n \<longleftrightarrow> hash_text_contract (ns_lib (pn_notifications c)) \<and>
     (case n of (channels, subs, events, deliveries) \<Rightarrow> deliveries_ok channels subs events deliveries \<and> rows_live rows deliveries)"

definition side_data :: "panel \<Rightarrow> delivery_row list \<Rightarrow> plan_row list \<Rightarrow> plan_assignment list \<Rightarrow> policy_row list \<Rightarrow>
    usage_row list \<Rightarrow> collaborator_row list \<Rightarrow> site_grant_row list \<Rightarrow> cron_job_row list \<Rightarrow> cron_run_row list \<Rightarrow>
    side_tables \<Rightarrow> bool" where
  "side_data c rows plans assigned policies usages collaborators site_grants jobs runs n \<longleftrightarrow>
     (json_roundtrips (pn_plan_json c) \<and> catalogue_ok (pn_plan_json c) plans assigned) \<and> policies_wf policies \<and>
     grants_ok collaborators site_grants \<and> (cron_json_contract (crs_json (pn_cron c)) \<and> cron_ok (pn_cron c) jobs runs) \<and>
     side_notif c rows n"

lemma panel_invariant_join:
  assumes p: "hierarchy_invariant P ok" and acc: "\<And>s. P s \<Longrightarrow> accounts_wf s"
    and free: "\<And>s x. P (s\<lparr>db_plans := x\<rparr>) = P s" "\<And>s x. P (s\<lparr>db_assignments := x\<rparr>) = P s"
      "\<And>s x. P (s\<lparr>db_plan_cache := x\<rparr>) = P s" "\<And>s x. P (s\<lparr>db_policies := x\<rparr>) = P s"
      "\<And>s x. P (s\<lparr>db_usages := x\<rparr>) = P s" "\<And>s x. P (s\<lparr>db_api_tokens := x\<rparr>) = P s"
      "\<And>s x. P (s\<lparr>db_buckets := x\<rparr>) = P s" "\<And>s x. P (s\<lparr>db_collaborators := x\<rparr>) = P s"
      "\<And>s x. P (s\<lparr>db_grants := x\<rparr>) = P s" "\<And>s x. P (s\<lparr>db_cron_jobs := x\<rparr>) = P s"
      "\<And>s x. P (s\<lparr>db_cron_runs := x\<rparr>) = P s" "\<And>s x. P (s\<lparr>db_channels := x\<rparr>) = P s"
      "\<And>s x. P (s\<lparr>db_subscriptions := x\<rparr>) = P s" "\<And>s x. P (s\<lparr>db_events := x\<rparr>) = P s"
      "\<And>s x. P (s\<lparr>db_deliveries := x\<rparr>) = P s" "\<And>s x. P (s\<lparr>db_channel_calls := x\<rparr>) = P s"
  shows "panel_invariant (\<lambda>s. P s \<and> panel_data c s \<and> rows_live rows (db_deliveries s)) ok c"
proof -
  let ?tok = "tokens_wf (pn_tokens c)" and ?plans = "\<lambda>s. json_roundtrips (pn_plan_json c) \<and> plans_wf (pn_plan_json c) s"
  let ?pol = "\<lambda>s. policies_wf (db_policies s)" and ?gr = "\<lambda>s. grants_ok (db_collaborators s) (db_grants s)"
  let ?cron = "cron_wf (pn_cron c)"
  let ?ntf = "\<lambda>s. notif_wf (pn_notifications c) s \<and> rows_live rows (db_deliveries s)"
  let ?catalogue = "\<lambda>pl asg. json_roundtrips (pn_plan_json c) \<and> catalogue_ok (pn_plan_json c) pl asg"
  let ?jobs = "\<lambda>jo ru. cron_json_contract (crs_json (pn_cron c)) \<and> cron_ok (pn_cron c) jo ru"
  have tok: "hierarchy_invariant (\<lambda>s. P s \<and> ?tok s) ok"
  proof -
    have "hierarchy_invariant (\<lambda>s. P s \<and> (accounts_wf s \<and> ?tok s)) ok"
      by (rule hierarchy_invariant_extend [OF p account_tokens.account_invariant_axioms])
         (simp_all add: accounts_wf_def user_exists_def tokens_wf_def account_ids_def)
    moreover have "(\<lambda>s. P s \<and> (accounts_wf s \<and> ?tok s)) = (\<lambda>s. P s \<and> ?tok s)" using acc by blast
    ultimately show ?thesis by simp
  qed
  note side = hierarchy_invariant_join
  note store = hierarchy_invariant.axioms(1) [THEN account_invariant.axioms(1), THEN tf_frame.axioms(1)]
  note defs = plans_wf_def cron_wf_def notif_wf_def panel_data_def tokens_wf_def account_ids_def
  note flat = side_notif_def plans_wf_def cron_wf_def notif_wf_def conj_ac
  have h: "hierarchy_invariant (\<lambda>s. P s \<and> panel_data c s \<and> rows_live rows (db_deliveries s)) ok"
    using side [OF tok, of "side_data c rows"] by (simp add: side_data_def panel_data_def flat)
  have "plans_invariant (\<lambda>s. (P s \<and> ?tok s \<and> ?pol s \<and> ?gr s \<and> ?cron s \<and> ?ntf s) \<and> ?plans s) (pn_plan_json c)"
  proof (rule plans_invariant_join)
    show "account_invariant (\<lambda>s. P s \<and> ?tok s \<and> ?pol s \<and> ?gr s \<and> ?cron s \<and> ?ntf s)"
      using side [OF tok, of "\<lambda>pl asg po us co gr jo ru n. policies_wf po \<and> grants_ok co gr \<and> ?jobs jo ru \<and> side_notif c rows n",
          THEN hierarchy_invariant.axioms(1)] by (simp add: flat)
  qed (simp_all add: free defs)
  moreover have "quota_invariant (\<lambda>s. (P s \<and> ?tok s \<and> ?plans s \<and> ?gr s \<and> ?cron s \<and> ?ntf s) \<and> ?pol s)"
  proof (rule quota_invariant_join)
    show "store_invariant (\<lambda>s. P s \<and> ?tok s \<and> ?plans s \<and> ?gr s \<and> ?cron s \<and> ?ntf s)"
      using side [OF tok, of "\<lambda>pl asg po us co gr jo ru n. ?catalogue pl asg \<and> grants_ok co gr \<and> ?jobs jo ru \<and>
          side_notif c rows n", THEN store] by (simp add: flat)
  qed (simp_all add: free defs)
  moreover have "tokens_invariant (\<lambda>s. (P s \<and> ?plans s \<and> ?pol s \<and> ?gr s \<and> ?cron s \<and> ?ntf s) \<and> ?tok s) (pn_tokens c)"
  proof (rule tokens_invariant_join)
    show "store_invariant (\<lambda>s. P s \<and> ?plans s \<and> ?pol s \<and> ?gr s \<and> ?cron s \<and> ?ntf s)"
      using side [OF p, of "side_data c rows", THEN store] by (simp add: side_data_def flat)
  qed (simp_all add: free defs)
  moreover have "collaborators_invariant (\<lambda>s. (P s \<and> ?tok s \<and> ?plans s \<and> ?pol s \<and> ?cron s \<and> ?ntf s) \<and> ?gr s)"
  proof (rule collaborators_invariant_join)
    show "store_invariant (\<lambda>s. P s \<and> ?tok s \<and> ?plans s \<and> ?pol s \<and> ?cron s \<and> ?ntf s)"
      using side [OF tok, of "\<lambda>pl asg po us co gr jo ru n. ?catalogue pl asg \<and> policies_wf po \<and> ?jobs jo ru \<and>
          side_notif c rows n", THEN store] by (simp add: flat)
  qed (simp_all add: free defs)
  moreover have "cron_invariant (\<lambda>s. (P s \<and> ?tok s \<and> ?plans s \<and> ?pol s \<and> ?gr s \<and> ?ntf s) \<and> ?cron s) (pn_cron c)"
  proof (rule cron_invariant_join)
    show "store_invariant (\<lambda>s. P s \<and> ?tok s \<and> ?plans s \<and> ?pol s \<and> ?gr s \<and> ?ntf s)"
      using side [OF tok, of "\<lambda>pl asg po us co gr jo ru n. ?catalogue pl asg \<and> policies_wf po \<and> grants_ok co gr \<and>
          side_notif c rows n", THEN store] by (simp add: flat)
  qed (simp_all add: free defs)
  moreover have "notif_invariant (\<lambda>s. (P s \<and> ?tok s \<and> ?plans s \<and> ?pol s \<and> ?gr s \<and> ?cron s) \<and>
      notif_wf (pn_notifications c) s \<and> rows_live rows (db_deliveries s)) (pn_notifications c)"
  proof (rule notif_invariant_join)
    show "store_invariant (\<lambda>s. P s \<and> ?tok s \<and> ?plans s \<and> ?pol s \<and> ?gr s \<and> ?cron s)"
      using side [OF tok, of "\<lambda>pl asg po us co gr jo ru n. ?catalogue pl asg \<and> policies_wf po \<and> grants_ok co gr \<and>
          ?jobs jo ru", THEN store] by (simp add: flat)
  qed (simp_all add: free defs)
  moreover note h
  ultimately show ?thesis
    unfolding panel_data_def by (intro panel_invariant.intro) (simp_all add: conj_ac)
qed

lemmas tenancy_frame_defs = tenancy_wf_def accounts_wf_def user_exists_def account_ids_def has_owner_def
  within_capacity_def claimed_def claim_shares_def

interpretation panel_owners: panel_invariant
    "\<lambda>s. (tenancy_wf s \<and> accounts_wf s \<and> has_owner i s) \<and> panel_data c s \<and> rows_live rows (db_deliveries s)"
    "\<lambda>_. True" c for i c rows
  by (rule panel_invariant_join) (rule tenancy_owners.hierarchy_invariant_axioms, simp, simp_all add: tenancy_frame_defs)

interpretation panel_capacity: panel_invariant
    "\<lambda>s. (tenancy_wf s \<and> within_capacity s) \<and> panel_data c s \<and> rows_live rows (db_deliveries s)"
    "\<lambda>tot. unat tot < 2 ^ 63" c for c rows
  by (rule panel_invariant_join)
     (rule capacity.hierarchy_invariant_axioms, simp add: tenancy_wf_def, simp_all add: tenancy_frame_defs)

lemma reachable_panel_wf:
  assumes "(panel_step c (\<lambda>_. True))\<^sup>*\<^sup>* s t"
    and "tenancy_wf s" and "has_owner i s" and "panel_data c s"
  shows "tenancy_wf t" and "has_owner i t" and "panel_data c t" and "rows_live (db_deliveries s) (db_deliveries t)"
  using panel_owners.reachable_keeps_P [OF assms(1), of i "db_deliveries s"] assms(2-) rows_live_refl
  by (auto simp: tenancy_wf_def)

lemma reachable_capacity:
  assumes "(panel_step c (\<lambda>tot. unat tot < 2 ^ 63))\<^sup>*\<^sup>* s t"
    and "tenancy_wf s" and "within_capacity s" and "panel_data c s"
  shows "within_capacity t"
  using panel_capacity.reachable_keeps_P [OF assms(1), of "db_deliveries s"] assms(2-) rows_live_refl by blast

end
