(* ===== verification/Token_Rate.thy ===== *)
theory Token_Rate
  imports Token_Service
begin

text \<open>
  The rate limiter of \<open>ApiTokenService\<close>: whatever the rounding, the requests let through are
  bounded by the burst and the rate.
\<close>

section \<open>The rate limiter\<close>

text \<open>
  Rounding of \<open>f64\<close>: monotone, exact on the integers that 53 bits hold, and within a relative
  error of \<open>2^-53\<close> away from the ends of the range of exponents.
\<close>

definition f64_contract :: "(rat \<Rightarrow> rat) \<Rightarrow> bool" where
  "f64_contract rnd \<longleftrightarrow> mono rnd \<and> (\<forall>n::int. \<bar>n\<bar> \<le> 2 ^ 53 \<longrightarrow> rnd (of_int n) = of_int n) \<and>
     (\<forall>x. 1 / 2 ^ 200 \<le> x \<longrightarrow> x \<le> 2 ^ 200 \<longrightarrow> \<bar>rnd x - x\<bar> \<le> x / 2 ^ 53)"

lemma f64_le: "f64_contract rnd \<Longrightarrow> x \<le> of_int n \<Longrightarrow> \<bar>n\<bar> \<le> 2 ^ 53 \<Longrightarrow> rnd x \<le> of_int n"
  by (metis f64_contract_def monoD)

lemma f64_ge: "f64_contract rnd \<Longrightarrow> of_int n \<le> x \<Longrightarrow> \<bar>n\<bar> \<le> 2 ^ 53 \<Longrightarrow> of_int n \<le> rnd x"
  by (metis f64_contract_def monoD)

definition bucket_ok :: "token_service \<Rightarrow> bucket \<Rightarrow> bool" where
  "bucket_ok svc b \<longleftrightarrow> 0 \<le> bk_tokens b \<and> bk_tokens b \<le> f64_of_u32 (tks_burst svc)"

lemma f64_of_u32: "0 \<le> f64_of_u32 w" "f64_of_u32 w = of_int (uint w)" "\<bar>uint (w :: u32)\<bar> \<le> 2 ^ 53"
proof -
  show "f64_of_u32 w = of_int (uint w)" unfolding f64_of_u32_def by (metis of_int_of_nat_eq of_nat_unat)
  show "0 \<le> f64_of_u32 w" unfolding f64_of_u32_def by (rule of_nat_0_le_iff)
  show "\<bar>uint w\<bar> \<le> 2 ^ 53" using uint_bounded [of w] uint_nonnegative [of w] by simp
qed

lemma as_secs_nonneg: "f64_contract (tks_round svc) \<Longrightarrow> 0 \<le> as_secs_f64 svc n"
  unfolding as_secs_f64_def using f64_ge [of "tks_round svc" 0] by simp

lemma refill_nonneg: "f64_contract (tks_round svc) \<Longrightarrow> 0 \<le> refill_per_second svc"
  unfolding refill_per_second_def using f64_ge [of "tks_round svc" 0] f64_of_u32(1) by simp

lemma refill_bounds:
  assumes "f64_contract (tks_round svc)" and "0 \<le> bk_tokens b"
  shows "0 \<le> refill svc inst b" and "refill svc inst b \<le> f64_of_u32 (tks_burst svc)"
proof -
  have "0 \<le> tks_round svc (as_secs_f64 svc (inst - bk_last_refill b) * refill_per_second svc)"
    using f64_ge [OF assms(1), of 0] as_secs_nonneg [OF assms(1)] refill_nonneg [OF assms(1)] by simp
  then show "0 \<le> refill svc inst b"
    unfolding refill_def using f64_ge [OF assms(1), of 0] assms(2) f64_of_u32(1) by simp
  show "refill svc inst b \<le> f64_of_u32 (tks_burst svc)" by (simp add: refill_def)
qed

lemma consume_bucket_ok:
  assumes "f64_contract (tks_round svc)" and "\<And>b. entry = Some b \<Longrightarrow> bucket_ok svc b"
  shows "bucket_ok svc (snd (consume_bucket svc inst entry))"
proof -
  define b where "b = (case entry of None \<Rightarrow> \<lparr>bk_tokens = f64_of_u32 (tks_burst svc), bk_last_refill = inst\<rparr> | Some b \<Rightarrow> b)"
  have "0 \<le> bk_tokens b" using assms(2) by (auto simp: b_def bucket_ok_def f64_of_u32(1) split: option.splits)
  note r = refill_bounds [OF assms(1) this, of inst]
  have "tks_round svc (refill svc inst b - 1) \<le> f64_of_u32 (tks_burst svc)"
    using f64_le [OF assms(1), of "refill svc inst b - 1" "uint (tks_burst svc)"] r(2) f64_of_u32(2,3) by simp
  moreover have "0 \<le> tks_round svc (refill svc inst b - 1)" if "\<not> refill svc inst b < 1"
    using f64_ge [OF assms(1), of 0] that by simp
  ultimately show ?thesis
    using r by (auto simp: consume_bucket_def b_def [symmetric] Let_def bucket_ok_def)
qed

text \<open>The values that occur are zero or far from the smallest and the largest number.\<close>

definition f64_normal :: "nat \<Rightarrow> rat \<Rightarrow> bool" where
  "f64_normal k x \<longleftrightarrow> x = 0 \<or> 1 / 2 ^ k \<le> x \<and> x \<le> 2 ^ 200"

lemma f64_normal_nonneg: "f64_normal k x \<Longrightarrow> 0 \<le> x"
  by (auto simp: f64_normal_def intro: order_trans [of 0 "1 / 2 ^ k"])

lemma f64_rel:
  assumes f: "f64_contract rnd" and n: "f64_normal k x" and "k \<le> 200"
  shows "rnd x \<le> x * (1 + 1 / 2 ^ 53)" and "0 \<le> rnd x" and "rnd x = 0 \<or> 1 / 2 ^ Suc k \<le> rnd x"
proof -
  have "rnd x \<le> x * (1 + 1 / 2 ^ 53) \<and> 0 \<le> rnd x \<and> (rnd x = 0 \<or> 1 / 2 ^ Suc k \<le> rnd x)"
  proof (cases "x = 0")
    case True
    have "rnd (of_int 0) = of_int 0" using f unfolding f64_contract_def by (metis abs_zero zero_le_numeral zero_le_power)
    then show ?thesis using True by simp
  next
    case False
    then have x: "1 / 2 ^ k \<le> x" "x \<le> 2 ^ 200" using n by (auto simp: f64_normal_def)
    have "(1 :: rat) / 2 ^ 200 \<le> 1 / 2 ^ k" using assms(3) power_increasing [of k 200 "2 :: rat"] by (intro divide_left_mono) simp_all
    moreover have "x \<le> 2 ^ 200" using x(2) by simp
    ultimately have err: "\<bar>rnd x - x\<bar> \<le> x / 2 ^ 53" using f x(1) unfolding f64_contract_def by (meson order_trans)
    then have "rnd x \<le> x + x / 2 ^ 53" "x - x / 2 ^ 53 \<le> rnd x" by (simp_all only: abs_le_iff) linarith+
    moreover have "x / 2 ^ 53 \<le> x / 2" "0 \<le> x" using f64_normal_nonneg [OF n] by simp_all
    moreover have "1 / 2 ^ Suc k \<le> x / 2" using x(1) by simp
    ultimately have "rnd x \<le> x + x / 2 ^ 53" "1 / 2 ^ Suc k \<le> rnd x" "0 \<le> rnd x" by linarith+
    then show ?thesis by (simp add: distrib_left)
  qed
  then show "rnd x \<le> x * (1 + 1 / 2 ^ 53)" "0 \<le> rnd x" "rnd x = 0 \<or> 1 / 2 ^ Suc k \<le> rnd x" by blast+
qed

lemma f64_abs:
  assumes f: "f64_contract rnd" and "0 \<le> x" "x \<le> b" "1 \<le> b" "b \<le> 2 ^ 200"
  shows "rnd x \<le> x + b / 2 ^ 53"
proof (cases "1 / 2 ^ 200 \<le> x")
  case True
  then have "f64_normal 200 x" using assms(3,5) by (simp add: f64_normal_def)
  then have "rnd x \<le> x * (1 + 1 / 2 ^ 53)" using f64_rel(1) [OF f] by blast
  then show ?thesis using assms(3) by (simp add: field_simps)
next
  case False
  have "rnd x \<le> rnd (1 / 2 ^ 200)" using f monoD [of rnd x "1 / 2 ^ 200"] False by (simp add: f64_contract_def)
  also have "\<dots> \<le> 1 / 2 ^ 200 * (1 + 1 / 2 ^ 53)"
    using f64_rel(1) [OF f, of 200 "1 / 2 ^ 200"] by (simp add: f64_normal_def)
  also have "\<dots> \<le> 1 / 2 ^ 53" by simp
  also have "\<dots> \<le> x + b / 2 ^ 53" using assms(2,4) by (simp add: field_simps)
  finally show ?thesis .
qed


lemma f64_normal_rnd:
  assumes "f64_contract rnd" and "f64_normal k x" and "k \<le> 200" and "x \<le> 2 ^ 199"
  shows "f64_normal (Suc k) (rnd x)"
proof -
  have "rnd x \<le> x * (1 + 1 / 2 ^ 53)" using f64_rel(1) [OF assms(1-3)] .
  also have "\<dots> \<le> 2 ^ 199 * 2" using assms(4) f64_normal_nonneg [OF assms(2)] by (intro mult_mono) simp_all
  finally show ?thesis using f64_rel(3) [OF assms(1-3)] by (auto simp: f64_normal_def)
qed

abbreviation ulp1 :: rat where "ulp1 \<equiv> 1 + 1 / 2 ^ 53"

lemma f64_u32_range: "f64_of_u32 w < 2 ^ 32" "f64_of_u32 w = 0 \<or> 1 \<le> f64_of_u32 w"
proof -
  have "uint w < 2 ^ 32" "0 \<le> uint w" using uint_bounded [of w] by simp_all
  then have "of_int (uint w) < (of_int (2 ^ 32) :: rat)" "uint w = 0 \<or> of_int 1 \<le> (of_int (uint w) :: rat)"
    by (simp_all only: of_int_less_iff of_int_le_iff) linarith
  then show "f64_of_u32 w < 2 ^ 32" "f64_of_u32 w = 0 \<or> 1 \<le> f64_of_u32 w"
    unfolding f64_of_u32(2) by (simp only: of_int_power of_int_numeral, metis of_int_0 of_int_1)
qed

lemma refill_rate_le:
  assumes "f64_contract (tks_round svc)"
  shows "refill_per_second svc \<le> f64_of_u32 (tks_per_minute svc) / 60 * ulp1" and "f64_normal 7 (refill_per_second svc)"
    and "refill_per_second svc \<le> 2 ^ 32"
proof -
  let ?pm = "f64_of_u32 (tks_per_minute svc)"
  note pm = f64_u32_range [of "tks_per_minute svc"]
  then have n: "f64_normal 6 (?pm / 60)" by (auto simp: f64_normal_def)
  show le: "refill_per_second svc \<le> ?pm / 60 * ulp1"
    unfolding refill_per_second_def using f64_rel(1) [OF assms n] by simp
  show "f64_normal 7 (refill_per_second svc)"
    unfolding refill_per_second_def using f64_normal_rnd [OF assms n] pm by simp
  show "refill_per_second svc \<le> 2 ^ 32" using le pm(1) by simp
qed

lemma nat_parts: "rat_of_nat (n div 10 ^ 9) + rat_of_nat (n mod 10 ^ 9) / 10 ^ 9 = rat_of_nat n / 10 ^ 9"
proof -
  have "rat_of_nat n = rat_of_nat (n div 10 ^ 9 * 10 ^ 9 + n mod 10 ^ 9)" by (simp only: div_mult_mod_eq)
  also have "\<dots> = rat_of_nat (n div 10 ^ 9) * 10 ^ 9 + rat_of_nat (n mod 10 ^ 9)"
    by (simp only: of_nat_add of_nat_mult of_nat_power of_nat_numeral)
  finally show ?thesis by (simp only: add_divide_distrib) simp
qed

lemma f64_normal_add:
  assumes "f64_normal k x" and "f64_normal k y" and "x + y \<le> 2 ^ 200"
  shows "f64_normal k (x + y)"
  using assms f64_normal_nonneg [OF assms(1)] f64_normal_nonneg [OF assms(2)] by (auto simp: f64_normal_def)

lemma as_secs_le:
  assumes f: "f64_contract (tks_round svc)" and "n < 10 ^ 9 * 2 ^ 64"
  shows "as_secs_f64 svc n \<le> of_nat n / 10 ^ 9 * ulp1 ^ 2" and "f64_normal 32 (as_secs_f64 svc n)"
    and "as_secs_f64 svc n \<le> 2 ^ 66"
proof -
  let ?w = "of_nat (n div 10 ^ 9) :: rat" and ?f = "of_nat (n mod 10 ^ 9) / 10 ^ 9 :: rat"
  let ?r = "tks_round svc"
  have "n div 10 ^ 9 < 2 ^ 64" using assms(2) by (simp add: div_less_iff_less_mult mult.commute)
  then have w: "?w < 2 ^ 64" by (metis of_nat_less_iff of_nat_numeral of_nat_power)
  have frac: "?f < 1" by simp
  have int: "f64_normal 30 (of_nat m / d)" if "of_nat m / d \<le> 2 ^ 100" "1 \<le> d" "d \<le> 10 ^ 9" for m and d :: rat
  proof (cases "m = 0")
    case False
    then have "1 / 10 ^ 9 \<le> 1 / d" "1 / d \<le> of_nat m / d" using that by (simp_all add: divide_left_mono divide_right_mono)
    then show ?thesis using that(1) by (auto simp: f64_normal_def)
  qed (simp add: f64_normal_def)
  have nw: "f64_normal 30 ?w" using int [of "n div 10 ^ 9" 1] w by simp
  have nf: "f64_normal 30 ?f" using int [of "n mod 10 ^ 9" "10 ^ 9"] frac by simp
  have rw: "?r ?w \<le> ?w * ulp1" "f64_normal 31 (?r ?w)" using f64_rel(1) [OF f nw] f64_normal_rnd [OF f nw] w by simp_all
  have rf: "?r ?f \<le> ?f * ulp1" "f64_normal 31 (?r ?f)" using f64_rel(1) [OF f nf] f64_normal_rnd [OF f nf] frac by simp_all
  have total: "?r ?w + ?r ?f \<le> of_nat n / 10 ^ 9 * ulp1"
    using add_mono [OF rw(1) rf(1)] nat_parts [of n] by (metis distrib_right)
  have small: "of_nat n / (10 :: rat) ^ 9 < 2 ^ 65" using add_strict_mono [OF w frac] unfolding nat_parts by simp
  have "?r ?w + ?r ?f \<le> 2 ^ 66" using total small by simp
  then have ns: "f64_normal 31 (?r ?w + ?r ?f)" by (intro f64_normal_add rw(2) rf(2)) simp
  have "as_secs_f64 svc n \<le> (?r ?w + ?r ?f) * ulp1" unfolding as_secs_f64_def using f64_rel(1) [OF f ns] by simp
  also have "\<dots> \<le> of_nat n / 10 ^ 9 * ulp1 * ulp1" using total by (intro mult_right_mono) simp_all
  finally show le: "as_secs_f64 svc n \<le> of_nat n / 10 ^ 9 * ulp1 ^ 2" by (simp add: power2_eq_square mult.assoc)
  show "f64_normal 32 (as_secs_f64 svc n)"
    unfolding as_secs_f64_def using f64_normal_rnd [OF f ns] \<open>?r ?w + ?r ?f \<le> 2 ^ 66\<close> by simp
  have "of_nat n / 10 ^ 9 * ulp1 ^ 2 \<le> 2 ^ 65 * 2"
    using small by (intro mult_mono) (simp_all add: power2_eq_square)
  then show "as_secs_f64 svc n \<le> 2 ^ 66" using le by simp
qed

text \<open>The seconds between two instants, and what they are worth in requests.\<close>

definition allowance :: "token_service \<Rightarrow> nat \<Rightarrow> rat" where
  "allowance svc n = (1 + 1 / 2 ^ 50) * (f64_of_u32 (tks_per_minute svc) / 60) * (of_nat n / 10 ^ 9)"

lemma allowance_simps:
  "0 \<le> allowance svc n" "allowance svc (m + n) = allowance svc m + allowance svc n" "allowance svc 0 = 0"
  by (simp_all add: allowance_def f64_of_u32(1) add_divide_distrib distrib_left)

lemma increment_le:
  assumes f: "f64_contract (tks_round svc)" and "n < 10 ^ 9 * 2 ^ 64"
  shows "tks_round svc (as_secs_f64 svc n * refill_per_second svc) \<le> allowance svc n"
    and "0 \<le> tks_round svc (as_secs_f64 svc n * refill_per_second svc)"
proof -
  let ?s = "as_secs_f64 svc n" and ?r = "refill_per_second svc" and ?pm = "f64_of_u32 (tks_per_minute svc) / 60"
  note s = as_secs_le [OF f assms(2)] and r = refill_rate_le [OF f]
  have nn: "0 \<le> ?s" "0 \<le> ?r" using f64_normal_nonneg s(2) r(2) by blast+
  have le: "?s * ?r \<le> 2 ^ 66 * 2 ^ 32" using s(3) r(3) nn by (intro mult_mono) simp_all
  have "f64_normal 39 (?s * ?r)"
  proof (cases "?s = 0 \<or> ?r = 0")
    case False
    then have "1 / 2 ^ 32 * (1 / 2 ^ 7) \<le> ?s * ?r" using s(2) r(2) nn by (intro mult_mono) (auto simp: f64_normal_def)
    then show ?thesis using le by (simp add: f64_normal_def)
  qed (auto simp: f64_normal_def)
  note rel = f64_rel [OF f this]
  show "0 \<le> tks_round svc (?s * ?r)" using rel(2) by simp
  have "tks_round svc (?s * ?r) \<le> ?s * ?r * ulp1" using rel(1) by simp
  also have "\<dots> \<le> (of_nat n / 10 ^ 9 * ulp1 ^ 2) * (?pm * ulp1) * ulp1"
    using s(1) r(1) nn by (intro mult_right_mono mult_mono) simp_all
  also have "\<dots> = ulp1 ^ 4 * (?pm * (of_nat n / 10 ^ 9))" by (simp only: power2_eq_square power4_eq_xxxx ac_simps)
  also have "\<dots> \<le> (1 + 1 / 2 ^ 50) * (?pm * (of_nat n / 10 ^ 9))"
    using f64_of_u32(1) by (intro mult_right_mono) (simp_all add: power4_eq_xxxx)
  finally show "tks_round svc (?s * ?r) \<le> allowance svc n" by (simp add: allowance_def ac_simps)
qed

text \<open>One request, in exact arithmetic up to an error of the size of the burst times \<open>2^-53\<close> for each of its two additions.\<close>

lemma request_balance:
  assumes f: "f64_contract (tks_round svc)" and b: "bucket_ok svc b" and "i - bk_last_refill b < 10 ^ 9 * 2 ^ 64"
    and c: "consume_bucket svc i (Some b) = (r, b')"
  shows "bk_tokens b' + (if isl r then 0 else 1) \<le>
      bk_tokens b + allowance svc (i - bk_last_refill b) + 1 / 2 ^ 20"
    and "bk_last_refill b' = i" and "bucket_ok svc b'"
proof -
  let ?n = "i - bk_last_refill b" and ?B = "f64_of_u32 (tks_burst svc)"
  let ?x = "bk_tokens b + tks_round svc (as_secs_f64 svc ?n * refill_per_second svc)"
  have inc: "?x \<le> bk_tokens b + allowance svc ?n" "0 \<le> ?x"
    using increment_le [OF f assms(3)] b by (simp_all add: bucket_ok_def)
  have B: "?B \<le> 2 ^ 32" "0 \<le> ?B" using f64_u32_range(1) [of "tks_burst svc"] f64_of_u32(1) by simp_all
  have near: "tks_round svc y \<le> y + 1 / 2 ^ 21" if "0 \<le> y" "y \<le> 2 ^ 32" for y
    using f64_abs [OF f that(1,2)] by simp
  have refill: "refill svc i b \<le> ?x + 1 / 2 ^ 21"
  proof (cases "?x \<le> 2 ^ 32")
    case True
    then show ?thesis using near [of ?x] inc(2) by (simp add: refill_def)
  next
    case False
    then show ?thesis using B(1) by (simp add: refill_def min_le_iff_disj)
  qed
  have used: "tks_round svc (refill svc i b - 1) \<le> refill svc i b - 1 + 1 / 2 ^ 21" if "\<not> refill svc i b < 1"
    using near [of "refill svc i b - 1"] that refill_bounds(2) [OF f, of b i] b B(1)
    by (simp add: bucket_ok_def)
  have half: "(1 :: rat) / 2 ^ 21 + 1 / 2 ^ 21 = 1 / 2 ^ 20" by simp
  show "bk_tokens b' + (if isl r then 0 else 1) \<le> bk_tokens b + allowance svc ?n + 1 / 2 ^ 20"
    using c refill used inc(1) half by (auto simp: consume_bucket_def Let_def split: if_splits)
  show "bk_last_refill b' = i" using c by (auto simp: consume_bucket_def Let_def split: if_splits)
  show "bucket_ok svc b'"
    using consume_bucket_ok [OF f, of "Some b" i] b c by simp
qed

text \<open>Requests of one token at the instants of a list: how many are let through.\<close>

fun grants :: "token_service \<Rightarrow> nat list \<Rightarrow> bucket option \<Rightarrow> nat" where
  "grants svc [] entry = 0"
| "grants svc (i # is) entry =
     (case consume_bucket svc i entry of (r, b) \<Rightarrow> (if isl r then 0 else 1) + grants svc is (Some b))"

lemma grants_bound:
  assumes f: "f64_contract (tks_round svc)"
  shows "bucket_ok svc b \<Longrightarrow> sorted (bk_last_refill b # is) \<Longrightarrow>
    last (bk_last_refill b # is) - bk_last_refill b < 10 ^ 9 * 2 ^ 64 \<Longrightarrow>
    of_nat (grants svc is (Some b)) \<le>
      bk_tokens b + allowance svc (last (bk_last_refill b # is) - bk_last_refill b) + of_nat (length is) / 2 ^ 20"
proof (induction "is" arbitrary: b)
  case Nil
  then show ?case by (simp add: bucket_ok_def allowance_simps)
next
  case (Cons i "is")
  obtain r b' where c: "consume_bucket svc i (Some b) = (r, b')" by force
  let ?t = "bk_last_refill b" and ?e = "last (i # is)"
  have order: "?t \<le> i" "i \<le> ?e" "sorted (i # is)" using Cons.prems(2) by (auto simp: last_in_set)
  then have parts: "?e - ?t = (i - ?t) + (?e - i)" by simp
  have small: "i - ?t < 10 ^ 9 * 2 ^ 64" "?e - i < 10 ^ 9 * 2 ^ 64" using Cons.prems(3) parts by simp_all
  note bal = request_balance [OF f Cons.prems(1) small(1) c]
  have "of_nat (grants svc is (Some b')) \<le> bk_tokens b' + allowance svc (?e - i) + of_nat (length is) / 2 ^ 20"
    using Cons.IH [OF bal(3)] order(3) small(2) bal(2) by simp
  moreover have "of_nat (grants svc (i # is) (Some b)) = (if isl r then 0 else 1) + rat_of_nat (grants svc is (Some b'))"
    using c by simp
  moreover have "allowance svc (?e - ?t) = allowance svc (i - ?t) + allowance svc (?e - i)"
    unfolding parts by (rule allowance_simps(2))
  moreover have "of_nat (length (i # is)) / (2 :: rat) ^ 20 = of_nat (length is) / 2 ^ 20 + 1 / 2 ^ 20"
    by (simp add: add_divide_distrib)
  ultimately have "of_nat (grants svc (i # is) (Some b)) \<le>
      bk_tokens b + allowance svc (?e - ?t) + of_nat (length (i # is)) / 2 ^ 20"
    using bal(1) by linarith
  then show ?case by simp
qed

lemma grants_fresh_bound:
  assumes f: "f64_contract (tks_round svc)" and "sorted (i # is)" and "last (i # is) - i < 10 ^ 9 * 2 ^ 64"
  shows "of_nat (grants svc (i # is) None) \<le>
    f64_of_u32 (tks_burst svc) + allowance svc (last (i # is) - i) + of_nat (length (i # is)) / 2 ^ 20"
proof -
  let ?b = "\<lparr>bk_tokens = f64_of_u32 (tks_burst svc), bk_last_refill = i\<rparr>"
  have "grants svc (i # is) None = grants svc (i # is) (Some ?b)" by (simp add: consume_bucket_def)
  then show ?thesis
    using grants_bound [OF f, of ?b "i # is"] assms(2,3) f64_of_u32(1) by (simp add: bucket_ok_def)
qed

section \<open>A fresh token\<close>

lemma fresh_bucket_grants:
  assumes f: "f64_contract (tks_round svc)" and "tks_burst svc \<noteq> 0"
  shows "fst (consume_bucket svc inst None) = Inr ()"
proof -
  have "tks_round svc 0 = 0" using f unfolding f64_contract_def by (metis abs_zero of_int_0 zero_le_numeral zero_le_power)
  moreover have "tks_round svc (f64_of_u32 (tks_burst svc)) = f64_of_u32 (tks_burst svc)"
    using f f64_of_u32(2,3) unfolding f64_contract_def by metis
  moreover have "1 \<le> f64_of_u32 (tks_burst svc)"
  proof -
    have "1 \<le> unat (tks_burst svc)" using assms(2) by (simp add: Suc_le_eq unat_gt_0)
    then show ?thesis unfolding f64_of_u32_def by (metis of_nat_1 of_nat_le_iff)
  qed
  ultimately show ?thesis
    by (simp add: consume_bucket_def refill_def as_secs_f64_def)
qed


lemma created_token_opens:
  assumes "create_token env svc i bytes now actor input s = (Inr x, t)" and "tokens_wf svc s" and "length bytes = 15"
    and "f64_contract (tks_round svc)" and "tks_burst svc \<noteq> 0" and "db_buckets s i = None"
    and "env_fault env' = (\<lambda>_. None)" and "later < cat_expires_at input"
    and "sc \<in> set (tm_scopes (crt_metadata x))"
    and "tm_cidr_allowlist (crt_metadata x) = [] \<or> (\<exists>c \<in> set (tm_cidr_allowlist (crt_metadata x)). cidr_contains (tks_lib svc) c peer)"
    and "find (\<lambda>q. ur_id q = cat_user_id input) (db_users s) = Some q" and "into_user q = Inr u" and "\<not> user_is_disabled u"
  shows "\<exists>t'. authenticate env' svc later inst (crt_plaintext_token x) peer sc t = (Inr \<lparr>bp_user = u, bp_token_id = i\<rparr>, t')"
  using assms(1,2)
proof (rule created_token_row)
  fix k row
  assume x: "x = created_token k (credential_generate (tks_lib svc) bytes)"
    and k: "at_id k = i" "at_user_id k = cat_user_id input" "at_expires_at k = cat_expires_at input" "at_revoked_at k = None"
      "into_token (tks_lib svc) (tks_json svc) row = Inr k"
    and t: "find (\<lambda>r. tkr_hash r = credential_hash (tks_lib svc) (tks_pepper svc) (credential_generate (tks_lib svc) bytes))
        (db_api_tokens t) = Some row"
      "tokens_wf svc t" "db_users t = db_users s" "db_buckets t = db_buckets s"
  have "digest_contract (tks_lib svc)" using assms(2) by (simp add: tokens_wf_def tokens_ok_def)
  then have "credential_parse (tks_lib svc) (crt_plaintext_token x) = Inr (credential_generate (tks_lib svc) bytes)"
    using credential_roundtrip(1) assms(3) by (simp add: x created_token_def)
  moreover have "allows_ip (tks_lib svc) k peer" "allows_scope k sc"
    using assms(9,10) by (auto simp: x created_token_def token_metadata_def allows_ip_def allows_scope_def list_ex_iff)
  ultimately show ?thesis
    using authenticate_accepts [OF _ assms(7) t(1) k(5) t(2)] fresh_bucket_grants [OF assms(4,5)] assms(6,8,11-13) k t(3,4)
    by (simp add: token_is_active_def)
qed

end
