(* ===== verification/Cron_Presets.thy ===== *)
theory Cron_Presets
  imports Cron_Service
begin

text \<open>
  Presets: \<open>openpanel-domain/src/cron/preset.rs\<close>, the targets of \<open>backups/refine.rs\<close> they use,
  and the mapping of the creation form in \<open>openpanel-app/src/cron/preset_mapping.rs\<close>.
\<close>

datatype backup_target_kind = TargetLocal | OffsiteS3 | OffsiteRsync | OffsiteB2 | OffsiteWasabi

record backup_target_policy =
  btp_kind :: backup_target_kind
  btp_bucket :: "string option"
  btp_rsync_url :: "string option"

datatype backup_refine_error =
    InvalidSelector string | MissingSelectorField string | InvalidSelectorField string

definition target_local :: backup_target_policy where
  "target_local = \<lparr>btp_kind = TargetLocal, btp_bucket = None, btp_rsync_url = None\<rparr>"

definition target_s3 :: "string \<Rightarrow> backup_refine_error + backup_target_policy" where
  "target_s3 bucket =
     (if bucket = [] then Inl (InvalidSelector ''S3 bucket must be non-empty'')
      else Inr \<lparr>btp_kind = OffsiteS3, btp_bucket = Some bucket, btp_rsync_url = None\<rparr>)"

definition target_rsync :: "string \<Rightarrow> backup_refine_error + backup_target_policy" where
  "target_rsync url =
     (if url = [] then Inl (InvalidSelector ''rsync URL must be non-empty'')
      else Inr \<lparr>btp_kind = OffsiteRsync, btp_bucket = None, btp_rsync_url = Some url\<rparr>)"

definition target_label :: "backup_target_policy \<Rightarrow> string" where
  "target_label p =
     (case btp_kind p of
        TargetLocal \<Rightarrow> ''local'' | OffsiteS3 \<Rightarrow> ''offsite-s3'' | OffsiteRsync \<Rightarrow> ''offsite-rsync''
      | OffsiteB2 \<Rightarrow> ''offsite-b2'' | OffsiteWasabi \<Rightarrow> ''offsite-wasabi'')"

datatype preset_error =
    UnknownPreset string
  | InvalidCycle string
  | UnknownDestination string
  | EmptyTarget
  | PresetCron cron_error
  | PresetBackup backup_refine_error

section \<open>Preset types\<close>

datatype cron_preset_type =
  PresetShell | BackupSite | BackupDb | CutLog | BackupDir | SyncTime | FreeRam | AccessUrl

definition preset_all :: "string list" where
  "preset_all = [''shell'', ''backup-site'', ''backup-db'', ''cut-log'', ''backup-dir'', ''sync-time'', ''free-ram'', ''access-url'']"

definition preset_parse :: "string \<Rightarrow> preset_error + cron_preset_type" where
  "preset_parse name =
     (if name = ''shell'' then Inr PresetShell
      else if name = ''backup-site'' then Inr BackupSite
      else if name = ''backup-db'' then Inr BackupDb
      else if name = ''cut-log'' then Inr CutLog
      else if name = ''backup-dir'' then Inr BackupDir
      else if name = ''sync-time'' then Inr SyncTime
      else if name = ''free-ram'' then Inr FreeRam
      else if name = ''access-url'' then Inr AccessUrl
      else Inl (UnknownPreset name))"

definition preset_name :: "cron_preset_type \<Rightarrow> string" where
  "preset_name p =
     (case p of
        PresetShell \<Rightarrow> ''shell'' | BackupSite \<Rightarrow> ''backup-site'' | BackupDb \<Rightarrow> ''backup-db'' | CutLog \<Rightarrow> ''cut-log''
      | BackupDir \<Rightarrow> ''backup-dir'' | SyncTime \<Rightarrow> ''sync-time'' | FreeRam \<Rightarrow> ''free-ram'' | AccessUrl \<Rightarrow> ''access-url'')"

interpretation preset_codec: string_codec preset_name preset_parse
proof
  fix v s
  show "preset_parse (preset_name v) = Inr v" by (cases v) (simp_all add: preset_parse_def preset_name_def)
  show "preset_parse s = Inr v \<Longrightarrow> preset_name v = s"
    by (auto simp: preset_parse_def preset_name_def split: if_splits)
qed

lemma preset_all_names: "set preset_all = range preset_name"
proof -
  have "range preset_name = preset_name ` {PresetShell, BackupSite, BackupDb, CutLog, BackupDir, SyncTime, FreeRam, AccessUrl}"
    by (intro arg_cong2 [of _ _ _ _ image] refl) (auto intro: cron_preset_type.exhaust)
  then show ?thesis by (simp add: preset_all_def preset_name_def insert_commute)
qed

definition preset_executable :: "cron_preset_type \<Rightarrow> string" where
  "preset_executable p =
     (case p of
        PresetShell \<Rightarrow> ''/bin/sh''
      | BackupSite \<Rightarrow> ''/usr/sbin/openpanel-backup-site''
      | BackupDb \<Rightarrow> ''/usr/sbin/openpanel-backup-db''
      | CutLog \<Rightarrow> ''/usr/sbin/openpanel-cut-log''
      | BackupDir \<Rightarrow> ''/usr/sbin/openpanel-backup-dir''
      | SyncTime \<Rightarrow> ''/usr/sbin/chronyd-sync''
      | FreeRam \<Rightarrow> ''/usr/sbin/openpanel-free-ram''
      | AccessUrl \<Rightarrow> [])"

definition preset_workdir :: "cron_preset_type \<Rightarrow> string" where
  "preset_workdir p = (case p of AccessUrl \<Rightarrow> ''/'' | _ \<Rightarrow> ''/var/www'')"

definition preset_default_timeout_secs :: "cron_preset_type \<Rightarrow> u64" where
  "preset_default_timeout_secs p =
     (case p of BackupSite \<Rightarrow> 3600 | BackupDb \<Rightarrow> 3600 | BackupDir \<Rightarrow> 3600 | AccessUrl \<Rightarrow> 60 | _ \<Rightarrow> 300)"

definition preset_is_backup :: "cron_preset_type \<Rightarrow> bool" where
  "preset_is_backup p \<longleftrightarrow> p = BackupSite \<or> p = BackupDb \<or> p = BackupDir"

definition preset_is_http :: "cron_preset_type \<Rightarrow> bool" where
  "preset_is_http p \<longleftrightarrow> p = AccessUrl"

definition preset_requires_system_scope :: "cron_preset_type \<Rightarrow> bool" where
  "preset_requires_system_scope p \<longleftrightarrow> p = SyncTime \<or> p = FreeRam"

section \<open>Cycles\<close>

datatype cycle_picker =
    Daily | EveryNDays u32 | Hourly | EveryNHours u32 | EveryNMinutes u32 | Weekly | Monthly | EveryNSeconds u32

definition cycle_in :: "string \<Rightarrow> string \<Rightarrow> u32 \<Rightarrow> u32 \<Rightarrow> (u32 \<Rightarrow> cycle_picker) \<Rightarrow> preset_error + cycle_picker" where
  "cycle_in kind bounds hi n c =
     (if 1 \<le> n \<and> n \<le> hi then Inr (c n)
      else Inl (InvalidCycle (kind @ '' '' @ nat_str (unat n) @ '' out of '' @ bounds)))"

definition cycle_parse :: "string \<Rightarrow> u32 \<Rightarrow> preset_error + cycle_picker" where
  "cycle_parse kind n =
     (if kind = ''daily'' then Inr Daily
      else if kind = ''n-days'' then cycle_in ''n-days'' ''1..=31'' 31 n EveryNDays
      else if kind = ''hourly'' then Inr Hourly
      else if kind = ''n-hours'' then cycle_in ''n-hours'' ''1..=23'' 23 n EveryNHours
      else if kind = ''n-minutes'' then cycle_in ''n-minutes'' ''1..=59'' 59 n EveryNMinutes
      else if kind = ''weekly'' then Inr Weekly
      else if kind = ''monthly'' then Inr Monthly
      else if kind = ''n-seconds'' then cycle_in ''n-seconds'' ''1..=59'' 59 n EveryNSeconds
      else Inl (InvalidCycle (''unknown cycle '' @ kind)))"

definition cycle_expression :: "cycle_picker \<Rightarrow> string" where
  "cycle_expression c =
     (case c of
        Daily \<Rightarrow> ''0 2 * * *''
      | EveryNDays n \<Rightarrow> ''0 2 */'' @ nat_str (unat n) @ '' * *''
      | Hourly \<Rightarrow> ''0 * * * *''
      | EveryNHours n \<Rightarrow>
          (if n = 1 then ''0 * * * *''
           else if n > 23 then ''0 2 * * *''
           else ''0 */'' @ nat_str (unat n) @ '' * * *'')
      | EveryNMinutes n \<Rightarrow> ''*/'' @ nat_str (unat n) @ '' * * * *''
      | Weekly \<Rightarrow> ''0 2 * * 1''
      | Monthly \<Rightarrow> ''0 2 1 * *''
      | EveryNSeconds n \<Rightarrow> ''* * * * *'')"

definition compile_expression :: "cron_lib \<Rightarrow> cycle_picker \<Rightarrow> preset_error + string" where
  "compile_expression lib c =
     rbind (map_err PresetCron (schedule_parse lib (cycle_expression c) ''UTC'')) (\<lambda>_. Inr (cycle_expression c))"

section \<open>Backups\<close>

datatype backup_destination = DestLocal | DestFtp | DestS3 | DestGDrive

definition destination_parse :: "string \<Rightarrow> preset_error + backup_destination" where
  "destination_parse name =
     (if name = ''local'' then Inr DestLocal
      else if name = ''ftp'' then Inr DestFtp
      else if name = ''s3'' then Inr DestS3
      else if name = ''gdrive'' then Inr DestGDrive
      else Inl (UnknownDestination name))"

definition destination_target_kind :: "backup_destination \<Rightarrow> backup_target_kind" where
  "destination_target_kind d =
     (case d of DestLocal \<Rightarrow> TargetLocal | DestFtp \<Rightarrow> OffsiteRsync | DestS3 \<Rightarrow> OffsiteS3 | DestGDrive \<Rightarrow> OffsiteWasabi)"

definition destination_policy :: "backup_destination \<Rightarrow> string \<Rightarrow> preset_error + backup_target_policy" where
  "destination_policy d locator =
     (case d of
        DestLocal \<Rightarrow> Inr target_local
      | DestFtp \<Rightarrow> if locator = [] then Inl EmptyTarget else map_err PresetBackup (target_rsync locator)
      | DestS3 \<Rightarrow> if locator = [] then Inl EmptyTarget else map_err PresetBackup (target_s3 locator)
      | DestGDrive \<Rightarrow> if locator = [] then Inl EmptyTarget else map_err PresetBackup (target_s3 locator))"

record backup_binding =
  bb_destination :: backup_destination
  bb_locator :: string
  bb_retain_latest :: nat
  bb_exclusions :: "string list"

definition binding_new :: "backup_destination \<Rightarrow> string \<Rightarrow> nat \<Rightarrow> string list \<Rightarrow> preset_error + backup_binding" where
  "binding_new d locator retain exclusions =
     (if retain = 0 then Inl (InvalidCycle ''retain-latest must be >= 1'')
      else if d \<noteq> DestLocal \<and> locator = [] then Inl EmptyTarget
      else Inr \<lparr>bb_destination = d, bb_locator = locator, bb_retain_latest = retain, bb_exclusions = exclusions\<rparr>)"

section \<open>Compilation\<close>

record compiled_preset =
  cp_preset :: cron_preset_type
  cp_executable :: string
  cp_workdir :: string
  cp_timeout_secs :: u64

definition preset_compile ::
    "cron_preset_type \<Rightarrow> string \<Rightarrow> string list \<Rightarrow> string list \<Rightarrow> preset_error + compiled_preset" where
  "preset_compile p workdir owned_roots allow_list =
     (if preset_is_http p
      then Inr \<lparr>cp_preset = p, cp_executable = [], cp_workdir = ''/'', cp_timeout_secs = preset_default_timeout_secs p\<rparr>
      else if \<not> is_under_owned_site workdir owned_roots then Inl (PresetCron InvalidWorkingDirectory)
      else if \<not> is_executable_allowed (preset_executable p) allow_list then Inl (PresetCron InvalidExecutable)
      else Inr \<lparr>cp_preset = p, cp_executable = preset_executable p, cp_workdir = workdir,
        cp_timeout_secs = preset_default_timeout_secs p\<rparr>)"

record preset_request =
  pq_preset :: string
  pq_name :: string
  pq_cycle :: string
  pq_cycle_n :: u32
  pq_timezone :: string
  pq_working_directory :: string
  pq_backup_to :: string
  pq_locator :: string
  pq_retain_latest :: nat
  pq_exclusions :: "string list"
  pq_url :: string
  pq_method :: string
  pq_target_path :: string

definition preset_arguments :: "cron_preset_type \<Rightarrow> preset_request \<Rightarrow> string list" where
  "preset_arguments p q =
     (if preset_is_backup p \<or> p = CutLog
      then (if pq_target_path q = [] then [] else [pq_target_path q]) @
        map (\<lambda>e. ''--exclude='' @ e) (pq_exclusions q)
      else [])"

definition preset_to_cron_input ::
    "cron_lib \<Rightarrow> preset_request \<Rightarrow> string list \<Rightarrow> string list \<Rightarrow> preset_error + cron_input" where
  "preset_to_cron_input lib q owned_roots allow_list =
     rbind (preset_parse (pq_preset q)) (\<lambda>p.
     rbind (cycle_parse (pq_cycle q) (pq_cycle_n q)) (\<lambda>cycle.
     rbind (compile_expression lib cycle) (\<lambda>sch.
     if preset_is_http p then
       (if pq_url q = [] \<or> \<not> (starts_with ''http://'' (pq_url q) \<or> starts_with ''https://'' (pq_url q))
        then Inl (InvalidCycle ''access-url requires http(s) URL'')
        else Inr \<lparr>ci_name = pq_name q, ci_schedule = sch, ci_timezone = pq_timezone q, ci_kind = ''http'',
          ci_executable = None, ci_arguments = [], ci_working_directory = None, ci_url = Some (pq_url q),
          ci_method = Some (if pq_method q = [] then ''GET'' else cl_to_uppercase lib (pq_method q)),
          ci_timeout_secs = preset_default_timeout_secs p, ci_overlap_policy = ''skip''\<rparr>)
     else
     rbind (preset_compile p (pq_working_directory q) owned_roots allow_list) (\<lambda>compiled.
       Inr \<lparr>ci_name = pq_name q, ci_schedule = sch, ci_timezone = pq_timezone q, ci_kind = ''command'',
         ci_executable = Some (cp_executable compiled), ci_arguments = preset_arguments p q,
         ci_working_directory = Some (cp_workdir compiled), ci_url = None, ci_method = None,
         ci_timeout_secs = cp_timeout_secs compiled, ci_overlap_policy = ''skip''\<rparr>))))"

datatype backup_resource = ResourceSite uuid | ResourceDatabase uuid | PanelMetadata

record backup_plan_input =
  bpi_name :: string
  bpi_resources :: "backup_resource list"
  bpi_schedule :: string
  bpi_timezone :: string
  bpi_retention_copies :: nat

definition preset_to_backup_plan :: "preset_request \<Rightarrow> string \<Rightarrow> preset_error + backup_plan_input option" where
  "preset_to_backup_plan q sch =
     rbind (preset_parse (pq_preset q)) (\<lambda>p.
     if \<not> preset_is_backup p then Inr None
     else
     rbind (destination_parse (pq_backup_to q)) (\<lambda>d.
     rbind (binding_new d (pq_locator q) (max (pq_retain_latest q) 1) (pq_exclusions q)) (\<lambda>binding.
       Inr (Some \<lparr>bpi_name = pq_name q, bpi_resources = [PanelMetadata], bpi_schedule = sch,
         bpi_timezone = pq_timezone q, bpi_retention_copies = bb_retain_latest binding\<rparr>))))"

section \<open>Chains\<close>

record chain_link =
  chl_from :: uuid
  chl_to :: uuid

definition chain_link_new :: "uuid \<Rightarrow> uuid \<Rightarrow> preset_error + chain_link" where
  "chain_link_new a b =
     (if a = b then Inl (InvalidCycle ''chain link must target another job'')
      else Inr \<lparr>chl_from = a, chl_to = b\<rparr>)"

type_synonym chain_ledger = "(uuid \<times> uuid) set"

definition chain_fire :: "chain_link \<Rightarrow> uuid \<Rightarrow> chain_ledger \<Rightarrow> uuid option \<times> chain_ledger" where
  "chain_fire l run_id fired =
     (if (chl_from l, run_id) \<in> fired then (None, fired)
      else (Some (chl_to l), insert (chl_from l, run_id) fired))"

record failure_reminder =
  frm_job_id :: uuid
  frm_channel_id :: uuid

definition reminder_subscribe :: "uuid \<Rightarrow> uuid \<Rightarrow> failure_reminder" where
  "reminder_subscribe job channel = \<lparr>frm_job_id = job, frm_channel_id = channel\<rparr>"

definition event_family :: string where
  "event_family = ''job-terminal''"

fun chain_deliver :: "(chain_link \<times> uuid) list \<Rightarrow> chain_ledger \<Rightarrow> uuid list" where
  "chain_deliver [] fired = []"
| "chain_deliver ((l, run_id) # es) fired =
     (case chain_fire l run_id fired of
        (None, fired) \<Rightarrow> chain_deliver es fired
      | (Some next_job, fired) \<Rightarrow> next_job # chain_deliver es fired)"

text \<open>A redelivered event fires nothing, and a second link of the same job does not fire either.\<close>

lemma chain_fire_twice:
  "chain_fire l run_id fired = (r, fired') \<Longrightarrow> chl_from l' = chl_from l \<Longrightarrow> chain_fire l' run_id fired' = (None, fired')"
  by (auto simp: chain_fire_def split: if_splits)

lemma chain_deliver_fired:
  "(\<And>l run_id. (l, run_id) \<in> set es \<Longrightarrow> (chl_from l, run_id) \<in> fired) \<Longrightarrow> chain_deliver es fired = []"
  by (induction es) (auto simp: chain_fire_def)

lemma chain_deliver_once:
  assumes "\<And>l' r. (l', r) \<in> set es \<Longrightarrow> chl_from l' = chl_from l \<and> r = run_id"
  shows "chain_deliver ((l, run_id) # es) {} = [chl_to l]"
  using assms chain_deliver_fired [of es "{(chl_from l, run_id)}"] by (auto simp: chain_fire_def)

section \<open>Presets and the service\<close>

lemma cycle_words_eq:
  "word_count (''0 2 */'' @ nat_str n @ '' * *'') = 5" "word_count (''0 */'' @ nat_str n @ '' * * *'') = 5"
  "word_count (''*/'' @ nat_str n @ '' * * * *'') = 5" "word_count ''0 2 * * *'' = 5" "word_count ''0 * * * *'' = 5"
  "word_count ''0 2 * * 1'' = 5" "word_count ''0 2 1 * *'' = 5" "word_count ''* * * * *'' = 5"
  by (simp_all add: word_rules del: skip_word.simps(1-3) trim_start.simps)

text \<open>Every cycle of the form is an expression of five fields.\<close>

lemma cycle_words: "word_count (cycle_expression c) = 5"
  using cycle_words_eq unfolding cycle_expression_def by (simp split: cycle_picker.split)

lemma compile_expression_Inr:
  "compile_expression lib c = Inr x \<longleftrightarrow> x = cycle_expression c \<and> cl_timezone lib ''UTC'' \<and>
     \<not> isl (cl_schedule lib (''0 '' @ cycle_expression c))"
  by (auto simp: compile_expression_def schedule_parse_Inr schedule_wf_def cycle_words)

lemma preset_executable_absolute: "\<not> preset_is_http p \<Longrightarrow> is_absolute (preset_executable p)"
  by (cases p) (simp_all add: preset_is_http_def preset_executable_def is_absolute_def)

definition preset_input_ok ::
    "preset_request \<Rightarrow> string list \<Rightarrow> string list \<Rightarrow> cron_preset_type \<Rightarrow> cron_input \<Rightarrow> bool" where
  "preset_input_ok q roots allow p input \<longleftrightarrow>
     ci_name input = pq_name q \<and> ci_timezone input = pq_timezone q \<and> ci_overlap_policy input = ''skip'' \<and>
     ci_timeout_secs input = preset_default_timeout_secs p \<and>
     (if preset_is_http p
      then ci_kind input = ''http'' \<and> ci_url input = Some (pq_url q) \<and>
        (starts_with ''http://'' (pq_url q) \<or> starts_with ''https://'' (pq_url q))
      else ci_kind input = ''command'' \<and> ci_executable input = Some (preset_executable p) \<and>
        preset_executable p \<in> set allow \<and> ci_working_directory input = Some (pq_working_directory q) \<and>
        is_under_owned_site (pq_working_directory q) roots \<and> ci_arguments input = preset_arguments p q)"

lemma preset_input_shape:
  assumes "preset_to_cron_input lib q roots allow = Inr input"
  shows "\<exists>p c. preset_parse (pq_preset q) = Inr p \<and> compile_expression lib c = Inr (ci_schedule input) \<and>
    preset_input_ok q roots allow p input"
proof -
  from assms obtain p c x where pc: "preset_parse (pq_preset q) = Inr p" "compile_expression lib c = Inr x"
    and rest: "(if preset_is_http p then
       (if pq_url q = [] \<or> \<not> (starts_with ''http://'' (pq_url q) \<or> starts_with ''https://'' (pq_url q))
        then Inl (InvalidCycle ''access-url requires http(s) URL'')
        else Inr \<lparr>ci_name = pq_name q, ci_schedule = x, ci_timezone = pq_timezone q, ci_kind = ''http'',
          ci_executable = None, ci_arguments = [], ci_working_directory = None, ci_url = Some (pq_url q),
          ci_method = Some (if pq_method q = [] then ''GET'' else cl_to_uppercase lib (pq_method q)),
          ci_timeout_secs = preset_default_timeout_secs p, ci_overlap_policy = ''skip''\<rparr>)
     else
     rbind (preset_compile p (pq_working_directory q) roots allow) (\<lambda>compiled.
       Inr \<lparr>ci_name = pq_name q, ci_schedule = x, ci_timezone = pq_timezone q, ci_kind = ''command'',
         ci_executable = Some (cp_executable compiled), ci_arguments = preset_arguments p q,
         ci_working_directory = Some (cp_workdir compiled), ci_url = None, ci_method = None,
         ci_timeout_secs = cp_timeout_secs compiled, ci_overlap_policy = ''skip''\<rparr>)) = Inr input"
    unfolding preset_to_cron_input_def rbind_Inr by blast
  have "ci_schedule input = x \<and> preset_input_ok q roots allow p input"
  proof (cases "preset_is_http p")
    case True
    then show ?thesis using rest by (auto simp: preset_input_ok_def split: if_splits)
  next
    case False
    then show ?thesis using rest
      by (auto simp: preset_input_ok_def preset_compile_def is_executable_allowed_def list_ex_iff split: if_splits)
  qed
  then show ?thesis using pc by blast
qed

text \<open>
  What a preset compiles to is accepted by the service, when the service has the same absolute
  roots and the directory is an absolute path that does not climb.
\<close>

lemma preset_input_builds:
  assumes "preset_to_cron_input (crs_lib svc) q (crs_allowed_roots svc) allow = Inr input"
    and "list_all is_absolute (crs_allowed_roots svc)" and "is_absolute (pq_working_directory q)"
    and "ParentDir \<notin> set (components (pq_working_directory q))"
    and "cl_timezone (crs_lib svc) (pq_timezone q)" and "trim (pq_name q) \<noteq> []"
    and "cl_next (crs_lib svc) (''0 '' @ ci_schedule input) (pq_timezone q) now \<noteq> None"
  shows "\<exists>job. build svc i now owner input = Inr job \<and> cj_id job = i \<and> cj_owner_id job = owner \<and>
    cj_timeout_secs job \<le> 3600"
proof -
  let ?lib = "crs_lib svc"
  from preset_input_shape [OF assms(1)] obtain p c where c: "compile_expression ?lib c = Inr (ci_schedule input)"
    and input: "preset_input_ok q (crs_allowed_roots svc) allow p input" by blast
  note fields = input [unfolded preset_input_ok_def]
  let ?sch = "\<lparr>cs_expression = ci_schedule input, cs_timezone = pq_timezone q\<rparr>"
  have sch: "schedule_parse ?lib (ci_schedule input) (pq_timezone q) = Inr ?sch"
    using c assms(5) by (simp add: schedule_parse_Inr schedule_wf_def compile_expression_Inr cycle_words)
  obtain n where n: "next_after ?lib ?sch now = Inr n"
  proof -
    obtain u where "cl_schedule ?lib (''0 '' @ ci_schedule input) = Inr u"
      using c by (cases "cl_schedule ?lib (''0 '' @ ci_schedule input)") (simp_all add: compile_expression_Inr)
    then show ?thesis using that assms(5,7) by (auto simp: next_after_def)
  qed
  have ok: "\<not> job_fields_invalid (pq_name q) (preset_default_timeout_secs p)" "preset_default_timeout_secs p \<le> 3600"
    using assms(6) by (cases p; simp add: job_fields_invalid_def preset_default_timeout_secs_def)+
  show ?thesis
  proof (cases "preset_is_http p")
    case True
    then show ?thesis using sch n ok fields
      by (auto simp: build_def job_new_def job_http_def)
  next
    case False
    have "working_directory_new (pq_working_directory q) (crs_allowed_roots svc) = Inr (OwnedWorkingDirectory (pq_working_directory q))"
      using fields False assms(2-4)
      by (auto simp: working_directory_new_def is_under_owned_site_def list_ex_iff list_all_iff)
    then show ?thesis using False sch n ok fields preset_executable_absolute [OF False]
      by (auto simp: build_def job_new_def job_command_def is_absolute_def)
  qed
qed

end
