(* ===== verification/Notification_Life.thy ===== *)
theory Notification_Life
  imports Notification_Service
begin

text \<open>
  What dispatching comes to: stored deliveries live by the steps of their records, the rate of a
  channel is bounded in every window of a minute, a delivery succeeds only where the settings and the
  network allowed it, and a credential that does not decrypt stops the batch.
\<close>

section \<open>The life of a stored delivery\<close>

lemma row_life_records:
  assumes "row_life r r'" and "delivery_row_ok r"
  shows "delivery_row_ok r' \<and> dlr_id r' = dlr_id r \<and>
    (\<exists>d d'. row_delivery r = Inr d \<and> row_delivery r' = Inr d' \<and> delivery_step\<^sup>*\<^sup>* d d')"
  using assms(1) unfolding row_life_def
proof (induction rule: rtranclp_induct)
  case base
  then show ?case using assms(2) by (auto elim: delivery_row_okE)
next
  case (step y z)
  then obtain d d' where d: "row_delivery r = Inr d" "row_delivery y = Inr d'" "delivery_step\<^sup>*\<^sup>* d d'" and y: "delivery_row_ok y"
    by blast
  note keys = row_step_ok [OF step.hyps(2) y]
  show ?case
  proof (cases "z = y")
    case False
    then obtain e e' where e: "y = delivery_to_row e" "delivery_step e e'" "z = delivery_to_row e'"
      using step.hyps(2) by (auto simp: row_step_def)
    have "dl_payload_digest e = dl_payload_digest d'"
      using delivery_row_of [OF y d(2)] e(1) by (simp add: delivery_to_row_def)
    then have "e = d'" using delivery_row_of [OF y d(2)] e(1) delivery_codec.to_row_inject by metis
    moreover obtain z' where z': "row_delivery z = Inr z'" "z = delivery_to_row z'" "digest_ok (dl_payload_digest z')"
      using keys(1) by (rule delivery_row_okE)
    have "dl_payload_digest e' = dl_payload_digest z'" using e(3) z'(2) by (simp add: delivery_to_row_def)
    then have "e' = z'" using e(3) z' delivery_codec.to_row_inject by metis
    ultimately show ?thesis using d e(2) z'(1) keys step.IH by (auto intro: rtranclp.rtrancl_into_rtrancl)
  qed (use step.IH in simp)
qed

lemma terminal_stays: "delivery_step\<^sup>*\<^sup>* d d' \<Longrightarrow> delivery_terminal d \<Longrightarrow> d' = d"
  by (induction rule: rtranclp_induct) (auto dest: delivery_terminal_final)

lemma row_life_terminal:
  assumes "row_life r r'" and "delivery_row_ok r" and "row_delivery r = Inr d" and "delivery_terminal d"
  shows "r' = r"
proof -
  obtain d' where d': "row_delivery r' = Inr d'" "delivery_step\<^sup>*\<^sup>* d d'" "delivery_row_ok r'"
    using row_life_records [OF assms(1,2)] assms(3) by auto
  have "d' = d" using terminal_stays [OF d'(2) assms(4)] .
  then show ?thesis using delivery_row_of [OF assms(2,3)] delivery_row_of [OF d'(3,1)] by simp
qed

section \<open>The rate of a channel\<close>

text \<open>The instants at which calls of one channel were let through, out of those at which one was asked for.\<close>

fun slots_granted :: "notif_service \<Rightarrow> uuid \<Rightarrow> instant list \<Rightarrow> db \<Rightarrow> instant list" where
  "slots_granted svc i [] s = []"
| "slots_granted svc i (now # ts) s =
     (case take_rate_slot svc i now s of
        (Inr True, t) \<Rightarrow> now # slots_granted svc i ts t
      | (_, t) \<Rightarrow> slots_granted svc i ts t)"

definition window :: "instant \<Rightarrow> instant list \<Rightarrow> nat" where
  "window lo gs = length (filter (\<lambda>g. lo < g \<and> g \<le> lo + minutes 1) gs)"

lemma dropWhile_sorted: "sorted (gs :: int list) \<Longrightarrow> dropWhile (\<lambda>c. c \<le> a) gs = filter (\<lambda>c. a < c) gs"
proof (induction gs)
  case (Cons g gs)
  have "filter (\<lambda>c. a < c) gs = gs" if "a < g" using Cons.prems that by (auto simp: filter_id_conv)
  then show ?case using Cons by auto
qed simp

lemma one_minute: "0 < minutes 1"
  by (simp add: minutes_def seconds_def)

lemma slots_window:
  assumes "sorted ts" and "sorted gs" and "\<forall>g \<in> set gs. \<forall>t \<in> set ts. g \<le> t"
    and "db_channel_calls s i = filter (\<lambda>c. a < c) gs" and "\<forall>t \<in> set ts. a \<le> t - minutes 1"
    and "\<forall>lo. window lo gs \<le> ns_calls_per_minute svc"
  shows "window lo (gs @ slots_granted svc i ts s) \<le> ns_calls_per_minute svc"
  using assms
proof (induction ts arbitrary: gs s a)
  case (Cons now ts)
  let ?b = "now - minutes 1"
  let ?calls = "dropWhile (\<lambda>c. c \<le> ?b) (db_channel_calls s i)"
  have "sorted (db_channel_calls s i)" using Cons.prems(2,4) by (simp add: sorted_wrt_filter)
  then have calls: "?calls = filter (\<lambda>c. ?b < c) gs"
    using Cons.prems(5) by (auto simp: dropWhile_sorted Cons.prems(4) intro: filter_cong)
  have later: "\<forall>t \<in> set ts. ?b \<le> t - minutes 1" using Cons.prems(1) by simp
  show ?case
  proof (cases "length ?calls < ns_calls_per_minute svc")
    case True
    let ?t = "s\<lparr>db_channel_calls := (db_channel_calls s)(i := ?calls @ [now])\<rparr>"
    have slot: "take_rate_slot svc i now s = (Inr True, ?t)" using True by (simp add: take_rate_slot_def Let_def)
    have "window lo (gs @ [now]) \<le> ns_calls_per_minute svc" for lo
    proof (cases "lo < now \<and> now \<le> lo + minutes 1")
      case in_window: True
      have "length (filter (\<lambda>g. lo < g \<and> g \<le> lo + minutes 1) gs) \<le> length (filter (\<lambda>c. ?b < c) gs)"
        using filter_length_mono [of gs "\<lambda>g. lo < g \<and> g \<le> lo + minutes 1" "\<lambda>c. ?b < c"] in_window by auto
      then show ?thesis using True in_window by (simp add: window_def calls)
    qed (use Cons.prems(6) in \<open>auto simp: window_def\<close>)
    moreover have "db_channel_calls ?t i = filter (\<lambda>c. ?b < c) (gs @ [now])" using calls by (simp add: one_minute)
    ultimately have "window lo ((gs @ [now]) @ slots_granted svc i ts ?t) \<le> ns_calls_per_minute svc"
      using Cons.prems(1,2,3) later by (intro Cons.IH) (auto simp: sorted_append)
    then show ?thesis by (simp add: slot)
  next
    case False
    let ?t = "s\<lparr>db_channel_calls := (db_channel_calls s)(i := ?calls)\<rparr>"
    have slot: "take_rate_slot svc i now s = (Inr False, ?t)" using False by (simp add: take_rate_slot_def Let_def)
    have "window lo (gs @ slots_granted svc i ts ?t) \<le> ns_calls_per_minute svc"
      using Cons.prems later calls by (intro Cons.IH) auto
    then show ?thesis by (simp add: slot)
  qed
qed simp

section \<open>What a delivery that succeeded had\<close>

text \<open>A dispatch changes no channel and no event, and of a subscription only its failure count.\<close>

definition settings :: "db \<Rightarrow> channel_row list \<times> subscription_row list \<times> event_row list" where
  "settings s = (db_channels s, map (\<lambda>r. r\<lparr>sbr_failure_count := 0\<rparr>) (db_subscriptions s), db_events s)"

definition found_channel :: "notif_service \<Rightarrow> db \<Rightarrow> uuid \<Rightarrow> channel \<Rightarrow> bool" where
  "found_channel svc s i c \<longleftrightarrow>
     (\<exists>row. find (\<lambda>r. chr_id r = i) (db_channels s) = Some row \<and> row_channel (ns_lib svc) (ns_json svc) row = Inr c)"

definition found_subscription :: "notif_service \<Rightarrow> db \<Rightarrow> uuid \<Rightarrow> subscription \<Rightarrow> bool" where
  "found_subscription svc s i x \<longleftrightarrow>
     (\<exists>row. find (\<lambda>r. sbr_id r = i) (db_subscriptions s) = Some row \<and> row_subscription (ns_lib svc) row = Inr x)"

definition found_event :: "notif_service \<Rightarrow> db \<Rightarrow> uuid \<Rightarrow> notification_event \<Rightarrow> bool" where
  "found_event svc s i e \<longleftrightarrow>
     (\<exists>row. find (\<lambda>r. evr_id r = i) (db_events s) = Some row \<and> row_event (ns_lib svc) row = Inr e)"

lemma found_settings:
  assumes "settings t = settings s"
  shows "found_channel svc t i c = found_channel svc s i c" and "found_subscription svc t i x = found_subscription svc s i x"
    and "found_event svc t i e = found_event svc s i e"
proof -
  have find: "map_option (\<lambda>r. r\<lparr>sbr_failure_count := 0\<rparr>) (find (\<lambda>r. sbr_id r = i) rows) =
      find (\<lambda>r. sbr_id r = i) (map (\<lambda>r. r\<lparr>sbr_failure_count := 0\<rparr>) rows)" for rows
    by (induction rows) auto
  have row: "row_subscription lib (r\<lparr>sbr_failure_count := 0\<rparr>) = row_subscription lib r" for lib r
    by (simp add: row_subscription_def)
  have sub: "found_subscription svc u i x \<longleftrightarrow>
      (\<exists>row. find (\<lambda>r. sbr_id r = i) (map (\<lambda>r. r\<lparr>sbr_failure_count := 0\<rparr>) (db_subscriptions u)) = Some row \<and>
        row_subscription (ns_lib svc) row = Inr x)" for u
    unfolding find [symmetric] by (auto simp: found_subscription_def row)
  show "found_channel svc t i c = found_channel svc s i c" "found_event svc t i e = found_event svc s i e"
    using assms by (simp_all add: settings_def found_channel_def found_event_def)
  show "found_subscription svc t i x = found_subscription svc s i x"
    using assms unfolding sub by (simp add: settings_def)
qed

text \<open>The delivery of a record is justified by the settings and by the answer of the network.\<close>

definition accepted :: "env \<Rightarrow> notif_service \<Rightarrow> notif_world \<Rightarrow> delivery \<Rightarrow> notification_event \<Rightarrow> subscription \<Rightarrow> channel \<Rightarrow> bool" where
  "accepted env svc w d e x c \<longleftrightarrow>
     (case ch_config c of
        SmtpConfig config \<Rightarrow>
          \<exists>secret. decrypt_from_storage (ns_crypto svc) (ns_master_key svc) (sm_password_enc config) = Inr secret \<and>
            adapter_smtp (ns_lib svc) w (dl_id d) config secret (sub_destination x) e = Accepted
      | WebhookConfig config \<Rightarrow>
          \<exists>secret body. decrypt_from_storage (ns_crypto svc) (ns_master_key svc) (wb_secret_enc config) = Inr secret \<and>
            webhook_body (ns_lib svc) (env_uuid_str env) e (dl_id d) (ns_max_payload_bytes svc) = Inr body \<and>
            payload_digest (ns_lib svc) body = dl_payload_digest d \<and>
            adapter_webhook env (ns_lib svc) w config secret (dl_id d) e body = Accepted)"

definition justified :: "env \<Rightarrow> notif_service \<Rightarrow> notif_world \<Rightarrow> db \<Rightarrow> delivery \<Rightarrow> bool" where
  "justified env svc w s d \<longleftrightarrow>
     (\<exists>e x c. found_event svc s (dl_event_id d) e \<and> found_subscription svc s (dl_subscription_id d) x \<and>
        found_channel svc s (dl_channel_id d) c \<and> channel_is_enabled c \<and> sub_enabled x \<and>
        ensure_destination svc w (dl_id d) c (sub_destination x) = Inr () \<and> accepted env svc w d e x c)"

lemma attempt_accepted:
  assumes "attempt_delivery env svc w now d e x c s = (Inr Accepted, t)"
  shows "channel_is_enabled c" and "sub_enabled x" and "ensure_destination svc w (dl_id d) c (sub_destination x) = Inr ()"
    and "accepted env svc w d e x c"
proof -
  have "\<not> isl (ensure_destination svc w (dl_id d) c (sub_destination x))"
    using assms by (auto simp: attempt_delivery_def st_invert split: if_splits)
  then show "ensure_destination svc w (dl_id d) c (sub_destination x) = Inr ()"
    by (cases "ensure_destination svc w (dl_id d) c (sub_destination x)") simp_all
  show "channel_is_enabled c" "sub_enabled x"
    using assms by (auto simp: attempt_delivery_def st_invert split: if_splits)
  show "accepted env svc w d e x c"
    using assms
    by (auto simp: attempt_delivery_def accepted_def st_invert secret_result_def invalid_def map_err_def
      split: if_splits channel_config.splits sum.splits)
qed

definition row_keys :: "delivery_row \<Rightarrow> uuid \<times> uuid \<times> uuid \<times> uuid \<times> string" where
  "row_keys r = (dlr_id r, dlr_event_id r, dlr_channel_id r, dlr_subscription_id r, dlr_payload_digest r)"

definition delivery_keys :: "delivery \<Rightarrow> uuid \<times> uuid \<times> uuid \<times> uuid \<times> string" where
  "delivery_keys d = (dl_id d, dl_event_id d, dl_channel_id d, dl_subscription_id d, dl_payload_digest d)"

definition successes_justified :: "env \<Rightarrow> notif_service \<Rightarrow> notif_world \<Rightarrow> db \<Rightarrow> db \<Rightarrow> bool" where
  "successes_justified env svc w s0 s \<longleftrightarrow> settings s = settings s0 \<and>
     map row_keys (db_deliveries s) = map row_keys (db_deliveries s0) \<and>
     (\<forall>r \<in> set (db_deliveries s). dlr_status r = ''terminal_success'' \<longrightarrow>
        r \<in> set (db_deliveries s0) \<or> (\<exists>d. delivery_keys d = row_keys r \<and> justified env svc w s0 d))"

interpretation successes: store_invariant "successes_justified env svc w s0" for env svc w s0
  by unfold_locales (simp_all add: tickless_def successes_justified_def settings_def)

lemma successes_rows:
  assumes "successes_justified env svc w s0 s" and "\<And>r. r \<in> set (db_deliveries s) \<Longrightarrow> row_keys (f r) = row_keys r"
    and "\<And>r. r \<in> set (db_deliveries s) \<Longrightarrow> dlr_status (f r) = ''terminal_success'' \<Longrightarrow> f r = r \<or>
      (\<exists>d. delivery_keys d = row_keys r \<and> justified env svc w s0 d)"
  shows "successes_justified env svc w s0 (s\<lparr>db_deliveries := map f (db_deliveries s)\<rparr>)"
proof -
  have "map row_keys (map f (db_deliveries s)) = map row_keys (db_deliveries s)" using assms(2) by simp
  moreover have "f r \<in> set (db_deliveries s0) \<or> (\<exists>d. delivery_keys d = row_keys (f r) \<and> justified env svc w s0 d)"
    if "r \<in> set (db_deliveries s)" "dlr_status (f r) = ''terminal_success''" for r
    using assms(3) [OF that] assms(1,2) that unfolding successes_justified_def by metis
  ultimately show ?thesis using assms(1) unfolding successes_justified_def by (auto simp: settings_def)
qed

lemma keeps_success_side [keeps_intros]:
  "keeps (successes_justified env svc w s0) (increment_failure_count env i)"
  "keeps (successes_justified env svc w s0) (take_rate_slot svc' i now)"
proof -
  show "keeps (successes_justified env svc w s0) (increment_failure_count env i)"
    unfolding increment_failure_count_def
    by (rule successes.keeps_write) (simp add: successes_justified_def settings_def update_where_def comp_def if_distrib cong: if_cong)
  show "keeps (successes_justified env svc w s0) (take_rate_slot svc' i now)"
    by (rule keepsI) (simp add: take_rate_slot_def Let_def successes_justified_def settings_def)
qed

definition one_of :: "db \<Rightarrow> delivery \<Rightarrow> bool" where
  "one_of s0 d \<longleftrightarrow> distinct (map dlr_id (db_deliveries s0)) \<and> delivery_keys d \<in> row_keys ` set (db_deliveries s0)"

lemma keeps_success_update:
  assumes "one_of s0 d" and "dl_status d = TerminalSuccess \<Longrightarrow> justified env svc w s0 d"
  shows "keeps (successes_justified env svc w s0) (deliveries_update env d)"
  unfolding deliveries_update_def update_where_def
proof (intro successes.keeps_write successes_rows)
  fix s r
  assume s: "successes_justified env svc w s0 s" and r: "r \<in> set (db_deliveries s)"
  let ?f = "if dlr_id r = dl_id d then delivery_row_set d r else r"
  show "row_keys ?f = row_keys r" by (simp add: row_keys_def delivery_row_set_def)
  have "row_keys ` set (db_deliveries s) = row_keys ` set (db_deliveries s0)"
    using s by (metis list.set_map successes_justified_def)
  then obtain r0 r1 where r0: "r0 \<in> set (db_deliveries s0)" "row_keys r0 = row_keys r"
    and r1: "r1 \<in> set (db_deliveries s0)" "row_keys r1 = delivery_keys d"
    using r assms(1) unfolding one_of_def by (metis (no_types, lifting) imageE imageI)
  have "row_keys r = delivery_keys d" if "dlr_id r = dl_id d"
  proof -
    have "dlr_id r0 = dlr_id r1" using r0(2) r1(2) that by (simp add: row_keys_def delivery_keys_def)
    then have "r0 = r1" using assms(1) r0(1) r1(1) by (auto simp: one_of_def distinct_map dest: inj_onD)
    then show ?thesis using r0 r1 by simp
  qed
  moreover assume "dlr_status ?f = ''terminal_success''"
  then have "dl_status d = TerminalSuccess" if "dlr_id r = dl_id d"
    using that by (cases "dl_status d") (simp_all add: delivery_row_set_def status_name_def)
  ultimately show "?f = r \<or> (\<exists>d. delivery_keys d = row_keys r \<and> justified env svc w s0 d)"
    using assms(2) by metis
qed simp

lemma keeps_success_finish:
  assumes "one_of s0 d" and "dl_status d \<noteq> TerminalSuccess"
  shows "keeps (successes_justified env svc w s0) (finish_failure env now d)"
  unfolding finish_failure_def
  by (intro keeps_intros successes.keeps_notif_wrappers keeps_success_update assms(1)) (use assms(2) in simp)

lemma delivery_keys_step: "delivery_step d d' \<Longrightarrow> delivery_keys d' = delivery_keys d"
  by (simp add: delivery_keys_def delivery_step_keys)

lemma justified_keys: "delivery_keys d' = delivery_keys d \<Longrightarrow> justified env svc w s d' = justified env svc w s d"
proof -
  assume k: "delivery_keys d' = delivery_keys d"
  then have "accepted env svc w d' = accepted env svc w d"
    by (intro ext) (simp add: accepted_def delivery_keys_def split: channel_config.split)
  then show ?thesis using k by (simp add: justified_def delivery_keys_def)
qed

lemma keeps_success_settle:
  assumes d: "one_of s0 d" and ok: "outcome = Accepted \<Longrightarrow> justified env svc w s0 d"
  shows "keeps (successes_justified env svc w s0) (settle env now d c outcome)"
proof -
  have one: "one_of s0 d'" if "delivery_step d d'" for d'
    using d delivery_keys_step [OF that] by (simp add: one_of_def)
  note k = keeps_slift_bind keeps_sbind keeps_if keeps_combinators successes.keeps_notif_wrappers keeps_success_update keeps_success_finish
  show ?thesis
  proof (cases outcome)
    case Accepted
    have "one_of s0 d' \<and> justified env svc w s0 d'" if "record_success now d = Inr d'" for d'
      using one delivery_step.success [OF that] delivery_keys_step justified_keys ok [OF Accepted] by blast
    then show ?thesis unfolding settle_def invalid_def using Accepted by (auto intro!: k)
  next
    case (TransientFailure e)
    have "one_of s0 d' \<and> dl_status d' \<noteq> TerminalSuccess" if "record_transient_failure now e d = Inr d'" for d'
      using one [OF delivery_step.transient [OF that]] that
      by (auto simp: record_transient_failure_def Let_def split: if_splits)
    then show ?thesis unfolding settle_def invalid_def using TransientFailure by (auto intro!: k)
  next
    case (PermanentFailure e)
    have "one_of s0 d' \<and> dl_status d' \<noteq> TerminalSuccess" if "record_permanent_failure now e d = Inr d'" for d'
      using one [OF delivery_step.permanent [OF that]] that by (auto simp: record_permanent_failure_def split: if_splits)
    then show ?thesis unfolding settle_def invalid_def using PermanentFailure by (auto intro!: k)
  qed
qed

lemma keeps_success_attempt: "keeps (successes_justified env svc w s0) (attempt_delivery env svc w now d e x c)"
  unfolding attempt_delivery_def
  by (auto intro!: keeps_intros successes.keeps_notif_wrappers split: channel_config.splits)

lemma finds_found:
  "notif_db (events_find env (ns_lib svc) i) s = (Inr (Some e), t) \<Longrightarrow> found_event svc s i e"
  "notif_db (subscriptions_find env (ns_lib svc) i) s = (Inr (Some x), t) \<Longrightarrow> found_subscription svc s i x"
  "notif_db (channels_find env (ns_lib svc) (ns_json svc) i) s = (Inr (Some c), t) \<Longrightarrow> found_channel svc s i c"
  by (auto simp: notif_db_def events_find_def subscriptions_find_def channels_find_def st_invert found_event_def
    found_subscription_def found_channel_def transpose_opt_def map_err_def split: option.splits sum.splits)

lemma keeps_success_dispatch:
  assumes d: "one_of s0 d"
  shows "keeps (successes_justified env svc w s0) (dispatch_delivery env svc w now d)"
proof -
  let ?J = "successes_justified env svc w s0"
  have missing: "keeps ?J (fail_missing env now d m)" for m
    unfolding fail_missing_def invalid_def
  proof (rule keeps_slift_bind)
    fix d' assume "map_err NotifInvalid (record_permanent_failure now m d) = Inr d'"
    then have r: "record_permanent_failure now m d = Inr d'" by simp
    then have "one_of s0 d'" "dl_status d' \<noteq> TerminalSuccess"
      using d delivery_keys_step [OF delivery_step.permanent [OF r]]
      by (auto simp: one_of_def record_permanent_failure_def split: if_splits)
    then show "keeps ?J (finish_failure env now d')" by (rule keeps_success_finish)
  qed
  have J: "found_event svc s i e \<Longrightarrow> found_event svc s0 i e" "found_subscription svc s i x \<Longrightarrow> found_subscription svc s0 i x"
      "found_channel svc s i c \<Longrightarrow> found_channel svc s0 i c" if "?J s" for s i e x c
    using that found_settings [of s s0] by (simp_all add: successes_justified_def)
  have last: "keeps ?J (sbind (attempt_delivery env svc w now d e x c) (\<lambda>outcome. settle env now d c outcome))"
    if "found_event svc s0 (dl_event_id d) e" "found_subscription svc s0 (dl_subscription_id d) x"
      "found_channel svc s0 (dl_channel_id d) c" for e x c
  proof (rule keeps_sbind_result [OF keeps_success_attempt], rule keepsD [OF keeps_success_settle [OF d]])
    fix s outcome t assume "attempt_delivery env svc w now d e x c s = (Inr outcome, t)" "outcome = Accepted"
    then have "attempt_delivery env svc w now d e x c s = (Inr Accepted, t)" by simp
    note ok = attempt_accepted [OF this]
    show "justified env svc w s0 d" unfolding justified_def by (intro exI conjI) (fact that ok)+
  qed
  show ?thesis
    unfolding dispatch_delivery_def
    by (rule keeps_found [where R = "found_event svc s0 (dl_event_id d)"],
        (rule successes.keeps_notif_wrappers successes.keeps_notif_reads)+, erule J(1), erule finds_found(1), rule missing,
        rule keeps_found [where R = "found_subscription svc s0 (dl_subscription_id d)"],
        (rule successes.keeps_notif_wrappers successes.keeps_notif_reads)+, erule J(2), erule finds_found(2), rule missing,
        rule keeps_found [where R = "found_channel svc s0 (dl_channel_id d)"],
        (rule successes.keeps_notif_wrappers successes.keeps_notif_reads)+, erule J(3), erule finds_found(3), rule missing,
        rule last)
qed

lemma successes_lease:
  assumes "lease_due env now limit period s0 = (r, t)" and "distinct (map dlr_id (db_deliveries s0))"
  shows "successes_justified env svc w s0 t" and "r = Inr ds \<Longrightarrow> d \<in> set ds \<Longrightarrow> one_of s0 d"
proof -
  let ?J = "successes_justified env svc w s0"
  have rows: "keeps ?J (lease_rows env now period ids)" for ids
  proof (induction ids)
    case (Cons i ids)
    show ?case
      unfolding lease_rows.simps update_where_def
      by (intro keeps_intros successes.keeps_count successes_rows Cons.IH) (auto simp: row_keys_def)
  qed (simp add: keeps_intros)
  have fetch: "keeps ?J (fetch_deliveries env ids)" for ids
    by (induction ids) (auto intro!: keeps_intros successes.tickless_P)
  have recover: "?J (u\<lparr>db_deliveries := map (\<lambda>r. if lease_expired now r
      then r\<lparr>dlr_status := ''pending'', dlr_lease_until := None\<rparr> else r) (db_deliveries u)\<rparr>)" if "?J u" for u
    using that by (rule successes_rows) (simp_all add: row_keys_def split: if_splits)
  have "keeps ?J (lease_due env now limit period)"
    unfolding lease_due_def update_where_def
    by (intro keeps_sbind fetch successes.keeps_transaction successes.keeps_write successes.keeps_read rows recover)
  from keepsD [OF this, of s0] show J: "?J t" by (simp add: assms(1) successes_justified_def [of _ _ _ s0 s0])
  have from_row: "delivery_keys d = row_keys row" if "row_delivery row = Inr d" for row d
    using that by (auto simp: row_delivery_def delivery_restore_def delivery_keys_def row_keys_def split: if_splits)
  have got: "delivery_keys ` set ds \<subseteq> row_keys ` set (db_deliveries u) \<and> db_deliveries u' = db_deliveries u"
    if "fetch_deliveries env ids u = (Inr ds, u')" for ids u u' ds
    using that
  proof (induction ids arbitrary: u ds)
    case (Cons i ids)
    then obtain row d ds' where "find (\<lambda>r. dlr_id r = i) (db_deliveries u) = Some row" "row_delivery row = Inr d"
      and rest: "fetch_deliveries env ids (tick u) = (Inr ds', u')" "ds = d # ds'"
      by (auto simp: st_invert ok_or_Inr)
    then have "delivery_keys d \<in> row_keys ` set (db_deliveries u)" using from_row find_SomeD by (metis imageI)
    then show ?case using Cons.IH [OF rest(1)] rest(2) by simp
  qed simp
  show "one_of s0 d" if r: "r = Inr ds" and d: "d \<in> set ds"
  proof -
    obtain ids u where "fetch_deliveries env ids u = (Inr ds, t)"
      using assms(1) unfolding r lease_due_def by (auto simp: sbind_Inr)
    then have "delivery_keys d \<in> row_keys ` set (db_deliveries t)" using got d by (metis image_subset_iff)
    moreover have "row_keys ` set (db_deliveries t) = row_keys ` set (db_deliveries s0)"
      using J by (metis list.set_map successes_justified_def)
    ultimately show ?thesis using assms(2) by (simp add: one_of_def)
  qed
qed

lemma successes_dispatch:
  assumes "distinct (map dlr_id (db_deliveries s))"
  shows "successes_justified env svc w s (snd (dispatch_once env svc w now limit s))"
proof -
  let ?J = "successes_justified env svc w s"
  have all: "keeps ?J (dispatch_all env svc w now ds)" if "\<And>d. d \<in> set ds \<Longrightarrow> one_of s d" for ds
    using that by (induction ds) (auto intro!: keeps_intros keeps_success_dispatch)
  obtain r t where l: "lease_due env now limit (seconds 30) s = (r, t)" by fastforce
  note lease = successes_lease [OF l assms]
  show ?thesis
  proof (cases r)
    case (Inl e)
    then show ?thesis using l lease(1) by (simp add: dispatch_once_def notif_db_def smap_err_def sbind_def)
  next
    case (Inr ds)
    then have "?J (snd (dispatch_all env svc w now ds t))" by (intro keepsD [OF all] lease)
    then show ?thesis
      using l Inr by (auto simp: dispatch_once_def notif_db_def smap_err_def sbind_def split: prod.splits sum.splits)
  qed
qed

section \<open>A delivery that cannot be tried\<close>

text \<open>With no fault and everything in place, a delivery is tried and its outcome stored.\<close>

lemma dispatch_delivery_tries:
  assumes "env_fault env = (\<lambda>_. None)" and "found_event svc s (dl_event_id d) e"
    and "found_subscription svc s (dl_subscription_id d) x" and "found_channel svc s (dl_channel_id d) c"
  shows "dispatch_delivery env svc w now d s =
    sbind (attempt_delivery env svc w now d e x c) (\<lambda>outcome. settle env now d c outcome) (tick (tick (tick s)))"
proof -
  obtain er xr cr where rows: "find (\<lambda>r. evr_id r = dl_event_id d) (db_events s) = Some er" "row_event (ns_lib svc) er = Inr e"
      "find (\<lambda>r. sbr_id r = dl_subscription_id d) (db_subscriptions s) = Some xr" "row_subscription (ns_lib svc) xr = Inr x"
      "find (\<lambda>r. chr_id r = dl_channel_id d) (db_channels s) = Some cr" "row_channel (ns_lib svc) (ns_json svc) cr = Inr c"
    using assms(2-4) by (auto simp: found_event_def found_subscription_def found_channel_def)
  have "events_find env (ns_lib svc) (dl_event_id d) s = (Inr (Some e), tick s)"
    by (simp add: events_find_def st_simps sql_eval [OF assms(1)] rows transpose_opt_def)
  moreover have "subscriptions_find env (ns_lib svc) (dl_subscription_id d) (tick s) = (Inr (Some x), tick (tick s))"
    by (simp add: subscriptions_find_def st_simps sql_eval [OF assms(1)] rows transpose_opt_def)
  moreover have "channels_find env (ns_lib svc) (ns_json svc) (dl_channel_id d) (tick (tick s)) = (Inr (Some c), tick (tick (tick s)))"
    by (simp add: channels_find_def st_simps sql_eval [OF assms(1)] rows transpose_opt_def)
  ultimately show ?thesis by (simp add: dispatch_delivery_def notif_db_def st_simps)
qed

text \<open>
  An error on the way to the transport, such as a credential that no longer decrypts, ends the whole
  batch and leaves every record of it as the lease left it.
\<close>

lemma stuck_batch:
  assumes "env_fault env = (\<lambda>_. None)"
    and "found_event svc s (dl_event_id d) e" and "found_subscription svc s (dl_subscription_id d) x"
    and "found_channel svc s (dl_channel_id d) c" and "channel_is_enabled c" and "sub_enabled x"
    and "ensure_destination svc w (dl_id d) c (sub_destination x) = Inr ()"
    and "length (dropWhile (\<lambda>t. t \<le> now - minutes 1) (db_channel_calls s (ch_id c))) < ns_calls_per_minute svc"
    and "decrypt_from_storage (ns_crypto svc) (ns_master_key svc) (channel_credential c) = Inl err"
  shows "\<exists>t. dispatch_all env svc w now (d # ds) s = (Inl (NotifInternal (secret_error_display err)), t) \<and>
    db_deliveries t = db_deliveries s"
proof -
  let ?s = "tick (tick (tick s))"
  have "\<exists>u. take_rate_slot svc (ch_id c) now ?s = (Inr True, u) \<and> db_deliveries u = db_deliveries s"
    using assms(8) by (simp add: take_rate_slot_def Let_def)
  then have "\<exists>u. attempt_delivery env svc w now d e x c ?s = (Inl (NotifInternal (secret_error_display err)), u) \<and>
      db_deliveries u = db_deliveries s"
    using assms(5-7,9) by (cases "ch_config c") (auto simp: attempt_delivery_def st_simps channel_credential_def secret_result_def)
  then show ?thesis by (auto simp: dispatch_delivery_tries [OF assms(1-4)] st_simps)
qed

end
