(* ===== verification/Samples.thy ===== *)
theory Samples
  imports Panel Token_Rate Cron_Presets Notification_Life
begin

text \<open>
  A concrete instance of every parameter of the model, on which the theorems are
  evaluated: a transparent cipher suite that meets the library contracts, a store
  without faults and a service with the default settings.
\<close>

section \<open>A transparent cipher suite\<close>

text \<open>A byte is written as two letters from \<open>`\<close> to \<open>o\<close>, text that has no separator in it.\<close>

fun letters_of :: "byte list \<Rightarrow> string" where
  "letters_of [] = []"
| "letters_of (b # bs) =
     Char (bit b 0) (bit b 1) (bit b 2) (bit b 3) False True True False #
     Char (bit b 4) (bit b 5) (bit b 6) (bit b 7) False True True False # letters_of bs"

fun of_letters :: "string \<Rightarrow> byte list option" where
  "of_letters [] = Some []"
| "of_letters [c] = None"
| "of_letters (Char b0 b1 b2 b3 _ _ _ _ # Char b4 b5 b6 b7 _ _ _ _ # cs) =
     map_option (Cons (horner_sum of_bool 2 [b0, b1, b2, b3, b4, b5, b6, b7])) (of_letters cs)"

lemma byte_of_bits:
  "horner_sum of_bool 2 [bit b 0, bit b 1, bit b 2, bit b 3, bit b 4, bit b 5, bit b 6, bit b 7] = (b :: byte)"
proof -
  have "horner_sum of_bool 2 (map (bit b) [0..<8]) = take_bit 8 b" by (rule horner_sum_bit_eq_take_bit)
  moreover have "take_bit 8 b = b" by (rule bit_eqI) (auto simp: bit_simps  dest: bit_imp_le_length)
  moreover have "[0..<8] = [0,1,2,3,4,5,6,7]" by code_simp
  ultimately show ?thesis by simp
qed

lemma of_letters_of [simp]: "of_letters (letters_of bs) = Some bs"
  by (induction bs) (simp_all only: letters_of.simps of_letters.simps byte_of_bits option.map)

lemma set_letters_of: "c \<in> set (letters_of bs) \<Longrightarrow> 96 \<le> (of_char c :: nat)"
  by (induction bs) auto

definition sample_crypto :: crypto where
  "sample_crypto =
     \<lparr>argon2_hash = (\<lambda>salt p. Inr (''argon2:'' @ p)),
      argon2_default_hash = (\<lambda>salt p. ''argon2:'' @ p),
      phc_error = (\<lambda>h. if take 7 h = ''argon2:'' then None else Some ''phc''),
      argon2_verify = (\<lambda>h p. h = ''argon2:'' @ p),
      bcrypt_hash = (\<lambda>salt p. Some (''bcrypt:'' @ p)),
      bcrypt_verify = (\<lambda>p h. Some (h = ''bcrypt:'' @ p)),
      totp_generate = (\<lambda>key t. ''12345'' @ nat_str (t mod 10)),
      aead_encrypt = (\<lambda>key nonce pt. Inr pt),
      aead_decrypt = (\<lambda>key nonce ct. Inr ct),
      utf8_error = (\<lambda>_. ''utf8''),
      hex_enc = letters_of, hex_dec = of_letters, hex_error = (\<lambda>_. ''hex''),
      b64_enc = letters_of, b64_dec = of_letters,
      b64_std_dec = (\<lambda>s. case of_letters s of None \<Rightarrow> Inl ''b64'' | Some bs \<Rightarrow> Inr bs),
      sha256_hex = (\<lambda>s. ''sha:'' @ s),
      hmac_sha256 = (\<lambda>k m. take 32 (k @ m @ replicate 32 0)),
      parse_ip = (\<lambda>_. None)\<rparr>"

lemma sample_contracts:
  "hex_contract sample_crypto" "b64_contract sample_crypto" "aead_contract sample_crypto"
  "hmac_contract sample_crypto" "argon2_contract sample_crypto"
  by (auto simp: hex_contract_def b64_contract_def aead_contract_def hmac_contract_def
      argon2_contract_def sample_crypto_def dest: set_letters_of)

section \<open>A serialisation of the cookie payload\<close>

text \<open>Numbers are written in unary and strings with their length in front.\<close>

definition put_nat :: "nat \<Rightarrow> byte list" where
  "put_nat n = replicate n 1 @ [0]"

fun take_nat :: "byte list \<Rightarrow> (nat \<times> byte list) option" where
  "take_nat [] = None"
| "take_nat (b # bs) =
     (if b = 0 then Some (0, bs) else map_option (\<lambda>(n, r). (Suc n, r)) (take_nat bs))"

definition put_str :: "string \<Rightarrow> byte list" where
  "put_str s = put_nat (length s) @ as_bytes s"

definition byte_char :: "byte \<Rightarrow> char" where
  "byte_char b = Char (bit b 0) (bit b 1) (bit b 2) (bit b 3) (bit b 4) (bit b 5) (bit b 6) (bit b 7)"

definition take_str :: "byte list \<Rightarrow> (string \<times> byte list) option" where
  "take_str bs = map_option (\<lambda>(n, r). (map byte_char (take n r), drop n r)) (take_nat bs)"

lemma take_put_nat [simp]: "take_nat (put_nat n @ r) = Some (n, r)"
  unfolding put_nat_def by (induction n) simp_all

lemma char_of_as_byte: "byte_char (word_of_nat (of_char c)) = c"
proof -
  have "byte_char b = char_of (unat b)" for b by (simp add: byte_char_def char_of_def bit_unsigned_iff bit_0 flip: bit_0)
  then show ?thesis by (simp add: unat_as_byte)
qed

lemma take_put_str [simp]: "take_str (put_str s @ r) = Some (s, r)"
  by (simp add: take_str_def put_str_def as_bytes_def comp_def char_of_as_byte)

definition sample_payload_json :: payload_json where
  "sample_payload_json =
     \<lparr>payload_to_vec = (\<lambda>p. rd_v p # put_nat (rd_factor_id p) @ put_nat (rd_user_id p) @
        put_str (rd_ua_hash p) @ put_str (rd_ip_prefix p) @
        put_nat (nat (rd_exp p)) @ put_nat (nat (- rd_exp p)) @ put_nat (rd_nonce p) @ []),
      payload_from_slice = (\<lambda>bs. case bs of [] \<Rightarrow> None | v # r0 \<Rightarrow>
        Option.bind (take_nat r0) (\<lambda>(f, r1). Option.bind (take_nat r1) (\<lambda>(u, r2).
        Option.bind (take_str r2) (\<lambda>(ua, r3). Option.bind (take_str r3) (\<lambda>(ip, r4).
        Option.bind (take_nat r4) (\<lambda>(pos, r5). Option.bind (take_nat r5) (\<lambda>(neg, r6).
        map_option (\<lambda>(n, _). \<lparr>rd_v = v, rd_factor_id = f, rd_user_id = u, rd_ua_hash = ua,
          rd_ip_prefix = ip, rd_exp = int pos - int neg, rd_nonce = n\<rparr>) (take_nat r6))))))))\<rparr>"

lemma sample_payload_contract: "payload_contract sample_payload_json"
proof -
  have "int (nat x) - int (nat (- x)) = x" for x by simp
  then show ?thesis
    using take_put_nat [of _ "[]"] by (simp add: payload_contract_def sample_payload_json_def)
qed

section \<open>A store and a service\<close>

definition sample_env :: env where
  "sample_env = \<lparr>env_fault = (\<lambda>_. None), env_constraint = (\<lambda>_. ''UNIQUE constraint failed''),
     env_uuid_str = nat_str, env_sum_overflow = ''integer overflow''\<rparr>"

definition sample_tf :: tf_service where
  "sample_tf = tf_default_settings
     \<lparr>tf_master_key = replicate 32 7, tf_issuer_label = [], tf_challenge_lifetime = 0,
      tf_recovery_code_count = 0, tf_remember_device_lifetime = 0, tf_crypto = sample_crypto,
      tf_payload_json = sample_payload_json,
      tf_begin_register = (\<lambda>u n. Inr (JNull, ''state'')),
      tf_finish_register = (\<lambda>r st. Inl WebAuthnUnavailable),
      tf_begin_assert = (\<lambda>ks. Inr (JNull, ''state'')),
      tf_finish_assert = (\<lambda>r st. Inr \<lparr>va_credential_id = [9], va_sign_count = 5\<rparr>),
      tf_totp_url = (\<lambda>b i a. i @ '':'' @ a)\<rparr>"

definition alice_row :: user_row where
  "alice_row = \<lparr>ur_id = 1, ur_username = ''alice'', ur_email = ''alice@example.com'',
     ur_password_hash = ''argon2:correct horse'', ur_role = ''owner'', ur_parent_account_id = None,
     ur_hosting_plan_id = None, ur_created_at = 0, ur_disabled_at = None, ur_last_login_at = None\<rparr>"

definition bob_row :: user_row where
  "bob_row = alice_row\<lparr>ur_id := 2, ur_username := ''bob'', ur_email := ''bob@example.com'',
     ur_role := ''user''\<rparr>"

definition sample_db :: db where
  "sample_db = db_empty\<lparr>db_users := [alice_row, bob_row]\<rparr>"

definition sample_draws :: login_draws where
  "sample_draws = \<lparr>ld_token_bytes = [1, 2], ld_session_id = 10, ld_session_salt = ''s'',
     ld_challenge_id = 20, ld_challenge_bytes = [3, 4], ld_challenge_salt = ''c''\<rparr>"

lemma sample_db_wf: "accounts_wf sample_db"
  by code_simp

section \<open>Serialisations for plans and usage\<close>

fun take_times :: "nat \<Rightarrow> (byte list \<Rightarrow> ('a \<times> byte list) option) \<Rightarrow> byte list \<Rightarrow> ('a list \<times> byte list) option" where
  "take_times 0 get bs = Some ([], bs)"
| "take_times (Suc n) get bs =
     Option.bind (get bs) (\<lambda>(x, r). map_option (\<lambda>(xs, q). (x # xs, q)) (take_times n get r))"

definition put_list :: "('a \<Rightarrow> byte list) \<Rightarrow> 'a list \<Rightarrow> byte list" where
  "put_list put xs = put_nat (length xs) @ concat (map put xs)"

definition take_list :: "(byte list \<Rightarrow> ('a \<times> byte list) option) \<Rightarrow> byte list \<Rightarrow> ('a list \<times> byte list) option" where
  "take_list get bs = Option.bind (take_nat bs) (\<lambda>(n, r). take_times n get r)"

lemma take_put_list:
  assumes "\<And>x r. get (put x @ r) = Some (x, r)"
  shows "take_list get (put_list put xs @ r) = Some (xs, r)"
proof -
  have "take_times (length xs) get (concat (map put xs) @ r) = Some (xs, r)"
    by (induction xs) (simp_all add: assms)
  then show ?thesis by (simp add: take_list_def put_list_def)
qed

definition as_json :: "('a \<Rightarrow> byte list) \<Rightarrow> 'a \<Rightarrow> string" where
  "as_json put x = letters_of (put x)"

definition of_json :: "(byte list \<Rightarrow> ('a \<times> byte list) option) \<Rightarrow> string \<Rightarrow> string + 'a" where
  "of_json get s = ok_or ''json'' (map_option fst (Option.bind (of_letters s) get))"

lemma json_inverse: "(\<And>x r. get (put x @ r) = Some (x, r)) \<Longrightarrow> of_json get (as_json put x) = Inr x"
  using of_letters_of [of "put x"] by (simp add: of_json_def as_json_def) (metis append_Nil2 fst_conv option.simps(9))

definition put_word :: "'n::len word \<Rightarrow> byte list" where
  "put_word w = put_nat (unat w)"

definition take_word :: "byte list \<Rightarrow> ('n::len word \<times> byte list) option" where
  "take_word bs = map_option (\<lambda>(n, r). (word_of_nat n, r)) (take_nat bs)"

lemma take_put_word [simp]: "take_word (put_word w @ r) = Some (w, r)"
  by (simp add: take_word_def put_word_def)

definition put_price :: "plan_price \<Rightarrow> byte list" where
  "put_price p = put_word (pp_amount_minor p) @ put_str (pp_currency p) @ put_str (pp_period p)"

definition take_price :: "byte list \<Rightarrow> (plan_price \<times> byte list) option" where
  "take_price bs = Option.bind (take_word bs) (\<lambda>(a, r1). Option.bind (take_str r1) (\<lambda>(c, r2).
     map_option (\<lambda>(p, r3). (\<lparr>pp_amount_minor = a, pp_currency = c, pp_period = p\<rparr>, r3)) (take_str r2)))"

lemma take_put_price [simp]: "take_price (put_price p @ r) = Some (p, r)"
  by (simp add: take_price_def put_price_def)

definition all_features :: "plan_feature list" where
  "all_features = [Smtp, Cron, Sftp, Docker, ApiTokens, Mail, Databases, Backups, WebApps, MalwareScanner]"

definition state_code :: "plan_feature_state option \<Rightarrow> nat" where
  "state_code x = (case x of None \<Rightarrow> 0 | Some FeatDisabled \<Rightarrow> 1 | Some FeatOptional \<Rightarrow> 2 | Some FeatRequired \<Rightarrow> 3)"

definition code_state :: "nat \<Rightarrow> plan_feature_state option" where
  "code_state n = (if n = 1 then Some FeatDisabled else if n = 2 then Some FeatOptional
     else if n = 3 then Some FeatRequired else None)"

lemma code_state_code [simp]: "code_state (state_code x) = x"
  by (auto simp: code_state_def state_code_def split: option.split plan_feature_state.split)

definition put_features :: "(plan_feature \<Rightarrow> plan_feature_state option) \<Rightarrow> byte list" where
  "put_features f = put_list put_nat (map (\<lambda>x. state_code (f x)) all_features)"

definition take_features :: "byte list \<Rightarrow> ((plan_feature \<Rightarrow> plan_feature_state option) \<times> byte list) option" where
  "take_features bs = map_option (\<lambda>(ns, r).
     (\<lambda>f. Option.bind (map_of (zip all_features ns) f) code_state, r)) (take_list take_nat bs)"

lemma take_put_features [simp]: "take_features (put_features f @ r) = Some (f, r)"
proof -
  have "Option.bind (map_of (zip all_features (map (\<lambda>x. state_code (f x)) all_features)) x) code_state = f x" for x
    by (cases x) (simp_all add: all_features_def)
  then show ?thesis by (simp add: take_features_def put_features_def take_put_list fun_eq_iff)
qed

definition put_caps :: "plan_quotas \<Rightarrow> byte list" where
  "put_caps q = put_word (disk_bytes q) @ put_word (bandwidth_bytes_per_month q) @
     put_list put_word [max_sites q, max_databases q, max_mail_domains q, max_mailboxes q, max_cron_jobs q,
       max_api_tokens q, max_fleet_agents q]"

definition take_caps :: "byte list \<Rightarrow> (plan_quotas \<times> byte list) option" where
  "take_caps bs = Option.bind (take_word bs) (\<lambda>(d, r1). Option.bind (take_word r1) (\<lambda>(b, r2).
     Option.bind (take_list take_word r2) (\<lambda>(ws, r3).
       (case ws of [w1, w2, w3, w4, w5, w6, w7] \<Rightarrow>
          Some (\<lparr>disk_bytes = d, bandwidth_bytes_per_month = b, max_sites = w1, max_databases = w2,
            max_mail_domains = w3, max_mailboxes = w4, max_cron_jobs = w5, max_api_tokens = w6,
            max_fleet_agents = w7\<rparr>, r3)
        | _ \<Rightarrow> None))))"

lemma take_put_caps [simp]: "take_caps (put_caps q @ r) = Some (q, r)"
  by (simp add: take_caps_def put_caps_def take_put_list)

definition sample_plan_json :: plan_json where
  "sample_plan_json =
     \<lparr>prices_to_json = (\<lambda>x. Some (as_json (put_list put_price) x)), prices_from_json = of_json (take_list take_price),
      features_to_json = (\<lambda>x. Some (as_json put_features x)), features_from_json = of_json take_features,
      uuids_to_json = (\<lambda>x. Some (as_json (put_list put_nat) x)), uuids_from_json = of_json (take_list take_nat),
      strings_to_json = (\<lambda>x. Some (as_json (put_list put_str) x)), strings_from_json = of_json (take_list take_str),
      caps_to_json = (\<lambda>x. Inr (as_json put_caps x)), caps_from_json = of_json take_caps\<rparr>"

definition sample_usage_json :: usage_json where
  "sample_usage_json =
     \<lparr>names_to_json = (\<lambda>x. Some (as_json (put_list put_str) x)), names_from_json = of_json (take_list take_str)\<rparr>"

lemma sample_json_contracts: "json_roundtrips sample_plan_json" "usage_json_contract sample_usage_json"
  by (simp_all add: json_roundtrips_def usage_json_contract_def sample_plan_json_def sample_usage_json_def
      json_inverse take_put_list)

section \<open>Serialisations for tokens and cron jobs\<close>

definition sample_text_json :: text_json where
  "sample_text_json =
     \<lparr>texts_to_json = (\<lambda>x. Inr (as_json (put_list put_str) x)), texts_from_json = of_json (take_list take_str)\<rparr>"

fun put_ip :: "ip_addr \<Rightarrow> byte list" where
  "put_ip (V4 w) = 4 # put_word w"
| "put_ip (V6 w) = 6 # put_word w"

fun take_ip :: "byte list \<Rightarrow> (ip_addr \<times> byte list) option" where
  "take_ip [] = None"
| "take_ip (b # bs) =
     (if b = 4 then map_option (\<lambda>(w, r). (V4 w, r)) (take_word bs)
      else map_option (\<lambda>(w, r). (V6 w, r)) (take_word bs))"

lemma take_put_ip: "take_ip (put_ip a @ r) = Some (a, r)"
  by (cases a) simp_all

definition sample_token_lib :: token_lib where
  "sample_token_lib =
     \<lparr>lib_sha256 = (\<lambda>m. take 32 (m @ replicate 32 0)), lib_hmac = (\<lambda>k m. take 32 (m @ k @ replicate 32 0)),
      lib_parse_ip = (\<lambda>s. case of_json take_ip s of Inl _ \<Rightarrow> None | Inr a \<Rightarrow> Some a),
      lib_show_ip = as_json put_ip\<rparr>"

definition sample_tokens :: token_service where
  "sample_tokens =
     \<lparr>tks_lib = sample_token_lib, tks_json = sample_text_json, tks_pepper = [7], tks_burst = 2,
      tks_per_minute = 60, tks_round = (\<lambda>x. x)\<rparr>"

lemma sample_token_contracts:
  "ip_contract sample_token_lib" "digest_contract sample_token_lib" "text_json_contract sample_text_json"
  "f64_contract (\<lambda>x. x)"
proof -
  have "CHR ''/'' \<notin> set (as_json put_ip a)" for a using set_letters_of [of "CHR ''/''" "put_ip a"] by (auto simp: as_json_def)
  then show "ip_contract sample_token_lib"
    by (simp add: ip_contract_def sample_token_lib_def json_inverse take_put_ip)
  show "digest_contract sample_token_lib" by (auto simp: digest_contract_def sample_token_lib_def min_def)
qed (simp_all add: text_json_contract_def sample_text_json_def json_inverse
       take_put_list f64_contract_def mono_def)

text \<open>Integers are written in binary, lowest digit first, with the byte 2 at the end.\<close>

function put_bin :: "int \<Rightarrow> byte list" where
  "put_bin n = (if n \<le> 0 then [2] else (if even n then 0 else 1) # put_bin (n div 2))"
  by auto
termination by (relation "measure nat") auto

declare put_bin.simps [simp del]

fun take_bin :: "byte list \<Rightarrow> (int \<times> byte list) option" where
  "take_bin [] = None"
| "take_bin (b # bs) =
     (if b = 2 then Some (0, bs) else map_option (\<lambda>(n, r). ((if b = 0 then 0 else 1) + 2 * n, r)) (take_bin bs))"

lemma take_put_bin: "0 \<le> n \<Longrightarrow> take_bin (put_bin n @ r) = Some (n, r)"
proof (induction n rule: put_bin.induct)
  case (1 n)
  show ?case
  proof (cases "n = 0")
    case True
    then show ?thesis by (simp add: put_bin.simps [of 0])
  next
    case False
    then have "take_bin (put_bin (n div 2) @ r) = Some (n div 2, r)" using 1 by simp
    moreover have "odd n \<Longrightarrow> 1 + 2 * (n div 2) = n" by presburger
    ultimately show ?thesis using False 1(2) by (simp add: put_bin.simps [of n])
  qed
qed

definition put_int :: "int \<Rightarrow> byte list" where
  "put_int n = (if n < 0 then 1 else 0) # put_bin \<bar>n\<bar>"

definition take_int :: "byte list \<Rightarrow> (int \<times> byte list) option" where
  "take_int bs =
     (case bs of [] \<Rightarrow> None | b # r \<Rightarrow> map_option (\<lambda>(n, q). (if b = 0 then n else - n, q)) (take_bin r))"

lemma take_put_int [simp]: "take_int (put_int n @ r) = Some (n, r)"
  by (simp add: take_int_def put_int_def take_put_bin)

definition put_opt :: "('a \<Rightarrow> byte list) \<Rightarrow> 'a option \<Rightarrow> byte list" where
  "put_opt put x = (case x of None \<Rightarrow> [0] | Some y \<Rightarrow> 1 # put y)"

definition take_opt :: "(byte list \<Rightarrow> ('a \<times> byte list) option) \<Rightarrow> byte list \<Rightarrow> ('a option \<times> byte list) option" where
  "take_opt get bs =
     (case bs of [] \<Rightarrow> None | b # r \<Rightarrow> if b = 0 then Some (None, r) else map_option (\<lambda>(x, q). (Some x, q)) (get r))"

lemma take_put_opt: "(\<And>x r. get (put x @ r) = Some (x, r)) \<Longrightarrow> take_opt get (put_opt put x @ r) = Some (x, r)"
  by (cases x) (simp_all add: take_opt_def put_opt_def)

definition put_byte :: "byte \<Rightarrow> byte list" where
  "put_byte b = [b]"

definition take_byte :: "byte list \<Rightarrow> (byte \<times> byte list) option" where
  "take_byte bs = (case bs of [] \<Rightarrow> None | b # r \<Rightarrow> Some (b, r))"

lemma take_put_byte [simp]: "take_byte (put_byte b @ r) = Some (b, r)"
  by (simp add: put_byte_def take_byte_def)

fun put_kind :: "job_kind \<Rightarrow> byte list" where
  "put_kind (Command e args d) = 0 # put_str e @ put_list put_str args @ put_str (wd_path d)"
| "put_kind (Http url m) = 1 # put_str url @ put_str m"

definition take_kind :: "byte list \<Rightarrow> (job_kind \<times> byte list) option" where
  "take_kind bs = (case bs of [] \<Rightarrow> None | b # r0 \<Rightarrow>
     if b = 0
     then Option.bind (take_str r0) (\<lambda>(e, r1). Option.bind (take_list take_str r1) (\<lambda>(args, r2).
       map_option (\<lambda>(d, r3). (Command e args (OwnedWorkingDirectory d), r3)) (take_str r2)))
     else Option.bind (take_str r0) (\<lambda>(url, r1). map_option (\<lambda>(m, r2). (Http url m, r2)) (take_str r1)))"

lemma take_put_kind [simp]: "take_kind (put_kind k @ r) = Some (k, r)"
  by (cases k) (simp_all add: take_kind_def take_put_list)

definition put_job :: "cron_job \<Rightarrow> byte list" where
  "put_job j = put_nat (cj_id j) @ put_nat (cj_owner_id j) @ put_str (cj_name j) @ put_str (cs_expression (cj_schedule j)) @
     put_str (cs_timezone (cj_schedule j)) @ put_kind (cj_kind j) @ put_word (cj_timeout_secs j) @
     put_nat (if cj_enabled j then 1 else 0) @ put_int (cj_next_run_at j) @ put_int (cj_created_at j) @ put_int (cj_updated_at j)"

definition take_job :: "byte list \<Rightarrow> (cron_job \<times> byte list) option" where
  "take_job bs =
     Option.bind (take_nat bs) (\<lambda>(i, r1). Option.bind (take_nat r1) (\<lambda>(ow, r2). Option.bind (take_str r2) (\<lambda>(n, r3).
     Option.bind (take_str r3) (\<lambda>(e, r4). Option.bind (take_str r4) (\<lambda>(tz, r5). Option.bind (take_kind r5) (\<lambda>(k, r6).
     Option.bind (take_word r6) (\<lambda>(tm, r7). Option.bind (take_nat r7) (\<lambda>(en, r8). Option.bind (take_int r8) (\<lambda>(nx, r9).
     Option.bind (take_int r9) (\<lambda>(cr, r10). map_option (\<lambda>(up, r11).
       (\<lparr>cj_id = i, cj_owner_id = ow, cj_name = n, cj_schedule = \<lparr>cs_expression = e, cs_timezone = tz\<rparr>, cj_kind = k,
         cj_timeout_secs = tm, cj_overlap_policy = Skip, cj_enabled = (en = 1), cj_next_run_at = nx, cj_created_at = cr,
         cj_updated_at = up\<rparr>, r11)) (take_int r10)))))))))))"

lemma take_put_job: "take_job (put_job j @ r) = Some (j, r)"
proof -
  have "cj_overlap_policy j = Skip" by (rule overlap_policy.exhaust)
  then show ?thesis by (simp add: take_job_def put_job_def)
qed

definition all_states :: "run_state list" where
  "all_states = [Leased, Running, Succeeded, Failed, TimedOut, Skipped, Interrupted]"

definition put_state :: "run_state \<Rightarrow> byte list" where
  "put_state st = put_nat (length (takeWhile (\<lambda>x. x \<noteq> st) all_states))"

definition take_state :: "byte list \<Rightarrow> (run_state \<times> byte list) option" where
  "take_state bs = map_option (\<lambda>(n, r). (all_states ! n, r)) (take_nat bs)"

lemma take_put_state [simp]: "take_state (put_state st @ r) = Some (st, r)"
  by (cases st) (simp_all add: take_state_def put_state_def all_states_def)

definition put_run :: "job_run \<Rightarrow> byte list" where
  "put_run x = put_nat (jr_id x) @ put_nat (jr_job_id x) @ put_state (jr_state x) @ put_int (jr_leased_at x) @
     put_int (jr_lease_until x) @ put_opt put_int (jr_started_at x) @ put_opt put_int (jr_finished_at x) @
     put_opt put_int (jr_exit_code x) @ put_list put_byte (jr_stdout x) @ put_list put_byte (jr_stderr x)"

definition take_run :: "byte list \<Rightarrow> (job_run \<times> byte list) option" where
  "take_run bs =
     Option.bind (take_nat bs) (\<lambda>(i, r1). Option.bind (take_nat r1) (\<lambda>(j, r2). Option.bind (take_state r2) (\<lambda>(st, r3).
     Option.bind (take_int r3) (\<lambda>(la, r4). Option.bind (take_int r4) (\<lambda>(lu, r5). Option.bind (take_opt take_int r5) (\<lambda>(sa, r6).
     Option.bind (take_opt take_int r6) (\<lambda>(fa, r7). Option.bind (take_opt take_int r7) (\<lambda>(ec, r8).
     Option.bind (take_list take_byte r8) (\<lambda>(out, r9). map_option (\<lambda>(err, r10).
       (\<lparr>jr_id = i, jr_job_id = j, jr_state = st, jr_leased_at = la, jr_lease_until = lu, jr_started_at = sa,
         jr_finished_at = fa, jr_exit_code = ec, jr_stdout = out, jr_stderr = err\<rparr>, r10)) (take_list take_byte r9))))))))))"

lemma take_put_run: "take_run (put_run x @ r) = Some (x, r)"
  by (simp add: take_run_def put_run_def take_put_opt take_put_list)

definition sample_cron_json :: cron_json where
  "sample_cron_json =
     \<lparr>cjs_job_to = (\<lambda>j. Inr (as_json put_job j)), cjs_job_from = of_json take_job,
      cjs_run_to = (\<lambda>r. Inr (as_json put_run r)), cjs_run_from = of_json take_run\<rparr>"

text \<open>A calendar in which every expression occurs once a minute.\<close>

definition sample_cron_lib :: cron_lib where
  "sample_cron_lib =
     \<lparr>cl_timezone = (\<lambda>tz. tz = ''UTC''), cl_schedule = (\<lambda>_. Inr ()),
      cl_next = (\<lambda>e tz after. Some (after + minutes 1)), cl_to_uppercase = (\<lambda>s. s)\<rparr>"

definition sample_cron :: cron_service where
  "sample_cron = \<lparr>crs_lib = sample_cron_lib, crs_json = sample_cron_json, crs_allowed_roots = [''/var/www'']\<rparr>"

lemma sample_cron_contracts:
  "cron_json_contract sample_cron_json" "cron_lib_contract sample_cron_lib"
  by (simp_all add: cron_json_contract_def cron_lib_contract_def sample_cron_json_def sample_cron_lib_def json_inverse
      take_put_job take_put_run minutes_def seconds_def)

section \<open>Notifications\<close>

text \<open>Every address is a mailbox, every URL the same host, and the empty object the only JSON text.\<close>

definition sample_notif_lib :: notif_lib where
  "sample_notif_lib =
     \<lparr>nl_url = (\<lambda>_. Some \<lparr>url_scheme = ''https'', url_host = Some ''hooks.example.com'', url_username = [],
        url_password = None, url_port_or_default = Some 443\<rparr>),
      nl_parse_ip = lib_parse_ip sample_token_lib, nl_hex = letters_of,
      nl_sha256 = (\<lambda>m. take 32 (m @ replicate 32 0)), nl_hmac = (\<lambda>k m. take 32 (m @ k @ replicate 32 0)),
      nl_json_str = (\<lambda>_. ''{}''), nl_json_parse = (\<lambda>s. if s = ''{}'' then Inr (JObject []) else Inl ''JSON''),
      nl_ts = (\<lambda>_. ''ts'')\<rparr>"

definition sample_notifications :: notif_service where
  "sample_notifications =
     \<lparr>ns_lib = sample_notif_lib, ns_json = sample_text_json, ns_crypto = sample_crypto, ns_master_key = replicate 32 7,
      ns_max_payload_bytes = 256, ns_calls_per_minute = 60\<rparr>"

lemma length_letters_of: "length (letters_of bs) = 2 * length bs"
  by (induction bs) simp_all

lemma sample_hash_text: "hash_text_contract (ns_lib sample_notifications)"
  by (auto simp: hash_text_contract_def sample_notifications_def sample_notif_lib_def length_letters_of)

section \<open>The panel\<close>

definition sample_panel :: panel where
  "sample_panel = \<lparr>pn_env = sample_env, pn_tf = sample_tf, pn_plan_json = sample_plan_json,
     pn_usage_json = sample_usage_json, pn_tokens = sample_tokens, pn_cron = sample_cron,
     pn_notifications = sample_notifications\<rparr>"

definition sample_caps :: plan_quotas where
  "sample_caps = plan_quotas_zero\<lparr>disk_bytes := 7, max_sites := 3\<rparr>"

lemma sample_panel_wf: "tenancy_wf sample_db" "has_owner 1 sample_db" "within_capacity sample_db"
  "panel_data sample_panel sample_db" "plans_wf sample_plan_json sample_db" "tokens_wf sample_tokens sample_db"
  "cron_wf sample_cron sample_db" "notif_wf sample_notifications sample_db"
proof -
  show "tenancy_wf sample_db" "has_owner 1 sample_db" by code_simp+
  show "within_capacity sample_db" by (simp add: within_capacity_def claimed_def claim_shares_def sample_db_def db_empty_def)
  show p: "plans_wf sample_plan_json sample_db"
    by (simp add: plans_wf_def catalogue_ok_def sample_db_def db_empty_def)
  show t: "tokens_wf sample_tokens sample_db"
    by (simp add: tokens_wf_def tokens_ok_def sample_tokens_def sample_token_contracts sample_db_def db_empty_def)
  show c: "cron_wf sample_cron sample_db"
    by (simp add: cron_wf_def cron_ok_def sample_cron_def sample_cron_contracts sample_db_def db_empty_def)
  show n: "notif_wf sample_notifications sample_db"
    by (simp add: notif_wf_def sample_hash_text deliveries_ok_def sample_db_def db_empty_def)
  show "panel_data sample_panel sample_db"
    using p t c n by (simp add: panel_data_def sample_panel_def sample_json_contracts policies_wf_def grants_ok_def
        sample_db_def db_empty_def)
qed

section \<open>An account with a second factor\<close>

text \<open>Bob with a TOTP factor, one recovery code, a security key, a pending login challenge and a pending ceremony.\<close>

definition bob_totp :: factor_row where
  "bob_totp = \<lparr>fr_id = 30, fr_user_id = 2, fr_kind = ''totp'', fr_created_at = 0, fr_verified_at = 0,
     fr_last_used_at = None, fr_revoked_at = None, fr_last_used_step = None,
     fr_totp_secret_encrypted =
       Some (letters_of (replicate 12 0) @ '':'' @ letters_of (as_bytes (letters_of [5])))\<rparr>"

definition bob_key :: credential_row where
  "bob_key = \<lparr>cr_id = 41, cr_user_id = 2, cr_factor_id = 40, cr_credential_id = letters_of [9],
     cr_public_key_spki = [], cr_sign_count = 4, cr_transports = None, cr_uv_policy = ''preferred'',
     cr_passkey_json = [], cr_created_at = 0, cr_last_used_at = None, cr_revoked_at = None\<rparr>"

definition sample_2fa_db :: db where
  "sample_2fa_db = sample_db\<lparr>db_factors := [bob_totp],
     db_recovery := [\<lparr>rr_id = 0, rr_user_id = 2, rr_code_hash = ''bcrypt:K7'', rr_created_at = 0, rr_consumed_at = None\<rparr>],
     db_challenges := [fst (challenge_create sample_crypto ''c'' 20 [3, 4] 2 None None 0)],
     db_credentials := [bob_key],
     db_ceremonies := [\<lparr>wch_id = 50, wch_user_id = 2, wch_kind = KIND_ASSERT, wch_state_json = ''state'',
       wch_created_at = 0, wch_expires_at = minutes 5, wch_consumed_at = None\<rparr>]\<rparr>"

definition second_step :: "db \<Rightarrow> (identity_error + user \<times> uuid option \<times> session_token) \<times> db" where
  "second_step = verify_login_factor_with_factor sample_env sample_tf sample_draws 60 20 (letters_of [3, 4])
     (RespRecovery ''K7'') None None"

definition bob_session_db :: db where
  "bob_session_db = snd (login sample_env sample_tf sample_draws 5 ''bob'' ''correct horse'' None None None sample_db)"

text \<open>A call that does not fail has a result.\<close>

lemma ran: "\<not> isl (fst p) \<Longrightarrow> \<exists>x t. p = (Inr x, t)"
  by (cases p; cases "fst p") auto

section \<open>Further states\<close>

definition pool_db :: db where
  "pool_db = sample_db\<lparr>db_pools := [\<lparr>pr_parent_id = 1, pr_axis = ''disk_bytes'', pr_total_bytes = 100, pr_updated_at = 0\<rparr>]\<rparr>"

definition family_db :: db where
  "family_db = sample_db\<lparr>db_users := [alice_row, bob_row\<lparr>ur_parent_account_id := Some 1\<rparr>],
     db_relationships := [\<lparr>rel_parent_id = 1, rel_child_id = 2, rel_created_at = 5, rel_created_by = 1,
       rel_status = ''active''\<rparr>]\<rparr>"

definition plan_run_db :: db where
  "plan_run_db = snd (create_plan sample_env sample_plan_json 60 5 ''basic'' ''starter'' sample_caps ''alice'' sample_db)"

definition assigned_db :: db where
  "assigned_db = snd (assign_plan sample_env sample_plan_json 9 60 2 ''alice'' 1 plan_run_db)"

definition sample_policy :: quota_policy where
  "sample_policy = \<lparr>qpol_id = 70, qpol_subject_kind = SubjUser, qpol_subject_id = 2,
     qpol_disk = \<lparr>soft_bytes = 10, hard_bytes = 20, grace_days = 7\<rparr>,
     qpol_bandwidth = \<lparr>soft_bytes = 10, hard_bytes = 20, grace_days = 7\<rparr>,
     qpol_inodes = \<lparr>soft_bytes = 10, hard_bytes = 20, grace_days = 7\<rparr>,
     qpol_max_file_size_bytes = None, qpol_cpu_shares = Some 3, qpol_created_at = 0, qpol_updated_at = 0\<rparr>"

definition sample_log :: audit_log where
  "sample_log = audit_append (audit_event_new 5 ''bob'' ActLogin Success)
     (audit_append (audit_event_new 3 ''alice'' ActLogin Success) \<lparr>log_rows = [], log_seq = 0\<rparr>)"

lemma sample_step:
  "(panel_step sample_panel ok)\<^sup>*\<^sup>* sample_db (snd (attach_child sample_env 5 1 2 ''alice'' 1 sample_db))"
  using panel_step.attach [of sample_panel ok sample_db 5 1 2 "''alice''" 1]
  by (simp add: sample_panel_def r_into_rtranclp)

lemma sample_delete_step:
  "(panel_step sample_panel ok)\<^sup>*\<^sup>* sample_db (snd (delete_user sample_env 5 1 ''mallory'' sample_db))"
  using panel_step.delete_user [of sample_panel ok sample_db 5 1 "''mallory''"]
  by (simp add: sample_panel_def r_into_rtranclp)

lemma sample_policy_set: "\<exists>q t. set_user_policy sample_env 5 2 sample_policy ''alice'' sample_db = (Inr q, t)"
proof -
  let ?run = "set_user_policy sample_env 5 2 sample_policy ''alice'' sample_db"
  have "\<not> isl (fst ?run)" by code_simp
  then show ?thesis using ran [of ?run] by auto
qed

lemma sample_log_wf: "log_wf sample_log"
  unfolding sample_log_def by (intro audit_append_wf) (simp add: log_wf_def)

section \<open>A scheduled job\<close>

definition sample_job :: cron_job where
  "sample_job = \<lparr>cj_id = 90, cj_owner_id = 2, cj_name = ''ping'', cj_schedule = \<lparr>cs_expression = ''* * * * *'', cs_timezone = ''UTC''\<rparr>,
     cj_kind = Http ''http://localhost'' ''GET'', cj_timeout_secs = 60, cj_overlap_policy = Skip, cj_enabled = True,
     cj_next_run_at = 5, cj_created_at = 0, cj_updated_at = 0\<rparr>"

definition scheduled_db :: db where
  "scheduled_db = sample_db\<lparr>db_cron_jobs := [\<lparr>cjr_id = 90, cjr_owner_id = 2, cjr_payload = as_json put_job sample_job\<rparr>]\<rparr>"

text \<open>A host on which every command and every request succeeds at once.\<close>

definition sample_world :: cron_world where
  "sample_world = \<lparr>cw_command = (\<lambda>_ _ _ _. CommandExited (Some 0) [] []), cw_http_setup = (\<lambda>_. Inr ()),
     cw_http = (\<lambda>_ _ _. HttpResponse 200 None)\<rparr>"

definition sample_draw :: "uuid \<Rightarrow> run_draw" where
  "sample_draw _ = \<lparr>rd_run_id = 95, rd_skip_id = 96, rd_begin = 5, rd_end = 6\<rparr>"

lemma scheduled_db_wf: "cron_wf sample_cron scheduled_db"
proof -
  have "job_wf sample_cron_lib [''/var/www''] sample_job" by code_simp
  moreover have "cjs_job_from sample_cron_json (as_json put_job sample_job) = Inr sample_job" "cj_id sample_job = 90"
    by (simp_all add: sample_cron_json_def json_inverse take_put_job sample_job_def)
  ultimately show ?thesis
    by (simp add: cron_wf_def cron_ok_def sample_cron_contracts scheduled_db_def sample_db_def db_empty_def sample_cron_def
        job_row_ok_def active_jobs_def)
qed

lemma sample_begins: "\<exists>job r t. begin_run sample_env sample_cron 95 96 5 2 False 90 scheduled_db = (Inr (Inr (job, r)), t)"
proof -
  let ?run = "begin_run sample_env sample_cron 95 96 5 2 False 90 scheduled_db"
  have "case fst ?run of Inr (Inr _) \<Rightarrow> True | _ \<Rightarrow> False" by code_simp
  then show ?thesis by (cases ?run) (auto split: sum.splits)
qed

definition sample_preset :: preset_request where
  "sample_preset = \<lparr>pq_preset = ''cut-log'', pq_name = ''logs'', pq_cycle = ''n-hours'', pq_cycle_n = 6, pq_timezone = ''UTC'',
     pq_working_directory = ''/var/www/site'', pq_backup_to = [], pq_locator = [], pq_retain_latest = 0, pq_exclusions = [],
     pq_url = [], pq_method = [], pq_target_path = ''access.log''\<rparr>"

definition allowed_executables :: "string list" where
  "allowed_executables = [preset_executable CutLog]"

definition sample_invite :: invite_request where
  "sample_invite = \<lparr>ir_email = ''eve@example.com'', ir_site_id = 3, ir_permissions = ps_insert PermFile ps_empty\<rparr>"

section \<open>An API token\<close>

definition bob_user :: user where
  "bob_user = (case into_user bob_row of Inr u \<Rightarrow> u)"

definition sample_scope :: token_scope where
  "sample_scope = (case scope_parse ''cron:read'' of Inr sc \<Rightarrow> sc)"

definition sample_token_input :: create_api_token where
  "sample_token_input = \<lparr>cat_user_id = 2, cat_label = ''ci'', cat_scopes = [''cron:read''], cat_expires_at = 100, cat_cidr_allowlist = []\<rparr>"

definition sample_created :: created_api_token where
  "sample_created = (case fst (create_token sample_env sample_tokens 80 (replicate 15 1) 5 bob_user sample_token_input sample_db) of Inr x \<Rightarrow> x)"

definition sample_pat :: string where
  "sample_pat = crt_plaintext_token sample_created"

definition token_db :: db where
  "token_db = snd (create_token sample_env sample_tokens 80 (replicate 15 1) 5 bob_user sample_token_input sample_db)"

lemma sample_token_created:
  "create_token sample_env sample_tokens 80 (replicate 15 1) 5 bob_user sample_token_input sample_db = (Inr sample_created, token_db)"
proof -
  let ?run = "create_token sample_env sample_tokens 80 (replicate 15 1) 5 bob_user sample_token_input sample_db"
  have "\<not> isl (fst ?run)" by code_simp
  then show ?thesis by (cases ?run; cases "fst ?run") (simp_all add: sample_created_def token_db_def)
qed

lemma sample_bearer:
  "tks_burst sample_tokens \<noteq> 0" "tks_round sample_tokens = (\<lambda>x. x)" "db_buckets sample_db 80 = None"
  "env_fault sample_env = (\<lambda>_. None)" "cat_expires_at sample_token_input = 100" "cat_user_id sample_token_input = 2"
  "sample_scope \<in> set (tm_scopes (crt_metadata sample_created))" "tm_cidr_allowlist (crt_metadata sample_created) = []"
  "find (\<lambda>q. ur_id q = 2) (db_users sample_db) = Some bob_row" "into_user bob_row = Inr bob_user"
  "\<not> user_is_disabled bob_user" "tks_lib sample_tokens = sample_token_lib"
proof -
  show "sample_scope \<in> set (tm_scopes (crt_metadata sample_created))" "tm_cidr_allowlist (crt_metadata sample_created) = []"
    by code_simp+
  have "\<not> isl (into_user bob_row)" by code_simp
  then show "into_user bob_row = Inr bob_user" by (cases "into_user bob_row") (simp_all add: bob_user_def)
  show "\<not> user_is_disabled bob_user" by code_simp
qed (simp_all add: sample_tokens_def sample_db_def db_empty_def sample_env_def sample_token_input_def bob_row_def alice_row_def)


lemma token_db_wf: "tokens_wf sample_tokens token_db"
  using sample_token_created sample_panel_wf(6) by (rule created_token_row)

lemma sample_token_row:
  "\<exists>r c. find (token_at 80 2) (db_api_tokens token_db) = Some r \<and>
     credential_parse (tks_lib sample_tokens) sample_pat = Inr c \<and>
     credential_hash (tks_lib sample_tokens) (tks_pepper sample_tokens) c = tkr_hash r"
proof -
  have "case find (token_at 80 2) (db_api_tokens token_db) of None \<Rightarrow> False | Some r \<Rightarrow>
     (case credential_parse (tks_lib sample_tokens) sample_pat of Inl _ \<Rightarrow> False | Inr c \<Rightarrow>
       credential_hash (tks_lib sample_tokens) (tks_pepper sample_tokens) c = tkr_hash r)"
    by code_simp
  then show ?thesis by (auto split: option.splits sum.splits)
qed

lemma sample_authenticates: "\<exists>p t. authenticate sample_env sample_tokens 9 0 sample_pat (V4 7) sample_scope token_db = (Inr p, t)"
  using created_token_opens [OF sample_token_created sample_panel_wf(6), of sample_env 9 sample_scope "V4 7" bob_row bob_user 0]
    sample_token_contracts(4) by (auto simp: sample_bearer sample_pat_def)

section \<open>A notification\<close>

definition alice_user :: user where
  "alice_user = (case into_user alice_row of Inr u \<Rightarrow> u)"

definition sample_nonce :: "byte list" where
  "sample_nonce = replicate 12 1"

definition sample_smtp_input :: create_smtp_channel where
  "sample_smtp_input = \<lparr>cs_name = ''mail'', cs_host = ''mx.example.com'', cs_port = 25, cs_username = ''u'',
     cs_password = ''pw'', cs_from_addr = ''panel@example.com'', cs_tls_mode = StartTls, cs_allowlist = [''ops@example.com'']\<rparr>"

text \<open>The channel, a subscription of bob, an event and its delivery; \<open>cred\<close> is the stored credential.\<close>

definition sample_channel_row :: "string \<Rightarrow> channel_row" where
  "sample_channel_row cred =
     \<lparr>chr_id = 70, chr_name = ''mail'', chr_kind = ''smtp'', chr_endpoint = ''mx.example.com'', chr_port = Some 25,
      chr_username = Some ''u'', chr_credential_enc = cred, chr_from_addr = Some ''panel@example.com'',
      chr_tls_mode = Some ''start_tls'', chr_allowlist_json = as_json (put_list put_str) [''ops@example.com''],
      chr_created_at = 0, chr_disabled_at = None\<rparr>"

definition sample_delivery :: delivery where
  "sample_delivery = delivery_pending 73 72 70 71 (letters_of (replicate 32 0)) 0"

definition notify_db :: "string \<Rightarrow> db" where
  "notify_db cred = sample_db
     \<lparr>db_channels := [sample_channel_row cred],
      db_subscriptions := [\<lparr>sbr_id = 71, sbr_user_id = 2, sbr_channel_id = 70, sbr_destination = ''ops@example.com'',
        sbr_kind = ''alert'', sbr_filter_json = ''{}'', sbr_enabled = True, sbr_failure_count = 0, sbr_created_at = 0\<rparr>],
      db_events := [\<lparr>evr_id = 72, evr_kind = ''alert'', evr_subject = ''disk'', evr_severity = ''critical'',
        evr_details_json = ''{}'', evr_occurred_at = 0\<rparr>],
      db_deliveries := [delivery_to_row sample_delivery]\<rparr>"

definition good_credential :: string where
  "good_credential = letters_of sample_nonce @ '':'' @ letters_of (as_bytes ''pw'')"

definition sample_network :: notif_world where
  "sample_network =
     \<lparr>nw_lookup = (\<lambda>i host port. Some [V4 7]), nw_mailbox = (\<lambda>a. Some a), nw_message = (\<lambda>a b sub body. Inr sub),
      nw_relay_error = (\<lambda>tls host. None), nw_send = (\<lambda>i session m. SmtpSent), nw_post = (\<lambda>i r. HttpStatus 200)\<rparr>"

lemma notify_db_wf:
  "notif_wf sample_notifications (notify_db cred)" "tenancy_wf (notify_db cred)" "has_owner 1 (notify_db cred)"
  "panel_data sample_panel (notify_db cred)"
proof -
  have row: "delivery_row_ok (delivery_to_row sample_delivery)"
    by (intro delivery_row_okI) (simp_all add: sample_delivery_def pending_wf, simp add: delivery_pending_def digest_ok_def length_letters_of flip: length_greater_0_conv)
  show n: "notif_wf sample_notifications (notify_db cred)"
    using row by (simp add: notif_wf_def sample_hash_text deliveries_ok_def notify_db_def sample_delivery_def delivery_pending_def
      delivery_to_row_def sample_channel_row_def)
  show "tenancy_wf (notify_db cred)" "has_owner 1 (notify_db cred)"
    using sample_panel_wf(1,2) by (simp_all add: notify_db_def tenancy_frame_defs)
  show "panel_data sample_panel (notify_db cred)"
    using sample_panel_wf(4) n by (simp add: panel_data_def sample_panel_def notify_db_def plans_wf_def tokens_wf_def account_ids_def cron_wf_def)
qed

text \<open>The two large limits, compared in binary.\<close>

lemma limits_code [code]:
  "subscription_new i u c destination kind f now =
     (if trim destination = [] \<or> 2048 < int (length destination) \<or> has_control destination
      then Inl (InvalidSubscription ''destination'')
      else Inr \<lparr>sub_id = i, sub_user_id = u, sub_channel_id = c, sub_destination = destination,
        sub_kind = kind, sub_filter = f, sub_enabled = True, sub_created_at = now\<rparr>)"
  "event_new lib i kind subject sev details now =
     (if trim subject = [] \<or> length subject > 240 \<or> has_control subject then Inl (InvalidEvent ''subject'')
      else if 16384 < int (length (nl_json_str lib (redact_json details))) then Inl (InvalidEvent ''details too large'')
      else Inr \<lparr>ev_id = i, ev_kind = kind, ev_subject = subject, ev_severity = sev, ev_details = redact_json details,
        ev_occurred_at = now\<rparr>)"
  by (simp_all add: subscription_new_def event_new_def MAX_DETAILS_def)

text \<open>The batch that is leased from it, and its entities read back.\<close>

definition sample_leased :: delivery where
  "sample_leased = sample_delivery\<lparr>dl_status := DLeased, dl_lease_until := Some (5 + seconds 30)\<rparr>"

definition leased_db :: "string \<Rightarrow> db" where
  "leased_db cred = snd (lease_due sample_env 5 100 (seconds 30) (notify_db cred))"

definition sample_channel :: "string \<Rightarrow> channel" where
  "sample_channel cred =
     \<lparr>ch_id = 70, ch_name = ''mail'', ch_config = SmtpConfig \<lparr>sm_host = ''mx.example.com'', sm_port = 25, sm_username = ''u'',
        sm_password_enc = cred, sm_from_addr = ''panel@example.com'', sm_tls_mode = StartTls,
        sm_allowlist = [''ops@example.com'']\<rparr>, ch_created_at = 0, ch_disabled_at = None\<rparr>"

definition sample_subscription :: subscription where
  "sample_subscription =
     \<lparr>sub_id = 71, sub_user_id = 2, sub_channel_id = 70, sub_destination = ''ops@example.com'', sub_kind = Alert,
      sub_filter = \<lparr>ef_metrics = [], ef_actions = [], ef_kinds = [], ef_outcome = None, ef_severity_at_least = None\<rparr>,
      sub_enabled = True, sub_created_at = 0\<rparr>"

definition sample_event :: notification_event where
  "sample_event =
     \<lparr>ev_id = 72, ev_kind = Alert, ev_subject = ''disk'', ev_severity = Critical, ev_details = JObject [], ev_occurred_at = 0\<rparr>"

lemma sample_lease:
  "lease_due sample_env 5 100 (seconds 30) (notify_db good_credential) = (Inr [sample_leased], leased_db good_credential)"
  "lease_due sample_env 5 100 (seconds 30) (notify_db ''broken'') = (Inr [sample_leased], leased_db ''broken'')"
proof -
  have "fst (lease_due sample_env 5 100 (seconds 30) (notify_db good_credential)) = Inr [sample_leased]" by code_simp
  moreover have "fst (lease_due sample_env 5 100 (seconds 30) (notify_db ''broken'')) = Inr [sample_leased]" by code_simp
  ultimately show "lease_due sample_env 5 100 (seconds 30) (notify_db good_credential) = (Inr [sample_leased], leased_db good_credential)"
    "lease_due sample_env 5 100 (seconds 30) (notify_db ''broken'') = (Inr [sample_leased], leased_db ''broken'')"
    unfolding leased_db_def by (metis prod.collapse)+
qed

lemma sample_found:
  assumes "cred = good_credential \<or> cred = ''broken''"
  shows "found_event sample_notifications (leased_db cred) 72 sample_event"
    and "found_subscription sample_notifications (leased_db cred) 71 sample_subscription"
    and "found_channel sample_notifications (leased_db cred) 70 (sample_channel cred)"
proof -
  obtain r where l: "lease_due sample_env 5 100 (seconds 30) (notify_db cred) = (r, leased_db cred)"
    unfolding leased_db_def by (metis prod.collapse)
  have "distinct (map dlr_id (db_deliveries (notify_db cred)))" by (simp add: notify_db_def)
  from successes_lease(1) [OF l this, of sample_notifications sample_network]
  have s: "settings (leased_db cred) = settings (notify_db cred)" by (simp add: successes_justified_def)
  have "map (row_event sample_notif_lib) (db_events (notify_db [])) = [Inr sample_event]" by code_simp
  then have e: "map (row_event sample_notif_lib) (db_events (notify_db cred)) = [Inr sample_event]" by (simp add: notify_db_def)
  have "map (row_subscription sample_notif_lib) (db_subscriptions (notify_db [])) = [Inr sample_subscription]" by code_simp
  then have x: "map (row_subscription sample_notif_lib) (db_subscriptions (notify_db cred)) = [Inr sample_subscription]"
    by (simp add: notify_db_def)
  have c1: "row_channel sample_notif_lib sample_text_json (sample_channel_row good_credential) = Inr (sample_channel good_credential)"
    by code_simp
  have c2: "row_channel sample_notif_lib sample_text_json (sample_channel_row ''broken'') = Inr (sample_channel ''broken'')"
    by code_simp
  show "found_event sample_notifications (leased_db cred) 72 sample_event"
    unfolding found_settings [OF s] using e by (simp add: found_event_def notify_db_def sample_notifications_def)
  show "found_subscription sample_notifications (leased_db cred) 71 sample_subscription"
    unfolding found_settings [OF s] using x by (simp add: found_subscription_def notify_db_def sample_notifications_def)
  show "found_channel sample_notifications (leased_db cred) 70 (sample_channel cred)"
    unfolding found_settings [OF s] using c1 c2 assms
    by (auto simp: found_channel_def notify_db_def sample_notifications_def sample_channel_row_def)
qed

definition sample_attempt :: "(notif_service_error + adapter_outcome) \<times> db" where
  "sample_attempt = attempt_delivery sample_env sample_notifications sample_network 5 sample_leased sample_event
     sample_subscription (sample_channel good_credential) (tick (tick (tick (leased_db good_credential))))"

definition sample_settled :: "(notif_service_error + unit) \<times> db" where
  "sample_settled = settle sample_env 5 sample_leased (sample_channel good_credential) Accepted (snd sample_attempt)"

lemma sample_dispatched:
  "\<exists>t. dispatch_once sample_env sample_notifications sample_network 5 100 (notify_db good_credential) = (Inr 1, t) \<and>
     map dlr_status (db_deliveries t) = [''terminal_success'']"
proof -
  have a: "fst sample_attempt = Inr Accepted" by code_simp
  have b: "fst sample_settled = Inr ()" "map dlr_status (db_deliveries (snd sample_settled)) = [''terminal_success'']" by code_simp+
  have env: "env_fault sample_env = (\<lambda>_. None)" by (simp add: sample_env_def)
  have keys: "dl_event_id sample_leased = 72" "dl_subscription_id sample_leased = 71" "dl_channel_id sample_leased = 70"
    by (simp_all add: sample_leased_def sample_delivery_def delivery_pending_def)
  note found = sample_found [of good_credential, folded keys, OF disjI1 [OF refl]]
  have at_run: "attempt_delivery sample_env sample_notifications sample_network 5 sample_leased sample_event
      sample_subscription (sample_channel good_credential) (tick (tick (tick (leased_db good_credential)))) =
      (Inr Accepted, snd sample_attempt)"
    using a by (metis prod.collapse sample_attempt_def)
  have settled: "settle sample_env 5 sample_leased (sample_channel good_credential) Accepted (snd sample_attempt) =
      (Inr (), snd sample_settled)"
    using b(1) by (metis prod.collapse sample_settled_def)
  show ?thesis
    using b(2) sample_lease(1)
    by (simp add: dispatch_once_def notif_db_def st_simps dispatch_delivery_tries [OF env found] at_run settled)
qed

lemma sample_create_smtp:
  "\<exists>m t. create_smtp sample_env sample_notifications 70 sample_nonce 0 alice_user sample_smtp_input sample_db = (Inr m, t)"
  by (rule ran) code_simp

end
