(* ===== verification/Spec2Isabelle.thy ===== *)
theory Spec2Isabelle
  imports Samples
begin

text \<open>
  OpenPanel: a verification of the account and control core of the panel.

  \<^bold>\<open>The program.\<close> OpenPanel is a hosting control panel. Its crates are layered: openpanel-domain holds value
  objects and aggregates, openpanel-app the services and their SQLite adapters, openpanel-core the audit log
  and the process frame, and openpanel-api, openpanel-web and openpanel-cli decode requests and call
  the services. Modelled here are nine services that carry the panel's own decisions, with everything below
  them: identity, two-factor authentication, account hierarchy, hosting plans, quotas, API tokens,
  collaborators, cron and notifications, together with the audit log they all write to. They share one database and meet in it:
  plans and the hierarchy look up and change accounts, a deleted account takes its sessions, factors, tokens,
  relationships, pools and claims with it, a login asks the two-factor service, and every change is recorded.

  \<^bold>\<open>Theories.\<close> A service has a theory of its domain types, one of its rows and queries, and one of its operations.

  \<^item> Prelude: results, calls on a state (\<open>st\<close>) with their inversion rules, invariants of calls
    (\<open>keeps\<close>, \<open>leads\<close>), saturating words, text, tables as lists of rows. Paths: \<open>std::path\<close>.
  \<^item> Common\_Values, Identity\_Domain: domain/common, domain/identity/{user,session,role}.rs.
    Factor\_Domain: domain/identity/factor.rs. Hierarchy\_Domain, Plans\_Domain, Quota\_Domain,
    Token\_Domain, Collaborator\_Domain, Cron\_Domain, Cron\_Presets, Notification\_Domain: the modules of the same name
    of openpanel-domain (Cron\_Presets with app/cron/preset\_mapping.rs).
  \<^item> Audit\_Codec, Audit\_Log: core/audit, with its Base64, redaction, cursors and paged queries.
  \<^item> Secret\_Store: app/databases/crypto.rs. Remember\_Device: app/identity/remember\_device.rs.
  \<^item> Store: all tables and the service memories as one record \<open>db\<close>, statements, transactions, the audit
    sink, cascades. Identity\_Repo, Factor\_Repo, Hierarchy\_Repo, Plans\_Repo, Quota\_Repo, Token\_Repo,
    Notification\_Repo: the repo.rs files; the queries of collaborators and cron stand in their services.
  \<^item> Two\_Factor\_Service, Identity\_Service, Hierarchy\_Service, Plans\_Service, Quota\_Service,
    Token\_Service (the limiter's arithmetic in Token\_Rate), Collaborator\_Service, Cron\_Service,
    Notification\_Service (its dispatch in Notification\_Life): the service.rs files, one
    definition per method, with the guards, error values, audit entries and the order of statements of the code.
  \<^item> Panel: all operations as steps \<open>panel_step\<close> on \<open>db\<close>. Samples: concrete parameters and states for the witnesses.

  \<^bold>\<open>Conventions.\<close> A struct is a record, an enum a datatype, \<open>u8\<close> to \<open>u64\<close> are words, \<open>i64\<close> columns
  and instants (nanoseconds) are integers. A fallible function returns a sum with the error on the left; a
  method of a service is a function from \<open>db\<close> to an outcome and a \<open>db\<close>, so that what a failed call leaves behind is visible.
  Random draws (identifiers, salts, nonces, tokens) and the current time are arguments, one time per call.
  Text is a list of bytes, as UTF-8. The parameter \<open>env\<close> stands for SQLite: each statement takes a tick,
  and for each tick \<open>env\<close> says whether it fails, so that a theorem holds for every pattern of failures. Tables
  are lists of rows with the keys, foreign keys and checks of the schema as conditions of the statements. The order of
  stored RFC 3339 texts is taken to be that of the instants. What is not in the sources is a parameter,
  with its documented behaviour as a named contract: cryptography (\<open>hex_contract\<close>, \<open>aead_contract\<close>,
  \<open>argon2_contract\<close>, ...), serialisers (\<open>json_roundtrips\<close>, \<open>text_json_contract\<close>, ...), the cron grammar,
  the WebAuthn verifier, DNS, SMTP and HTTP. The \<open>f64\<close> arithmetic of the token limiter is
  rational arithmetic with an arbitrary monotone rounding of bounded error.

  \<^bold>\<open>Interfaces.\<close> \<open>value_object\<close>, \<open>string_codec\<close> and \<open>row_codec\<close> state what aggregates and repositories rely
  on and are interpreted for every validated type and table. \<open>store_invariant\<close> and its extensions, one per
  service up to \<open>panel_invariant\<close>, state what a predicate on the state has to allow for the
  operations of a service to keep it; their lemmas prove that once per operation, and the predicates of the model are
  interpretations.

  \<^bold>\<open>What is shown.\<close> Authentication: who gets a session, single use of challenges and codes, lock-out and
  lifetimes. The panel as a whole: invariants of every reachable state. Hierarchy and pools: bounds,
  the walk up and the tree, and an attachment that makes a cycle. Plans and quotas: the cached resolver
  refines the uncached one, deletion, samples. API tokens, collaborators, cron and notifications: soundness and
  liveness of bearer authentication, rate bounds, lost revocations, grants, runs that do not overlap and the case in which they
  do, the life of a delivery, and what stops the dispatcher. The audit log and remembered devices close the list.
  Properties with hypotheses are followed by a witness on the states of Samples.

  \<^bold>\<open>Termination and bounds.\<close> The walk to an ancestor makes at most 1025 queries, the bound the code has, as fuel of
  \<open>path_walk\<close>. The recursive tree has no bound in the code: its fuel is an argument, enough fuel is shown to exist on
  acyclic accounts and not to exist on a cycle. \<open>would_cycle\<close> has no visited set and is a partial function. All other loops are
  recursions over lists or words with a measure. Widths matter and are kept in pools and claims (sums in signed 64
  bits), attempt counters (32 bits, saturating), sign counters and permission bits.

  \<^bold>\<open>Interleaving.\<close> A call is atomic except where its inside takes time or the interleaving is the point: a cron run is
  \<open>begin_run\<close> and \<open>end_run\<close> with anything in between, and a bearer request is split between lookup and
  record of use. A batch of the dispatcher is sequential, as in the one task
  that calls it; what the network answers is a function of the delivery.

  \<^bold>\<open>Not modelled.\<close> The command line, the web interface and the HTTP routes, which decode and render; components that
  drive the host or external servers (sites, certificates, databases, backups, mail, DNS, containers,
  deployment, files, firewalls and scanners, host services, monitoring), whose state is outside the panel; timers and
  wiring of modules; start-up and migrations, whose schema enters as the constraints of the tables; the in-memory doubles of
  the tests. Of the 240 audit actions the ones that identity and two-factor record are constructors, the others are carried
  in their stored form.
\<close>

section \<open>Authentication\<close>

text \<open>
  C1: a login that issues a session names an enabled account by its user name or address,
  presents its password and, when the account has an active second factor, a
  remember-device cookie that validates for this device, names this account and one of its
  active factors. Exactly one session is added, for this account and with its role.
\<close>

theorem login_sound:
  assumes "login env tf d now name plaintext ip ua cookie s = (Inr (Authenticated v tok), t)"
  shows "\<exists>r \<in> set (db_users s). \<exists>u. into_user r = Inr u \<and> v = user_record_login now u \<and>
      (ur_username r = name \<or> ur_email r = name) \<and> ur_disabled_at r = None \<and>
      password_verify (tf_crypto tf) (Password (ur_password_hash r)) plaintext = Inr True \<and>
      ((\<exists>f \<in> set (db_factors s). fr_user_id f = ur_id r \<and> fr_revoked_at f = None) \<longrightarrow>
        (\<exists>c p. cookie = Some c \<and>
          validate_remember_device (tf_crypto tf) (tf_payload_json tf) (tf_master_key tf) c
            (case ua of None \<Rightarrow> [] | Some x \<Rightarrow> x) (case ip of None \<Rightarrow> [] | Some x \<Rightarrow> x) now = Inr p \<and>
          rd_user_id p = ur_id r \<and>
          (\<exists>f \<in> set (db_factors s). fr_id f = rd_factor_id p \<and> fr_user_id f = ur_id r \<and>
             fr_revoked_at f = None))) \<and>
      db_sessions t = db_sessions s @ [session_to_row (fst (session_new (tf_crypto tf)
        (ld_session_salt d) (ld_session_id d) now (ur_id r) (u_role u) tok ip ua))]"
  using assms
proof (rule login_Authenticated)
  fix r u
  assume r: "r \<in> set (db_users s)" "into_user r = Inr u" "ur_username r = name \<or> ur_email r = name"
    "ur_disabled_at r = None" "v = user_record_login now u"
    "password_verify (tf_crypto tf) (Password (ur_password_hash r)) plaintext = Inr True"
    "db_sessions t = db_sessions s @ [session_to_row (fst (session_new (tf_crypto tf)
        (ld_session_salt d) (ld_session_id d) now (u_id u) (u_role u) tok ip ua))]"
    and "(\<exists>f \<in> set (db_factors s). fr_user_id f = ur_id r \<and> fr_revoked_at f = None) \<Longrightarrow>
      \<exists>s1 s2. try_remember_device env tf u ip ua cookie now s1 = (Inr True, s2) \<and>
        db_factors s1 = db_factors s"
  moreover have "u_id u = ur_id r" by (rule into_user_fields(1) [OF r(2)])
  ultimately show ?thesis
    using try_remember_device_True [of env tf u ip ua cookie now] by metis
qed

theorem login_sound_witness:
  "\<exists>v tok t. login sample_env sample_tf sample_draws 5 ''bob'' ''correct horse'' None None None sample_db =
     (Inr (Authenticated v tok), t) \<and> length (db_sessions t) = 1"
proof -
  let ?run = "login sample_env sample_tf sample_draws 5 ''bob'' ''correct horse'' None None None sample_db"
  have "case fst ?run of Inr (Authenticated v tok) \<Rightarrow> True | _ \<Rightarrow> False" by code_simp
  then obtain v tok t where "?run = (Inr (Authenticated v tok), t)"
    by (cases ?run) (auto split: sum.splits login_outcome.splits)
  then show ?thesis
    using login_sound [of sample_env sample_tf sample_draws 5 "''bob''" "''correct horse''" None None None
        sample_db v tok t]
    by (auto simp: sample_db_def db_empty_def)
qed



text \<open>
  C3: a login challenge that was answered once is never accepted again, with no token, no
  response and at no time, on whatever store.
\<close>

theorem login_challenge_single_use:
  assumes "verify_login_factor_with_factor env tf d now cid token resp ip ua s = (Inr (v, f, tok), t)"
  shows "\<exists>e. fst (verify_login_factor_with_factor env' tf' d' now' cid token' resp' ip' ua' t) = Inl e"
  using assms
proof (rule verify_login_factor_Inr)
  fix u s'
  assume chal: "verify_login_challenge_with_factor env tf ''two_factor'' cid token resp now s = (Inr (u_id u, f), s')"
    and iss: "issue_session env tf d u ip ua now (tick s') = (Inr (v, tok), t)"
  have "db_challenges t = db_challenges s'"
    using keeps_run [OF issue_session_challenges _ iss, of "db_challenges s'"] by simp
  also have "\<dots> = update_where (\<lambda>d. tc_id d = cid) (\<lambda>d. d\<lparr>tc_consumed_at := Some now\<rparr>) (db_challenges s)"
    using chal by (rule verify_login_challenge_Inr)
  finally have upd: "db_challenges t =
    update_where (\<lambda>d. tc_id d = cid) (\<lambda>d. d\<lparr>tc_consumed_at := Some now\<rparr>) (db_challenges s)" .
  have "\<not> challenge_is_usable c now'" if c: "c \<in> set (db_challenges t)" "tc_id c = cid" for c
    using c unfolding upd by (elim update_where_cases) (simp_all add: challenge_is_usable_def)
  from consumed_challenge_refused [of t cid now', OF this]
  obtain e x where "verify_login_challenge_with_factor env' tf' ''two_factor'' cid token' resp' now' t = (Inl e, x)"
    by (metis prod.collapse)
  then show ?thesis
    by (simp add: verify_login_factor_with_factor_def sbind_def smap_err_def)
qed

theorem login_challenge_single_use_witness:
  "\<exists>e. fst (second_step (snd (second_step sample_2fa_db))) = Inl e"
proof -
  have "case fst (second_step sample_2fa_db) of Inr _ \<Rightarrow> True | Inl _ \<Rightarrow> False" by code_simp
  then obtain v f tok t where run: "second_step sample_2fa_db = (Inr (v, f, tok), t)"
    by (cases "second_step sample_2fa_db") (auto split: sum.splits)
  then show ?thesis
    using login_challenge_single_use [OF run [unfolded second_step_def]] by (simp add: second_step_def)
qed



text \<open>
  C5: a recovery code opens one of the account's unused codes and uses it up: one code fewer
  that it matches is open afterwards.
\<close>

theorem recovery_code_used_up:
  assumes "verify_recovery_code env tf u code now s = (Inr (f, k), t)" and "distinct (map rr_id (db_recovery s))"
  shows "length (open_codes (tf_crypto tf) u code s) = Suc (length (open_codes (tf_crypto tf) u code t)) \<and>
    (open_codes (tf_crypto tf) u code t = [] \<longrightarrow>
      (\<forall>env' now'. \<exists>e. fst (verify_recovery_code env' tf u code now' t) = Inl e))"
  using verify_recovery_code_Inr(3) [OF assms] verify_recovery_code_closed by blast

theorem recovery_code_used_up_witness:
  "\<exists>f k t. verify_recovery_code sample_env sample_tf 2 ''K7'' 60 sample_2fa_db = (Inr (f, k), t) \<and>
     (\<forall>now'. \<exists>e. fst (verify_recovery_code sample_env sample_tf 2 ''K7'' now' t) = Inl e)"
proof -
  let ?run = "verify_recovery_code sample_env sample_tf 2 ''K7'' 60 sample_2fa_db"
  have "case fst ?run of Inr _ \<Rightarrow> True | Inl _ \<Rightarrow> False" by code_simp
  then obtain f k t where run: "?run = (Inr (f, k), t)" by (cases ?run) (auto split: sum.splits)
  moreover have "distinct (map rr_id (db_recovery sample_2fa_db))" by (simp add: sample_2fa_db_def)
  moreover have "length (open_codes (tf_crypto sample_tf) 2 ''K7'' sample_2fa_db) = 1" by code_simp
  ultimately show ?thesis using recovery_code_used_up [OF run] by auto
qed

text \<open>
  C6: a security key is accepted for a pending ceremony that the verifier finishes, when the
  credential is stored and not revoked and its counter has grown, and the new counter is stored: a clone
  that repeats a counter is refused.
\<close>

theorem webauthn_counter_grows:
  assumes "finish_webauthn_assert env tf actor cid response now s = (Inr (u, fid), t)"
  shows "\<exists>ch result row. find (\<lambda>c. wch_id c = cid) (db_ceremonies s) = Some ch \<and>
    webauthn_challenge_is_usable ch now \<and> wch_kind ch = KIND_ASSERT \<and>
    tf_finish_assert tf response (wch_state_json ch) = Inr result \<and>
    find (\<lambda>r. cr_credential_id r = b64_enc (tf_crypto tf) (va_credential_id result)) (db_credentials s) = Some row \<and>
    cr_revoked_at row = None \<and> cr_user_id row = u \<and> cr_factor_id row = fid \<and>
    cr_sign_count row < va_sign_count result \<and>
    stored_sign_count (b64_enc (tf_crypto tf) (va_credential_id result)) t = Some (va_sign_count result)"
  using assms by (rule finish_webauthn_assert_Inr) blast

theorem webauthn_counter_grows_witness:
  "\<exists>u fid t. finish_webauthn_assert sample_env sample_tf ''bob'' 50 JNull 60 sample_2fa_db = (Inr (u, fid), t) \<and>
     stored_sign_count (letters_of [9]) t = Some 5"
proof -
  let ?run = "finish_webauthn_assert sample_env sample_tf ''bob'' 50 JNull 60 sample_2fa_db"
  have "case fst ?run of Inr _ \<Rightarrow> True | Inl _ \<Rightarrow> False" by code_simp
  then obtain u fid t where run: "?run = (Inr (u, fid), t)" by (cases ?run) (auto split: sum.splits)
  have "tf_finish_assert sample_tf r st = Inr \<lparr>va_credential_id = [9], va_sign_count = 5\<rparr>"
    "tf_crypto sample_tf = sample_crypto" "b64_enc sample_crypto = letters_of" for r st
    by (simp_all add: sample_tf_def tf_default_settings_def sample_crypto_def)
  then show ?thesis using run webauthn_counter_grows [OF run] by auto
qed

text \<open>
  C7: a session token opens an account only when a stored session has its hash, the session is
  not expired, and the session's account is stored and not disabled.
\<close>

theorem resolve_session_sound:
  assumes "resolve_session env cr now tok s = (Inr (u, x), t)"
  shows "session_to_row x \<in> set (db_sessions s) \<and> session_verify_token cr x tok \<and> \<not> session_is_expired x now \<and>
    (\<exists>r \<in> set (db_users s). into_user r = Inr u \<and> ur_id r = s_user_id x \<and> ur_disabled_at r = None)"
  using assms by (rule resolve_session_Inr) blast

theorem resolve_session_sound_witness:
  "\<exists>u x t. resolve_session sample_env sample_crypto 9 (session_token_generate sample_crypto [1, 2]) bob_session_db =
     (Inr (u, x), t) \<and> session_verify_token sample_crypto x (session_token_generate sample_crypto [1, 2])"
proof -
  let ?run = "resolve_session sample_env sample_crypto 9 (session_token_generate sample_crypto [1, 2]) bob_session_db"
  have "\<not> isl (fst ?run)" by code_simp
  then obtain u x t where run: "?run = (Inr (u, x), t)" using ran [of ?run] by auto
  then show ?thesis using resolve_session_sound [OF run] by blast
qed

text \<open>
  C8: disabling an account ends it at once: none of its sessions is left, no token resolves
  to it, and neither a password nor the answer to a challenge opens it.
\<close>

theorem disable_user_locks_out:
  assumes "disable_user env now i actor s = (Inr (), t)"
  shows "(\<forall>r \<in> set (db_sessions t). sr_user_id r \<noteq> i) \<and>
    (\<forall>env' cr later tok u x t'. resolve_session env' cr later tok t = (Inr (u, x), t') \<longrightarrow> u_id u \<noteq> i) \<and>
    (\<forall>env' tf d later name pw ip ua cookie v tok t'.
      login env' tf d later name pw ip ua cookie t = (Inr (Authenticated v tok), t') \<longrightarrow> u_id v \<noteq> i) \<and>
    (\<forall>env' tf d later cid token resp ip ua v f tok t'.
      verify_login_factor_with_factor env' tf d later cid token resp ip ua t = (Inr (v, f, tok), t') \<longrightarrow> u_id v \<noteq> i)"
proof (intro conjI allI impI)
  note dis = disable_user_Inr [OF assms(1)]
  show "\<forall>r \<in> set (db_sessions t). sr_user_id r \<noteq> i" by (rule dis(1))
  show "u_id u \<noteq> i" if "resolve_session env' cr later tok t = (Inr (u, x), t')" for env' cr later tok u x t'
    using that
  proof (rule resolve_session_Inr)
    fix r assume r: "r \<in> set (db_users t)" "into_user r = Inr u" "ur_disabled_at r = None"
    then show "u_id u \<noteq> i" using dis(2) into_user_fields(1) [OF r(2)] by fastforce
  qed
  show "u_id v \<noteq> i" if "login env' tf d later name pw ip ua cookie t = (Inr (Authenticated v tok), t')"
    for env' tf d later name pw ip ua cookie v tok t'
    using that
  proof (rule login_Authenticated)
    fix r u assume r: "r \<in> set (db_users t)" "into_user r = Inr u" "ur_disabled_at r = None" "v = user_record_login later u"
    then have "u_id v = ur_id r" using into_user_fields(1) [OF r(2)] by (simp add: user_record_login_def)
    then show "u_id v \<noteq> i" using dis(2) r by fastforce
  qed
  show "u_id v \<noteq> i" if "verify_login_factor_with_factor env' tf d later cid token resp ip ua t = (Inr (v, f, tok), t')"
    for env' tf d later cid token resp ip ua v f tok t'
    using second_step_facts [OF that] dis(2) by (auto simp: enabled_account_def list_ex_iff)
qed

theorem disable_user_locks_out_witness:
  "\<exists>t. disable_user sample_env 9 2 ''alice'' bob_session_db = (Inr (), t) \<and>
     (\<forall>r \<in> set (db_sessions t). sr_user_id r \<noteq> 2)"
proof -
  let ?run = "disable_user sample_env 9 2 ''alice'' bob_session_db"
  have "\<not> isl (fst ?run)" by code_simp
  then obtain t where run: "?run = (Inr (), t)" using ran [of ?run] by auto
  then show ?thesis using conjunct1 [OF disable_user_locks_out [OF run]] by (intro exI [of _ t] conjI)
qed

text \<open>
  C9: a login that succeeds gives a token that works: for the next 24 hours it resolves to the
  account that logged in, with its role.
\<close>

theorem login_token_resolves:
  assumes "login env tf d now name plaintext ip ua cookie s = (Inr (Authenticated v tok), t)"
    and "accounts_wf s" and "argon2_contract (tf_crypto tf)"
    and "session_scan (tf_crypto tf) tok (db_sessions s) = None"
    and "now \<le> later" and "later \<le> now + hours 24" and "env_fault env' = (\<lambda>_. None)"
  shows "\<exists>w x t'. resolve_session env' (tf_crypto tf) later tok t = (Inr (w, x), t') \<and>
    u_id w = u_id v \<and> s_user_id x = u_id v \<and> s_role x = u_role v"
  using assms(1,2)
proof (rule login_issues)
  fix u s'
  assume iss: "issue_session env tf d u ip ua now s' = (Inr (v, tok), t)" "accounts_wf s'" "enabled_account (u_id u) s'"
    and same: "db_sessions s' = db_sessions s"
  from iss(1) have v: "u_id v = u_id u" "u_role v = u_role u"
    by (rule issue_session_Inr, simp add: user_record_login_def)+
  have "session_scan (tf_crypto tf) tok (db_sessions s') = None" using assms(4) same by simp
  from issued_session_resolves [OF iss assms(3) this assms(5-7)] v
  show ?thesis by (simp only:)
qed

theorem login_token_resolves_witness:
  "\<exists>v tok t w x t'. login sample_env sample_tf sample_draws 5 ''bob'' ''correct horse'' None None None sample_db =
       (Inr (Authenticated v tok), t) \<and>
     resolve_session sample_env (tf_crypto sample_tf) 9 tok t = (Inr (w, x), t') \<and> u_id w = u_id v"
proof -
  let ?run = "login sample_env sample_tf sample_draws 5 ''bob'' ''correct horse'' None None None sample_db"
  have "case fst ?run of Inr (Authenticated v tok) \<Rightarrow> True | _ \<Rightarrow> False" by code_simp
  then obtain v tok t where run: "?run = (Inr (Authenticated v tok), t)"
    by (cases ?run) (auto split: sum.splits login_outcome.splits)
  have "argon2_contract (tf_crypto sample_tf)" "env_fault sample_env = (\<lambda>_. None)"
    "session_scan (tf_crypto sample_tf) tok (db_sessions sample_db) = None" "5 + hours 24 \<ge> (9 :: int)"
    using sample_contracts(5)
    by (simp_all add: sample_tf_def tf_default_settings_def sample_env_def sample_db_def db_empty_def
        hours_def minutes_def seconds_def)
  then show ?thesis
    using login_token_resolves [OF run sample_db_wf, of 9 sample_env] run by fastforce
qed



section \<open>The panel as a whole\<close>

text \<open>
  C11: whatever operations of the nine services run, in whatever order and with whatever
  outcome, the stored state stays well formed: identifiers, names and addresses of accounts are unique and
  valid, sessions, relationships, pools and claims refer to accounts, no account has two active parents, plan
  names are unique, every stored plan and policy can be read back, every assignment refers to a stored plan
  and no account has two current assignments; API tokens have unique hashes and readable policies and belong to
  accounts; grants hold the four known permissions only; every cron job can be read back, runs inside an allowed
  directory, and has at most one active run; every delivery can be read back, has its event, channel and
  subscription, and no subscription has two deliveries of one event.
\<close>

theorem panel_reachable_wf:
  assumes "(panel_step c (\<lambda>_. True))\<^sup>*\<^sup>* s t"
    and "tenancy_wf s" and "has_owner i s" and "panel_data c s"
  shows "tenancy_wf t \<and> panel_data c t"
  using reachable_panel_wf [OF assms] by blast

theorem panel_reachable_wf_witness:
  "tenancy_wf (snd (attach_child sample_env 5 1 2 ''alice'' 1 sample_db)) \<and>
   length (db_relationships (snd (attach_child sample_env 5 1 2 ''alice'' 1 sample_db))) = 1"
proof -
  have "length (db_relationships (snd (attach_child sample_env 5 1 2 ''alice'' 1 sample_db))) = 1" by code_simp
  then show ?thesis
    using panel_reachable_wf [OF sample_step sample_panel_wf(1,2)] sample_panel_wf(4) by (simp add: sample_panel_def)
qed

text \<open>
  C12: an account that owns the panel owns it for good: no operation, and no failure of one,
  removes it or takes its role away.
\<close>

theorem owner_persists:
  assumes "(panel_step c (\<lambda>_. True))\<^sup>*\<^sup>* s t"
    and "tenancy_wf s" and "panel_data c s" and "has_owner i s"
  shows "has_owner i t"
  using reachable_panel_wf(2) [OF assms(1,2,4,3)] .

theorem owner_persists_witness: "has_owner 1 (snd (delete_user sample_env 5 1 ''mallory'' sample_db))"
  using owner_persists [OF sample_delete_step sample_panel_wf(1)] sample_panel_wf(2,4) by (simp add: sample_panel_def)

section \<open>Pools and claims\<close>

text \<open>
  C13: as long as no pool of \<open>2 ^ 63\<close> or more is declared, no sum of claims ever reaches
  \<open>2 ^ 63\<close>, so that \<open>pool_usage\<close> never overflows the signed column it is computed in.
\<close>

theorem claims_stay_in_range:
  assumes "(panel_step c (\<lambda>tot. unat tot < 2 ^ 63))\<^sup>*\<^sup>* s t"
    and "tenancy_wf s" and "within_capacity s" and "panel_data c s"
  shows "claimed p axis t < 2 ^ 63 \<and> sql_sum 0 (claim_shares p axis t) = Some (int (claimed p axis t))"
proof -
  have "claimed p axis t < 2 ^ 63"
    using reachable_capacity [OF assms] by (simp add: within_capacity_def)
  then show ?thesis using sql_sum_small [of 0 "claim_shares p axis t"] by (simp add: claimed_def)
qed

theorem claims_stay_in_range_witness:
  "claimed 1 DiskBytes (snd (attach_child sample_env 5 1 2 ''alice'' 1 sample_db)) < 2 ^ 63"
  using claims_stay_in_range [OF sample_step sample_panel_wf(1,3)] sample_panel_wf(4) by (simp add: sample_panel_def)

text \<open>
  C14: a claim that is granted adds its share to the claims on the parent's pool of that axis,
  and their sum does not exceed the pool's total.
\<close>

theorem claim_within_total:
  assumes "claim_pool env now p i axis share actor s = (Inr claim, t)" and "within_capacity s"
  shows "claimed p axis t = claimed p axis s + unat share \<and>
    (\<exists>r \<in> set (db_pools s). pr_parent_id r = p \<and> pr_axis r = pool_axis_str axis \<and>
       claimed p axis t \<le> unat (pr_total_bytes r))"
  using claim_pool_Inr [OF assms] by blast

theorem claim_within_total_witness:
  "\<exists>claim t. claim_pool sample_env 5 1 2 DiskBytes 60 ''alice'' pool_db = (Inr claim, t) \<and> claimed 1 DiskBytes t = 60"
proof -
  let ?run = "claim_pool sample_env 5 1 2 DiskBytes 60 ''alice'' pool_db"
  have "\<not> isl (fst ?run)"
    by (simp add: claim_pool_def pools_of_def repo_pool_usage_def insert_claim_def h_sql_def h_audit_def sbind_def
        smap_err_def sql_read_def sql_write_def sample_env_def pool_db_def sample_db_def db_empty_def into_pool_def
        parse_pool_axis_def quota_pool_new_def claim_shares_def check_pool_claim_def saturating_add_def
        pool_claim_new_def pool_axis_str_def user_exists_def alice_row_def bob_row_def map_err_def rbind_def audit_record_def)
  then obtain claim t where run: "?run = (Inr claim, t)" using ran [of ?run] by auto
  have "within_capacity pool_db" "claimed 1 DiskBytes pool_db = 0"
    by (simp_all add: within_capacity_def claimed_def claim_shares_def pool_db_def sample_db_def db_empty_def)
  then show ?thesis using claim_within_total [OF run] run by auto
qed

section \<open>The hierarchy\<close>



text \<open>
  C16: when the parent pointers have no cycle the tree of an account is built, whatever its
  depth, and it holds exactly the account and its descendants.
\<close>

theorem hierarchy_tree_complete:
  assumes "env_fault env = (\<lambda>_. None)" and "accounts_wf s" and "user_exists i s" and "acyclic (parent_edge s)"
  shows "\<exists>n. \<forall>m \<ge> n. \<exists>node t. hierarchy_tree env m i s = (Inr (Some node), t) \<and>
    set (tree_ids node) = {j. (i, j) \<in> (parent_edge s)\<^sup>*}"
  using assms by (rule hierarchy_tree_total)

theorem hierarchy_tree_complete_witness:
  "\<exists>n node t. hierarchy_tree sample_env n 1 sample_db = (Inr (Some node), t) \<and>
     set (tree_ids node) = {j. (1, j) \<in> (parent_edge sample_db)\<^sup>*}"
proof -
  have "parent_edge sample_db = {}"
    by (simp add: parent_edge_def sample_db_def alice_row_def bob_row_def)
  then have "acyclic (parent_edge sample_db)" by (simp add: acyclic_def)
  moreover have "user_exists 1 sample_db" "env_fault sample_env = (\<lambda>_. None)"
    by (simp_all add: user_exists_def sample_db_def alice_row_def sample_env_def)
  ultimately show ?thesis
    using hierarchy_tree_complete [OF _ sample_db_wf] by blast
qed

text \<open>
  C17: the cycle check of \<open>attach_child\<close> looks upwards from the child, which has no parent at that
  point, and so an account is attached below its own child; from then on the tree of the account is never
  finished, at any depth.
\<close>

theorem attach_below_own_child:
  assumes "env_fault env = (\<lambda>_. None)" and "tenancy_wf s" and "user_exists p s" and "user_exists i s" and "p \<noteq> i"
    and "(i, p) \<in> parent_edge s"
    and "\<forall>r \<in> set (db_relationships s). rel_child_id r = i \<longrightarrow> \<not> rel_active r"
    and "\<forall>r \<in> set (db_relationships s). rel_parent_id r = p \<longrightarrow> rel_child_id r \<noteq> i"
  shows "\<exists>rel t. attach_child env now p i actor by_id s = (Inr rel, t) \<and>
    (\<forall>n. fst (hierarchy_tree env n i t) = Inr None)"
proof -
  have wf: "accounts_wf s" using assms(2) by (simp add: tenancy_wf_def)
  obtain t where run: "attach_child env now p i actor by_id s = (Inr (relationship_new p i by_id now), t)"
    using attach_child_run [OF assms(1) wf assms(3-5,7,8)] by blast
  have t: "accounts_wf t"
    using keeps_run [OF tenancy.keeps_attach_child assms(2) run] by (simp add: tenancy_wf_def)
  note users = attach_child_Inr(5) [OF run]
  have "map ur_id (db_users t) = map ur_id (db_users s)" unfolding users by (rule map_update_where) simp
  then have "user_exists i t" using assms(4) by (simp add: user_exists_iff)
  moreover have "(i, p) \<in> parent_edge t"
    using assms(5,6) by (auto simp: parent_edge_def users set_update_where user_exists_def list_ex_iff image_iff)
  moreover have "(p, i) \<in> parent_edge t"
  proof -
    obtain r where "r \<in> set (db_users s)" "ur_id r = i" using assms(4) by (auto simp: user_exists_def list_ex_iff)
    then have "r\<lparr>ur_parent_account_id := Some p\<rparr> \<in> set (db_users t)" by (auto simp: users set_update_where)
    then show ?thesis using \<open>ur_id r = i\<close> 
      by (auto simp: parent_edge_def intro!: bexI [of _ "r\<lparr>ur_parent_account_id := Some p\<rparr>"])
  qed
  ultimately have "fst (hierarchy_tree env n i t) = Inr None" for n
    using hierarchy_tree_cycle [OF assms(1) t, of i n] by (meson trancl.simps)
  then show ?thesis using run by blast
qed

theorem attach_below_own_child_witness:
  "\<exists>rel t. attach_child sample_env 9 2 1 ''bob'' 2 family_db = (Inr rel, t) \<and>
     (\<forall>n. fst (hierarchy_tree sample_env n 1 t) = Inr None)"
proof (rule attach_below_own_child)
  show "tenancy_wf family_db" by code_simp
qed (simp_all add: sample_env_def user_exists_def parent_edge_def family_db_def alice_row_def bob_row_def)

section \<open>Hosting plans\<close>



text \<open>
  An assignment that succeeds is for a stored plan that accepts assignments and an existing
  account; it becomes the account's only current assignment, and the caps the account is entitled to are
  those of the plan, with no cached value in the way.
\<close>

theorem assign_plan_effect:
  assumes "assign_plan env js now i u actor by_id s = (Inr a, t)"
  shows "user_exists u s \<and> a = plan_assignment_new u i by_id now \<and> filter (current_for u) (db_assignments t) = [a] \<and>
    cache_hit later u t = None \<and>
    (\<exists>r p. find (\<lambda>r. plr_id r = i) (db_plans s) = Some r \<and> into_plan js r = Inr p \<and> accepts_assignments p \<and>
       spec_caps js u t = effective_from_caps (hp_quota_caps p))"
proof -
  note run = assign_plan_Inr [OF assms]
  obtain r p where r: "find (\<lambda>r. plr_id r = i) (db_plans s) = Some r" "into_plan js r = Inr p" "accepts_assignments p"
    using run(2) by blast
  have "spec_caps js u t = effective_from_caps (hp_quota_caps p)"
    using r by (simp add: spec_caps_def current_after_assign [OF assms] run(1,5) plan_assignment_new_def)
  then show ?thesis
    using run(1,3,6) r current_after_assign [OF assms] by (simp add: cache_hit_def)
qed

text \<open>
  C19: a plan that an account is assigned to is not deleted: the request is refused as in use and
  plans and assignments are unchanged; and a deletion that succeeds leaves no assignment without its plan.
\<close>

theorem delete_plan_safe:
  assumes "a \<in> set (db_assignments s)" and "pa_plan_id a = i" and "\<exists>r \<in> set (db_plans s). plr_id r = i"
  shows "(assignment_is_current a \<longrightarrow> env_fault env (db_tick s) = None \<longrightarrow>
      fst (delete_plan env now i actor s) = Inl PlanInUse) \<and>
    (\<forall>t. delete_plan env now i actor s \<noteq> (Inr (), t))"
  using assms delete_plan_in_use(1) [OF _ assms(1,2)] delete_plan_Inr(1) by blast

theorem delete_plan_safe_witness:
  "fst (delete_plan sample_env 11 60 ''alice'' assigned_db) = Inl PlanInUse"
proof -
  let ?a = "plan_assignment_new 2 60 1 9"
  have "list_ex (\<lambda>a. a = ?a) (db_assignments assigned_db)" "list_ex (\<lambda>r. plr_id r = 60) (db_plans assigned_db)"
    by code_simp+
  then have "?a \<in> set (db_assignments assigned_db)" "\<exists>r \<in> set (db_plans assigned_db). plr_id r = 60"
    by (auto simp: list_ex_iff)
  then show ?thesis
    using delete_plan_safe [of ?a assigned_db 60 sample_env 11 "''alice''"]
    by (simp add: plan_assignment_new_def assignment_is_current_def sample_env_def)
qed

text \<open>
  A plan that was created is found again under its identifier, the same in every field.
\<close>

theorem created_plan_is_found:
  assumes "create_plan env js i now name d caps actor s = (Inr p, t)" and "json_roundtrips js"
    and "env_fault env (db_tick t) = None"
  shows "find_plan env js i t = (Inr p, tick t)"
proof -
  note run = create_plan_Inr [OF assms(1)]
  obtain row where row: "plan_to_row js p = Inr row" "db_plans t = db_plans s @ [row]" using run(2) by blast
  have p: "hp_id p = i" "hp_branding_scope p = branding_default"
    using run(1) by (auto simp: hosting_plan_new_def split: if_splits)
  have "plan_wf p" using hosting_plan_new_wf [OF run(1)] by blast
  then have "into_plan js row = Inr (p\<lparr>hp_branding_scope := branding_default\<rparr>)"
    using plan_row_roundtrip [OF assms(2)] row(1) by (metis sum.inject(2))
  moreover have "p\<lparr>hp_branding_scope := branding_default\<rparr> = p" using p(2) by simp
  moreover have "find (\<lambda>r. plr_id r = i) (db_plans t) = Some row"
    using run(3) row p(1) plan_to_row_fields(1) [OF row(1)] by (auto simp: find_append find_None_iff dest!: find_SomeD split: option.split)
  ultimately show ?thesis
    using assms(3) by (simp add: find_plan_def plans_find_by_id_def plans_find_Inr st_invert)
qed

text \<open>
  A plan that was ever assigned can no longer be deleted: the assignments that were replaced keep
  their rows, the foreign key restricts the deletion, and the service reports a persistence error
  although no account is on the plan.
\<close>

theorem replaced_assignment_blocks_delete:
  assumes "env_fault env = (\<lambda>_. None)" and "a \<in> set (db_assignments s)" and "pa_plan_id a = i"
    and "\<forall>b \<in> set (db_assignments s). pa_plan_id b = i \<longrightarrow> \<not> assignment_is_current b"
    and "r \<in> set (db_plans s)" and "plr_id r = i"
  shows "\<exists>m. fst (delete_plan env now i actor s) = Inl (PPersistence m)"
proof -
  have none: "filter (\<lambda>a. pa_plan_id a = i \<and> assignment_is_current a) (db_assignments s) = []"
    using assms(4) by (auto simp: filter_empty_conv)
  have "list_ex (\<lambda>a. pa_plan_id a = i) (db_assignments s)" "list_ex (\<lambda>r. plr_id r = i) (db_plans s)"
    using assms(2,3,5,6) by (auto simp: list_ex_iff)
  then show ?thesis
    by (simp add: delete_plan_def plans_delete_def count_assignments_def p_sql_def sbind_def smap_err_def none
        sql_eval [OF assms(1)])
qed

theorem replaced_assignment_blocks_delete_witness:
  "\<exists>s m. filter assignment_is_current (db_assignments s) = [] \<and>
     fst (delete_plan sample_env 20 60 ''alice'' s) = Inl (PPersistence m)"
proof -
  let ?a = "(plan_assignment_new 2 60 1 9)\<lparr>pa_replaced_at := Some 15\<rparr>"
  let ?s = "plan_run_db\<lparr>db_assignments := [?a]\<rparr>"
  have "list_ex (\<lambda>r. plr_id r = 60) (db_plans plan_run_db)" by code_simp
  then obtain r where "r \<in> set (db_plans ?s)" "plr_id r = 60" by (auto simp: list_ex_iff)
  moreover have "pa_plan_id ?a = 60" "\<not> assignment_is_current ?a" "env_fault sample_env = (\<lambda>_. None)"
    by (simp_all add: plan_assignment_new_def assignment_is_current_def sample_env_def)
  ultimately show ?thesis
    using replaced_assignment_blocks_delete [of sample_env ?a ?s 60 r 20 "''alice''"]
    by (intro exI [of _ ?s]) simp
qed

section \<open>Quotas\<close>

text \<open>
  Setting a policy for an account that has one, under a new identifier, reports success and
  changes nothing: the update is keyed by the identifier of the new policy.
\<close>

theorem replaced_policy_is_ignored:
  assumes "set_user_policy env now u p actor s = (Inr q, t)" and "r \<in> set (db_policies s)" and "user_policy_row u r"
    and "\<forall>x \<in> set (db_policies s). por_id x \<noteq> qpol_id p"
  shows "db_policies t = db_policies s"
proof -
  have "find (user_policy_row u) (db_policies s) \<noteq> None" using assms(2,3) by (auto simp: find_None_iff)
  from set_user_policy_Inr(4) [OF assms(1) this] show ?thesis
    using assms(4) by (simp add: update_where_none)
qed

theorem replaced_policy_is_ignored_witness:
  "\<exists>s q t. set_user_policy sample_env 9 2 (sample_policy\<lparr>qpol_id := 71, qpol_cpu_shares := None\<rparr>) ''alice'' s = (Inr q, t) \<and>
     length (db_policies s) = 1 \<and> db_policies t = db_policies s"
proof -
  let ?s = "sample_db\<lparr>db_policies := [policy_to_row sample_policy]\<rparr>"
  let ?run = "set_user_policy sample_env 9 2 (sample_policy\<lparr>qpol_id := 71, qpol_cpu_shares := None\<rparr>) ''alice'' ?s"
  have "\<not> isl (fst ?run)" by code_simp
  then obtain q t where run: "?run = (Inr q, t)" using ran [of ?run] by auto
  have "user_policy_row 2 (policy_to_row sample_policy)" "por_id (policy_to_row sample_policy) = 70"
    by (simp_all add: user_policy_row_def policy_to_row_def sample_policy_def subject_kind_str_def)
  then have "db_policies t = db_policies ?s"
    using replaced_policy_is_ignored [OF run, of "policy_to_row sample_policy"] by simp
  then show ?thesis using run by (intro exI [of _ ?s] exI [of _ q] exI [of _ t]) simp
qed

text \<open>
  C20: a usage sample that is recorded names as over the hard limit only dimensions that are over the
  soft one too, and until another is taken it is the latest usage of its subject.
\<close>

theorem sample_is_latest:
  assumes "sample env js now p d i b actor s = (Inr u, t)" and "policy_wf p" and "usage_json_contract js"
    and "\<forall>r \<in> set (db_usages s). usr_subject_id r = qpol_subject_id p \<longrightarrow> usr_sampled_at r < now"
    and "env_fault env (db_tick t) = None"
  shows "qu_over_hard u \<subseteq> qu_over_soft u \<and> latest_usage env js (qpol_subject_id p) t = (Inr (Some u), tick t)"
  using latest_usage_after_sample [OF assms(3,1,4,5)] sample_over_hard_soft [OF assms(2)] sample_Inr(1) [OF assms(1)] by simp

theorem sample_is_latest_witness:
  "\<exists>u t. sample sample_env sample_usage_json 5 sample_policy 15 25 3 ''alice'' sample_db = (Inr u, t) \<and>
     latest_usage sample_env sample_usage_json 2 t = (Inr (Some u), tick t)"
proof -
  let ?run = "sample sample_env sample_usage_json 5 sample_policy 15 25 3 ''alice'' sample_db"
  have "\<not> isl (fst ?run)" by code_simp
  then obtain u t where run: "?run = (Inr u, t)" using ran [of ?run] by auto
  have "policy_wf sample_policy" "qpol_subject_id sample_policy = 2" "env_fault sample_env n = None" "db_usages sample_db = []" for n
    by (simp_all add: policy_wf_def limit_wf_def sample_policy_def sample_env_def sample_db_def db_empty_def)
  then show ?thesis using sample_is_latest [OF run _ sample_json_contracts(2)] run by simp
qed

section \<open>API tokens\<close>

text \<open>
  C21: a bearer is let in only with a well-formed credential whose keyed hash a stored token has, when that
  token is neither revoked nor expired, admits the address and the scope of the request, still has a request left
  in its bucket, and belongs to a stored account that is not disabled; the principal is that account.
\<close>

theorem bearer_sound:
  assumes "authenticate env svc now inst plaintext peer sc s = (Inr p, t)"
  shows "\<exists>c k. credential_parse (tks_lib svc) plaintext = Inr c \<and>
    (\<exists>r \<in> set (db_api_tokens s). tkr_hash r = credential_hash (tks_lib svc) (tks_pepper svc) c \<and>
       into_token (tks_lib svc) (tks_json svc) r = Inr k) \<and>
    token_is_active k now \<and> allows_ip (tks_lib svc) k peer \<and> allows_scope k sc \<and>
    fst (consume_bucket svc inst (db_buckets s (at_id k))) = Inr () \<and> bp_token_id p = at_id k \<and>
    (\<exists>q \<in> set (db_users s). ur_id q = at_user_id k \<and> into_user q = Inr (bp_user p) \<and> ur_disabled_at q = None)"
  using assms by (rule authenticate_Inr) (force simp: token_is_active_def dest: find_SomeD)

theorem bearer_sound_witness:
  "\<exists>p t q. authenticate sample_env sample_tokens 9 0 sample_pat (V4 7) sample_scope token_db = (Inr p, t) \<and>
     q \<in> set (db_users token_db) \<and> into_user q = Inr (bp_user p) \<and> ur_disabled_at q = None"
proof -
  obtain p t where run: "authenticate sample_env sample_tokens 9 0 sample_pat (V4 7) sample_scope token_db = (Inr p, t)"
    using sample_authenticates by blast
  from bearer_sound [OF run] show ?thesis using run by blast
qed

text \<open>
  C22: the credential that creating a token shows is accepted from then on, until it expires, for an admitted
  address and a granted scope, while the account is not disabled.
\<close>

theorem created_token_authenticates:
  assumes "create_token env svc i bytes now actor input s = (Inr x, t)" and "tokens_wf svc s" and "length bytes = 15"
    and "f64_contract (tks_round svc)" and "tks_burst svc \<noteq> 0" and "db_buckets s i = None"
    and "env_fault env' = (\<lambda>_. None)" and "later < cat_expires_at input"
    and "sc \<in> set (tm_scopes (crt_metadata x))"
    and "tm_cidr_allowlist (crt_metadata x) = [] \<or> (\<exists>c \<in> set (tm_cidr_allowlist (crt_metadata x)). cidr_contains (tks_lib svc) c peer)"
    and "find (\<lambda>q. ur_id q = cat_user_id input) (db_users s) = Some q" and "into_user q = Inr u" and "\<not> user_is_disabled u"
  shows "\<exists>t'. authenticate env' svc later inst (crt_plaintext_token x) peer sc t = (Inr \<lparr>bp_user = u, bp_token_id = i\<rparr>, t')"
  using assms by (rule created_token_opens)

theorem created_token_authenticates_witness:
  "\<exists>t'. authenticate sample_env sample_tokens 9 0 sample_pat (V4 7) sample_scope token_db = (Inr \<lparr>bp_user = bob_user, bp_token_id = 80\<rparr>, t')"
  using created_token_authenticates [OF sample_token_created sample_panel_wf(6), of sample_env 9 sample_scope "V4 7" bob_row bob_user 0]
    sample_token_contracts(4) by (simp add: sample_bearer sample_pat_def)

text \<open>
  C23: a revoked token is refused from then on: whatever the time, the address and the scope, the credential with its
  hash opens nothing.
\<close>

theorem revoked_token_refused:
  assumes "revoke_token env svc now actor u i s = (Inr (), t)" and "tokens_wf svc s"
    and "find (token_at i u) (db_api_tokens s) = Some r" and "credential_parse (tks_lib svc) plaintext = Inr c"
    and "credential_hash (tks_lib svc) (tks_pepper svc) c = tkr_hash r"
  shows "\<exists>e. fst (authenticate env' svc later inst plaintext peer sc t) = Inl e"
proof -
  obtain r' where "find (\<lambda>y. tkr_hash y = tkr_hash r) (db_api_tokens t) = Some r'" "tkr_revoked_at r' = Some now"
    using revoked_is_found_revoked [OF assms(1-3)] by blast
  then show ?thesis
    using revoked_token_denied [OF _ _ assms(4,5)] assms(2) by (simp add: tokens_wf_def tokens_ok_def)
qed

theorem revoked_token_refused_witness:
  "\<exists>t e. revoke_token sample_env sample_tokens 7 bob_user 2 80 token_db = (Inr (), t) \<and>
     fst (authenticate sample_env sample_tokens 9 0 sample_pat (V4 7) sample_scope t) = Inl e"
proof -
  let ?run = "revoke_token sample_env sample_tokens 7 bob_user 2 80 token_db"
  have "\<not> isl (fst ?run)" by code_simp
  then obtain t where run: "?run = (Inr (), t)" using ran [of ?run] by auto
  obtain r c where "find (token_at 80 2) (db_api_tokens token_db) = Some r"
    "credential_parse (tks_lib sample_tokens) sample_pat = Inr c"
    "credential_hash (tks_lib sample_tokens) (tks_pepper sample_tokens) c = tkr_hash r"
    using sample_token_row by blast
  then show ?thesis using revoked_token_refused [OF run token_db_wf] run by blast
qed

text \<open>
  C24: a revocation that falls between the lookup of a request and the record of its use is lost: the record writes the
  whole token back as it was read, and the credential is accepted again.
\<close>

theorem lost_revocation:
  assumes "bearer_token env svc plaintext s = (Inr k, s1)" and "at_revoked_at k = None" and "tokens_wf svc s"
    and "revoke_token env svc now actor (at_user_id k) (at_id k) s1 = (Inr (), t)"
    and "tokens_update env (tks_json svc) (token_mark_used used k) t = (Inr (), u)" and "env_fault env (db_tick u) = None"
  shows "bearer_token env svc plaintext u = (Inr (token_mark_used used k), tick u) \<and> at_revoked_at (token_mark_used used k) = None"
  using stale_use_restores [OF assms] assms(2) by (simp add: token_mark_used_def)

theorem lost_revocation_witness:
  "\<exists>k s1 t u. bearer_token sample_env sample_tokens sample_pat token_db = (Inr k, s1) \<and>
     revoke_token sample_env sample_tokens 7 bob_user (at_user_id k) (at_id k) s1 = (Inr (), t) \<and>
     tokens_update sample_env (tks_json sample_tokens) (token_mark_used 9 k) t = (Inr (), u) \<and>
     bearer_token sample_env sample_tokens sample_pat u = (Inr (token_mark_used 9 k), tick u)"
proof -
  let ?r1 = "bearer_token sample_env sample_tokens sample_pat token_db"
  have "\<not> isl (fst ?r1)" "case fst ?r1 of Inr k \<Rightarrow> at_revoked_at k = None | Inl _ \<Rightarrow> False" by code_simp+
  then obtain k s1 where r1: "?r1 = (Inr k, s1)" "at_revoked_at k = None" using ran [of ?r1] by auto
  let ?r2 = "revoke_token sample_env sample_tokens 7 bob_user (at_user_id k) (at_id k) s1"
  have "case ?r1 of (Inr k, s1) \<Rightarrow> \<not> isl (fst (revoke_token sample_env sample_tokens 7 bob_user (at_user_id k) (at_id k) s1)) | _ \<Rightarrow> False"
    by code_simp
  then obtain t where r2: "?r2 = (Inr (), t)" using r1 ran [of ?r2] by auto
  let ?r3 = "tokens_update sample_env (tks_json sample_tokens) (token_mark_used 9 k) t"
  have "case ?r1 of (Inr k, s1) \<Rightarrow>
      (case revoke_token sample_env sample_tokens 7 bob_user (at_user_id k) (at_id k) s1 of
         (Inr _, t) \<Rightarrow> \<not> isl (fst (tokens_update sample_env (tks_json sample_tokens) (token_mark_used 9 k) t)) | _ \<Rightarrow> False) | _ \<Rightarrow> False"
    by code_simp
  then obtain u where r3: "?r3 = (Inr (), u)" using r1 r2 ran [of ?r3] by auto
  show ?thesis
    using lost_revocation [OF r1 token_db_wf r2 r3] r1 r2 r3 by (auto simp: sample_bearer)
qed

text \<open>
  Rotating an active token revokes it and stores one new token for the same account with the same label,
  scopes, networks and expiry.
\<close>

theorem rotate_keeps_policy:
  assumes "rotate_token env svc new_id bytes now actor u i s = (Inr x, t)" and "tokens_wf svc s"
  shows "\<exists>r k. find (token_at i u) (db_api_tokens s) = Some r \<and> into_token (tks_lib svc) (tks_json svc) r = Inr k \<and>
    token_is_active k now \<and> tm_id (crt_metadata x) = new_id \<and> tm_user_id (crt_metadata x) = u \<and>
    tm_label (crt_metadata x) = at_label k \<and> tm_scopes (crt_metadata x) = at_scopes k \<and>
    tm_cidr_allowlist (crt_metadata x) = at_cidr_allowlist k \<and> tm_expires_at (crt_metadata x) = at_expires_at k \<and>
    (\<forall>q \<in> set (db_api_tokens t). token_at i u q \<longrightarrow> tkr_revoked_at q = Some now) \<and>
    length (db_api_tokens t) = Suc (length (db_api_tokens s))"
  using assms(1)
proof (rule rotate_token_Inr)
  fix r k new row
  assume r: "find (token_at i u) (db_api_tokens s) = Some r" "into_token (tks_lib svc) (tks_json svc) r = Inr k" "token_is_active k now"
    and new: "token_new new_id (at_user_id k) (at_label k)
         (credential_hash (tks_lib svc) (tks_pepper svc) (credential_generate (tks_lib svc) bytes)) (at_scopes k)
         (at_cidr_allowlist k) (at_expires_at k) now = Inr new"
    and row: "token_to_row (tks_json svc) new = Inr row"
    and free: "\<not> list_ex (\<lambda>r. tkr_id r = at_id new \<or> tkr_hash r = at_hash new) (db_api_tokens s)"
    and t: "db_api_tokens t = update_where (token_at (at_id k) (at_user_id k)) (\<lambda>r. r\<lparr>tkr_revoked_at := Some now\<rparr>)
      (db_api_tokens s) @ [row]"
    and x: "x = created_token new (credential_generate (tks_lib svc) bytes)"
  have "ip_contract (tks_lib svc)" using assms(2) by (simp add: tokens_wf_def tokens_ok_def)
  note k = into_token_wf [OF this r(2)]
  have at: "tkr_id r = i" "tkr_user_id r = u" "r \<in> set (db_api_tokens s)" using find_SomeD [OF r(1)] by (auto simp: token_at_def)
  have f: "at_id new = new_id" "at_user_id new = u" "at_label new = at_label k" "at_scopes new = at_scopes k"
    "at_cidr_allowlist new = at_cidr_allowlist k" "at_expires_at new = at_expires_at k"
    using new k(1,3) at(2) by (auto simp: token_new_def token_restore_def token_wf_def split: if_splits)
  have "new_id \<noteq> i" using free at f(1) by (auto simp: list_ex_iff)
  then have "tkr_revoked_at q = Some now" if "q \<in> set (db_api_tokens t)" "token_at i u q" for q
    using that token_to_row_fields [OF row] f(1) k(2,3) at(1,2) by (auto simp: t token_at_def elim!: update_where_cases)
  then show ?thesis using r f by (simp add: x created_token_def token_metadata_def t)
qed

text \<open>
  C25: however the rounding of the floating-point counter falls, the requests of one token that the limiter lets through
  in a period are at most the burst, the rate times the length of the period up to a factor of \<open>1 + 2^-50\<close>, and a millionth
  of the number of requests.
\<close>

theorem token_rate_bounded:
  assumes "f64_contract (tks_round svc)" and "sorted (i # is)" and "last (i # is) - i < 10 ^ 9 * 2 ^ 64"
  shows "of_nat (grants svc (i # is) None) \<le>
    of_nat (unat (tks_burst svc)) +
    (1 + 1 / 2 ^ 50) * (of_nat (unat (tks_per_minute svc)) / 60) * (of_nat (last (i # is) - i) / 10 ^ 9) +
    (of_nat (length (i # is)) / 2 ^ 20 :: rat)"
  using grants_fresh_bound [OF assms] unfolding allowance_def f64_of_u32_def .

theorem token_rate_bounded_witness:
  "grants sample_tokens [0, 0, 0, 0] None \<le> 2"
proof -
  have "of_nat (grants sample_tokens [0, 0, 0, 0] None) \<le> 2 + (4 / 2 ^ 20 :: rat)"
    using token_rate_bounded [of sample_tokens 0 "[0, 0, 0]"] sample_token_contracts(4) by (simp add: sample_tokens_def)
  also have "\<dots> < of_nat 3" by simp
  finally show ?thesis by (simp only: of_nat_less_iff)
qed

section \<open>Collaborators\<close>

text \<open>
  C26: an invitation takes effect before it is accepted: the collaborator it returns is not active, and the resolver already
  grants exactly the permissions of the invitation.
\<close>

theorem invitation_acts_at_once:
  assumes "invite env i now account req actor s = (Inr co, t)" and "env_fault env (db_tick t) = None"
  shows "\<not> collaborator_is_active co \<and> ps_bits (ir_permissions req) \<noteq> 0 \<and>
    grants_allow env i (ir_site_id req) p t = (Inr (ps_contains (ir_permissions req) p), tick t)"
  using invited_may_act [OF assms] invite_Inr(3,4) [OF assms(1)]
  by (simp add: collaborator_is_active_def ps_contains_iff)

theorem invitation_acts_at_once_witness:
  "\<exists>co t. invite sample_env 85 5 1 sample_invite ''alice'' sample_db = (Inr co, t) \<and> \<not> collaborator_is_active co \<and>
     grants_allow sample_env 85 3 PermFile t = (Inr True, tick t)"
proof -
  let ?run = "invite sample_env 85 5 1 sample_invite ''alice'' sample_db"
  have "\<not> isl (fst ?run)" by code_simp
  then obtain co t where run: "?run = (Inr co, t)" using ran [of ?run] by auto
  moreover have "ps_contains (ir_permissions sample_invite) PermFile" "ir_site_id sample_invite = 3" by code_simp+
  ultimately show ?thesis using invitation_acts_at_once [OF run, of PermFile] by (auto simp: sample_bearer)
qed



section \<open>Scheduled jobs\<close>



text \<open>
  C29: a tick that ends without an error leaves no job due at its time, and reports the number of the jobs that were:
  each due job is advanced past the tick, whatever came of its run.
\<close>

theorem tick_leaves_no_job_due:
  assumes "cron_tick env svc w d now retention s = (Inr n, t)" and "cron_lib_contract (crs_lib svc)" and "cron_wf svc s"
  shows "n = length (filter (due_row svc now) (db_cron_jobs s)) \<and> (\<forall>row \<in> set (db_cron_jobs t). \<not> due_row svc now row)"
  using cron_tick_advances [OF assms] by blast

theorem tick_leaves_no_job_due_witness:
  "\<exists>t. cron_tick sample_env sample_cron sample_world sample_draw 5 30 scheduled_db = (Inr 1, t) \<and>
     (\<forall>row \<in> set (db_cron_jobs t). \<not> due_row sample_cron 5 row)"
proof -
  let ?run = "cron_tick sample_env sample_cron sample_world sample_draw 5 30 scheduled_db"
  have "fst ?run = Inr 1" by code_simp
  then obtain t where run: "?run = (Inr 1, t)" by (cases ?run) auto
  have "cron_lib_contract (crs_lib sample_cron)" using sample_cron_contracts(2) by (simp add: sample_cron_def)
  from tick_leaves_no_job_due [OF run this scheduled_db_wf] show ?thesis using run by blast
qed





section \<open>Notifications\<close>



text \<open>
  C33: a tick of the dispatcher turns a delivery into a success only if its event, its subscription and its
  channel are stored, subscription and channel are enabled, the destination passed the allow-list of the channel,
  the stored credential decrypted, for a webhook the payload is the one that was announced by its digest, and the
  other side accepted the message.
\<close>

theorem delivery_success_sound:
  assumes "dispatch_once env svc w now limit s = (res, t)" and "notif_wf svc s"
    and "r \<in> set (db_deliveries t)" and "dlr_status r = ''terminal_success''" and "r \<notin> set (db_deliveries s)"
  shows "\<exists>d e x c. delivery_keys d = row_keys r \<and> found_event svc s (dlr_event_id r) e \<and>
    found_subscription svc s (dlr_subscription_id r) x \<and> found_channel svc s (dlr_channel_id r) c \<and>
    channel_is_enabled c \<and> sub_enabled x \<and> ensure_destination svc w (dlr_id r) c (sub_destination x) = Inr () \<and>
    accepted env svc w d e x c"
proof -
  have "distinct (map dlr_id (db_deliveries s))" using assms(2) by (simp add: notif_wf_def deliveries_ok_def)
  from successes_dispatch [OF this, of env svc w now limit] obtain d where d: "delivery_keys d = row_keys r" "justified env svc w s d"
    using assms(1,3-5) by (auto simp: successes_justified_def)
  have "dl_event_id d = dlr_event_id r" "dl_subscription_id d = dlr_subscription_id r" "dl_channel_id d = dlr_channel_id r"
    "dl_id d = dlr_id r" using d(1) by (simp_all add: delivery_keys_def row_keys_def)
  with d(2) obtain e x c where "found_event svc s (dlr_event_id r) e" "found_subscription svc s (dlr_subscription_id r) x"
      "found_channel svc s (dlr_channel_id r) c" "channel_is_enabled c" "sub_enabled x"
      "ensure_destination svc w (dlr_id r) c (sub_destination x) = Inr ()" "accepted env svc w d e x c"
    by (auto simp: justified_def)
  with d(1) show ?thesis by (intro exI [of _ d] exI [of _ e] exI [of _ x] exI [of _ c] conjI)
qed

theorem delivery_success_sound_witness:
  "\<exists>t r x c. dispatch_once sample_env sample_notifications sample_network 5 100 (notify_db good_credential) = (Inr 1, t) \<and>
     r \<in> set (db_deliveries t) \<and> found_subscription sample_notifications (notify_db good_credential) (dlr_subscription_id r) x \<and>
     found_channel sample_notifications (notify_db good_credential) (dlr_channel_id r) c \<and> channel_is_enabled c \<and> sub_enabled x"
proof -
  obtain t where both: "dispatch_once sample_env sample_notifications sample_network 5 100 (notify_db good_credential) = (Inr 1, t) \<and>
      map dlr_status (db_deliveries t) = [''terminal_success'']"
    using sample_dispatched by (rule exE)
  note run = conjunct1 [OF both]
  obtain r where "db_deliveries t = [r]" "dlr_status r = ''terminal_success''"
    using conjunct2 [OF both] by (auto simp: map_eq_Cons_conv)
  then have r: "r \<in> set (db_deliveries t)" "dlr_status r = ''terminal_success''" by simp_all
  have new: "r \<notin> set (db_deliveries (notify_db good_credential))"
    using r(2) by (auto simp: notify_db_def sample_delivery_def delivery_pending_def delivery_to_row_def status_name_def)
  show ?thesis
    using delivery_success_sound [OF run notify_db_wf(1) r new] run r(1) by blast
qed



text \<open>
  C35: a channel whose stored credential no longer decrypts, as after a change of the master key, stops the
  dispatcher: the tick ends with an error at its first delivery, and every delivery of the batch, of other channels
  too, stays as it was leased, with no failure counted, to be leased again in the same order when the lease has
  expired.
\<close>

theorem stuck_delivery_stops_batch:
  assumes "lease_due env now limit (seconds 30) s = (Inr (d # ds), u)" and "env_fault env = (\<lambda>_. None)"
    and "found_event svc u (dl_event_id d) e" and "found_subscription svc u (dl_subscription_id d) x"
    and "found_channel svc u (dl_channel_id d) c" and "channel_is_enabled c" and "sub_enabled x"
    and "ensure_destination svc w (dl_id d) c (sub_destination x) = Inr ()" and "db_channel_calls u (ch_id c) = []"
    and "0 < ns_calls_per_minute svc"
    and "decrypt_from_storage (ns_crypto svc) (ns_master_key svc) (channel_credential c) = Inl err"
  shows "\<exists>t. dispatch_once env svc w now limit s = (Inl (NotifInternal (secret_error_display err)), t) \<and>
    db_deliveries t = db_deliveries u"
  using stuck_batch [OF assms(2-8) _ assms(11), of now ds] assms(1,9,10)
  by (auto simp: dispatch_once_def notif_db_def st_simps)

theorem stuck_delivery_stops_batch_witness:
  "\<exists>t e. dispatch_once sample_env sample_notifications sample_network 5 100 (notify_db ''broken'') = (Inl e, t) \<and>
     db_deliveries t = db_deliveries (leased_db ''broken'')"
proof -
  have env: "env_fault sample_env = (\<lambda>_. None)" by (simp add: sample_env_def)
  have keys: "dl_event_id sample_leased = 72" "dl_subscription_id sample_leased = 71" "dl_channel_id sample_leased = 70"
    by (simp_all add: sample_leased_def sample_delivery_def delivery_pending_def)
  note found = sample_found [of "''broken''", folded keys, OF disjI2 [OF refl]]
  have "channel_is_enabled (sample_channel ''broken'')" "sub_enabled sample_subscription"
    "ensure_destination sample_notifications sample_network (dl_id sample_leased) (sample_channel ''broken'')
      (sub_destination sample_subscription) = Inr ()"
    "db_channel_calls (leased_db ''broken'') (ch_id (sample_channel ''broken'')) = []" "0 < ns_calls_per_minute sample_notifications"
    "decrypt_from_storage (ns_crypto sample_notifications) (ns_master_key sample_notifications)
      (channel_credential (sample_channel ''broken'')) = Inl (Decryption ''missing `:` separator'')"
    by code_simp+
  from stuck_delivery_stops_batch [OF sample_lease(2) env found this] show ?thesis by blast
qed



section \<open>The audit log\<close>





text \<open>
  C39: what redaction returns has no value under a secret key and no string that looks like a secret, at
  any depth, and redacting it again changes nothing.
\<close>

theorem redaction_removes_secrets:
  "secret_free (redact_metadata v) \<and> redact_metadata (redact_metadata v) = redact_metadata v"
  using redact_secret_free(1) redact_fixed(1) by blast

section \<open>Remembered devices\<close>

text \<open>
  C40: a remember-device cookie is honoured only when its second part is the keyed hash of its first under
  the panel's key, and what the first part says is current: the version, an expiry that lies ahead, and the
  browser and network of the request.
\<close>

theorem remember_device_sound:
  assumes "validate_remember_device cr js key cookie ua ip now = Inr p" and "hmac_contract cr"
  shows "(\<exists>pb tb bytes. cookie = pb @ ''.'' @ tb \<and> b64_dec cr pb = Some bytes \<and>
      b64_dec cr tb = Some (hmac_sha256 cr (derive_signing_key cr key) bytes) \<and> payload_from_slice js bytes = Some p) \<and>
    rd_v p = REMEMBER_DEVICE_VERSION \<and> now < rd_exp p \<and> rd_ua_hash p = sha256_hex cr ua \<and>
    rd_ip_prefix p = ip_prefix cr ip"
  using validate_remember_device_Inr [OF assms] by blast

theorem remember_device_sound_witness:
  "\<exists>p. validate_remember_device sample_crypto sample_payload_json [7] (issue_remember_device_with_lifetime sample_crypto
       sample_payload_json [7] 2 30 ''ua'' ''ip'' 0 9 4) ''ua'' ''ip'' 5 = Inr p \<and> 5 < rd_exp p"
proof -
  obtain p where p: "validate_remember_device sample_crypto sample_payload_json [7] (issue_remember_device_with_lifetime
      sample_crypto sample_payload_json [7] 2 30 ''ua'' ''ip'' 0 9 4) ''ua'' ''ip'' 5 = Inr p"
    using remember_device_roundtrip [OF sample_contracts(2,4) sample_payload_contract, of 5 0 9 "[7]" 2 30 "''ua''" "''ip''" 4]
    by auto
  then show ?thesis using remember_device_sound [OF p sample_contracts(4)] by blast
qed

end
